(* ===== verification/Prelude.thy ===== *)
theory Prelude
  imports Complex_Main "HOL-Library.AList" "HOL-Library.Char_ord" "HOL-Library.List_Lexorder"
begin

text \<open>
  Shared ground of the development: the Python values the gate code handles, and the generic
  lemmas the component theories rest on.

  \<^item> Text is \<open>string\<close>, a list of characters with code points 0 to 255. Python's
    code points above 255 are outside the model. The order on strings is lexicographic by code
    point (\<open>Char_ord\<close>, \<open>List_Lexorder\<close>), which is Python's order on \<open>str\<close>.
  \<^item> A monotonic clock reads a rational number of seconds (\<open>seconds\<close>); rounding of Python
    floats is not modelled. A \<open>datetime\<close> is an integer number of microseconds
    since the epoch, which is its resolution.
  \<^item> A Python \<open>dict\<close> is an association list in insertion order (\<open>dict\<close>): storing under
    a present key keeps its place, storing under a new key appends.
  \<^item> An exception is the left half of a sum.
\<close>

named_theorems dict_simps \<open>lookups and key sets of Python dictionaries\<close>
named_theorems text_simps \<open>facts about stripping, splitting and joining text\<close>
named_theorems keeps \<open>an operation keeps the invariant of its component\<close>

type_synonym seconds = rat
type_synonym microseconds = int
type_synonym digest = string


section \<open>Dictionaries\<close>

type_synonym ('k, 'v) dict = "('k \<times> 'v) list"

definition dict_get :: "('k, 'v) dict \<Rightarrow> 'k \<Rightarrow> 'v option" where
  "dict_get d k = map_of d k"

definition dict_set :: "'k \<Rightarrow> 'v \<Rightarrow> ('k, 'v) dict \<Rightarrow> ('k, 'v) dict" where
  "dict_set k v d = AList.update k v d"

definition dict_del :: "'k \<Rightarrow> ('k, 'v) dict \<Rightarrow> ('k, 'v) dict" where
  "dict_del k d = AList.delete k d"

definition dict_keys :: "('k, 'v) dict \<Rightarrow> 'k list" where
  "dict_keys d = map fst d"

definition dict_values :: "('k, 'v) dict \<Rightarrow> 'v list" where
  "dict_values d = map snd d"

definition dict_setdefault :: "'k \<Rightarrow> 'v \<Rightarrow> ('k, 'v) dict \<Rightarrow> ('k, 'v) dict" where
  "dict_setdefault k v d = (if dict_get d k = None then dict_set k v d else d)"

definition dict_ok :: "('k, 'v) dict \<Rightarrow> bool" where
  "dict_ok d \<longleftrightarrow> distinct (dict_keys d)"

lemma dict_get_empty [simp, dict_simps]: "dict_get [] k = None"
  by (simp add: dict_get_def)

lemma dict_get_set [simp, dict_simps]:
  "dict_get (dict_set k v d) j = (if j = k then Some v else dict_get d j)"
  by (simp add: dict_get_def dict_set_def update_conv')

lemma dict_get_del [simp, dict_simps]:
  "dict_get (dict_del k d) j = (if j = k then None else dict_get d j)"
  by (simp add: dict_get_def dict_del_def delete_conv')

lemma dict_get_setdefault [simp, dict_simps]:
  "dict_get (dict_setdefault k v d) j =
     (if j = k \<and> dict_get d k = None then Some v else dict_get d j)"
  by (simp add: dict_setdefault_def)

lemma dict_ok_empty [simp, intro]: "dict_ok []"
  by (simp add: dict_ok_def dict_keys_def)

lemma dict_ok_set [simp, intro]: "dict_ok d \<Longrightarrow> dict_ok (dict_set k v d)"
  by (simp add: dict_ok_def dict_keys_def dict_set_def distinct_update)

lemma dict_ok_del [simp, intro]: "dict_ok d \<Longrightarrow> dict_ok (dict_del k d)"
  by (simp add: dict_ok_def dict_keys_def dict_del_def distinct_delete)

lemma dict_ok_setdefault [simp, intro]: "dict_ok d \<Longrightarrow> dict_ok (dict_setdefault k v d)"
  by (simp add: dict_setdefault_def)

lemma dict_ok_filter [simp, intro]: "dict_ok d \<Longrightarrow> dict_ok (filter P d)"
  by (simp add: dict_ok_def dict_keys_def distinct_map_filter)

lemma dict_get_mem:
  "dict_ok d \<Longrightarrow> (k, v) \<in> set d \<longleftrightarrow> dict_get d k = Some v"
  by (auto simp: dict_ok_def dict_keys_def dict_get_def)

lemma dict_get_SomeD: "dict_get d k = Some v \<Longrightarrow> (k, v) \<in> set d"
  by (simp add: dict_get_def map_of_SomeD)

lemma dict_get_filter [dict_simps]:
  assumes "dict_ok d"
  shows "dict_get (filter P d) k =
    (case dict_get d k of None \<Rightarrow> None | Some v \<Rightarrow> if P (k, v) then Some v else None)"
  using assms
  by (induction d)
    (auto simp: dict_ok_def dict_keys_def dict_get_def map_of_eq_None_iff split: option.splits)

lemma dict_get_None_keys: "dict_get d k = None \<longleftrightarrow> k \<notin> set (dict_keys d)"
  by (simp add: dict_get_def dict_keys_def map_of_eq_None_iff)

lemma dict_keys_set [dict_simps]:
  "set (dict_keys (dict_set k v d)) = insert k (set (dict_keys d))"
  by (simp add: dict_keys_def dict_set_def dom_update)

lemma dict_keys_del [dict_simps]:
  "set (dict_keys (dict_del k d)) = set (dict_keys d) - {k}"
  by (simp add: dict_keys_def dict_del_def delete_keys)

lemma dict_set_values: "p \<in> set (dict_set k v d) \<Longrightarrow> p = (k, v) \<or> p \<in> set d"
  by (induction d) (auto simp: dict_set_def split: if_splits)


section \<open>Exceptions\<close>

text \<open>The Python exceptions the modelled code raises or catches.\<close>

datatype py_exn = ValueError | KeyError | TypeError | OSError


section \<open>Text\<close>

lemma char_code_eq:
  "char_of (n :: nat) = c \<longleftrightarrow> take_bit 8 n = of_char c"
  "c = char_of (n :: nat) \<longleftrightarrow> take_bit 8 n = of_char c"
  by (metis char_of_eq_iff)+

text \<open>\<open>str.isspace\<close> on one character, for code points below 256.\<close>

definition is_space :: "char \<Rightarrow> bool" where
  "is_space c \<longleftrightarrow> (let n = (of_char c :: nat) in
     (9 \<le> n \<and> n \<le> 13) \<or> (28 \<le> n \<and> n \<le> 32) \<or> n = 133 \<or> n = 160)"

definition lstrip :: "string \<Rightarrow> string" where
  "lstrip s = dropWhile is_space s"

definition rstrip :: "string \<Rightarrow> string" where
  "rstrip s = rev (dropWhile is_space (rev s))"

text \<open>\<open>str.strip()\<close>\<close>

definition strip :: "string \<Rightarrow> string" where
  "strip s = rstrip (lstrip s)"

lemma strip_blank_iff: "strip s = [] \<longleftrightarrow> list_all is_space s"
proof -
  have "rstrip t = [] \<longleftrightarrow> list_all is_space t" for t
    by (simp add: rstrip_def list_all_iff)
  moreover have "list_all is_space (lstrip s) \<longleftrightarrow> list_all is_space s"
    by (induction s) (auto simp: lstrip_def)
  ultimately show ?thesis by (simp add: strip_def)
qed

text \<open>\<open>s.startswith(p)\<close>\<close>

definition starts_with :: "'a list \<Rightarrow> 'a list \<Rightarrow> bool" where
  "starts_with p s \<longleftrightarrow> take (length p) s = p"

text \<open>\<open>s.split(c)\<close> for a separator of one character, and \<open>sep.join(xs)\<close>.\<close>

fun split_on :: "char \<Rightarrow> string \<Rightarrow> string list" where
  "split_on c [] = [[]]"
| "split_on c (x # xs) =
     (if x = c then [] # split_on c xs
      else (case split_on c xs of [] \<Rightarrow> [[x]] | y # ys \<Rightarrow> (x # y) # ys))"

fun join_with :: "string \<Rightarrow> string list \<Rightarrow> string" where
  "join_with sep [] = []"
| "join_with sep [x] = x"
| "join_with sep (x # y # ys) = x @ sep @ join_with sep (y # ys)"

text \<open>\<open>str.splitlines()\<close> for code points below 256.\<close>

definition line_break :: "char \<Rightarrow> bool" where
  "line_break c \<longleftrightarrow> (let n = (of_char c :: nat) in
     (10 \<le> n \<and> n \<le> 13) \<or> (28 \<le> n \<and> n \<le> 30) \<or> n = 133)"

fun splitlines :: "string \<Rightarrow> string list" where
  "splitlines [] = []"
| "splitlines [c] = (if line_break c then [[]] else [[c]])"
| "splitlines (c # d # cs) =
     (if line_break c
      then (if c = CHR 0x0D \<and> d = CHR 0x0A then [] # splitlines cs else [] # splitlines (d # cs))
      else (case splitlines (d # cs) of [] \<Rightarrow> [[c]] | l # ls \<Rightarrow> (c # l) # ls))"

text \<open>\<open>str(n)\<close> for a natural number.\<close>

fun nat_str :: "nat \<Rightarrow> string" where
  "nat_str n =
     (if n < 10 then [char_of (48 + n)] else nat_str (n div 10) @ [char_of (48 + n mod 10)])"

declare nat_str.simps [simp del]

definition digit_char :: "char \<Rightarrow> bool" where
  "digit_char c \<longleftrightarrow> (let n = (of_char c :: nat) in 48 \<le> n \<and> n \<le> 57)"

text \<open>
  \<open>int(s)\<close> of a text: digits with single underscores between them, a sign, blanks around; at most
  4300 digits. \<open>None\<close> for the \<open>ValueError\<close>.
\<close>

definition digits_value :: "string \<Rightarrow> nat" where
  "digits_value s = foldl (\<lambda>n c. 10 * n + (of_char c - 48)) 0 s"

definition py_int :: "string \<Rightarrow> int option" where
  "py_int s =
     (let t = strip s;
          signed = (t \<noteq> [] \<and> (hd t = CHR ''-'' \<or> hd t = CHR ''+''));
          groups = split_on (CHR ''_'') (if signed then tl t else t)
      in if list_ex (\<lambda>g. g = [] \<or> \<not> list_all digit_char g) groups \<or> 4300 < length (concat groups)
         then None
         else Some ((if signed \<and> hd t = CHR ''-'' then - 1 else 1) * int (digits_value (concat groups))))"

lemma dropWhile_rev_hd:
  "xs = [] \<or> \<not> P (hd xs) \<Longrightarrow>
   rev (dropWhile P (rev xs)) = [] \<or> \<not> P (hd (rev (dropWhile P (rev xs))))"
proof (induction xs rule: rev_induct)
  case (snoc x xs)
  then show ?case by (cases xs) auto
qed simp

lemma strip_head: "strip s = [] \<or> \<not> is_space (hd (strip s))"
  unfolding strip_def rstrip_def lstrip_def
  by (rule dropWhile_rev_hd) (metis hd_dropWhile)

lemma lstrip_strip [simp, text_simps]: "lstrip (strip s) = strip s"
  using strip_head [of s] by (cases "strip s") (auto simp: lstrip_def)

lemma rstrip_rstrip [simp, text_simps]: "rstrip (rstrip s) = rstrip s"
  by (simp add: rstrip_def dropWhile_idem)

lemma strip_strip [simp, text_simps]: "strip (strip s) = strip s"
  by (metis lstrip_strip rstrip_rstrip strip_def)

lemma strip_Nil [simp, text_simps]: "strip [] = []"
  by (simp add: strip_def rstrip_def lstrip_def)

lemma split_on_nonempty [simp]: "split_on c s \<noteq> []"
  by (induction s) (auto split: list.splits)

lemma join_split [simp, text_simps]: "join_with [c] (split_on c s) = s"
proof (induction s)
  case (Cons x xs)
  then show ?case
    by (cases "split_on c xs" rule: list.exhaust; cases "tl (split_on c xs)")
       (auto split: list.splits)
qed simp

lemma split_on_append:
  "c \<notin> set x \<Longrightarrow> split_on c (x @ c # s) = x # split_on c s"
  by (induction x) auto

lemma split_on_none: "c \<notin> set x \<Longrightarrow> split_on c x = [x]"
  by (induction x) auto

lemma split_join [text_simps]:
  "xs \<noteq> [] \<Longrightarrow> \<forall>x \<in> set xs. c \<notin> set x \<Longrightarrow> split_on c (join_with [c] xs) = xs"
  by (induction "[c]" xs rule: join_with.induct) (auto simp: split_on_append split_on_none)

lemma split_on_parts: "\<forall>x \<in> set (split_on c s). c \<notin> set x"
  by (induction s) (auto split: list.splits)

text \<open>\<open>s.split()\<close>\<close>

definition split_words :: "string \<Rightarrow> string list" where
  "split_words s = filter (\<lambda>w. w \<noteq> []) (split_on (CHR '' '') (map (\<lambda>c. if is_space c then CHR '' '' else c) s))"

lemma starts_with_append [simp, text_simps]: "starts_with p (p @ s)"
  by (simp add: starts_with_def)

lemma starts_with_conv: "starts_with p s \<longleftrightarrow> (\<exists>r. s = p @ r)"
  by (metis append_eq_conv_conj append_take_drop_id starts_with_def)


section \<open>Sorted sets of names\<close>

text \<open>\<open>sorted(set(xs))\<close>\<close>

definition sorted_set :: "'a::linorder list \<Rightarrow> 'a list" where
  "sorted_set xs = sort (remdups xs)"

lemma set_sorted_set [simp]: "set (sorted_set xs) = set xs"
  by (simp add: sorted_set_def)

lemma sorted_set_sorted [simp]: "sorted (sorted_set xs)" "distinct (sorted_set xs)"
  by (simp_all add: sorted_set_def)

lemma sorted_set_eq_iff: "sorted_set xs = sorted_set ys \<longleftrightarrow> set xs = set ys"
  by (metis set_sorted_set sorted_distinct_set_unique sorted_set_sorted)

lemma sorted_set_idem [simp]: "sorted_set (sorted_set xs) = sorted_set xs"
  by (simp add: sorted_set_eq_iff)

lemma sorted_set_empty_iff [simp]: "sorted_set xs = [] \<longleftrightarrow> xs = []"
  by (metis set_empty2 set_sorted_set)


section \<open>Operations, runs and reachable states\<close>

text \<open>
  A component with state is an operation function; a run applies a list of operations, each
  of them one its environment can issue in the state it meets (\<open>enabled\<close>, where a fresh id or
  a clock that does not run backwards is part of the environment). What one operation keeps, a
  run keeps. \<open>op_machine\<close> states the contract; each stateful component interprets it on its own
  operations.
\<close>

fun run_enabled :: "('s \<Rightarrow> 'op \<Rightarrow> 's) \<Rightarrow> ('s \<Rightarrow> 'op \<Rightarrow> bool) \<Rightarrow> 's \<Rightarrow> 'op list \<Rightarrow> bool" where
  "run_enabled ap en s [] = True"
| "run_enabled ap en s (x # xs) = (en s x \<and> run_enabled ap en (ap s x) xs)"

lemma run_enabled_append [simp]:
  "run_enabled ap en s (xs @ ys) \<longleftrightarrow> run_enabled ap en s xs \<and> run_enabled ap en (foldl ap s xs) ys"
  by (induction xs arbitrary: s) auto

lemma run_enabled_always [simp]: "run_enabled ap (\<lambda>_ _. True) s xs"
  by (induction xs arbitrary: s) auto

locale op_machine =
  fixes apply_op :: "'s \<Rightarrow> 'op \<Rightarrow> 's" and enabled :: "'s \<Rightarrow> 'op \<Rightarrow> bool" and invar :: "'s \<Rightarrow> bool"
  assumes op_keeps: "invar s \<Longrightarrow> enabled s x \<Longrightarrow> invar (apply_op s x)"
begin

lemma run_keeps: "invar s \<Longrightarrow> run_enabled apply_op enabled s xs \<Longrightarrow> invar (foldl apply_op s xs)"
  by (induction xs arbitrary: s) (auto intro: op_keeps)

end

text \<open>A fact of the state that no operation undoes: once it holds it holds to the end of the run.\<close>

locale stable_fact = op_machine apply_op enabled invar
  for apply_op :: "'s \<Rightarrow> 'op \<Rightarrow> 's" and enabled :: "'s \<Rightarrow> 'op \<Rightarrow> bool" and invar :: "'s \<Rightarrow> bool" +
  fixes fact :: "'s \<Rightarrow> bool"
  assumes fact_stays: "invar s \<Longrightarrow> enabled s x \<Longrightarrow> fact s \<Longrightarrow> fact (apply_op s x)"
begin

lemma run_fact:
  "invar s \<Longrightarrow> run_enabled apply_op enabled s xs \<Longrightarrow> fact s \<Longrightarrow> fact (foldl apply_op s xs)"
  by (induction xs arbitrary: s) (auto intro: op_keeps fact_stays)

end

text \<open>Nondeterministic systems: the states reachable by a step relation.\<close>

inductive reachable :: "('s \<Rightarrow> bool) \<Rightarrow> ('s \<Rightarrow> 's \<Rightarrow> bool) \<Rightarrow> 's \<Rightarrow> bool"
  for start :: "'s \<Rightarrow> bool" and step :: "'s \<Rightarrow> 's \<Rightarrow> bool" where
  reach_start: "start s \<Longrightarrow> reachable start step s"
| reach_step: "reachable start step s \<Longrightarrow> step s t \<Longrightarrow> reachable start step t"

locale inductive_invariant =
  fixes start :: "'s \<Rightarrow> bool" and step :: "'s \<Rightarrow> 's \<Rightarrow> bool" and invar :: "'s \<Rightarrow> bool"
  assumes start_invar: "start s \<Longrightarrow> invar s"
    and step_invar: "invar s \<Longrightarrow> step s t \<Longrightarrow> invar t"
begin

lemma reachable_invar: "reachable start step s \<Longrightarrow> invar s"
  by (induction rule: reachable.induct) (auto intro: start_invar step_invar)

end

end
