(* ===== verification/Json.thy ===== *)
theory Json
  imports Prelude
begin

text \<open>
  JSON values as \<open>json.loads\<close> returns them, with the Python readings the code applies to them:
  truth of a value, \<open>str()\<close>, \<open>dict.get\<close>. An object keeps its keys in order. The text of
  \<open>str()\<close> on a value that is not text is the parameter \<open>repr\<close>.
\<close>

datatype jval =
    JNull
  | JBool bool
  | JInt int
  | JFloat rat
  | JStr string
  | JList "jval list"
  | JObj "(string \<times> jval) list"

fun truthy :: "jval \<Rightarrow> bool" where
  "truthy JNull = False"
| "truthy (JBool b) = b"
| "truthy (JInt n) = (n \<noteq> 0)"
| "truthy (JFloat r) = (r \<noteq> 0)"
| "truthy (JStr s) = (s \<noteq> [])"
| "truthy (JList xs) = (xs \<noteq> [])"
| "truthy (JObj xs) = (xs \<noteq> [])"

fun str_of :: "(jval \<Rightarrow> string) \<Rightarrow> jval \<Rightarrow> string" where
  "str_of repr (JStr s) = s"
| "str_of repr v = repr v"

text \<open>\<open>data.get(key)\<close>: an absent key reads as \<open>None\<close>, which is \<open>JNull\<close> here.\<close>

definition jget :: "(string \<times> jval) list \<Rightarrow> string \<Rightarrow> jval" where
  "jget kvs k = (case map_of kvs k of None \<Rightarrow> JNull | Some v \<Rightarrow> v)"

text \<open>\<open>str(x) if x else None\<close>\<close>

definition opt_str :: "(jval \<Rightarrow> string) \<Rightarrow> jval \<Rightarrow> string option" where
  "opt_str repr v = (if truthy v then Some (str_of repr v) else None)"

text \<open>\<open>str(v or "")\<close>\<close>

definition str_or_blank :: "(jval \<Rightarrow> string) \<Rightarrow> jval \<Rightarrow> string" where
  "str_or_blank repr v = (if truthy v then str_of repr v else [])"

definition jopt :: "string option \<Rightarrow> jval" where
  "jopt x = (case x of None \<Rightarrow> JNull | Some s \<Rightarrow> JStr s)"

definition jint :: "int option \<Rightarrow> jval" where
  "jint x = (case x of None \<Rightarrow> JNull | Some n \<Rightarrow> JInt n)"

definition jbool :: "bool option \<Rightarrow> jval" where
  "jbool x = (case x of None \<Rightarrow> JNull | Some b \<Rightarrow> JBool b)"

lemma opt_str_jopt [simp]: "x \<noteq> Some [] \<Longrightarrow> opt_str repr (jopt x) = x"
  by (auto simp: opt_str_def jopt_def split: option.splits)

end
