(* ===== verification/Inventory.thy ===== *)
theory Inventory
  imports Json
begin

text \<open>
  The server inventory: \<open>nanoinfra/servers/types.py\<close>, \<open>normalize.py\<close>, \<open>store.py\<close> and
  \<open>lookup.py\<close>. The directory of JSON files is a dictionary from file stem to file content,
  \<open>None\<close> for a file that does not parse to an object; its order is the order in which the
  directory lists its entries. Fresh ids and the clock are arguments of the operations.
\<close>

section \<open>Records\<close>

record server =
  server_id :: string
  server_name :: string
  provider_id :: string
  server_config :: "(string \<times> string) list"
  secret_ref :: "string option"
  server_tags :: "string list"
  created_at :: string
  updated_at :: string
  notes_updated_at :: "string option"

definition to_dict :: "server \<Rightarrow> (string \<times> jval) list" where
  "to_dict s =
     [(''id'', JStr (server_id s)), (''name'', JStr (server_name s)),
      (''providerId'', JStr (provider_id s)),
      (''config'', JObj (map (\<lambda>(k, v). (k, JStr v)) (server_config s))),
      (''secretRef'', jopt (secret_ref s)),
      (''tags'', JList (map JStr (server_tags s))),
      (''createdAt'', JStr (created_at s)), (''updatedAt'', JStr (updated_at s)),
      (''notesUpdatedAt'', jopt (notes_updated_at s))]"

text \<open>
  \<open>{str(k): str(v) for k, v in dict(v or {}).items()}\<close>: an object, or an array of pairs, where
  text of two characters and an object of two keys also unpack as a pair; anything else raises.
  Keys of an array are compared after \<open>str\<close>.
\<close>

fun pair_item :: "(jval \<Rightarrow> string) \<Rightarrow> jval \<Rightarrow> (string \<times> string) option" where
  "pair_item repr (JList [k, v]) =
     (case k of JList _ \<Rightarrow> None | JObj _ \<Rightarrow> None | _ \<Rightarrow> Some (str_of repr k, str_of repr v))"
| "pair_item repr (JStr [a, b]) = Some ([a], [b])"
| "pair_item repr (JObj [(a, _), (b, _)]) = Some (a, b)"
| "pair_item repr _ = None"

definition config_of :: "(jval \<Rightarrow> string) \<Rightarrow> jval \<Rightarrow> (string \<times> string) list option" where
  "config_of repr v =
     (if \<not> truthy v then Some []
      else (case v of JObj kvs \<Rightarrow> Some (map (\<lambda>(k, x). (k, str_of repr x)) kvs)
              | JList xs \<Rightarrow> map_option (foldl (\<lambda>d (k, x). dict_set k x d) []) (those (map (pair_item repr) xs))
              | _ \<Rightarrow> None))"

text \<open>\<open>[str(t) for t in list(v or [])]\<close>: text iterates by character, an object by key.\<close>

definition tags_of :: "(jval \<Rightarrow> string) \<Rightarrow> jval \<Rightarrow> string list option" where
  "tags_of repr v =
     (if \<not> truthy v then Some []
      else (case v of
         JList xs \<Rightarrow> Some (map (str_of repr) xs)
       | JStr s \<Rightarrow> Some (map (\<lambda>c. [c]) s)
       | JObj kvs \<Rightarrow> Some (map fst kvs)
       | _ \<Rightarrow> None))"

text \<open>\<open>Server.from_dict\<close>; \<open>None\<close> for the \<open>KeyError\<close>, \<open>TypeError\<close> or \<open>ValueError\<close> it raises.\<close>

definition from_dict :: "(jval \<Rightarrow> string) \<Rightarrow> (string \<times> jval) list \<Rightarrow> server option" where
  "from_dict repr d =
     (case (map_of d ''id'', map_of d ''name'', map_of d ''providerId'',
            map_of d ''createdAt'', map_of d ''updatedAt'') of
        (Some i, Some n, Some p, Some c, Some u) \<Rightarrow>
          (case (config_of repr (jget d ''config''), tags_of repr (jget d ''tags'')) of
             (Some cfg, Some tgs) \<Rightarrow>
               Some \<lparr>server_id = str_of repr i, server_name = str_of repr n,
                     provider_id = str_of repr p, server_config = cfg,
                     secret_ref = opt_str repr (jget d ''secretRef''), server_tags = tgs,
                     created_at = str_of repr c, updated_at = str_of repr u,
                     notes_updated_at = opt_str repr (jget d ''notesUpdatedAt'')\<rparr>
           | _ \<Rightarrow> None)
      | _ \<Rightarrow> None)"


section \<open>Validation of a payload\<close>

datatype server_error =
    PayloadNotObject | NameRequired | BadProvider string | ConfigNotObject | TagsNotArray
  | NameTaken string

definition VALID_PROVIDERS :: "string list" where
  "VALID_PROVIDERS = [''ssh'', ''ansible-runner'', ''ssm'', ''api'']"

definition MAX_NAME_LENGTH :: nat where "MAX_NAME_LENGTH = 120"

definition normalize_server_input ::
  "(jval \<Rightarrow> string) \<Rightarrow> jval \<Rightarrow> string \<Rightarrow> server_error + server" where
  "normalize_server_input repr raw sid = (case raw of
     JObj p \<Rightarrow>
       (let name = strip (str_or_blank repr (jget p ''name''));
            pid = str_or_blank repr (jget p ''providerId'');
            cfg = jget p ''config'';
            tgs = jget p ''tags''
        in if name = [] then Inl NameRequired
           else if pid \<notin> set VALID_PROVIDERS then Inl (BadProvider pid)
           else (case (if truthy cfg then cfg else JObj []) of
             JObj kvs \<Rightarrow>
               (case (if truthy tgs then tgs else JList []) of
                  JList ts \<Rightarrow>
                    Inr \<lparr>server_id = sid, server_name = take MAX_NAME_LENGTH name,
                         provider_id = pid,
                         server_config = map (\<lambda>(k, v). (k, str_of repr v)) kvs,
                         secret_ref = opt_str repr (jget p ''secretRef''),
                         server_tags = map (str_of repr) ts,
                         created_at = [], updated_at = [], notes_updated_at = None\<rparr>
                | _ \<Rightarrow> Inl TagsNotArray)
           | _ \<Rightarrow> Inl ConfigNotObject))
   | _ \<Rightarrow> Inl PayloadNotObject)"


section \<open>The store\<close>

text \<open>\<open>str.lower()\<close> for code points below 256.\<close>

definition lower_char :: "char \<Rightarrow> char" where
  "lower_char c = (let n = (of_char c :: nat) in
     if (65 \<le> n \<and> n \<le> 90) \<or> (192 \<le> n \<and> n \<le> 222 \<and> n \<noteq> 215) then char_of (n + 32) else c)"

definition lower :: "string \<Rightarrow> string" where
  "lower s = map lower_char s"

definition hex_char :: "char \<Rightarrow> bool" where
  "hex_char c \<longleftrightarrow> c \<in> set ''0123456789abcdef''"

text \<open>
  \<open>re.match("^[0-9a-f]{32}$", s)\<close>. The \<open>$\<close> of Python also matches before one trailing
  newline, so an id followed by a newline passes.
\<close>

definition valid_server_id :: "string \<Rightarrow> bool" where
  "valid_server_id s \<longleftrightarrow>
     (let body = (if s \<noteq> [] \<and> last s = CHR 0x0A then butlast s else s)
      in length body = 32 \<and> list_all hex_char body)"

type_synonym server_files = "(string, (string \<times> jval) list option) dict"

definition store_get :: "(jval \<Rightarrow> string) \<Rightarrow> server_files \<Rightarrow> string \<Rightarrow> server option" where
  "store_get repr fs sid =
     (if \<not> valid_server_id sid then None
      else (case dict_get fs sid of
              Some (Some d) \<Rightarrow> from_dict repr d
            | _ \<Rightarrow> None))"

fun readable :: "(jval \<Rightarrow> string) \<Rightarrow> server_files \<Rightarrow> server list" where
  "readable repr [] = []"
| "readable repr ((k, f) # fs) =
     (case Option.bind f (from_dict repr) of
        None \<Rightarrow> readable repr fs
      | Some s \<Rightarrow> s # readable repr fs)"

text \<open>\<open>summaries.sort(key=updated_at, reverse=True)\<close> is stable.\<close>

definition list_servers :: "(jval \<Rightarrow> string) \<Rightarrow> server_files \<Rightarrow> server list" where
  "list_servers repr fs = rev (sort_key updated_at (rev (readable repr fs)))"

definition check_name_unique ::
  "(jval \<Rightarrow> string) \<Rightarrow> server_files \<Rightarrow> string \<Rightarrow> string option \<Rightarrow> server_error + unit" where
  "check_name_unique repr fs name excl =
     (if \<exists>s \<in> set (list_servers repr fs).
           \<not> (excl \<noteq> None \<and> excl = Some (server_id s)) \<and> lower (server_name s) = lower name
      then Inl (NameTaken name) else Inr ())"

definition store_write :: "server \<Rightarrow> server_files \<Rightarrow> server_files" where
  "store_write s fs = dict_set (server_id s) (Some (to_dict s)) fs"

text \<open>\<open>new_id\<close> is the fresh \<open>uuid4().hex\<close> and \<open>now\<close> the clock.\<close>

definition store_create ::
  "(jval \<Rightarrow> string) \<Rightarrow> string \<Rightarrow> string \<Rightarrow> jval \<Rightarrow> server_files \<Rightarrow>
   server_error + (server \<times> server_files)" where
  "store_create repr new_id now raw fs =
     (case normalize_server_input repr raw new_id of
        Inl e \<Rightarrow> Inl e
      | Inr s \<Rightarrow>
          (case check_name_unique repr fs (server_name s) None of
             Inl e \<Rightarrow> Inl e
           | Inr _ \<Rightarrow>
               (let s' = s\<lparr>created_at := now, updated_at := now\<rparr>
                in Inr (s', store_write s' fs))))"

definition store_update ::
  "(jval \<Rightarrow> string) \<Rightarrow> string \<Rightarrow> string \<Rightarrow> jval \<Rightarrow> server_files \<Rightarrow>
   server_error + (server option \<times> server_files)" where
  "store_update repr sid now raw fs =
     (case store_get repr fs sid of
        None \<Rightarrow> Inr (None, fs)
      | Some existing \<Rightarrow>
          (case normalize_server_input repr raw sid of
             Inl e \<Rightarrow> Inl e
           | Inr s \<Rightarrow>
               (case check_name_unique repr fs (server_name s) (Some sid) of
                  Inl e \<Rightarrow> Inl e
                | Inr _ \<Rightarrow>
                    (let s' = s\<lparr>created_at := created_at existing, updated_at := now,
                                notes_updated_at := notes_updated_at existing\<rparr>
                     in Inr (Some s', store_write s' fs)))))"

definition store_touch_notes :: "string \<Rightarrow> string \<Rightarrow> server_files \<Rightarrow> bool \<times> server_files" where
  "store_touch_notes sid stamp fs =
     (if \<not> valid_server_id sid then (False, fs)
      else (case dict_get fs sid of
              Some (Some d) \<Rightarrow>
                (True, dict_set sid (Some (dict_set ''notesUpdatedAt'' (JStr stamp) d)) fs)
            | _ \<Rightarrow> (False, fs)))"

definition store_delete :: "string \<Rightarrow> server_files \<Rightarrow> bool \<times> server_files" where
  "store_delete sid fs =
     (if \<not> valid_server_id sid \<or> dict_get fs sid = None then (False, fs)
      else (True, dict_del sid fs))"

text \<open>\<open>resolve_server\<close>: exact id first, then the first listed server of that name.\<close>

definition resolve_server :: "(jval \<Rightarrow> string) \<Rightarrow> server_files \<Rightarrow> string \<Rightarrow> server option" where
  "resolve_server repr fs query =
     (case store_get repr fs query of
        Some s \<Rightarrow> Some s
      | None \<Rightarrow>
          (case find (\<lambda>s. lower (server_name s) = lower query) (list_servers repr fs) of
             None \<Rightarrow> None
           | Some s \<Rightarrow> store_get repr fs (server_id s)))"


section \<open>What the store keeps\<close>

definition stored :: "(jval \<Rightarrow> string) \<Rightarrow> server_files \<Rightarrow> string \<Rightarrow> server option" where
  "stored repr fs k = (case dict_get fs k of Some (Some d) \<Rightarrow> from_dict repr d | _ \<Rightarrow> None)"

text \<open>
  The invariant: file names are valid ids, a readable record carries the id of its file, and no
  two readable records share a name up to case.
\<close>

definition store_ok :: "(jval \<Rightarrow> string) \<Rightarrow> server_files \<Rightarrow> bool" where
  "store_ok repr fs \<longleftrightarrow> dict_ok fs \<and> (\<forall>k \<in> set (dict_keys fs). valid_server_id k) \<and>
     (\<forall>k s. stored repr fs k = Some s \<longrightarrow> server_id s = k) \<and>
     (\<forall>k k' s s'. stored repr fs k = Some s \<longrightarrow> stored repr fs k' = Some s' \<longrightarrow>
        lower (server_name s) = lower (server_name s') \<longrightarrow> k = k')"

lemma map_str_of_JStr: "map (\<lambda>(k, x). (k, str_of repr x)) (map (\<lambda>(k, v). (k, JStr v)) xs) = xs"
  by (induction xs) auto

lemma config_of_dict: "config_of repr (JObj (map (\<lambda>(k, v). (k, JStr v)) xs)) = Some xs"
  by (cases xs) (auto simp: config_of_def map_str_of_JStr [simplified] split: prod.splits)

lemma tags_of_list: "tags_of repr (JList (map JStr xs)) = Some xs"
  by (cases xs) (auto simp: tags_of_def comp_def)

lemma from_dict_to_dict:
  "from_dict repr (to_dict s) =
     Some (s\<lparr>secret_ref := opt_str repr (jopt (secret_ref s)),
             notes_updated_at := opt_str repr (jopt (notes_updated_at s))\<rparr>)"
  by (simp add: from_dict_def to_dict_def jget_def config_of_dict tags_of_list)

lemma set_readable:
  "dict_ok fs \<Longrightarrow> set (readable repr fs) = {s. \<exists>k. stored repr fs k = Some s}"
proof (induction repr fs rule: readable.induct)
  case (1 repr)
  then show ?case by (simp add: stored_def)
next
  case (2 repr k f fs)
  have ok: "dict_ok fs" "k \<notin> set (dict_keys fs)"
    using "2.prems" by (auto simp: dict_ok_def dict_keys_def)
  have st: "stored repr ((k, f) # fs) j =
      (if j = k then Option.bind f (from_dict repr) else stored repr fs j)" for j
    by (auto simp: stored_def dict_get_def split: option.splits)
  have nk: "stored repr fs k = None"
    using ok by (simp add: stored_def dict_get_None_keys [symmetric])
  have rd: "set (readable repr fs) = {s. \<exists>j. stored repr fs j = Some s}"
    using "2.IH" ok(1) by (cases "Option.bind f (from_dict repr)") simp_all
  show ?case
  proof (cases "Option.bind f (from_dict repr)")
    case None
    with rd nk show ?thesis by (auto simp: st split: if_splits) (metis option.distinct(1))
  next
    case (Some t)
    with rd nk show ?thesis by (auto simp: st split: if_splits) (metis option.distinct(1))+
  qed
qed

lemma set_list_servers:
  "dict_ok fs \<Longrightarrow> set (list_servers repr fs) = {s. \<exists>k. stored repr fs k = Some s}"
  by (simp add: list_servers_def set_readable)

lemma store_get_stored:
  assumes "store_ok repr fs" shows "store_get repr fs q = stored repr fs q"
proof (cases "valid_server_id q")
  case False
  then have "dict_get fs q = None"
    using assms by (auto simp: store_ok_def dict_get_None_keys)
  with False show ?thesis by (simp add: store_get_def stored_def)
qed (simp add: store_get_def stored_def)

lemma stored_set [simp]:
  "stored repr (dict_set k v fs) j =
     (if j = k then (case v of None \<Rightarrow> None | Some d \<Rightarrow> from_dict repr d) else stored repr fs j)"
  by (auto simp: stored_def split: option.splits)

lemma stored_del [simp]:
  "stored repr (dict_del k fs) j = (if j = k then None else stored repr fs j)"
  by (simp add: stored_def)

lemma normalize_id: "normalize_server_input repr raw sid = Inr s \<Longrightarrow> server_id s = sid"
  by (auto simp: normalize_server_input_def Let_def split: jval.splits if_splits)

lemma name_free:
  "dict_ok fs \<Longrightarrow> check_name_unique repr fs name excl = Inr () \<Longrightarrow> stored repr fs k = Some s \<Longrightarrow>
   lower (server_name s) = lower name \<Longrightarrow> excl = Some (server_id s)"
  by (auto simp: check_name_unique_def set_list_servers split: if_splits)

lemma store_write_ok:
  assumes "store_ok repr fs" and "valid_server_id (server_id s)"
    and free: "\<And>k t. stored repr fs k = Some t \<Longrightarrow> lower (server_name t) = lower (server_name s) \<Longrightarrow>
                 server_id t = server_id s"
  shows "store_ok repr (store_write s fs)"
proof -
  have st: "stored repr (store_write s fs) k =
      (if k = server_id s
       then Some (s\<lparr>secret_ref := opt_str repr (jopt (secret_ref s)),
                    notes_updated_at := opt_str repr (jopt (notes_updated_at s))\<rparr>)
       else stored repr fs k)" for k
    by (simp add: store_write_def from_dict_to_dict)
  have "store_write s fs = dict_set (server_id s) (Some (to_dict s)) fs" by (simp add: store_write_def)
  with assms show ?thesis
    unfolding store_ok_def st by (auto simp: dict_keys_set dict_ok_set)
qed

lemma from_dict_touch:
  "from_dict repr (dict_set ''notesUpdatedAt'' v d) =
     map_option (\<lambda>s. s\<lparr>notes_updated_at := opt_str repr v\<rparr>) (from_dict repr d)"
proof -
  have [simp]: "map_of (dict_set ''notesUpdatedAt'' v d) k =
      (if k = ''notesUpdatedAt'' then Some v else map_of d k)" for k
    using dict_get_set [of "''notesUpdatedAt''" v d k] by (simp add: dict_get_def)
  show ?thesis
    by (auto simp: from_dict_def jget_def split: option.splits)
qed

datatype server_op =
    CreateServer string string jval
  | UpdateServer string string jval
  | TouchNotes string string
  | DeleteServer string

definition apply_server_op :: "(jval \<Rightarrow> string) \<Rightarrow> server_files \<Rightarrow> server_op \<Rightarrow> server_files" where
  "apply_server_op repr fs x = (case x of
     CreateServer i now raw \<Rightarrow>
       (case store_create repr i now raw fs of Inl _ \<Rightarrow> fs | Inr (_, fs') \<Rightarrow> fs')
   | UpdateServer i now raw \<Rightarrow>
       (case store_update repr i now raw fs of Inl _ \<Rightarrow> fs | Inr (_, fs') \<Rightarrow> fs')
   | TouchNotes i stamp \<Rightarrow> snd (store_touch_notes i stamp fs)
   | DeleteServer i \<Rightarrow> snd (store_delete i fs))"

text \<open>\<open>uuid4().hex\<close> is 32 hexadecimal digits and names no file yet.\<close>

definition server_op_enabled :: "server_files \<Rightarrow> server_op \<Rightarrow> bool" where
  "server_op_enabled fs x = (case x of
     CreateServer i _ _ \<Rightarrow> valid_server_id i \<and> dict_get fs i = None
   | _ \<Rightarrow> True)"

lemma create_keeps:
  assumes "store_ok repr fs" "valid_server_id i" "dict_get fs i = None"
    and "store_create repr i now raw fs = Inr (s, fs')"
  shows "store_ok repr fs'"
proof -
  from assms(4) obtain s0 where n: "normalize_server_input repr raw i = Inr s0"
    and u: "check_name_unique repr fs (server_name s0) None = Inr ()"
    and fs': "fs' = store_write (s0\<lparr>created_at := now, updated_at := now\<rparr>) fs"
    by (auto simp: store_create_def Let_def split: sum.splits)
  from assms(1) have "dict_ok fs" by (simp add: store_ok_def)
  with u n assms(1,2) show ?thesis
    unfolding fs' by (intro store_write_ok) (auto dest: normalize_id name_free)
qed

lemma update_keeps:
  assumes "store_ok repr fs" and "store_update repr i now raw fs = Inr (r, fs')"
  shows "store_ok repr fs'"
proof (cases "store_get repr fs i")
  case None
  with assms show ?thesis by (simp add: store_update_def)
next
  case (Some e)
  with assms(2) obtain s0 where n: "normalize_server_input repr raw i = Inr s0"
    and u: "check_name_unique repr fs (server_name s0) (Some i) = Inr ()"
    and fs': "fs' = store_write (s0\<lparr>created_at := created_at e, updated_at := now,
                notes_updated_at := notes_updated_at e\<rparr>) fs"
    by (auto simp: store_update_def Let_def split: sum.splits)
  have i: "valid_server_id i" using Some by (auto simp: store_get_def split: if_splits)
  have si: "server_id s0 = i" using n by (rule normalize_id)
  have ok: "dict_ok fs" using assms(1) by (simp add: store_ok_def)
  have free: "server_id t = i" if "stored repr fs k = Some t"
    "lower (server_name t) = lower (server_name s0)" for k t
    using name_free [OF ok u that] by simp
  show ?thesis
    unfolding fs' using assms(1) si i free by (intro store_write_ok) simp_all
qed

lemma touch_keeps:
  assumes "store_ok repr fs" shows "store_ok repr (snd (store_touch_notes i stamp fs))"
proof (cases "\<exists>d. valid_server_id i \<and> dict_get fs i = Some (Some d)")
  case True
  then obtain d where d: "valid_server_id i" "dict_get fs i = Some (Some d)" by blast
  have st: "stored repr (snd (store_touch_notes i stamp fs)) k =
      (if k = i then map_option (\<lambda>s. s\<lparr>notes_updated_at := opt_str repr (JStr stamp)\<rparr>) (stored repr fs i)
       else stored repr fs k)" for k
    using d by (simp add: store_touch_notes_def from_dict_touch stored_def)
  have k: "set (dict_keys (snd (store_touch_notes i stamp fs))) = insert i (set (dict_keys fs))"
    "dict_ok (snd (store_touch_notes i stamp fs))"
    using d assms by (auto simp: store_touch_notes_def dict_keys_set store_ok_def)
  have old: "stored repr fs k = Some s \<Longrightarrow> server_id s = k"
    "stored repr fs k = Some s \<Longrightarrow> stored repr fs k' = Some s' \<Longrightarrow>
     lower (server_name s) = lower (server_name s') \<Longrightarrow> k = k'" for k k' s s'
    using assms unfolding store_ok_def by blast+
  have orig: "\<exists>t. stored repr fs k = Some t \<and> server_id t = server_id s \<and> server_name t = server_name s"
    if "stored repr (snd (store_touch_notes i stamp fs)) k = Some s" for k s
    using that by (auto simp: st split: if_splits)
  have ids: "server_id s = k" if "stored repr (snd (store_touch_notes i stamp fs)) k = Some s" for k s
    using orig [OF that] old(1) by metis
  have names: "k = k'" if "stored repr (snd (store_touch_notes i stamp fs)) k = Some s"
    "stored repr (snd (store_touch_notes i stamp fs)) k' = Some s'"
    "lower (server_name s) = lower (server_name s')" for k k' s s'
    using orig [OF that(1)] orig [OF that(2)] that(3) old(2) by metis
  have files: "valid_server_id j" if "j \<in> set (dict_keys (snd (store_touch_notes i stamp fs)))" for j
    using that k(1) d(1) assms by (auto simp: store_ok_def)
  from k(2) ids names files show ?thesis unfolding store_ok_def by blast
next
  case False
  then have "snd (store_touch_notes i stamp fs) = fs"
    by (auto simp: store_touch_notes_def split: option.splits)
  with assms show ?thesis by simp
qed

lemma delete_keeps:
  "store_ok repr fs \<Longrightarrow> store_ok repr (snd (store_delete i fs))"
  unfolding store_delete_def store_ok_def
  by (auto simp: dict_keys_del split: if_splits)

lemma server_op_keeps:
  "store_ok repr fs \<Longrightarrow> server_op_enabled fs x \<Longrightarrow> store_ok repr (apply_server_op repr fs x)"
  by (cases x)
     (auto simp: apply_server_op_def server_op_enabled_def touch_keeps delete_keeps
       split: sum.splits prod.splits intro: create_keeps update_keeps)

interpretation inventory: op_machine "apply_server_op repr" server_op_enabled "store_ok repr"
  for repr
  by unfold_locales (rule server_op_keeps)

lemma store_ok_empty: "store_ok repr []"
  by (simp add: store_ok_def stored_def dict_keys_def)

lemma valid_server_id_a: "valid_server_id (replicate 32 CHR ''a'')"
proof -
  have "last (replicate 32 CHR ''a'') = CHR ''a''" by (rule last_replicate) simp
  moreover have "list_all hex_char (replicate 32 CHR ''a'')"
    by (simp add: list_all_iff hex_char_def)
  ultimately show ?thesis by (simp add: valid_server_id_def)
qed

text \<open>C39. Whatever sequence of creates, updates, note stamps and deletes the inventory goes through
  from empty, names stay unique up to case and every record sits under its own valid id.\<close>

theorem inventory_names_unique:
  assumes "run_enabled (apply_server_op repr) server_op_enabled [] xs"
  shows "store_ok repr (foldl (apply_server_op repr) [] xs)"
  using inventory.run_keeps [OF store_ok_empty assms] .

theorem inventory_names_unique_witness:
  "store_ok (\<lambda>_. ''x'') (foldl (apply_server_op (\<lambda>_. ''x'')) []
     [CreateServer (replicate 32 CHR ''a'') ''t0'' (JObj [(''name'', JStr ''web''), (''providerId'', JStr ''ssh'')]),
      DeleteServer (replicate 32 CHR ''a'')])"
  by (rule inventory_names_unique) (simp add: server_op_enabled_def valid_server_id_a)

lemma resolve_by_id:
  assumes "store_ok repr fs" "stored repr fs q = Some t"
  shows "resolve_server repr fs q = Some t" "server_id t = q"
  using assms by (auto simp: resolve_server_def store_get_stored store_ok_def)

lemma resolve_by_name:
  assumes ok: "store_ok repr fs" and no_id: "stored repr fs q = None"
  shows "resolve_server repr fs q = Some s \<longleftrightarrow>
    stored repr fs (server_id s) = Some s \<and> lower (server_name s) = lower q"
    (is "?r = Some s \<longleftrightarrow> ?named s")
proof -
  have d: "dict_ok fs" using ok by (simp add: store_ok_def)
  have id: "stored repr fs k = Some t \<Longrightarrow> server_id t = k" for k t
    using ok unfolding store_ok_def by blast
  have mem: "t \<in> set (list_servers repr fs) \<longleftrightarrow> stored repr fs (server_id t) = Some t" for t
    unfolding set_list_servers [OF d] using id by fastforce
  have uniq: "t = s" if "?named t" "?named s" for t s
    using that ok unfolding store_ok_def by (metis option.inject)
  have find: "?r = find (\<lambda>s. lower (server_name s) = lower q) (list_servers repr fs)"
  proof (cases "find (\<lambda>s. lower (server_name s) = lower q) (list_servers repr fs)")
    case none: None
    then show ?thesis using no_id by (simp add: resolve_server_def store_get_stored [OF ok])
  next
    case found: (Some t)
    then have "t \<in> set (list_servers repr fs)" by (auto simp: find_Some_iff)
    then have "store_get repr fs (server_id t) = Some t" by (simp add: mem store_get_stored [OF ok])
    with found show ?thesis using no_id by (simp add: resolve_server_def store_get_stored [OF ok])
  qed
  show ?thesis
  proof
    assume "?r = Some s"
    then have "s \<in> set (list_servers repr fs)" "lower (server_name s) = lower q"
      unfolding find by (auto simp: find_Some_iff)
    then show "?named s" by (simp add: mem)
  next
    assume s: "?named s"
    then have "s \<in> set (list_servers repr fs)" using mem by blast
    with s have "?r \<noteq> None" unfolding find find_None_iff by blast
    then obtain t where t: "?r = Some t" by blast
    then have t': "t \<in> set (list_servers repr fs)" "lower (server_name t) = lower q"
      unfolding find by (auto simp: find_Some_iff)
    from t'(1) have "stored repr fs (server_id t) = Some t" by (simp only: mem)
    with t'(2) have "?named t" by (rule conjI [rotated])
    with uniq s t show "?r = Some s" by blast
  qed
qed

text \<open>On an inventory that keeps its invariant, a query finds a record exactly when the record
  has that id, or no record has that id and the record has that name up to case; so the answer never
  depends on the order the directory lists its files in.\<close>

theorem resolve_server_spec:
  assumes "store_ok repr fs"
  shows "resolve_server repr fs q = Some s \<longleftrightarrow>
    stored repr fs (server_id s) = Some s \<and>
    (server_id s = q \<or> (stored repr fs q = None \<and> lower (server_name s) = lower q))"
proof (cases "stored repr fs q")
  case (Some t)
  note by_id = resolve_by_id [OF assms Some]
  show ?thesis
  proof
    assume "resolve_server repr fs q = Some s"
    with by_id have "s = t" by simp
    then show "stored repr fs (server_id s) = Some s \<and>
      (server_id s = q \<or> (stored repr fs q = None \<and> lower (server_name s) = lower q))"
      using by_id(2) Some by metis
  next
    assume "stored repr fs (server_id s) = Some s \<and>
      (server_id s = q \<or> (stored repr fs q = None \<and> lower (server_name s) = lower q))"
    then have "stored repr fs q = Some s" using Some by (metis option.distinct(1))
    then show "resolve_server repr fs q = Some s" using by_id(1) Some by simp
  qed
next
  case None
  have "server_id s \<noteq> q" if "stored repr fs (server_id s) = Some s"
    using that None by fastforce
  with resolve_by_name [OF assms None, of s] None show ?thesis by blast
qed

theorem resolve_server_spec_witness:
  "\<exists>s. resolve_server (\<lambda>_. ''x'')
     [(replicate 32 CHR ''a'', Some (to_dict \<lparr>server_id = replicate 32 CHR ''a'', server_name = ''Web'',
        provider_id = ''ssh'', server_config = [], secret_ref = None, server_tags = [],
        created_at = ''t'', updated_at = ''t'', notes_updated_at = None\<rparr>))] ''wEB'' = Some s
     \<and> server_name s = ''Web''"
proof -
  let ?s = "\<lparr>server_id = replicate 32 CHR ''a'', server_name = ''Web'', provider_id = ''ssh'',
     server_config = [], secret_ref = None, server_tags = [], created_at = ''t'', updated_at = ''t'',
     notes_updated_at = None\<rparr>"
  let ?fs = "[(replicate 32 CHR ''a'', Some (to_dict ?s))]"
  have st: "stored (\<lambda>_. ''x'') ?fs k = (if k = replicate 32 CHR ''a'' then Some ?s else None)" for k
    by (simp add: stored_def dict_get_def from_dict_to_dict jopt_def opt_str_def)
  have ok: "store_ok (\<lambda>_. ''x'') ?fs"
    unfolding store_ok_def st
    by (simp add: dict_ok_def dict_keys_def valid_server_id_a)
  have low: "lower ''Web'' = lower ''wEB''"
    by (simp add: lower_def lower_char_def Let_def char_code_eq)
  have ne: "''wEB'' \<noteq> replicate 32 CHR ''a''"
    by (rule notI, drule arg_cong [of _ _ length]) simp
  have "resolve_server (\<lambda>_. ''x'') ?fs ''wEB'' = Some ?s"
    unfolding resolve_server_spec [OF ok] st using low ne by simp
  then show ?thesis by auto
qed

text \<open>What the store writes it reads back: a record survives \<open>to_dict\<close> and \<open>from_dict\<close>
  unchanged, when its two optional texts are not blank (a blank one reads back as absent).\<close>

theorem server_roundtrip:
  assumes "secret_ref s \<noteq> Some []" and "notes_updated_at s \<noteq> Some []"
  shows "from_dict repr (to_dict s) = Some s"
  using assms by (simp add: from_dict_to_dict)

theorem server_roundtrip_witness:
  "from_dict (\<lambda>_. []) (to_dict \<lparr>server_id = ''i'', server_name = ''n'', provider_id = ''ssm'',
      server_config = [(''instanceId'', ''i-1'')], secret_ref = Some ''k'', server_tags = [''a''],
      created_at = ''t'', updated_at = ''t'', notes_updated_at = None\<rparr>) \<noteq> None"
  by (subst server_roundtrip) simp_all

end
