(* ===== verification/Scope.thy ===== *)
theory Scope
  imports Inventory
begin

text \<open>
  Which hosts one action touches: the scope labels and the resolution record of
  \<open>nanoinfra/servers/scope.py\<close>.
\<close>

definition SCOPE_HOST :: string where "SCOPE_HOST = ''host''"
definition SCOPE_GROUP :: string where "SCOPE_GROUP = ''group''"
definition SCOPE_ALL :: string where "SCOPE_ALL = ''all''"
definition UNRESOLVED :: string where "UNRESOLVED = ''unresolved''"

lemmas scope_defs = SCOPE_HOST_def SCOPE_GROUP_def SCOPE_ALL_def UNRESOLVED_def

record scope_resolution =
  res_scope :: string
  res_hosts :: "string list"
  res_pattern :: "string option"
  res_expander :: string

end
