(* ===== verification/Config.thy ===== *)
theory Config
  imports Prelude
begin

text \<open>
  The vocabulary and the operator's policy: the capability classes of
  \<open>nanoinfra/agent/tools/capabilities.py\<close>, the execution contexts of
  \<open>nanoinfra/agent/tools/context.py\<close>, and the models of \<open>nanoinfra/config/gates.py\<close> with
  their defaults and validators.

  Decision values are text here, as they are in the code: the schema admits four of them
  (\<open>decision_value\<close>), and the gate still says what it does with a fifth.
\<close>

section \<open>Capability classes and execution contexts\<close>

definition READ :: string where "READ = ''read''"
definition MUTATE_LOCAL :: string where "MUTATE_LOCAL = ''mutate.local''"
definition MUTATE_INVENTORY :: string where "MUTATE_INVENTORY = ''mutate.inventory''"
definition MUTATE_REMOTE :: string where "MUTATE_REMOTE = ''mutate.remote''"
definition CREDENTIAL_ACCESS :: string where "CREDENTIAL_ACCESS = ''credential.access''"

definition CAPABILITY_CLASSES :: "string list" where
  "CAPABILITY_CLASSES = [READ, MUTATE_LOCAL, MUTATE_INVENTORY, MUTATE_REMOTE, CREDENTIAL_ACCESS]"

definition FAIL_CLOSED_CLASS :: string where "FAIL_CLOSED_CLASS = MUTATE_REMOTE"

lemmas class_defs = READ_def MUTATE_LOCAL_def MUTATE_INVENTORY_def MUTATE_REMOTE_def
  CREDENTIAL_ACCESS_def

lemma class_distinct [simp]:
  "MUTATE_REMOTE \<noteq> READ" "READ \<noteq> MUTATE_REMOTE" "CREDENTIAL_ACCESS \<noteq> READ" "READ \<noteq> CREDENTIAL_ACCESS"
  "MUTATE_REMOTE \<noteq> CREDENTIAL_ACCESS" "CREDENTIAL_ACCESS \<noteq> MUTATE_REMOTE"
  "MUTATE_REMOTE \<noteq> MUTATE_INVENTORY" "MUTATE_INVENTORY \<noteq> MUTATE_REMOTE"
  "CREDENTIAL_ACCESS \<noteq> MUTATE_INVENTORY" "MUTATE_INVENTORY \<noteq> CREDENTIAL_ACCESS"
  by (simp_all add: class_defs)

text \<open>The argument is the declared attribute, \<open>None\<close> when the tool declares none.\<close>

definition capability_class_of :: "string option \<Rightarrow> string" where
  "capability_class_of declared = (case declared of
     Some c \<Rightarrow> if c \<in> set CAPABILITY_CLASSES then c else FAIL_CLOSED_CLASS
   | None \<Rightarrow> FAIL_CLOSED_CLASS)"

definition CTX_INTERACTIVE :: string where "CTX_INTERACTIVE = ''interactive''"
definition CTX_AUTOMATION :: string where "CTX_AUTOMATION = ''automation''"
definition CTX_SUBAGENT :: string where "CTX_SUBAGENT = ''subagent''"

lemmas ctx_defs = CTX_INTERACTIVE_def CTX_AUTOMATION_def CTX_SUBAGENT_def

definition is_unattended_execution_context :: "string \<Rightarrow> bool" where
  "is_unattended_execution_context v \<longleftrightarrow> v \<noteq> CTX_INTERACTIVE"

lemma capability_class_of_range: "capability_class_of d \<in> set CAPABILITY_CLASSES"
  by (auto simp: capability_class_of_def FAIL_CLOSED_CLASS_def CAPABILITY_CLASSES_def
      split: option.splits)


section \<open>Policy models\<close>

definition decision_value :: "string \<Rightarrow> bool" where
  "decision_value v \<longleftrightarrow> v \<in> {''allow'', ''approve'', ''grant'', ''deny''}"

record scope_policy =
  pol_host :: string
  pol_group :: string
  pol_all :: string

record context_policy =
  mutate_remote :: scope_policy
  mutate_inventory :: string
  credential_access :: string

text \<open>
  A standing grant. The expiry type is a parameter: the file holds a \<open>datetime\<close> with or
  without an offset, and a validated grant holds an instant.
\<close>

record 't grant_of =
  grant_id :: "string option"
  grant_contexts :: "string list"
  grant_hosts :: "string list"
  grant_commands :: "string list"
  grant_connectors :: "string list"
  grant_operations :: "string list"
  grant_expires :: "'t option"
  grant_note :: "string option"

datatype py_datetime = Naive microseconds | Aware microseconds

type_synonym raw_grant = "py_datetime grant_of"
type_synonym standing_grant = "microseconds grant_of"

text \<open>\<open>_utc_expiry\<close> reads a timestamp with no offset as UTC.\<close>

fun utc_instant :: "py_datetime \<Rightarrow> microseconds" where
  "utc_instant (Naive t) = t"
| "utc_instant (Aware t) = t"

definition utc_expiry :: "raw_grant \<Rightarrow> standing_grant" where
  "utc_expiry g = \<lparr>grant_id = grant_id g, grant_contexts = grant_contexts g,
     grant_hosts = grant_hosts g, grant_commands = grant_commands g,
     grant_connectors = grant_connectors g, grant_operations = grant_operations g,
     grant_expires = map_option utc_instant (grant_expires g), grant_note = grant_note g\<rparr>"

text \<open>\<open>_one_kind_of_action\<close>: hosts and commands, or connectors and operations, never both.\<close>

definition one_kind_of_action :: "'t grant_of \<Rightarrow> py_exn + 't grant_of" where
  "one_kind_of_action g =
     (let names_command = grant_hosts g \<noteq> [] \<or> grant_commands g \<noteq> [];
          names_connector = grant_connectors g \<noteq> [] \<or> grant_operations g \<noteq> []
      in if names_command \<and> names_connector then Inl ValueError
         else if (grant_connectors g \<noteq> []) \<noteq> (grant_operations g \<noteq> []) then Inl ValueError
         else Inr g)"

definition load_grant :: "raw_grant \<Rightarrow> py_exn + standing_grant" where
  "load_grant g = one_kind_of_action (utc_expiry g)"

definition is_expired :: "standing_grant \<Rightarrow> microseconds \<Rightarrow> bool" where
  "is_expired g now = (case grant_expires g of None \<Rightarrow> False | Some t \<Rightarrow> t \<le> now)"

definition is_connector_grant :: "'t grant_of \<Rightarrow> bool" where
  "is_connector_grant g \<longleftrightarrow> grant_connectors g \<noteq> [] \<or> grant_operations g \<noteq> []"

record approver =
  approver_channel :: string
  approver_sender :: string

record audit_config =
  retention_days :: int
  record_command_text :: bool

record gates_config =
  approvers :: "approver list"
  approval_paths :: "string list"
  identity_independence :: bool
  approval_timeout_s :: int
  interactive :: context_policy
  unattended :: context_policy
  standing_grants :: "standing_grant list"
  audit_policy :: audit_config


section \<open>Defaults\<close>

definition default_scope_policy :: scope_policy where
  "default_scope_policy = \<lparr>pol_host = ''deny'', pol_group = ''deny'', pol_all = ''deny''\<rparr>"

definition default_interactive :: context_policy where
  "default_interactive =
     \<lparr>mutate_remote = \<lparr>pol_host = ''approve'', pol_group = ''approve'', pol_all = ''deny''\<rparr>,
      mutate_inventory = ''allow'', credential_access = ''approve''\<rparr>"

definition default_unattended :: context_policy where
  "default_unattended =
     \<lparr>mutate_remote = default_scope_policy, mutate_inventory = ''deny'',
      credential_access = ''deny''\<rparr>"

definition default_gates :: gates_config where
  "default_gates =
     \<lparr>approvers = [], approval_paths = [''webui''], identity_independence = False,
      approval_timeout_s = 120, interactive = default_interactive,
      unattended = default_unattended, standing_grants = [],
      audit_policy = \<lparr>retention_days = 90, record_command_text = False\<rparr>\<rparr>"


section \<open>What the schema admits\<close>

definition valid_scope_policy :: "scope_policy \<Rightarrow> bool" where
  "valid_scope_policy p \<longleftrightarrow>
     decision_value (pol_host p) \<and> decision_value (pol_group p) \<and> pol_all p = ''deny''"

definition valid_context_policy :: "context_policy \<Rightarrow> bool" where
  "valid_context_policy p \<longleftrightarrow> valid_scope_policy (mutate_remote p) \<and>
     mutate_inventory p \<in> {''allow'', ''deny''} \<and> decision_value (credential_access p)"

definition valid_grant :: "standing_grant \<Rightarrow> bool" where
  "valid_grant g \<longleftrightarrow> one_kind_of_action g = Inr g \<and>
     set (grant_contexts g) \<subseteq> {''interactive'', ''unattended''}"

definition valid_gates :: "gates_config \<Rightarrow> bool" where
  "valid_gates g \<longleftrightarrow>
     valid_context_policy (interactive g) \<and> valid_context_policy (unattended g) \<and>
     (\<forall>x \<in> set (standing_grants g). valid_grant x) \<and>
     1 \<le> approval_timeout_s g \<and> approval_timeout_s g \<le> 300 \<and>
     1 \<le> retention_days (audit_policy g)"

lemma default_gates_valid: "valid_gates default_gates"
  by (simp add: default_gates_def valid_gates_def valid_context_policy_def valid_scope_policy_def
      default_interactive_def default_unattended_def default_scope_policy_def decision_value_def)

lemma one_kind_of_action_Inr:
  "one_kind_of_action g = Inr g' \<longleftrightarrow> g' = g \<and>
     (is_connector_grant g \<longrightarrow> grant_hosts g = [] \<and> grant_commands g = [] \<and>
        grant_connectors g \<noteq> [] \<and> grant_operations g \<noteq> [])"
  by (auto simp: one_kind_of_action_def is_connector_grant_def Let_def)

lemma valid_grant_connector:
  "valid_grant g \<Longrightarrow> is_connector_grant g \<Longrightarrow> grant_hosts g = [] \<and> grant_commands g = []"
  by (simp add: valid_grant_def one_kind_of_action_Inr)

lemma is_expired_mono: "is_expired g t \<Longrightarrow> t \<le> u \<Longrightarrow> is_expired g u"
  by (auto simp: is_expired_def split: option.splits)

end
