(* ===== verification/Delegate.thy ===== *)
theory Delegate
  imports Config
begin

text \<open>
  Who signs a delegated action: \<open>nanoinfra/gates/delegation.py\<close>. A delegation names the peer that
  acts, the agent that asked, and the human behind both. The theory holds the normalisation of
  the three values, the actor rule (which context the gate decides under) and the ceiling.

  A Python \<open>frozenset\<close> of class names is a list here; only membership and emptiness are read.
\<close>

section \<open>Names\<close>

text \<open>One character of \<open>[\w.-]\<close>, for code points below 256.\<close>

definition word_char :: "char \<Rightarrow> bool" where
  "word_char c \<longleftrightarrow> (let n = (of_char c :: nat) in
     (48 \<le> n \<and> n \<le> 57) \<or> (65 \<le> n \<and> n \<le> 90) \<or> n = 95 \<or> (97 \<le> n \<and> n \<le> 122) \<or>
     n \<in> {170, 178, 179, 181, 185, 186, 188, 189, 190} \<or>
     (192 \<le> n \<and> n \<le> 214) \<or> (216 \<le> n \<and> n \<le> 246) \<or> (248 \<le> n \<and> n \<le> 255))"

definition agent_name_char :: "char \<Rightarrow> bool" where
  "agent_name_char c \<longleftrightarrow> word_char c \<or> c = CHR ''.'' \<or> c = CHR ''-''"

definition MAX_AGENT_NAME_CHARS :: nat where "MAX_AGENT_NAME_CHARS = 64"

definition agent_name :: "string option \<Rightarrow> string" where
  "agent_name value =
     (let named = strip (case value of None \<Rightarrow> [] | Some v \<Rightarrow> v)
      in if named = [] \<or> length named > MAX_AGENT_NAME_CHARS \<or> \<not> list_all agent_name_char named
         then [] else named)"

definition capability_ceiling :: "string list option \<Rightarrow> string list" where
  "capability_ceiling classes = (case classes of
     None \<Rightarrow> []
   | Some cs \<Rightarrow> filter (\<lambda>c. c \<in> set CAPABILITY_CLASSES) cs)"


section \<open>The delegation of one request\<close>

record delegation =
  acting_agent :: string
  delegated_by :: string
  origin_actor :: string
  inherited_capabilities :: "string list"

definition no_delegation :: delegation where
  "no_delegation = \<lparr>acting_agent = [], delegated_by = [], origin_actor = [],
     inherited_capabilities = []\<rparr>"

definition is_delegated :: "delegation \<Rightarrow> bool" where
  "is_delegated d \<longleftrightarrow> acting_agent d \<noteq> [] \<and> delegated_by d \<noteq> []"

definition has_human :: "delegation \<Rightarrow> bool" where
  "has_human d \<longleftrightarrow> origin_actor d \<noteq> []"

definition chain :: "delegation \<Rightarrow> string option" where
  "chain d =
     (if acting_agent d = [] then None
      else Some (join_with '' -> ''
        (filter (\<lambda>n. n \<noteq> []) [origin_actor d, delegated_by d, acting_agent d])))"

text \<open>The context the gate decides under, given the one the frame declared.\<close>

definition effective_execution_context :: "delegation \<Rightarrow> string \<Rightarrow> string" where
  "effective_execution_context d declared =
     (if declared \<noteq> CTX_SUBAGENT then declared
      else if \<not> is_delegated d \<or> \<not> has_human d then declared
      else CTX_INTERACTIVE)"

text \<open>
  The words of a ceiling refusal are the data the sentence interpolates: the class, the peer, the
  delegating agent and the classes it held.
\<close>

datatype ceiling_text = Exceeds string string string "string list"

definition ceiling_refusal :: "delegation \<Rightarrow> string \<Rightarrow> ceiling_text option" where
  "ceiling_refusal d cls =
     (if \<not> is_delegated d \<or> inherited_capabilities d = [] then None
      else if cls \<in> set (inherited_capabilities d) then None
      else Some (Exceeds cls (acting_agent d) (delegated_by d) (sort (inherited_capabilities d))))"

text \<open>What one wire frame declares, before normalisation (\<open>DelegatedFrame\<close>).\<close>

record delegated_frame =
  frame_origin_actor :: "string option"
  frame_acting_agent :: "string option"
  frame_delegated_by :: "string option"
  frame_inherited :: "string list option"

definition delegation_of :: "delegated_frame \<Rightarrow> delegation" where
  "delegation_of f =
     \<lparr>acting_agent = agent_name (frame_acting_agent f),
      delegated_by = agent_name (frame_delegated_by f),
      origin_actor = strip (case frame_origin_actor f of None \<Rightarrow> [] | Some a \<Rightarrow> a),
      inherited_capabilities = capability_ceiling (frame_inherited f)\<rparr>"


section \<open>Lemmas\<close>

lemma agent_name_cases:
  "agent_name v = [] \<or>
   (agent_name v \<noteq> [] \<and> length (agent_name v) \<le> MAX_AGENT_NAME_CHARS \<and>
    list_all agent_name_char (agent_name v) \<and> strip (agent_name v) = agent_name v)"
  by (auto simp: agent_name_def Let_def)

lemma agent_name_idem: "agent_name (Some (agent_name v)) = agent_name v"
  using agent_name_cases [of v]
  by (auto simp: agent_name_def [of "Some (agent_name v)"] Let_def)

lemma capability_ceiling_idem:
  "capability_ceiling (Some (capability_ceiling cs)) = capability_ceiling cs"
  by (auto simp: capability_ceiling_def split: option.splits)

lemma effective_context_idem [simp]:
  "effective_execution_context d (effective_execution_context d c) = effective_execution_context d c"
  by (simp add: effective_execution_context_def ctx_defs)

lemma effective_context_cases:
  "effective_execution_context d c = c \<or>
   (c = CTX_SUBAGENT \<and> is_delegated d \<and> has_human d \<and>
    effective_execution_context d c = CTX_INTERACTIVE)"
  by (auto simp: effective_execution_context_def)

lemma effective_context_interactive:
  "effective_execution_context d c = CTX_INTERACTIVE \<longleftrightarrow>
     c = CTX_INTERACTIVE \<or> (c = CTX_SUBAGENT \<and> is_delegated d \<and> has_human d)"
  by (auto simp: effective_execution_context_def ctx_defs)

lemma no_delegation_simps [simp]:
  "\<not> is_delegated no_delegation" "ceiling_refusal no_delegation c = None"
  "effective_execution_context no_delegation c = c"
  by (simp_all add: no_delegation_def is_delegated_def ceiling_refusal_def
      effective_execution_context_def)

text \<open>The delegation read back off its own normalised fields is the same delegation.\<close>

definition frame_of :: "delegation \<Rightarrow> delegated_frame" where
  "frame_of d = \<lparr>frame_origin_actor = Some (origin_actor d),
     frame_acting_agent = Some (acting_agent d), frame_delegated_by = Some (delegated_by d),
     frame_inherited = Some (inherited_capabilities d)\<rparr>"

text \<open>Normalisation of a delegation is a projection: what the gate reads off a frame has
  bounded, pattern-clean agent names, a stripped human name and a ceiling within the class vocabulary,
  and reading the normalised delegation again changes nothing.\<close>

theorem delegation_of_normal:
  "delegation_of (frame_of (delegation_of f)) = delegation_of f
   \<and> length (acting_agent (delegation_of f)) \<le> MAX_AGENT_NAME_CHARS
   \<and> list_all agent_name_char (acting_agent (delegation_of f) @ delegated_by (delegation_of f))
   \<and> set (inherited_capabilities (delegation_of f)) \<subseteq> set CAPABILITY_CLASSES"
proof -
  have "list_all agent_name_char (agent_name v) \<and> length (agent_name v) \<le> MAX_AGENT_NAME_CHARS" for v
    using agent_name_cases [of v] by (auto simp: list_all_iff)
  then show ?thesis
    by (auto simp: delegation_of_def frame_of_def agent_name_idem capability_ceiling_idem)
       (auto simp: capability_ceiling_def split: option.splits)
qed

text \<open>The actor rule lifts a turn to attended in exactly one case: it was declared
  \<open>subagent\<close>, two agents named themselves, and a human is on the chain. Every other declared
  context is what the gate decides under, so an automation and a plain subagent stay unattended.\<close>

theorem attended_iff:
  "\<not> is_unattended_execution_context (effective_execution_context (delegation_of f) c) \<longleftrightarrow>
     c = CTX_INTERACTIVE \<or>
     (c = CTX_SUBAGENT \<and> agent_name (frame_acting_agent f) \<noteq> [] \<and>
      agent_name (frame_delegated_by f) \<noteq> [] \<and>
      strip (case frame_origin_actor f of None \<Rightarrow> [] | Some a \<Rightarrow> a) \<noteq> [])"
  by (auto simp: is_unattended_execution_context_def effective_context_interactive delegation_of_def
      is_delegated_def has_human_def)

end
