(* ===== verification/Policy.thy ===== *)
theory Policy
  imports Scope Delegate
begin

text \<open>
  The gate's decision: \<open>nanoinfra/gates/policy.py\<close>. \<open>evaluate\<close> decides a command or an
  inventory write, \<open>evaluate_connector\<close> a connector call, \<open>evaluate_credential_access\<close> one
  decryption. The clock is an argument. The inventory the code passes as \<open>servers\<close> is a
  pair of functions here: the lookup of a name (\<open>resolve_server\<close> on the store) and the resolver of a
  record (\<open>resolve_scope\<close>; \<open>None\<close> for \<open>ScopeResolutionError\<close>). A set of hosts is a list of which
  only the members count. The reason of a decision is the data its sentence interpolates.
\<close>

section \<open>Answers\<close>

datatype outcome = Allow | Approve | Deny

type_synonym expired_grant = "(string \<times> microseconds option) option"

datatype reason =
    NoPolicyFor string
  | TargetUnresolved string string
  | OutsideCeiling ceiling_text
  | InventoryPolicy string string string
  | GrantCovers string
  | MissingGrant string string string "string list" expired_grant
  | GrantShadowed string string string string
  | DenyAtScope string string string expired_grant
  | PolicyAtScope string string string expired_grant
  | ConnectorRead string string
  | ConnectorClass string string string
  | ConnectorGrantCovers string string string
  | ConnectorMissingGrant string string string expired_grant
  | ConnectorGrantShadowed string string string string string
  | ConnectorDenied string string string string expired_grant
  | ConnectorPolicy string string string string expired_grant
  | CredentialAllowed string
  | CredentialByGrant string string string
  | CredentialByApproval string "string option" string
  | CredentialByMatrix string string string
  | CredentialUnauthorized string string
  | CredentialRefused string string

record decision =
  outcome :: outcome
  reason :: reason
  matched_grant :: "string option"
  resolved_targets :: "string list"
  approval_id :: "string option"

definition answer :: "outcome \<Rightarrow> reason \<Rightarrow> decision" where
  "answer oc r = \<lparr>outcome = oc, reason = r, matched_grant = None, resolved_targets = [], approval_id = None\<rparr>"

record action_authorization =
  auth_grant :: "string option"
  auth_approval :: "string option"
  auth_actor :: "string option"
  auth_path :: "string option"
  auth_policy :: "string option"
  auth_scope :: "string option"

definition no_authorization :: action_authorization where
  "no_authorization = \<lparr>auth_grant = None, auth_approval = None, auth_actor = None,
     auth_path = None, auth_policy = None, auth_scope = None\<rparr>"

definition GATED_CLASSES :: "string list" where
  "GATED_CLASSES = [MUTATE_REMOTE, MUTATE_INVENTORY, CREDENTIAL_ACCESS]"

definition KNOWN_SCOPES :: "string list" where
  "KNOWN_SCOPES = [SCOPE_HOST, SCOPE_GROUP, SCOPE_ALL]"

definition context_policy_of :: "gates_config \<Rightarrow> bool \<Rightarrow> context_policy" where
  "context_policy_of g unattended_ctx = (if unattended_ctx then unattended g else interactive g)"

definition context_key :: "bool \<Rightarrow> string" where
  "context_key unattended_ctx = (if unattended_ctx then ''unattended'' else ''interactive'')"

definition decision_for :: "string \<Rightarrow> outcome" where
  "decision_for v = (if v = ''allow'' then Allow else if v = ''approve'' then Approve else Deny)"

text \<open>\<open>getattr(policy.mutate_remote, scope)\<close> at a known scope.\<close>

definition policy_at :: "scope_policy \<Rightarrow> string \<Rightarrow> string" where
  "policy_at p scope =
     (if scope = SCOPE_HOST then pol_host p else if scope = SCOPE_GROUP then pol_group p else pol_all p)"


section \<open>Standing grants\<close>

type_synonym inventory_view = "(string \<Rightarrow> server option) \<times> (server \<Rightarrow> string list option)"
type_synonym grant_cache = "(string, string list) dict option"

definition cache_put :: "string \<Rightarrow> string list \<Rightarrow> grant_cache \<Rightarrow> grant_cache" where
  "cache_put entry hosts cache = map_option (dict_set entry hosts) cache"

fun resolved_grant_hosts ::
  "inventory_view \<Rightarrow> string list \<Rightarrow> grant_cache \<Rightarrow> string list \<times> grant_cache" where
  "resolved_grant_hosts view [] cache = ([], cache)"
| "resolved_grant_hosts view (entry # rest) cache =
     (case Option.bind cache (\<lambda>d. dict_get d entry) of
        Some hosts \<Rightarrow>
          (let (hs, c) = resolved_grant_hosts view rest cache in (hosts @ hs, c))
      | None \<Rightarrow>
          (case fst view entry of
             None \<Rightarrow>
               (let (hs, c) = resolved_grant_hosts view rest (cache_put entry [entry] cache)
                in (entry # hs, c))
           | Some srv \<Rightarrow>
               (case snd view srv of
                  None \<Rightarrow> resolved_grant_hosts view rest cache
                | Some hosts \<Rightarrow>
                    (let (hs, c) = resolved_grant_hosts view rest (cache_put entry hosts cache)
                     in (hosts @ hs, c)))))"

definition grant_matches ::
  "standing_grant \<Rightarrow> string list \<Rightarrow> string \<Rightarrow> inventory_view option \<Rightarrow> grant_cache \<Rightarrow> bool \<times> grant_cache" where
  "grant_matches g hosts command servers cache =
     (if command \<notin> set (grant_commands g) then (False, cache)
      else if hosts = [] then (False, cache)
      else if is_connector_grant g then (False, cache)
      else (let (allowed, c) = (case servers of
                  Some view \<Rightarrow> resolved_grant_hosts view (grant_hosts g) cache
                | None \<Rightarrow> (grant_hosts g, cache))
            in (list_all (\<lambda>h. h \<in> set allowed) hosts, c)))"

record grant_hits =
  live :: "string option"
  expired :: expired_grant

text \<open>\<open>grant.id or f"grant[{index}]"\<close>\<close>

definition grant_label :: "nat \<Rightarrow> standing_grant \<Rightarrow> string" where
  "grant_label i g =
     (case grant_id g of
        Some (c # cs) \<Rightarrow> c # cs
      | _ \<Rightarrow> ''grant['' @ nat_str i @ '']'')"

fun scan_grants ::
  "microseconds \<Rightarrow> string \<Rightarrow> (standing_grant \<Rightarrow> grant_cache \<Rightarrow> bool \<times> grant_cache) \<Rightarrow>
   nat \<Rightarrow> standing_grant list \<Rightarrow> grant_cache \<Rightarrow> expired_grant \<Rightarrow> grant_hits \<times> grant_cache" where
  "scan_grants now key matches i [] cache ex = (\<lparr>live = None, expired = ex\<rparr>, cache)"
| "scan_grants now key matches i (g # gs) cache ex =
     (if key \<notin> set (grant_contexts g) then scan_grants now key matches (Suc i) gs cache ex
      else (let (hit, cache') = matches g cache
            in if \<not> hit then scan_grants now key matches (Suc i) gs cache' ex
               else if \<not> is_expired g now
                    then (\<lparr>live = Some (grant_label i g), expired = ex\<rparr>, cache')
               else scan_grants now key matches (Suc i) gs cache'
                      (if ex = None then Some (grant_label i g, grant_expires g) else ex)))"

definition find_grant_hits ::
  "gates_config \<Rightarrow> microseconds \<Rightarrow> string \<Rightarrow> string list \<Rightarrow> string \<Rightarrow> inventory_view option \<Rightarrow>
   grant_cache \<Rightarrow> grant_hits \<times> grant_cache" where
  "find_grant_hits gates now key hosts command servers cache =
     scan_grants now key (\<lambda>g c. grant_matches g hosts command servers c) 0 (standing_grants gates)
       cache None"

definition connector_grant_matches :: "standing_grant \<Rightarrow> string \<Rightarrow> string \<Rightarrow> bool" where
  "connector_grant_matches g connector operation \<longleftrightarrow>
     grant_connectors g \<noteq> [] \<and> grant_operations g \<noteq> [] \<and>
     grant_hosts g = [] \<and> grant_commands g = [] \<and>
     connector \<in> set (grant_connectors g) \<and> operation \<in> set (grant_operations g)"

definition connector_grant_hits ::
  "gates_config \<Rightarrow> microseconds \<Rightarrow> string \<Rightarrow> string \<Rightarrow> string \<Rightarrow> grant_hits" where
  "connector_grant_hits gates now key connector operation =
     fst (scan_grants now key (\<lambda>g c. (connector_grant_matches g connector operation, c)) 0
            (standing_grants gates) None None)"


section \<open>The three decisions\<close>

definition is_unattended :: "delegation \<Rightarrow> string \<Rightarrow> bool" where
  "is_unattended del execution_context \<longleftrightarrow>
     effective_execution_context del execution_context \<noteq> CTX_INTERACTIVE"

definition evaluate_credential_access ::
  "gates_config \<Rightarrow> string \<Rightarrow> action_authorization option \<Rightarrow> delegation option \<Rightarrow> decision" where
  "evaluate_credential_access gates execution_context authorization delegation =
     (let delegated = (case delegation of None \<Rightarrow> no_delegation | Some d \<Rightarrow> d);
          unatt = is_unattended delegated execution_context;
          key = context_key unatt;
          configured = credential_access (context_policy_of gates unatt);
          carried = (case authorization of None \<Rightarrow> no_authorization | Some a \<Rightarrow> a)
      in case ceiling_refusal delegated CREDENTIAL_ACCESS of
           Some t \<Rightarrow> answer Deny (OutsideCeiling t)
         | None \<Rightarrow>
             (if configured = ''allow'' then answer Allow (CredentialAllowed key)
              else if configured = ''approve'' \<or> configured = ''grant'' then
                (case auth_grant carried of
                   Some gid \<Rightarrow>
                     (answer Allow (CredentialByGrant key configured gid))\<lparr>matched_grant := Some gid\<rparr>
                 | None \<Rightarrow>
                     (case (if configured = ''approve'' then auth_approval carried else None) of
                        Some aid \<Rightarrow>
                          (answer Allow (CredentialByApproval key (auth_actor carried) aid))
                            \<lparr>approval_id := Some aid\<rparr>
                      | None \<Rightarrow>
                          (if auth_policy carried = Some ''allow''
                           then answer Allow (CredentialByMatrix key configured
                                  (case auth_scope carried of Some (c # cs) \<Rightarrow> c # cs | _ \<Rightarrow> ''this''))
                           else answer Deny (CredentialUnauthorized key configured))))
              else answer Deny (CredentialRefused key configured)))"

definition evaluate ::
  "gates_config \<Rightarrow> microseconds \<Rightarrow> string \<Rightarrow> string \<Rightarrow> string \<Rightarrow> string list \<Rightarrow> string \<Rightarrow>
   inventory_view option \<Rightarrow> delegation option \<Rightarrow> decision" where
  "evaluate gates now cls scope execution_context hosts command servers delegation =
     (let delegated = (case delegation of None \<Rightarrow> no_delegation | Some d \<Rightarrow> d);
          ctx = effective_execution_context delegated execution_context;
          unatt = (ctx \<noteq> CTX_INTERACTIVE);
          key = context_key unatt;
          policy = context_policy_of gates unatt
      in if cls \<notin> set GATED_CLASSES then answer Deny (NoPolicyFor cls)
         else if scope \<notin> set KNOWN_SCOPES then answer Deny (TargetUnresolved cls scope)
         else (case ceiling_refusal delegated cls of
           Some t \<Rightarrow> answer Deny (OutsideCeiling t)
         | None \<Rightarrow>
             (if cls = CREDENTIAL_ACCESS
              then evaluate_credential_access gates ctx None (Some delegated)
              else if cls = MUTATE_INVENTORY
              then answer (decision_for (mutate_inventory policy))
                     (InventoryPolicy cls key (mutate_inventory policy))
              else (let configured = policy_at (mutate_remote policy) scope;
                        asks = (configured = ''grant'' \<or> configured = ''approve'');
                        (hits, cache) = (if asks
                           then find_grant_hits gates now key hosts command servers (Some [])
                           else (\<lparr>live = None, expired = None\<rparr>, Some []))
                    in case live hits of
                         Some gid \<Rightarrow>
                           (answer Allow (GrantCovers gid))
                             \<lparr>matched_grant := Some gid, resolved_targets := hosts\<rparr>
                       | None \<Rightarrow>
                           (if configured = ''grant''
                            then answer Deny (MissingGrant cls scope key hosts (expired hits))
                            else if decision_for configured = Deny
                            then (let (hits, _) = find_grant_hits gates now key hosts command servers cache
                                  in case live hits of
                                       Some gid \<Rightarrow> answer Deny (GrantShadowed gid key scope configured)
                                     | None \<Rightarrow>
                                         (if unatt
                                          then answer Deny (MissingGrant cls scope key hosts (expired hits))
                                          else answer Deny (DenyAtScope cls scope key (expired hits))))
                            else answer (decision_for configured)
                                   (PolicyAtScope cls scope configured (expired hits)))))))"

definition evaluate_connector ::
  "gates_config \<Rightarrow> microseconds \<Rightarrow> string \<Rightarrow> string \<Rightarrow> string \<Rightarrow> string \<Rightarrow> delegation option \<Rightarrow> decision" where
  "evaluate_connector gates now cls execution_context connector operation delegation =
     (let delegated = (case delegation of None \<Rightarrow> no_delegation | Some d \<Rightarrow> d);
          unatt = is_unattended delegated execution_context;
          key = context_key unatt;
          policy = context_policy_of gates unatt
      in if cls = READ then answer Allow (ConnectorRead connector operation)
         else (case ceiling_refusal delegated cls of
           Some t \<Rightarrow> answer Deny (OutsideCeiling t)
         | None \<Rightarrow>
             (if cls \<noteq> MUTATE_REMOTE then answer Deny (ConnectorClass connector operation cls)
              else (let configured = pol_host (mutate_remote policy);
                        asks = (configured = ''grant'' \<or> configured = ''approve'');
                        hits = (if asks then connector_grant_hits gates now key connector operation
                                else \<lparr>live = None, expired = None\<rparr>)
                    in case live hits of
                         Some gid \<Rightarrow>
                           (answer Allow (ConnectorGrantCovers gid connector operation))
                             \<lparr>matched_grant := Some gid\<rparr>
                       | None \<Rightarrow>
                           (if configured = ''grant''
                            then answer Deny (ConnectorMissingGrant connector operation key (expired hits))
                            else if decision_for configured = Deny
                            then (let hits = connector_grant_hits gates now key connector operation
                                  in case live hits of
                                       Some gid \<Rightarrow>
                                         answer Deny (ConnectorGrantShadowed gid connector operation key configured)
                                     | None \<Rightarrow>
                                         answer Deny (ConnectorDenied connector operation key configured (expired hits)))
                            else answer (decision_for configured)
                                   (ConnectorPolicy connector operation cls configured (expired hits)))))))"


section \<open>What a scan of the grants finds\<close>

text \<open>The targets one grant host stands for, without the cache; \<open>None\<close> when it does not resolve.\<close>

definition host_targets :: "inventory_view \<Rightarrow> string \<Rightarrow> string list option" where
  "host_targets view entry = (case fst view entry of None \<Rightarrow> Some [entry] | Some srv \<Rightarrow> snd view srv)"

definition grant_targets :: "inventory_view option \<Rightarrow> standing_grant \<Rightarrow> string list" where
  "grant_targets servers g = (case servers of
     None \<Rightarrow> grant_hosts g
   | Some view \<Rightarrow> concat (map (\<lambda>e. case host_targets view e of None \<Rightarrow> [] | Some hs \<Rightarrow> hs) (grant_hosts g)))"

definition grant_covers ::
  "standing_grant \<Rightarrow> string list \<Rightarrow> string \<Rightarrow> inventory_view option \<Rightarrow> bool" where
  "grant_covers g hosts command servers \<longleftrightarrow>
     command \<in> set (grant_commands g) \<and> hosts \<noteq> [] \<and> \<not> is_connector_grant g \<and>
     set hosts \<subseteq> set (grant_targets servers g)"

definition cache_sound :: "inventory_view option \<Rightarrow> grant_cache \<Rightarrow> bool" where
  "cache_sound servers cache \<longleftrightarrow>
     (\<forall>view e hs. servers = Some view \<longrightarrow> Option.bind cache (\<lambda>d. dict_get d e) = Some hs \<longrightarrow>
        host_targets view e = Some hs)"

lemma cache_sound_empty [simp]: "cache_sound servers None" "cache_sound servers (Some [])"
  by (simp_all add: cache_sound_def)

lemma cache_put_sound:
  "cache_sound (Some view) cache \<Longrightarrow> host_targets view e = Some hs \<Longrightarrow>
   cache_sound (Some view) (cache_put e hs cache)"
  by (cases cache) (auto simp: cache_sound_def cache_put_def split: if_splits)

lemma resolved_grant_hosts_spec:
  "cache_sound (Some view) cache \<Longrightarrow>
   fst (resolved_grant_hosts view es cache) =
     concat (map (\<lambda>e. case host_targets view e of None \<Rightarrow> [] | Some hs \<Rightarrow> hs) es) \<and>
   cache_sound (Some view) (snd (resolved_grant_hosts view es cache))"
proof (induction es arbitrary: cache)
  case (Cons e es)
  show ?case
  proof (cases "Option.bind cache (\<lambda>d. dict_get d e)")
    case (Some hs)
    with Cons.prems have "host_targets view e = Some hs" by (simp add: cache_sound_def)
    with Some Cons show ?thesis by (simp add: case_prod_beta)
  next
    case None
    then show ?thesis
      using Cons.IH [OF Cons.prems] Cons.IH [OF cache_put_sound [OF Cons.prems]]
      by (auto simp: case_prod_beta host_targets_def split: option.splits)
  qed
qed simp

lemma grant_matches_spec:
  assumes "cache_sound servers cache"
  shows "fst (grant_matches g hosts command servers cache) = grant_covers g hosts command servers"
    and "cache_sound servers (snd (grant_matches g hosts command servers cache))"
  using assms
  by (auto simp: grant_matches_def grant_covers_def grant_targets_def list_all_iff subset_iff
      case_prod_beta resolved_grant_hosts_spec split: option.splits)

text \<open>A grant that applies in the context \<open>key\<close> and covers, by its index in the list.\<close>

definition applies :: "string \<Rightarrow> (standing_grant \<Rightarrow> bool) \<Rightarrow> nat \<times> standing_grant \<Rightarrow> bool" where
  "applies key covers ig \<longleftrightarrow> key \<in> set (grant_contexts (snd ig)) \<and> covers (snd ig)"

definition first_live ::
  "microseconds \<Rightarrow> string \<Rightarrow> (standing_grant \<Rightarrow> bool) \<Rightarrow> nat \<Rightarrow> standing_grant list \<Rightarrow> string option" where
  "first_live now key covers i gs =
     map_option (\<lambda>(j, g). grant_label j g)
       (find (\<lambda>ig. applies key covers ig \<and> \<not> is_expired (snd ig) now) (enumerate i gs))"

lemma scan_live:
  assumes "\<And>g c. sound c \<Longrightarrow> fst (matches g c) = covers g \<and> sound (snd (matches g c))" and "sound cache"
  shows "live (fst (scan_grants now key matches i gs cache ex)) = first_live now key covers i gs"
    and "sound (snd (scan_grants now key matches i gs cache ex))"
  using assms(2)
  by (induction gs arbitrary: i cache ex)
     (auto simp: first_live_def applies_def case_prod_beta assms(1) [THEN conjunct1]
       assms(1) [THEN conjunct2])

lemma scan_expired:
  assumes "\<And>g c. sound c \<Longrightarrow> fst (matches g c) = covers g \<and> sound (snd (matches g c))" and "sound cache"
    and "first_live now key covers i gs = None"
  shows "expired (fst (scan_grants now key matches i gs cache ex)) =
    (if ex = None
     then map_option (\<lambda>(j, g). (grant_label j g, grant_expires g)) (find (applies key covers) (enumerate i gs))
     else ex)"
  using assms(2,3)
  by (induction gs arbitrary: i cache ex)
     (auto simp: first_live_def applies_def case_prod_beta assms(1) [THEN conjunct1]
       assms(1) [THEN conjunct2] split: if_splits)

lemma first_live_iff:
  "first_live now key covers i gs \<noteq> None \<longleftrightarrow>
   (\<exists>g \<in> set gs. key \<in> set (grant_contexts g) \<and> covers g \<and> \<not> is_expired g now)"
  by (induction gs arbitrary: i) (auto simp: first_live_def applies_def)

lemma command_hits:
  assumes "cache_sound servers cache"
  shows "live (fst (find_grant_hits gates now key hosts command servers cache)) =
      first_live now key (\<lambda>g. grant_covers g hosts command servers) 0 (standing_grants gates)"
    and "cache_sound servers (snd (find_grant_hits gates now key hosts command servers cache))"
  unfolding find_grant_hits_def
  by (rule scan_live [where sound = "cache_sound servers"];
      simp add: assms grant_matches_spec)+

lemma connector_hits:
  "live (connector_grant_hits gates now key connector operation) =
     first_live now key (\<lambda>g. connector_grant_matches g connector operation) 0 (standing_grants gates)"
  unfolding connector_grant_hits_def
  by (rule scan_live [where sound = "\<lambda>_. True"]) simp_all


section \<open>The contract of a gate\<close>

text \<open>
  What a gate with a policy matrix promises: a live grant that covers the action allows it where the
  matrix says \<open>grant\<close> or \<open>approve\<close>; everywhere else the matrix value decides alone. \<open>evaluate\<close>
  and \<open>evaluate_connector\<close> both keep it.
\<close>

locale matrix_gate =
  fixes decide :: "gates_config \<Rightarrow> microseconds \<Rightarrow> 'a \<Rightarrow> outcome"
    and configured :: "gates_config \<Rightarrow> 'a \<Rightarrow> string"
    and key :: "'a \<Rightarrow> string"
    and covers :: "standing_grant \<Rightarrow> 'a \<Rightarrow> bool"
  assumes decide_cases: "decide g now a =
      (if configured g a \<in> {''grant'', ''approve''} \<and>
          (\<exists>gr \<in> set (standing_grants g).
             key a \<in> set (grant_contexts gr) \<and> covers gr a \<and> \<not> is_expired gr now)
       then Allow else decision_for (configured g a))"
    and configured_grants: "configured (g\<lparr>standing_grants := gs\<rparr>) a = configured g a"
begin

lemma allow_source:
  "decide g now a = Allow \<longleftrightarrow> configured g a = ''allow'' \<or>
     (configured g a \<in> {''grant'', ''approve''} \<and>
      (\<exists>gr \<in> set (standing_grants g).
         key a \<in> set (grant_contexts gr) \<and> covers gr a \<and> \<not> is_expired gr now))"
  by (auto simp: decide_cases decision_for_def)

lemma deny_wins: "configured g a \<notin> {''allow'', ''approve'', ''grant''} \<Longrightarrow> decide g now a = Deny"
  by (auto simp: decide_cases decision_for_def)

lemma grants_mono:
  "set gs \<subseteq> set (standing_grants g) \<Longrightarrow> decide (g\<lparr>standing_grants := gs\<rparr>) now a = Allow \<Longrightarrow>
   decide g now a = Allow"
  unfolding allow_source configured_grants by auto

lemma expired_absent:
  "decide (g\<lparr>standing_grants := filter (\<lambda>gr. \<not> is_expired gr now) (standing_grants g)\<rparr>) now a =
   decide g now a"
  unfolding decide_cases configured_grants by auto

lemma later_narrows:
  "now \<le> later \<Longrightarrow> decide g later a = Allow \<Longrightarrow> decide g now a = Allow"
  unfolding allow_source using is_expired_mono by blast

lemma asks_only_on_approve: "decide g now a = Approve \<Longrightarrow> configured g a = ''approve''"
  by (auto simp: decide_cases decision_for_def split: if_splits)

end

record command_action =
  act_class :: string
  act_scope :: string
  act_context :: string
  act_hosts :: "string list"
  act_command :: string
  act_servers :: "inventory_view option"
  act_delegation :: "delegation option"

record connector_call =
  call_class :: string
  call_context :: string
  call_connector :: string
  call_operation :: string
  call_delegation :: "delegation option"

definition delegated_by_action :: "delegation option \<Rightarrow> delegation" where
  "delegated_by_action d = (case d of None \<Rightarrow> no_delegation | Some x \<Rightarrow> x)"

definition decide_command :: "gates_config \<Rightarrow> microseconds \<Rightarrow> command_action \<Rightarrow> decision" where
  "decide_command g now a = evaluate g now (act_class a) (act_scope a) (act_context a) (act_hosts a)
     (act_command a) (act_servers a) (act_delegation a)"

definition command_unattended :: "command_action \<Rightarrow> bool" where
  "command_unattended a = is_unattended (delegated_by_action (act_delegation a)) (act_context a)"

text \<open>The matrix value an action falls under, \<open>deny\<close> where the gate refuses before the matrix.\<close>

definition command_configured :: "gates_config \<Rightarrow> command_action \<Rightarrow> string" where
  "command_configured g a =
     (let p = context_policy_of g (command_unattended a)
      in if act_class a \<notin> set GATED_CLASSES \<or> act_scope a \<notin> set KNOWN_SCOPES \<or>
            ceiling_refusal (delegated_by_action (act_delegation a)) (act_class a) \<noteq> None
         then ''deny''
         else if act_class a = CREDENTIAL_ACCESS
         then (if credential_access p = ''allow'' then ''allow'' else ''deny'')
         else if act_class a = MUTATE_INVENTORY
         then (if mutate_inventory p = ''grant'' then ''deny'' else mutate_inventory p)
         else policy_at (mutate_remote p) (act_scope a))"

definition command_covered :: "standing_grant \<Rightarrow> command_action \<Rightarrow> bool" where
  "command_covered gr a \<longleftrightarrow> act_class a = MUTATE_REMOTE \<and>
     grant_covers gr (act_hosts a) (act_command a) (act_servers a)"

definition decide_connector :: "gates_config \<Rightarrow> microseconds \<Rightarrow> connector_call \<Rightarrow> decision" where
  "decide_connector g now a = evaluate_connector g now (call_class a) (call_context a)
     (call_connector a) (call_operation a) (call_delegation a)"

definition connector_unattended :: "connector_call \<Rightarrow> bool" where
  "connector_unattended a = is_unattended (delegated_by_action (call_delegation a)) (call_context a)"

definition connector_configured :: "gates_config \<Rightarrow> connector_call \<Rightarrow> string" where
  "connector_configured g a =
     (if call_class a = READ then ''allow''
      else if ceiling_refusal (delegated_by_action (call_delegation a)) (call_class a) \<noteq> None \<or>
              call_class a \<noteq> MUTATE_REMOTE then ''deny''
      else pol_host (mutate_remote (context_policy_of g (connector_unattended a))))"

definition connector_covered :: "standing_grant \<Rightarrow> connector_call \<Rightarrow> bool" where
  "connector_covered gr a \<longleftrightarrow> call_class a = MUTATE_REMOTE \<and>
     connector_grant_matches gr (call_connector a) (call_operation a)"

lemma outcome_answer [simp]: "outcome (answer oc r) = oc" "reason (answer oc r) = r"
  "matched_grant (answer oc r) = None" "resolved_targets (answer oc r) = []"
  "approval_id (answer oc r) = None"
  by (simp_all add: answer_def)

lemma context_policy_grants [simp]:
  "context_policy_of (g\<lparr>standing_grants := gs\<rparr>) u = context_policy_of g u"
  by (simp add: context_policy_of_def)

lemma credential_unauthorized_allow:
  "outcome (evaluate_credential_access g ctx None d) =
     (if ceiling_refusal (delegated_by_action d) CREDENTIAL_ACCESS = None \<and>
         credential_access (context_policy_of g (is_unattended (delegated_by_action d) ctx)) = ''allow''
      then Allow else Deny)"
  by (simp add: evaluate_credential_access_def Let_def delegated_by_action_def no_authorization_def
      split: option.splits)

lemma is_unattended_effective [simp]:
  "is_unattended d (effective_execution_context d c) = is_unattended d c"
  by (simp add: is_unattended_def)

lemma decision_for_simps [simp]:
  "decision_for ''allow'' = Allow" "decision_for ''approve'' = Approve"
  "decision_for ''grant'' = Deny" "decision_for ''deny'' = Deny"
  by (simp_all add: decision_for_def)

lemma decide_command_outcome:
  "outcome (decide_command g now a) =
    (if command_configured g a \<in> {''grant'', ''approve''} \<and>
        (\<exists>gr \<in> set (standing_grants g). context_key (command_unattended a) \<in> set (grant_contexts gr) \<and>
           command_covered gr a \<and> \<not> is_expired gr now)
     then Allow else decision_for (command_configured g a))"
proof -
  let ?d = "delegated_by_action (act_delegation a)"
  let ?u = "command_unattended a"
  let ?p = "context_policy_of g ?u"
  consider (refused) "act_class a \<notin> set GATED_CLASSES \<or> act_scope a \<notin> set KNOWN_SCOPES \<or>
      ceiling_refusal ?d (act_class a) \<noteq> None"
    | (open_) "act_class a \<in> set GATED_CLASSES" "act_scope a \<in> set KNOWN_SCOPES"
      "ceiling_refusal ?d (act_class a) = None"
    by blast
  then show ?thesis
  proof cases
    case refused
    then have "outcome (decide_command g now a) = Deny"
      unfolding decide_command_def evaluate_def Let_def delegated_by_action_def [symmetric]
      by (cases "ceiling_refusal ?d (act_class a)") simp_all
    with refused show ?thesis by (simp add: command_configured_def)
  next
    case open_
    consider "act_class a = CREDENTIAL_ACCESS" | "act_class a = MUTATE_INVENTORY" |
      (remote) "act_class a = MUTATE_REMOTE"
      using open_(1) by (auto simp: GATED_CLASSES_def)
    then show ?thesis
    proof cases
      case 1
      with open_ show ?thesis
        by (simp add: decide_command_def evaluate_def Let_def credential_unauthorized_allow
            command_configured_def command_unattended_def command_covered_def delegated_by_action_def)
    next
      case 2
      with open_ show ?thesis
        by (simp add: decide_command_def evaluate_def Let_def
            command_configured_def command_unattended_def command_covered_def delegated_by_action_def
            is_unattended_def)
    next
      case remote
      let ?conf = "policy_at (mutate_remote ?p) (act_scope a)"
      have ok: "act_class a = MUTATE_REMOTE" "MUTATE_REMOTE \<in> set GATED_CLASSES"
        "act_scope a \<in> set KNOWN_SCOPES" "ceiling_refusal ?d MUTATE_REMOTE = None"
        using open_ remote by simp_all
      then have conf: "command_configured g a = ?conf" by (simp add: command_configured_def)
      let ?fl = "first_live now (context_key ?u)
          (\<lambda>gr. grant_covers gr (act_hosts a) (act_command a) (act_servers a)) 0 (standing_grants g)"
      have cov: "(?fl \<noteq> None) = (\<exists>gr \<in> set (standing_grants g). context_key ?u \<in> set (grant_contexts gr) \<and>
           command_covered gr a \<and> \<not> is_expired gr now)"
        unfolding first_live_iff by (simp add: command_covered_def remote)
      have hits: "live (fst (find_grant_hits g now k (act_hosts a) (act_command a) (act_servers a) (Some [])))
          = first_live now k (\<lambda>gr. grant_covers gr (act_hosts a) (act_command a) (act_servers a)) 0
              (standing_grants g)" for k
        by (rule command_hits) simp
      have u: "(effective_execution_context ?d (act_context a) \<noteq> CTX_INTERACTIVE) = ?u"
        by (simp add: command_unattended_def is_unattended_def)
      have "outcome (decide_command g now a) =
          (if (?conf = ''grant'' \<or> ?conf = ''approve'') \<and> ?fl \<noteq> None then Allow else decision_for ?conf)"
        using ok
        unfolding decide_command_def evaluate_def Let_def delegated_by_action_def [symmetric] u
        by (auto simp: hits case_prod_beta split: option.splits)
      then show ?thesis unfolding conf cov by auto
    qed
  qed
qed

lemma decide_connector_outcome:
  "outcome (decide_connector g now a) =
    (if connector_configured g a \<in> {''grant'', ''approve''} \<and>
        (\<exists>gr \<in> set (standing_grants g). context_key (connector_unattended a) \<in> set (grant_contexts gr) \<and>
           connector_covered gr a \<and> \<not> is_expired gr now)
     then Allow else decision_for (connector_configured g a))"
proof (cases "call_class a = MUTATE_REMOTE \<and>
    ceiling_refusal (delegated_by_action (call_delegation a)) (call_class a) = None")
  case False
  then show ?thesis
    by (auto simp: decide_connector_def evaluate_connector_def Let_def connector_configured_def
        delegated_by_action_def split: option.splits)
next
  case True
  let ?u = "connector_unattended a"
  let ?conf = "pol_host (mutate_remote (context_policy_of g ?u))"
  let ?fl = "first_live now (context_key ?u)
    (\<lambda>gr. connector_grant_matches gr (call_connector a) (call_operation a)) 0 (standing_grants g)"
  have ok: "call_class a = MUTATE_REMOTE"
    "ceiling_refusal (delegated_by_action (call_delegation a)) MUTATE_REMOTE = None"
    using True by auto
  then have conf: "connector_configured g a = ?conf" by (simp add: connector_configured_def)
  have cov: "(?fl \<noteq> None) = (\<exists>gr \<in> set (standing_grants g). context_key ?u \<in> set (grant_contexts gr) \<and>
       connector_covered gr a \<and> \<not> is_expired gr now)"
    unfolding first_live_iff by (simp add: connector_covered_def True)
  have "outcome (decide_connector g now a) =
      (if (?conf = ''grant'' \<or> ?conf = ''approve'') \<and> ?fl \<noteq> None then Allow else decision_for ?conf)"
    using ok unfolding decide_connector_def evaluate_connector_def Let_def
      delegated_by_action_def [symmetric] connector_unattended_def [symmetric]
    by (auto simp: connector_hits split: option.splits)
  then show ?thesis unfolding conf cov by auto
qed

lemma command_configured_grants [simp]:
  "command_configured (g\<lparr>standing_grants := gs\<rparr>) a = command_configured g a"
  by (simp add: command_configured_def)

lemma connector_configured_grants [simp]:
  "connector_configured (g\<lparr>standing_grants := gs\<rparr>) a = connector_configured g a"
  unfolding connector_configured_def context_policy_grants ..

interpretation command_gate: matrix_gate "\<lambda>g now a. outcome (decide_command g now a)"
  command_configured "\<lambda>a. context_key (command_unattended a)" command_covered
  by unfold_locales (rule decide_command_outcome, simp)

interpretation connector_gate: matrix_gate "\<lambda>g now a. outcome (decide_connector g now a)"
  connector_configured "\<lambda>a. context_key (connector_unattended a)" connector_covered
  by unfold_locales (rule decide_connector_outcome, simp)


section \<open>Properties\<close>

lemma scan_pure:
  assumes "\<And>g c. cache_sound servers c \<Longrightarrow> fst (matches g c) = covers g \<and> cache_sound servers (snd (matches g c))"
    and "cache_sound servers c"
  shows "fst (scan_grants now key matches i gs c ex) =
    fst (scan_grants now key (\<lambda>g c. (covers g, c)) i gs None ex)"
  using assms(2) by (induction gs arbitrary: i c ex) (simp_all add: case_prod_beta assms(1))

text \<open>C26. When the gate allows an action outright: the configured value is \<open>allow\<close>, or it is \<open>grant\<close> or \<open>approve\<close>, the
  class is \<open>mutate.remote\<close> and some standing grant of this context, not expired and not a connector grant, holds the exact
  command and covers every resolved host, of which there is one at least. Nothing else allows. The configured value is
  \<open>deny\<close> for an unknown class or scope and for a class outside the ceiling, and otherwise the entry of the matrix for the
  context and the class, at the scope of the action for \<open>mutate.remote\<close>.\<close>

theorem command_allowed_iff:
  "outcome (decide_command g now a) = Allow \<longleftrightarrow> command_configured g a = ''allow'' \<or>
     (command_configured g a \<in> {''grant'', ''approve''} \<and> act_class a = MUTATE_REMOTE \<and>
      list_ex (\<lambda>gr. context_key (command_unattended a) \<in> set (grant_contexts gr) \<and>
         act_command a \<in> set (grant_commands gr) \<and> act_hosts a \<noteq> [] \<and> \<not> is_connector_grant gr \<and>
         set (act_hosts a) \<subseteq> set (grant_targets (act_servers a) gr) \<and> \<not> is_expired gr now)
        (standing_grants g))"
  unfolding command_gate.allow_source list_ex_iff command_covered_def grant_covers_def by blast

text \<open>Under a schema-valid policy an action that resolves to scope \<open>all\<close> is refused, whoever asks
  and whatever grants exist.\<close>

theorem all_scope_refused:
  assumes "valid_gates g"
  shows "outcome (evaluate g now MUTATE_REMOTE SCOPE_ALL ctx hosts command servers del) = Deny"
proof -
  let ?a = "\<lparr>act_class = MUTATE_REMOTE, act_scope = SCOPE_ALL, act_context = ctx, act_hosts = hosts,
    act_command = command, act_servers = servers, act_delegation = del\<rparr>"
  have all: "policy_at (mutate_remote (context_policy_of g u)) SCOPE_ALL = ''deny''" for u
    using assms by (cases u) (simp_all add: valid_gates_def valid_context_policy_def
        valid_scope_policy_def context_policy_of_def policy_at_def scope_defs)
  then have "command_configured g ?a = ''deny''"
    by (simp add: command_configured_def Let_def)
  then have "outcome (decide_command g now ?a) = Deny" by (intro command_gate.deny_wins) simp
  then show ?thesis by (simp add: decide_command_def)
qed

theorem all_scope_refused_witness:
  "outcome (evaluate default_gates 0 MUTATE_REMOTE SCOPE_ALL CTX_INTERACTIVE [''a'', ''b''] ''uptime'' None None) = Deny"
  by (rule all_scope_refused [OF default_gates_valid])

text \<open>An expired grant decides nothing: with every expired grant removed from the policy, the gate
  gives each command and each connector call the outcome it gives with them present.\<close>

theorem expired_grants_absent:
  "outcome (decide_command (g\<lparr>standing_grants := filter (\<lambda>x. \<not> is_expired x now) (standing_grants g)\<rparr>) now a)
     = outcome (decide_command g now a)
   \<and> outcome (decide_connector (g\<lparr>standing_grants := filter (\<lambda>x. \<not> is_expired x now) (standing_grants g)\<rparr>) now c)
     = outcome (decide_connector g now c)"
  using command_gate.expired_absent connector_gate.expired_absent by blast

text \<open>Time only closes the gate: what is allowed at a later instant under a policy is allowed at
  every earlier one, so a grant never starts to apply by waiting.\<close>

theorem later_never_wider:
  assumes "now \<le> later"
    and "outcome (evaluate g later cls scope ctx hosts command servers del) = Allow"
  shows "outcome (evaluate g now cls scope ctx hosts command servers del) = Allow"
  using command_gate.later_narrows [OF assms(1), where g = g and a = "\<lparr>act_class = cls, act_scope = scope,
    act_context = ctx, act_hosts = hosts, act_command = command, act_servers = servers,
    act_delegation = del\<rparr>"] assms(2)
  by (simp add: decide_command_def)

definition sample_grant :: standing_grant where
  "sample_grant = \<lparr>grant_id = Some ''g1'', grant_contexts = [''unattended''], grant_hosts = [''10.0.0.5''],
     grant_commands = [''uptime''], grant_connectors = [], grant_operations = [],
     grant_expires = Some 100, grant_note = None\<rparr>"

definition sample_gates :: gates_config where
  "sample_gates = default_gates\<lparr>standing_grants := [sample_grant],
     unattended := default_unattended\<lparr>mutate_remote := \<lparr>pol_host = ''grant'', pol_group = ''deny'',
       pol_all = ''deny''\<rparr>\<rparr>\<rparr>"

theorem later_never_wider_witness:
  "outcome (evaluate sample_gates 5 MUTATE_REMOTE SCOPE_HOST CTX_AUTOMATION [''10.0.0.5''] ''uptime'' None None) = Allow"
  by (rule later_never_wider [where later = 50], simp, code_simp)

text \<open>The per-decision cache of resolved grant hosts changes nothing: with it the gate finds
  the same live grant and reports the same expired one as when every grant host resolves afresh.\<close>

theorem grant_cache_transparent:
  "fst (find_grant_hits gates now key hosts command servers (Some [])) =
   fst (find_grant_hits gates now key hosts command servers None)"
proof -
  have "fst (find_grant_hits gates now key hosts command servers c) =
    fst (scan_grants now key (\<lambda>g c. (grant_covers g hosts command servers, c)) 0 (standing_grants gates) None None)"
    if "cache_sound servers c" for c
    unfolding find_grant_hits_def
    by (rule scan_pure [where servers = servers]) (simp_all add: grant_matches_spec that)
  then show ?thesis by simp
qed

text \<open>One grant never covers both kinds of action: a grant that covers some command covers no
  connector call, and the other way round.\<close>

theorem grant_kinds_disjoint:
  "\<not> (grant_covers gr hosts command servers \<and> connector_grant_matches gr connector operation)"
  by (auto simp: grant_covers_def connector_grant_matches_def is_connector_grant_def)

text \<open>A decryption is never a second prompt, and the whole table of when it is allowed:
  the key says \<open>allow\<close>; or it says \<open>approve\<close> or \<open>grant\<close> and a standing grant or a matrix \<open>allow\<close>
  carried the action; or it says \<open>approve\<close> and a human approval did; in each case within the ceiling.\<close>

theorem credential_access_table:
  "outcome (evaluate_credential_access g ctx auth del) \<noteq> Approve \<and>
   (outcome (evaluate_credential_access g ctx auth del) = Allow \<longleftrightarrow>
      ceiling_refusal (delegated_by_action del) CREDENTIAL_ACCESS = None \<and>
      (let configured = credential_access (context_policy_of g (is_unattended (delegated_by_action del) ctx));
           carried = (case auth of None \<Rightarrow> no_authorization | Some a \<Rightarrow> a)
       in configured = ''allow'' \<or>
          (configured \<in> {''approve'', ''grant''} \<and>
           ((\<exists>gid. auth_grant carried = Some gid) \<or> auth_policy carried = Some ''allow'')) \<or>
          (configured = ''approve'' \<and> (\<exists>n. auth_approval carried = Some n))))"
  unfolding evaluate_credential_access_def Let_def delegated_by_action_def [symmetric]
  by (auto split: option.splits)

text \<open>C36. A peer never exceeds the turn that spawned it: a delegated action that is not refused is of
  a class in the ceiling, whatever the matrix and the grants say.\<close>

theorem ceiling_binds:
  assumes "is_delegated d" and "inherited_capabilities d \<noteq> []"
    and "outcome (evaluate g now cls scope ctx hosts command servers (Some d)) \<noteq> Deny"
  shows "cls \<in> set (inherited_capabilities d)"
proof (rule ccontr)
  assume "cls \<notin> set (inherited_capabilities d)"
  with assms(1,2) have "ceiling_refusal d cls \<noteq> None" by (simp add: ceiling_refusal_def)
  then have "outcome (decide_command g now \<lparr>act_class = cls, act_scope = scope, act_context = ctx,
    act_hosts = hosts, act_command = command, act_servers = servers, act_delegation = Some d\<rparr>) = Deny"
    by (intro command_gate.deny_wins) (simp add: command_configured_def Let_def delegated_by_action_def)
  with assms(3) show False by (simp add: decide_command_def)
qed

theorem ceiling_binds_witness:
  "MUTATE_REMOTE \<in> {READ, MUTATE_REMOTE}"
proof -
  let ?d = "\<lparr>acting_agent = ''peer'', delegated_by = ''main'', origin_actor = ''ana'',
    inherited_capabilities = [READ, MUTATE_REMOTE]\<rparr>"
  have "MUTATE_REMOTE \<in> set (inherited_capabilities ?d)"
  proof (rule ceiling_binds)
    show "is_delegated ?d" by (simp add: is_delegated_def)
    show "inherited_capabilities ?d \<noteq> []" by simp
    show "outcome (evaluate default_gates 0 MUTATE_REMOTE SCOPE_HOST CTX_SUBAGENT [''h''] ''uptime'' None
        (Some ?d)) \<noteq> Deny" by code_simp
  qed
  then show ?thesis by simp
qed

end
