(* ===== verification/Digest.thy ===== *)
theory Digest
  imports Prelude
begin

text \<open>
  The binding digest of an approval: \<open>command_digest\<close> of
  \<open>nanoinfra/agent/tools/capabilities.py\<close> and \<open>compute_target_digest\<close> of
  \<open>nanoinfra/gates/tokens.py\<close>, with the JSON text and the UTF-8 bytes they hash.

  SHA-256 is the parameter \<open>sha\<close>, from bytes to hex text. Nothing is assumed of it: the binding
  theorem says that two actions with one digest are one action, or two different byte strings
  with one hash are in hand.
\<close>

section \<open>Bytes and JSON text\<close>

text \<open>\<open>str.encode()\<close> for code points below 256: one byte, or two from 128 on.\<close>

definition utf8_char :: "char \<Rightarrow> string" where
  "utf8_char c = (let n = (of_char c :: nat) in
     if n < 128 then [c] else [char_of (192 + n div 64), char_of (128 + n mod 64)])"

definition utf8 :: "string \<Rightarrow> string" where
  "utf8 s = concat (map utf8_char s)"

definition quote :: char where "quote = CHR 0x22"
definition backslash :: char where "backslash = CHR 0x5C"

definition hex_digit :: "nat \<Rightarrow> char" where
  "hex_digit n = char_of (if n < 10 then 48 + n else 87 + n)"

text \<open>
  One character as \<open>json.dumps\<close> writes it with \<open>ensure_ascii\<close>, its default: the short escapes,
  printable ASCII as itself, everything else as \<open>\u\<close> and four hex digits.
\<close>

definition json_char :: "char \<Rightarrow> string" where
  "json_char c = (let n = (of_char c :: nat) in
     if c = quote \<or> c = backslash then [backslash, c]
     else if n = 8 then [backslash, CHR ''b'']
     else if n = 9 then [backslash, CHR ''t'']
     else if n = 10 then [backslash, CHR ''n'']
     else if n = 12 then [backslash, CHR ''f'']
     else if n = 13 then [backslash, CHR ''r'']
     else if 32 \<le> n \<and> n \<le> 126 then [c]
     else [backslash, CHR ''u'', CHR ''0'', CHR ''0'', hex_digit (n div 16), hex_digit (n mod 16)])"

definition json_string :: "string \<Rightarrow> string" where
  "json_string s = quote # concat (map json_char s) @ [quote]"

text \<open>\<open>json.dumps([digest, hosts], separators=(",", ":"))\<close>\<close>

definition json_target :: "string \<Rightarrow> string list \<Rightarrow> string" where
  "json_target d hosts =
     ''['' @ json_string d @ '',['' @ join_with '','' (map json_string hosts) @ '']]''"


section \<open>The digests\<close>

definition command_digest :: "(string \<Rightarrow> string) \<Rightarrow> string \<Rightarrow> digest" where
  "command_digest sha command = ''sha256:'' @ sha (utf8 command)"

text \<open>
  \<open>compute_target_digest\<close>: the hosts sort and deduplicate, and no host at all raises.
\<close>

definition compute_target_digest ::
  "(string \<Rightarrow> string) \<Rightarrow> string \<Rightarrow> string list \<Rightarrow> py_exn + digest" where
  "compute_target_digest sha command hosts =
     (let resolved = sorted_set hosts
      in if resolved = [] then Inl ValueError
         else Inr (''sha256:'' @ sha (utf8 (json_target (command_digest sha command) resolved))))"

definition hash_collision :: "(string \<Rightarrow> string) \<Rightarrow> bool" where
  "hash_collision sha \<longleftrightarrow> (\<exists>x y. x \<noteq> y \<and> sha x = sha y)"


section \<open>Prefix codes\<close>

text \<open>
  Both encodings are prefix codes: a decoder reads one symbol back off the front of any text that
  starts with its code. That alone makes the encoding of a whole list injective, with or
  without a terminator behind it. The decoders are proof devices and model no code.
\<close>

locale prefix_code =
  fixes enc :: "'a \<Rightarrow> 'b list" and dec :: "'b list \<Rightarrow> ('a \<times> 'b list) option"
  assumes dec_enc: "dec (enc a @ r) = Some (a, r)"
    and dec_Nil: "dec [] = None"
begin

lemma enc_nonempty: "enc a \<noteq> []"
  using dec_enc [of a "[]"] dec_Nil by auto

lemma enc_append_inj: "enc a @ r = enc b @ r' \<Longrightarrow> a = b \<and> r = r'"
  by (metis Pair_inject dec_enc option.inject)

lemma code_inj: "concat (map enc xs) = concat (map enc ys) \<Longrightarrow> xs = ys"
proof (induction xs arbitrary: ys)
  case Nil
  then show ?case by (cases ys) (auto simp: enc_nonempty)
next
  case (Cons x xs)
  then obtain y zs where ys: "ys = y # zs" by (cases ys) (auto simp: enc_nonempty)
  with Cons.prems have "x = y \<and> concat (map enc xs) = concat (map enc zs)"
    by (intro enc_append_inj) simp
  with ys Cons.IH show ?case by blast
qed

lemma terminated_inj:
  assumes stop: "\<And>r. dec (q # r) = None"
  shows "concat (map enc xs) @ q # r = concat (map enc ys) @ q # r' \<Longrightarrow> xs = ys \<and> r = r'"
proof (induction xs arbitrary: ys)
  case Nil
  then show ?case
    by (cases ys) (auto, metis dec_enc option.distinct(1) stop)
next
  case (Cons x xs)
  show ?case
  proof (cases ys)
    case Nil
    with Cons.prems have "enc x @ concat (map enc xs) @ q # r = q # r'" by simp
    then show ?thesis by (metis dec_enc option.distinct(1) stop)
  next
    case (Cons y zs)
    with Cons.prems have "enc x @ (concat (map enc xs) @ q # r) = enc y @ (concat (map enc zs) @ q # r')"
      by simp
    then have "x = y \<and> concat (map enc xs) @ q # r = concat (map enc zs) @ q # r'"
      by (rule enc_append_inj)
    with Cons Cons.IH show ?thesis by blast
  qed
qed

end

definition utf8_dec :: "string \<Rightarrow> (char \<times> string) option" where
  "utf8_dec s = (case s of
     [] \<Rightarrow> None
   | c # r \<Rightarrow> if (of_char c :: nat) < 128 then Some (c, r)
       else (case r of [] \<Rightarrow> None
             | d # r' \<Rightarrow> Some (char_of (((of_char c :: nat) - 192) * 64 + (of_char d - 128)), r')))"

definition unhex :: "char \<Rightarrow> nat" where
  "unhex c = (let k = of_char c in if k < 58 then k - 48 else k - 87)"

definition json_dec :: "string \<Rightarrow> (char \<times> string) option" where
  "json_dec s = (case s of
     [] \<Rightarrow> None
   | c # r \<Rightarrow>
       if c = quote then None
       else if c \<noteq> backslash then Some (c, r)
       else (case r of [] \<Rightarrow> None
             | e # r' \<Rightarrow>
               if e = CHR ''b'' then Some (char_of (8::nat), r')
               else if e = CHR ''t'' then Some (char_of (9::nat), r')
               else if e = CHR ''n'' then Some (char_of (10::nat), r')
               else if e = CHR ''f'' then Some (char_of (12::nat), r')
               else if e = CHR ''r'' then Some (char_of (13::nat), r')
               else if e = CHR ''u'' then
                 (case drop 2 r' of h # l # r'' \<Rightarrow> Some (char_of (16 * unhex h + unhex l), r'')
                                  | _ \<Rightarrow> None)
               else Some (e, r')))"

lemma utf8_dec_enc: "utf8_dec (utf8_char c @ r) = Some (c, r)"
proof (cases "(of_char c :: nat) < 128")
  case True
  then show ?thesis by (simp add: utf8_dec_def utf8_char_def)
next
  case False
  define n where "n = (of_char c :: nat)"
  have n: "128 \<le> n" "n < 256" using False by (simp_all add: n_def)
  have "n div 64 < 4" "2 \<le> n div 64" "n mod 64 < 64" using n by auto
  then have "(n div 64) * 64 + n mod 64 = n" "192 + n div 64 < 256" "128 + n mod 64 < 256" by auto
  then show ?thesis
    using False by (simp add: utf8_dec_def utf8_char_def Let_def flip: n_def) (simp add: n_def)
qed

interpretation utf8c: prefix_code utf8_char utf8_dec
  by unfold_locales (simp_all add: utf8_dec_enc, simp add: utf8_dec_def)

lemma unhex_hex_digit: "n < 16 \<Longrightarrow> unhex (hex_digit n) = n"
  by (auto simp: unhex_def hex_digit_def Let_def)

lemma char_of_split: "char_of (16 * ((of_char c :: nat) div 16) + of_char c mod 16) = c"
  by (metis char_of_char mult_div_mod_eq)

lemma json_dec_enc: "json_dec (json_char c @ r) = Some (c, r)"
proof -
  have h: "unhex (hex_digit ((of_char c :: nat) div 16)) = of_char c div 16"
    "unhex (hex_digit ((of_char c :: nat) mod 16)) = of_char c mod 16"
    by (rule unhex_hex_digit, use nat_of_char_less_256 [of c] in linarith)
       (rule unhex_hex_digit, simp)
  have c: "(of_char c :: nat) = n \<Longrightarrow> c = char_of n" for n by (metis char_of_char)
  show ?thesis
    unfolding json_char_def Let_def json_dec_def
    by (auto simp: h char_of_split quote_def backslash_def dest: c)
qed

interpretation jsonc: prefix_code json_char json_dec
  by unfold_locales (simp_all add: json_dec_enc, simp add: json_dec_def)

lemma utf8_inj: "utf8 s = utf8 t \<Longrightarrow> s = t"
  unfolding utf8_def by (rule utf8c.code_inj)

lemma json_string_inj: "json_string s @ r = json_string t @ r' \<Longrightarrow> s = t \<and> r = r'"
  unfolding json_string_def
  by (simp, rule jsonc.terminated_inj) (simp_all add: json_dec_def)

lemma json_string_head: "json_string s = quote # tl (json_string s)"
  by (simp add: json_string_def)

lemma json_hosts_inj:
  "xs \<noteq> [] \<Longrightarrow> ys \<noteq> [] \<Longrightarrow>
   join_with '','' (map json_string xs) @ '']]'' = join_with '','' (map json_string ys) @ '']]'' \<Longrightarrow>
   xs = ys"
proof (induction xs arbitrary: ys)
  case (Cons x xs)
  from Cons.prems(2) obtain y zs where ys: "ys = y # zs" by (cases ys) auto
  let ?tail = "\<lambda>hs. (if hs = [] then '']]'' else '','' @ join_with '','' (map json_string hs) @ '']]'')"
  have split: "join_with '','' (map json_string (h # hs)) @ '']]'' = json_string h @ ?tail hs" for h hs
    by (cases hs) auto
  from Cons.prems(3) have "json_string x @ ?tail xs = json_string y @ ?tail zs"
    by (simp only: ys split)
  then have xy: "x = y" and tails: "?tail xs = ?tail zs"
    using json_string_inj by blast+
  show ?case
  proof (cases "xs = [] \<or> zs = []")
    case True
    with tails have "xs = [] \<and> zs = []" by (auto split: if_splits)
    with xy ys show ?thesis by simp
  next
    case False
    with tails have "join_with '','' (map json_string xs) @ '']]'' =
        join_with '','' (map json_string zs) @ '']]''" by simp
    with False Cons.IH xy ys show ?thesis by blast
  qed
qed simp

lemma json_target_inj:
  assumes "json_target d hs = json_target d' hs'" and "hs \<noteq> []" and "hs' \<noteq> []"
  shows "d = d' \<and> hs = hs'"
proof -
  have "json_string d @ ('',['' @ join_with '','' (map json_string hs) @ '']]'') =
        json_string d' @ ('',['' @ join_with '','' (map json_string hs') @ '']]'')"
    using assms(1) by (simp add: json_target_def)
  then have "d = d' \<and> join_with '','' (map json_string hs) @ '']]'' =
      join_with '','' (map json_string hs') @ '']]''"
    by (auto dest: json_string_inj)
  with assms show ?thesis using json_hosts_inj by blast
qed

lemma command_digest_inj:
  "command_digest sha c = command_digest sha c' \<Longrightarrow> c = c' \<or> hash_collision sha"
  by (auto simp: command_digest_def hash_collision_def dest: utf8_inj)

lemma compute_target_digest_Inr:
  "compute_target_digest sha c hs = Inr d \<longleftrightarrow> hs \<noteq> [] \<and>
     d = ''sha256:'' @ sha (utf8 (json_target (command_digest sha c) (sorted_set hs)))"
  by (auto simp: compute_target_digest_def Let_def)

text \<open>
  The digest depends on the command and on the set of hosts: order and repetition are invisible.
\<close>

lemma compute_target_digest_set:
  "set hs = set hs' \<Longrightarrow> compute_target_digest sha c hs = compute_target_digest sha c hs'"
  by (simp add: compute_target_digest_def sorted_set_eq_iff [symmetric])

text \<open>One binding digest covers one resolved command and one resolved host set: if two actions
  have the same digest they have the same command and the same set of hosts, or else two different
  byte strings with the same SHA-256 have been found. Nothing inside a host name or a command can
  forge another pair, because the JSON text that is hashed determines both.\<close>

theorem target_digest_binds:
  assumes "compute_target_digest sha c hs = Inr d" and "compute_target_digest sha c' hs' = Inr d"
  shows "(c = c' \<and> set hs = set hs') \<or> hash_collision sha"
proof (rule disjCI)
  assume none: "\<not> hash_collision sha"
  let ?j = "json_target (command_digest sha c) (sorted_set hs)"
  let ?j' = "json_target (command_digest sha c') (sorted_set hs')"
  from assms have ne: "hs \<noteq> []" "hs' \<noteq> []" and "sha (utf8 ?j) = sha (utf8 ?j')"
    by (auto simp: compute_target_digest_Inr)
  with none have "?j = ?j'" by (auto simp: hash_collision_def dest: utf8_inj)
  with ne have "command_digest sha c = command_digest sha c' \<and> sorted_set hs = sorted_set hs'"
    by (intro json_target_inj) simp_all
  with none show "c = c' \<and> set hs = set hs'"
    by (auto simp: sorted_set_eq_iff dest: command_digest_inj)
qed

theorem target_digest_binds_witness:
  "compute_target_digest id ''uptime'' [''b'', ''a''] = compute_target_digest id ''uptime'' [''a'', ''b'', ''a'']
   \<and> set [''b'', ''a''] = set [''a'', ''b'', ''a'']"
proof -
  have e: "compute_target_digest id ''uptime'' [''b'', ''a''] =
      compute_target_digest id ''uptime'' [''a'', ''b'', ''a'']"
    by (rule compute_target_digest_set) auto
  obtain d where d: "compute_target_digest id ''uptime'' [''b'', ''a''] = Inr d"
    by (simp add: compute_target_digest_Inr)
  have "\<not> hash_collision id" by (simp add: hash_collision_def)
  then have "set [''b'', ''a''] = set [''a'', ''b'', ''a'']"
    using target_digest_binds [OF d, of "''uptime''" "[''a'', ''b'', ''a'']"] d e by simp
  with e show ?thesis by blast
qed

end
