(* ===== verification/Prompt.thy ===== *)
theory Prompt
  imports Digest Scope
begin

text \<open>
  The payload a human approves: \<open>nanoinfra/gates/prompt.py\<close>. The renderer lays out the command
  and the resolved hosts, the reader takes them back out of the bytes and renders again. The
  checks of Python types (\<open>isinstance\<close>) are the types of the model; U+2028 and U+2029 are outside its
  characters. SHA-256 is the parameter \<open>sha\<close>, of which only the hexadecimal output is used.
\<close>

section \<open>Fixed text\<close>

definition PROMPT_VERSION :: nat where "PROMPT_VERSION = 1"
definition prompt_header :: string where
  "prompt_header = ''nanoinfra approval request v'' @ nat_str PROMPT_VERSION"
definition provenance_line :: string where
  "provenance_line = ''The executor resolved this request. No part of it comes from the agent.''"
definition command_header :: string where
  "command_header = ''Command, exactly as the executor will run it:''"
definition hosts_header :: string where "hosts_header = ''Hosts: ''"
definition digest_header :: string where "digest_header = ''Binding digest: ''"
definition command_prefix :: string where "command_prefix = ''  | ''"
definition host_indent :: string where "host_indent = ''  ''"

definition newline :: char where "newline = CHR 0x0A"
definition space :: char where "space = CHR '' ''"

datatype prompt_error =
    NoCommandBlock | NotRendered | EmptyCommand | CommandControl | EmptyHost | BadHost string | NoHosts

record approval_prompt =
  prompt_command :: string
  prompt_hosts :: "string list"
  prompt_text :: string
  prompt_digest :: digest
  prompt_scope :: "string option"
  prompt_pattern :: "string option"


section \<open>Checks\<close>

definition displayable :: "string \<Rightarrow> bool" where
  "displayable v \<longleftrightarrow> list_all (\<lambda>c. let n = (of_char c :: nat) in
     \<not> (n < 32 \<or> n = 127 \<or> (128 \<le> n \<and> n \<le> 159))) v"

definition checked_command :: "string \<Rightarrow> prompt_error + string" where
  "checked_command command =
     (if strip command = [] then Inl EmptyCommand
      else if \<not> list_all displayable (split_on newline command) then Inl CommandControl
      else Inr command)"

fun checked_names :: "string list \<Rightarrow> prompt_error + string list" where
  "checked_names [] = Inr []"
| "checked_names (h # hs) =
     (if h = [] then Inl EmptyHost
      else if \<not> displayable h \<or> list_ex is_space h then Inl (BadHost h)
      else (case checked_names hs of Inl e \<Rightarrow> Inl e | Inr ns \<Rightarrow> Inr (h # ns)))"

definition checked_hosts :: "string list \<Rightarrow> prompt_error + string list" where
  "checked_hosts hosts =
     (case checked_names hosts of
        Inl e \<Rightarrow> Inl e
      | Inr names \<Rightarrow> if names = [] then Inl NoHosts else Inr (sorted_set names))"


section \<open>Rendering\<close>

definition host_line :: "nat \<Rightarrow> nat \<Rightarrow> string \<Rightarrow> string" where
  "host_line width i host =
     host_indent @ replicate (width - length (nat_str i)) space @ nat_str i @ ''. '' @ host"

fun host_lines :: "nat \<Rightarrow> nat \<Rightarrow> string list \<Rightarrow> string list" where
  "host_lines width i [] = []"
| "host_lines width i (h # hs) = host_line width i h # host_lines width (Suc i) hs"

definition prompt_lines :: "string \<Rightarrow> string list \<Rightarrow> digest \<Rightarrow> string list" where
  "prompt_lines command hosts dig =
     (let width = length (nat_str (length hosts))
      in [prompt_header, provenance_line, [], command_header]
         @ map (\<lambda>l. command_prefix @ l) (split_on newline command)
         @ [[], hosts_header @ nat_str (length hosts)]
         @ host_lines width 1 hosts
         @ [[], digest_header @ dig, []])"

definition render_text :: "string \<Rightarrow> string list \<Rightarrow> digest \<Rightarrow> string" where
  "render_text command hosts dig = join_with [newline] (prompt_lines command hosts dig)"

text \<open>\<open>_build\<close>. The digest raises for no host alone, which \<open>checked_hosts\<close> has refused before.\<close>

definition build_prompt ::
  "(string \<Rightarrow> string) \<Rightarrow> string \<Rightarrow> string list \<Rightarrow> string option \<Rightarrow> string option \<Rightarrow>
   prompt_error + approval_prompt" where
  "build_prompt sha command hosts scope pattern =
     (case checked_command command of
        Inl e \<Rightarrow> Inl e
      | Inr c \<Rightarrow>
          (case checked_hosts hosts of
             Inl e \<Rightarrow> Inl e
           | Inr hs \<Rightarrow>
               (case compute_target_digest sha c hs of
                  Inl _ \<Rightarrow> Inl NoHosts
                | Inr dig \<Rightarrow>
                    Inr \<lparr>prompt_command = c, prompt_hosts = hs, prompt_text = render_text c hs dig,
                         prompt_digest = dig, prompt_scope = scope, prompt_pattern = pattern\<rparr>)))"

definition render_approval_prompt ::
  "(string \<Rightarrow> string) \<Rightarrow> string \<Rightarrow> scope_resolution \<Rightarrow> prompt_error + approval_prompt" where
  "render_approval_prompt sha command r =
     build_prompt sha command (res_hosts r) (Some (res_scope r)) (res_pattern r)"

definition render_approval_prompt_for_hosts ::
  "(string \<Rightarrow> string) \<Rightarrow> string \<Rightarrow> string list \<Rightarrow> prompt_error + approval_prompt" where
  "render_approval_prompt_for_hosts sha command hosts = build_prompt sha command hosts None None"


section \<open>Reading back\<close>

text \<open>\<open>^ {2,}(\d+)\. (.+)$\<close> on one line: the second group.\<close>

definition host_of_line :: "string \<Rightarrow> string option" where
  "host_of_line l =
     (let spaces = takeWhile (\<lambda>c. c = space) l;
          r = dropWhile (\<lambda>c. c = space) l;
          rest = dropWhile digit_char r
      in if 2 \<le> length spaces \<and> takeWhile digit_char r \<noteq> [] \<and> starts_with ''. '' rest \<and> length rest > 2
         then Some (drop 2 rest) else None)"

fun extract_lines :: "string list \<Rightarrow> string list \<times> string list" where
  "extract_lines [] = ([], [])"
| "extract_lines (l # ls) =
     (let (cs, hs) = extract_lines ls
      in if starts_with command_prefix l then (drop (length command_prefix) l # cs, hs)
         else (case host_of_line l of None \<Rightarrow> (cs, hs) | Some h \<Rightarrow> (cs, h # hs)))"

definition extract_action :: "string \<Rightarrow> prompt_error + (string \<times> string list)" where
  "extract_action t =
     (let (cs, hs) = extract_lines (split_on newline t)
      in if cs = [] \<or> hs = [] then Inl NoCommandBlock else Inr (join_with [newline] cs, hs))"

definition action_from_rendered_prompt ::
  "(string \<Rightarrow> string) \<Rightarrow> string \<Rightarrow> prompt_error + approval_prompt" where
  "action_from_rendered_prompt sha t =
     (case extract_action t of
        Inl e \<Rightarrow> Inl e
      | Inr (command, hosts) \<Rightarrow>
          (case build_prompt sha command hosts None None of
             Inl e \<Rightarrow> Inl e
           | Inr p \<Rightarrow> if prompt_text p \<noteq> t then Inl NotRendered else Inr p))"

definition digest_rendered_prompt :: "(string \<Rightarrow> string) \<Rightarrow> string \<Rightarrow> prompt_error + digest" where
  "digest_rendered_prompt sha t = map_sum id prompt_digest (action_from_rendered_prompt sha t)"


section \<open>Lemmas on lines\<close>

lemma nat_str_digits: "nat_str n \<noteq> [] \<and> list_all digit_char (nat_str n)"
proof (induction n rule: nat_str.induct)
  case (1 n)
  have d: "digit_char (char_of (48 + m mod 10))" for m :: nat
  proof -
    have "(48 + m mod 10) mod 256 = 48 + m mod 10" by (rule mod_less) linarith
    then show ?thesis by (simp add: digit_char_def Let_def of_char_of)
  qed
  show ?case
  proof (cases "n < 10")
    case True
    then have "n mod 10 = n" by simp
    with d [of n] True show ?thesis by (subst (1 2) nat_str.simps) simp
  next
    case False
    with 1 d [of n] show ?thesis by (subst (1 2) nat_str.simps) simp
  qed
qed

lemma digit_no_space: "digit_char c \<Longrightarrow> c \<noteq> space \<and> c \<noteq> newline \<and> c \<noteq> CHR ''|''"
  by (auto simp: digit_char_def space_def newline_def)

lemma nat_str_lines: "newline \<notin> set (nat_str n)" "space \<notin> set (nat_str n)"
  using nat_str_digits [of n] digit_no_space by (auto simp: list_all_iff)

lemma host_of_host_line:
  assumes "h \<noteq> []"
  shows "host_of_line (host_line width i h) = Some h" "\<not> starts_with command_prefix (host_line width i h)"
proof -
  obtain d ds where n: "nat_str i = d # ds" "digit_char d" "list_all digit_char ds"
    using nat_str_digits [of i] by (cases "nat_str i") auto
  let ?pad = "replicate (width - length (nat_str i)) space"
  have sp: "host_indent = [space, space]" by (simp add: host_indent_def space_def)
  have d: "d \<noteq> space" "d \<noteq> CHR ''|''" using digit_no_space [OF n(2)] by auto
  have dot: "\<not> digit_char CHR ''.''" by (simp add: digit_char_def)
  have t: "takeWhile (\<lambda>c. c = space) (host_line width i h) = host_indent @ ?pad"
    unfolding host_line_def sp by (simp add: takeWhile_append n d)
  have r: "dropWhile (\<lambda>c. c = space) (host_line width i h) = nat_str i @ ''. '' @ h"
    unfolding host_line_def sp by (simp add: dropWhile_append n d)
  have "list_all digit_char (nat_str i)" using n by simp
  then have "takeWhile digit_char (nat_str i @ ''. '' @ h) = nat_str i"
    "dropWhile digit_char (nat_str i @ ''. '' @ h) = ''. '' @ h"
    using dot by (simp_all add: takeWhile_append dropWhile_append list_all_iff)
  then show "host_of_line (host_line width i h) = Some h"
    unfolding host_of_line_def t r Let_def using assms n(1) by (simp add: sp starts_with_def)
  show "\<not> starts_with command_prefix (host_line width i h)"
    using d by (cases "width - length (nat_str i)")
      (auto simp: host_line_def sp n(1) starts_with_def command_prefix_def space_def)
qed

lemma host_line_no_newline: "newline \<notin> set h \<Longrightarrow> newline \<notin> set (host_line width i h)"
  using nat_str_lines [of i] by (auto simp: host_line_def host_indent_def space_def newline_def)

lemma host_lines_no_newline:
  "list_all (\<lambda>h. newline \<notin> set h) hs \<Longrightarrow> l \<in> set (host_lines width i hs) \<Longrightarrow> newline \<notin> set l"
  by (induction hs arbitrary: i) (auto simp: host_line_no_newline)

lemma extract_append:
  "extract_lines (xs @ ys) =
     (fst (extract_lines xs) @ fst (extract_lines ys), snd (extract_lines xs) @ snd (extract_lines ys))"
  by (induction xs) (auto simp: Let_def case_prod_beta split: option.splits)

lemma extract_hosts:
  "list_all (\<lambda>h. h \<noteq> []) hs \<Longrightarrow> extract_lines (host_lines width i hs) = ([], hs)"
  by (induction hs arbitrary: i) (auto simp: host_of_host_line)

lemma extract_command: "extract_lines (map (\<lambda>l. command_prefix @ l) cs) = (cs, [])"
  by (induction cs) auto

lemma extract_fixed: "c \<noteq> space \<Longrightarrow> extract_lines ((c # l) # ls) = extract_lines ls"
  by (simp add: starts_with_def command_prefix_def space_def host_of_line_def Let_def case_prod_beta)

lemma extract_empty: "extract_lines ([] # ls) = extract_lines ls"
  by (simp add: starts_with_def command_prefix_def host_of_line_def Let_def case_prod_beta)

lemma extract_prompt_lines:
  assumes "list_all (\<lambda>h. h \<noteq> []) hs"
  shows "extract_lines (prompt_lines command hs dig) = (split_on newline command, hs)"
proof -
  have "extract_lines [prompt_header, provenance_line, [], command_header] = ([], [])"
    by (simp add: prompt_header_def provenance_line_def command_header_def extract_fixed extract_empty space_def
        del: extract_lines.simps(2))
  moreover have "extract_lines [[], hosts_header @ n] = ([], [])" for n
    by (simp add: hosts_header_def extract_fixed extract_empty space_def
        del: extract_lines.simps(2))
  moreover have "extract_lines [[], digest_header @ dig, []] = ([], [])"
    by (simp add: digest_header_def extract_fixed extract_empty space_def
        del: extract_lines.simps(2))
  ultimately show ?thesis
    unfolding prompt_lines_def Let_def extract_append extract_command extract_hosts [OF assms] by simp
qed


lemma prompt_lines_no_newline:
  assumes "list_all (\<lambda>h. newline \<notin> set h) hs" and "newline \<notin> set dig"
    and "l \<in> set (prompt_lines command hs dig)"
  shows "newline \<notin> set l"
proof -
  have fixed: "newline \<notin> set prompt_header" "newline \<notin> set provenance_line" "newline \<notin> set command_header"
    "newline \<notin> set command_prefix" "newline \<notin> set hosts_header" "newline \<notin> set digest_header"
    using nat_str_lines
    by (simp_all add: prompt_header_def provenance_line_def command_header_def command_prefix_def
        hosts_header_def digest_header_def newline_def)
  have "newline \<notin> set x" if "x \<in> set (split_on newline command)" for x
    using split_on_parts that by blast
  with assms fixed nat_str_lines host_lines_no_newline [OF assms(1)] show ?thesis
    by (auto simp: prompt_lines_def Let_def)
qed

lemma split_render:
  assumes "list_all (\<lambda>h. newline \<notin> set h) hs" and "newline \<notin> set dig"
  shows "split_on newline (render_text command hs dig) = prompt_lines command hs dig"
  unfolding render_text_def
proof (rule split_join)
  show "prompt_lines command hs dig \<noteq> []" by (simp add: prompt_lines_def Let_def)
  show "\<forall>l \<in> set (prompt_lines command hs dig). newline \<notin> set l"
    using prompt_lines_no_newline [OF assms] by blast
qed

lemma checked_names_Inr:
  "checked_names hs = Inr ns \<longleftrightarrow> ns = hs \<and>
     list_all (\<lambda>h. h \<noteq> [] \<and> displayable h \<and> \<not> list_ex is_space h) hs"
proof (induction hs arbitrary: ns)
  case (Cons h hs)
  show ?case
  proof (cases "checked_names hs")
    case (Inl e)
    with Cons.IH [of hs] show ?thesis by auto
  next
    case (Inr ms)
    with Cons.IH [of ms] show ?thesis by auto
  qed
qed auto

lemma checked_hosts_Inr:
  "checked_hosts hosts = Inr hs \<longleftrightarrow> hosts \<noteq> [] \<and> hs = sorted_set hosts \<and>
     list_all (\<lambda>h. h \<noteq> [] \<and> displayable h \<and> \<not> list_ex is_space h) hosts"
proof (cases "checked_names hosts")
  case (Inl e)
  then have "\<not> list_all (\<lambda>h. h \<noteq> [] \<and> displayable h \<and> \<not> list_ex is_space h) hosts"
    using checked_names_Inr [of hosts hosts] by auto
  with Inl show ?thesis by (simp add: checked_hosts_def)
next
  case (Inr ns)
  with checked_names_Inr [of hosts ns] show ?thesis by (auto simp: checked_hosts_def)
qed

lemma build_prompt_Inr:
  "build_prompt sha command hosts scope pattern = Inr p \<longleftrightarrow>
     checked_command command = Inr command \<and>
     (\<exists>hs dig. checked_hosts hosts = Inr hs \<and> compute_target_digest sha command hs = Inr dig \<and>
        p = \<lparr>prompt_command = command, prompt_hosts = hs, prompt_text = render_text command hs dig,
             prompt_digest = dig, prompt_scope = scope, prompt_pattern = pattern\<rparr>)"
  by (auto simp: build_prompt_def checked_command_def split: sum.splits if_splits)

lemma displayable_no_newline: "displayable h \<Longrightarrow> newline \<notin> set h"
  by (auto simp: displayable_def list_all_iff newline_def Let_def)

text \<open>SHA-256 prints hexadecimal digits, so no line break.\<close>

definition hex_output :: "(string \<Rightarrow> string) \<Rightarrow> bool" where
  "hex_output sha \<longleftrightarrow> (\<forall>x. list_all hex_char (sha x))"

lemma digest_no_newline:
  "hex_output sha \<Longrightarrow> compute_target_digest sha c hs = Inr dig \<Longrightarrow> newline \<notin> set dig"
proof -
  assume h: "hex_output sha" and "compute_target_digest sha c hs = Inr dig"
  then obtain x where d: "dig = ''sha256:'' @ sha x"
    by (auto simp: compute_target_digest_def Let_def split: if_splits)
  have "\<not> hex_char newline" by (simp add: hex_char_def newline_def)
  with h have "newline \<notin> set (sha x)" by (auto simp: hex_output_def list_all_iff)
  then show ?thesis by (simp add: d newline_def)
qed

lemma extract_built:
  assumes "hex_output sha" and "build_prompt sha command hosts scope pattern = Inr p"
  shows "extract_action (prompt_text p) = Inr (prompt_command p, prompt_hosts p)"
proof -
  obtain hs dig where c: "checked_hosts hosts = Inr hs" "compute_target_digest sha command hs = Inr dig"
    and p: "prompt_command p = command" "prompt_hosts p = hs" "prompt_text p = render_text command hs dig"
    using assms(2) unfolding build_prompt_Inr by auto
  have hs: "list_all (\<lambda>h. h \<noteq> [] \<and> newline \<notin> set h) hs" "hs \<noteq> []"
    using c(1) displayable_no_newline by (auto simp: checked_hosts_Inr list_all_iff)
  have "extract_lines (split_on newline (prompt_text p)) = (split_on newline command, hs)"
    unfolding p using hs digest_no_newline [OF assms(1) c(2)]
    by (subst split_render) (auto simp: extract_prompt_lines list_all_iff)
  then show ?thesis using hs(2) by (simp add: extract_action_def p)
qed


section \<open>Properties\<close>

text \<open>C34. The payload carries the action: reading a rendered payload gives back the very command and
  host set it was rendered from, and the digest it shows, with no third field to trust.\<close>

theorem prompt_roundtrip:
  assumes "hex_output sha" and "build_prompt sha command hosts scope pattern = Inr p"
  shows "action_from_rendered_prompt sha (prompt_text p) =
    Inr (p\<lparr>prompt_scope := None, prompt_pattern := None\<rparr>)"
proof -
  obtain hs dig where c: "checked_command command = Inr command" "checked_hosts hosts = Inr hs"
    "compute_target_digest sha command hs = Inr dig"
    and p: "p = \<lparr>prompt_command = command, prompt_hosts = hs, prompt_text = render_text command hs dig,
         prompt_digest = dig, prompt_scope = scope, prompt_pattern = pattern\<rparr>"
    using assms(2) unfolding build_prompt_Inr by blast
  have "checked_hosts hs = Inr hs"
    using c(2) by (auto simp: checked_hosts_Inr list_all_iff)
  then have "build_prompt sha command hs None None = Inr (p\<lparr>prompt_scope := None, prompt_pattern := None\<rparr>)"
    unfolding build_prompt_Inr using c by (auto simp: p)
  then show ?thesis
    using extract_built [OF assms] by (simp add: action_from_rendered_prompt_def p)
qed

lemma sample_prompt:
  "build_prompt (\<lambda>_. ''ab'') ''uptime'' [''h2'', ''h1''] None None =
     Inr \<lparr>prompt_command = ''uptime'', prompt_hosts = [''h1'', ''h2''],
          prompt_text = render_text ''uptime'' [''h1'', ''h2''] ''sha256:ab'', prompt_digest = ''sha256:ab'',
          prompt_scope = None, prompt_pattern = None\<rparr>"
  by code_simp

lemma hex_output_ab: "hex_output (\<lambda>_. ''ab'')"
  by (simp add: hex_output_def hex_char_def)

theorem prompt_roundtrip_witness:
  "\<exists>t p. action_from_rendered_prompt (\<lambda>_. ''ab'') t = Inr p \<and> prompt_hosts p = [''h1'', ''h2'']"
  using prompt_roundtrip [OF hex_output_ab sample_prompt] by force

text \<open>Two different actions never share a payload: if two renders give the same bytes, the commands
  are equal and the host sets are equal. This needs nothing of the hash but its alphabet.\<close>

theorem prompt_injective:
  assumes "hex_output sha"
    and "build_prompt sha command hosts scope pattern = Inr p"
    and "build_prompt sha command' hosts' scope' pattern' = Inr p'"
    and "prompt_text p = prompt_text p'"
  shows "command = command' \<and> set hosts = set hosts'"
proof -
  have "prompt_command p = prompt_command p' \<and> prompt_hosts p = prompt_hosts p'"
    using extract_built [OF assms(1,2)] extract_built [OF assms(1,3)] assms(4) by simp
  moreover have "prompt_command p = command \<and> prompt_hosts p = sorted_set hosts"
    "prompt_command p' = command' \<and> prompt_hosts p' = sorted_set hosts'"
    using assms(2,3) by (auto simp: build_prompt_Inr checked_hosts_Inr)
  ultimately show ?thesis by (simp add: sorted_set_eq_iff)
qed

theorem prompt_injective_witness:
  "''uptime'' = ''uptime'' \<and> set [''h2'', ''h1''] = set [''h2'', ''h1'']"
  by (rule prompt_injective [OF hex_output_ab sample_prompt sample_prompt refl])

text \<open>Only rendered text has a digest: whatever bytes the reader accepts, they are the render of
  the action it returns, and the digest it returns is the target digest of that command and those
  hosts. A text that differs from a render in one byte is refused.\<close>

theorem accepted_text_is_render:
  assumes "action_from_rendered_prompt sha t = Inr p"
  shows "prompt_text p = t \<and> compute_target_digest sha (prompt_command p) (prompt_hosts p) = Inr (prompt_digest p)
    \<and> t = render_text (prompt_command p) (prompt_hosts p) (prompt_digest p)
    \<and> digest_rendered_prompt sha t = Inr (prompt_digest p)"
proof -
  from assms obtain c hs where b: "build_prompt sha c hs None None = Inr p" and t: "prompt_text p = t"
    by (auto simp: action_from_rendered_prompt_def split: sum.splits prod.splits if_splits)
  then show ?thesis using assms by (auto simp: build_prompt_Inr digest_rendered_prompt_def)
qed

theorem accepted_text_is_render_witness:
  "digest_rendered_prompt (\<lambda>_. ''ab'') (render_text ''uptime'' [''h1'', ''h2''] ''sha256:ab'') = Inr ''sha256:ab''"
proof -
  let ?p = "\<lparr>prompt_command = ''uptime'', prompt_hosts = [''h1'', ''h2''],
          prompt_text = render_text ''uptime'' [''h1'', ''h2''] ''sha256:ab'', prompt_digest = ''sha256:ab'',
          prompt_scope = None, prompt_pattern = None\<rparr>"
  have "action_from_rendered_prompt (\<lambda>_. ''ab'') (prompt_text ?p) = Inr ?p"
    using prompt_roundtrip [OF hex_output_ab sample_prompt] by simp
  from accepted_text_is_render [OF this] show ?thesis by auto
qed

end
