(* ===== verification/AuditStore.thy ===== *)
theory AuditStore
  imports Digest Config Delegate Json
begin

text \<open>
  The append-only decision log: \<open>nanoinfra/gates/audit.py\<close>. An entry is the payload of
  \<open>AuditStore.record\<close> field by field; the clock, the fresh record id and SHA-256 are arguments. A
  segment is named by its UTC day, which the model keeps as the number of days since the epoch
  instead of its \<open>%Y-%m-%d\<close> text; a file whose name carries no date keeps its name. The
  identity of the root directory and the results of writes and deletions are arguments. The
  segments are one dict, the files of the directory that stands at the root path, whichever it is. File modes and
  groups are not modelled.
\<close>

section \<open>Entries\<close>

text \<open>The keyword arguments of \<open>record\<close>.\<close>

record audit_args =
  arg_decision :: string
  arg_class :: string
  arg_context :: string
  arg_tool :: "string option"
  arg_session :: "string option"
  arg_origin_path :: "string option"
  arg_approval_path :: "string option"
  arg_origin_actor :: "string option"
  arg_acting_agent :: "string option"
  arg_delegated_by :: "string option"
  arg_actor :: "string option"
  arg_scope :: "string option"
  arg_hosts :: "string list"
  arg_secret_ref :: "string option"
  arg_command :: "string option"
  arg_command_digest :: "digest option"
  arg_reason :: "string option"
  arg_grant :: "string option"
  arg_approval :: "string option"
  arg_nonce :: "string option"
  arg_exit_code :: "int option"
  arg_duration :: "int option"
  arg_follows :: "string option"

definition no_args :: "string \<Rightarrow> string \<Rightarrow> string \<Rightarrow> audit_args" where
  "no_args decision cls ctx = \<lparr>arg_decision = decision, arg_class = cls, arg_context = ctx,
     arg_tool = None, arg_session = None, arg_origin_path = None, arg_approval_path = None,
     arg_origin_actor = None, arg_acting_agent = None, arg_delegated_by = None, arg_actor = None,
     arg_scope = None, arg_hosts = [], arg_secret_ref = None, arg_command = None,
     arg_command_digest = None, arg_reason = None, arg_grant = None, arg_approval = None,
     arg_nonce = None, arg_exit_code = None, arg_duration = None, arg_follows = None\<rparr>"

record audit_entry =
  ent_ts :: microseconds
  ent_id :: string
  ent_follows :: "string option"
  ent_session :: "string option"
  ent_context :: string
  ent_origin_path :: "string option"
  ent_approval_path :: "string option"
  ent_same_path :: "bool option"
  ent_origin_actor :: "string option"
  ent_acting_agent :: "string option"
  ent_delegated_by :: "string option"
  ent_chain :: "string option"
  ent_actor :: "string option"
  ent_class :: string
  ent_scope :: "string option"
  ent_hosts :: "string list"
  ent_host_count :: nat
  ent_secret_ref :: "string option"
  ent_digest :: "digest option"
  ent_decision :: string
  ent_reason :: "string option"
  ent_grant :: "string option"
  ent_approval :: "string option"
  ent_nonce :: "string option"
  ent_exit_code :: "int option"
  ent_duration :: "int option"
  ent_tool :: "string option"
  ent_command_text :: "string option"

definition named_or_none :: "string option \<Rightarrow> string option" where
  "named_or_none v = (case v of None \<Rightarrow> None
     | Some s \<Rightarrow> (let n = strip s in if n = [] then None else Some n))"

definition same_path_of :: "string option \<Rightarrow> string option \<Rightarrow> bool option" where
  "same_path_of o_path a_path = (case (o_path, a_path) of
     (Some o', Some a) \<Rightarrow> Some (o' = a)
   | _ \<Rightarrow> None)"

definition delegation_chain :: "string option \<Rightarrow> string option \<Rightarrow> string option \<Rightarrow> string option" where
  "delegation_chain o_actor by_agent acting =
     (case named_or_none acting of
        None \<Rightarrow> None
      | Some a \<Rightarrow> Some (join_with '' -> ''
          (filter (\<lambda>n. n \<noteq> [])
             (map (\<lambda>x. case x of None \<Rightarrow> [] | Some n \<Rightarrow> n)
                [named_or_none o_actor, named_or_none by_agent, Some a]))))"

definition make_entry ::
  "(string \<Rightarrow> string) \<Rightarrow> audit_config \<Rightarrow> microseconds \<Rightarrow> string \<Rightarrow> audit_args \<Rightarrow> audit_entry" where
  "make_entry sha cfg ts fresh a =
     \<lparr>ent_ts = ts, ent_id = fresh, ent_follows = arg_follows a, ent_session = arg_session a,
      ent_context = arg_context a, ent_origin_path = arg_origin_path a,
      ent_approval_path = arg_approval_path a,
      ent_same_path = same_path_of (arg_origin_path a) (arg_approval_path a),
      ent_origin_actor = named_or_none (arg_origin_actor a),
      ent_acting_agent = named_or_none (arg_acting_agent a),
      ent_delegated_by = named_or_none (arg_delegated_by a),
      ent_chain = delegation_chain (arg_origin_actor a) (arg_delegated_by a) (arg_acting_agent a),
      ent_actor = arg_actor a, ent_class = arg_class a, ent_scope = arg_scope a,
      ent_hosts = arg_hosts a, ent_host_count = length (arg_hosts a),
      ent_secret_ref = arg_secret_ref a,
      ent_digest = (case arg_command a of Some c \<Rightarrow> Some (command_digest sha c)
                    | None \<Rightarrow> arg_command_digest a),
      ent_decision = arg_decision a, ent_reason = arg_reason a, ent_grant = arg_grant a,
      ent_approval = arg_approval a, ent_nonce = arg_nonce a, ent_exit_code = arg_exit_code a,
      ent_duration = arg_duration a, ent_tool = arg_tool a,
      ent_command_text = (if record_command_text cfg then arg_command a else None)\<rparr>"

definition DECISION_COMPLETION :: string where "DECISION_COMPLETION = ''completion''"
definition DECISION_GRANT_WRITTEN :: string where "DECISION_GRANT_WRITTEN = ''grant_written''"

text \<open>\<open>record_completion\<close>: what it passes to \<open>record\<close> for the decision entry it follows.\<close>

definition completion_args :: "audit_entry \<Rightarrow> int option \<Rightarrow> int option \<Rightarrow> string option \<Rightarrow> audit_args" where
  "completion_args e exit_code duration reason =
     (no_args DECISION_COMPLETION (ent_class e) (ent_context e))
       \<lparr>arg_tool := ent_tool e, arg_session := ent_session e, arg_origin_path := ent_origin_path e,
        arg_origin_actor := ent_origin_actor e, arg_acting_agent := ent_acting_agent e,
        arg_delegated_by := ent_delegated_by e, arg_scope := ent_scope e, arg_hosts := ent_hosts e,
        arg_command_digest := ent_digest e, arg_reason := reason, arg_exit_code := exit_code,
        arg_duration := duration, arg_follows := Some (ent_id e)\<rparr>"


section \<open>The store\<close>

text \<open>Device and inode of the root directory, \<open>None\<close> where no directory is there.\<close>

type_synonym identity = "(int \<times> int) option"

datatype segment = Dated int | Undated string

record audit_store =
  store_config :: audit_config
  pin_root :: bool
  pinned :: identity
  seg_files :: "(segment, audit_entry list) dict"

definition new_audit_store :: "audit_config \<Rightarrow> bool \<Rightarrow> identity \<Rightarrow> (segment, audit_entry list) dict \<Rightarrow> audit_store" where
  "new_audit_store cfg pin current files =
     \<lparr>store_config = cfg, pin_root = pin, pinned = (if pin then current else None), seg_files = files\<rparr>"

text \<open>\<open>verify_root\<close>: \<open>Inl\<close> for \<open>AuditRootChangedError\<close>, which is an \<open>OSError\<close>.\<close>

definition verify_root :: "identity \<Rightarrow> audit_store \<Rightarrow> py_exn + audit_store" where
  "verify_root current st =
     (if \<not> pin_root st then Inr st
      else if pinned st = None then Inr (st\<lparr>pinned := current\<rparr>)
      else if current = pinned st then Inr st
      else Inl OSError)"

definition DAY :: int where "DAY = 86400 * 1000000"

definition segment_of :: "microseconds \<Rightarrow> segment" where
  "segment_of ts = Dated (ts div DAY)"

text \<open>\<open>segments\<close>: dated files by day, then the others by name.\<close>

fun before :: "segment \<Rightarrow> segment \<Rightarrow> bool" where
  "before (Dated a) (Dated b) = (a \<le> b)"
| "before (Dated a) (Undated n) = True"
| "before (Undated m) (Dated b) = False"
| "before (Undated m) (Undated n) = (m \<le> n)"

fun insert_segment :: "segment \<Rightarrow> segment list \<Rightarrow> segment list" where
  "insert_segment s [] = [s]"
| "insert_segment s (t # ts) = (if before s t then s # t # ts else t # insert_segment s ts)"

definition segments :: "identity \<Rightarrow> audit_store \<Rightarrow> py_exn + (segment list \<times> audit_store)" where
  "segments current st =
     (case verify_root current st of
        Inl e \<Rightarrow> Inl e
      | Inr st' \<Rightarrow>
          Inr (if current = None then [] else foldr insert_segment (dict_keys (seg_files st')) [], st'))"

text \<open>\<open>prune\<close>: \<open>unlink_ok\<close> says which deletions the file system lets happen.\<close>

definition expired_segment :: "audit_store \<Rightarrow> microseconds \<Rightarrow> segment \<Rightarrow> bool" where
  "expired_segment st now s = (case s of
     Dated d \<Rightarrow> d < now div DAY - retention_days (store_config st)
   | Undated _ \<Rightarrow> False)"

definition prune_segments :: "identity \<Rightarrow> (segment \<Rightarrow> bool) \<Rightarrow> microseconds \<Rightarrow> audit_store \<Rightarrow>
    py_exn + (segment list \<times> audit_store)" where
  "prune_segments current unlink_ok now st =
     (if retention_days (store_config st) \<le> 0 then Inr ([], st)
      else (case segments current st of
        Inl e \<Rightarrow> Inl e
      | Inr (segs, st') \<Rightarrow>
          (let gone = filter (\<lambda>s. expired_segment st now s \<and> unlink_ok s) segs
           in Inr (gone, st'\<lparr>seg_files := filter (\<lambda>(s, _). s \<notin> set gone) (seg_files st')\<rparr>))))"

text \<open>
  \<open>_append\<close>: the root is checked before it is created and again after; \<open>after\<close> is its identity once
  it is there. The write itself may fail. A new segment ends with a retention pass, of which a
  failure is logged. An exception leaves the identity that was pinned before it.
\<close>

definition append_entry :: "identity \<Rightarrow> identity \<Rightarrow> bool \<Rightarrow> (segment \<Rightarrow> bool) \<Rightarrow> audit_entry \<Rightarrow> audit_store \<Rightarrow>
    (py_exn \<times> audit_store) + audit_store" where
  "append_entry current after write_ok unlink_ok e st =
     (case verify_root current st of
        Inl x \<Rightarrow> Inl (x, st)
      | Inr s1 \<Rightarrow>
          (case (if current = None then verify_root after s1 else Inr s1) of
             Inl x \<Rightarrow> Inl (x, s1)
           | Inr s2 \<Rightarrow>
               (if \<not> write_ok then Inl (OSError, s2)
                else (let seg = segment_of (ent_ts e);
                          old = dict_get (seg_files s2) seg;
                          s3 = s2\<lparr>seg_files := dict_set seg ((case old of None \<Rightarrow> [] | Some es \<Rightarrow> es) @ [e])
                                 (seg_files s2)\<rparr>
                      in Inr (if old \<noteq> None then s3
                              else (case prune_segments after unlink_ok (ent_ts e) s3 of
                                      Inl _ \<Rightarrow> s3 | Inr (_, s4) \<Rightarrow> s4))))))"

definition audit_record ::
  "(string \<Rightarrow> string) \<Rightarrow> identity \<Rightarrow> identity \<Rightarrow> bool \<Rightarrow> (segment \<Rightarrow> bool) \<Rightarrow> microseconds \<Rightarrow> string \<Rightarrow>
   audit_args \<Rightarrow> audit_store \<Rightarrow> (py_exn \<times> audit_store) + (audit_entry \<times> audit_store)" where
  "audit_record sha current after write_ok unlink_ok ts fresh a st =
     (let e = make_entry sha (store_config st) ts fresh a
      in map_sum id (\<lambda>st'. (e, st')) (append_entry current after write_ok unlink_ok e st))"


section \<open>Lemmas\<close>

lemma set_foldr_insert [simp]: "set (foldr insert_segment xs []) = set xs"
proof -
  have "set (insert_segment x ys) = insert x (set ys)" for x ys
    by (induction x ys rule: insert_segment.induct) auto
  then show ?thesis by (induction xs) auto
qed

lemma verify_root_Inr:
  "verify_root current st = Inr st' \<Longrightarrow>
   seg_files st' = seg_files st \<and> store_config st' = store_config st \<and> pin_root st' = pin_root st \<and>
   (pin_root st \<longrightarrow> pinned st' = current) \<and> (pinned st \<noteq> None \<longrightarrow> pinned st' = pinned st)"
  by (auto simp: verify_root_def split: if_splits)

lemma prune_Inr:
  assumes "prune_segments current unlink_ok now st = Inr (gone, st')"
  shows "seg_files st' = filter (\<lambda>(s, _). s \<notin> set gone) (seg_files st) \<and>
    pin_root st' = pin_root st \<and> store_config st' = store_config st \<and>
    (pinned st \<noteq> None \<longrightarrow> pinned st' = pinned st) \<and>
    (\<forall>s \<in> set gone. expired_segment st now s \<and> 0 < retention_days (store_config st))"
  using assms
  by (auto simp: prune_segments_def segments_def Let_def split: if_splits sum.splits
      dest!: verify_root_Inr)

lemma append_Inr:
  assumes "append_entry current after write_ok unlink_ok e st = Inr st'" "dict_ok (seg_files st)"
  shows "dict_ok (seg_files st')" "write_ok" "pin_root st' = pin_root st" "store_config st' = store_config st"
    "pinned st \<noteq> None \<longrightarrow> pinned st' = pinned st \<and> (pin_root st \<longrightarrow> current = pinned st)"
    "dict_get (seg_files st') s =
       (if s = segment_of (ent_ts e)
        then Some ((case dict_get (seg_files st) s of None \<Rightarrow> [] | Some es \<Rightarrow> es) @ [e])
        else case dict_get (seg_files st') s of None \<Rightarrow> None | Some _ \<Rightarrow> dict_get (seg_files st) s)"
    "dict_get (seg_files st) s \<noteq> None \<Longrightarrow> dict_get (seg_files st') s = None \<Longrightarrow>
       expired_segment st (ent_ts e) s \<and> 0 < retention_days (store_config st)"
proof -
  obtain s1 where v1: "verify_root current st = Inr s1"
    using assms(1) by (auto simp: append_entry_def split: sum.splits)
  define again where "again = (if current = None then verify_root after s1 else Inr s1)"
  obtain s2 where v2: "again = Inr s2"
    using assms(1) v1 by (auto simp: append_entry_def again_def split: sum.splits)
  have w: "write_ok" and st': "st' = (let seg = segment_of (ent_ts e); old = dict_get (seg_files s2) seg;
          s3 = s2\<lparr>seg_files := dict_set seg ((case old of None \<Rightarrow> [] | Some es \<Rightarrow> es) @ [e]) (seg_files s2)\<rparr>
        in if old \<noteq> None then s3
           else (case prune_segments after unlink_ok (ent_ts e) s3 of Inl _ \<Rightarrow> s3 | Inr (_, s4) \<Rightarrow> s4))"
    using assms(1) v1 v2 unfolding append_entry_def again_def [symmetric]
    by (simp_all add: again_def [symmetric] Let_def split: if_splits)
  have "seg_files s2 = seg_files s1 \<and> store_config s2 = store_config s1 \<and> pin_root s2 = pin_root s1 \<and>
      (pinned s1 \<noteq> None \<longrightarrow> pinned s2 = pinned s1)"
    using v2 verify_root_Inr [of after s1 s2] by (auto simp: again_def split: if_splits)
  with verify_root_Inr [OF v1]
  have s2: "seg_files s2 = seg_files st" "store_config s2 = store_config st" "pin_root s2 = pin_root st"
    "pinned st \<noteq> None \<longrightarrow> pinned s2 = pinned st \<and> (pin_root st \<longrightarrow> current = pinned st)" by auto
  let ?seg = "segment_of (ent_ts e)"
  let ?s3 = "s2\<lparr>seg_files := dict_set ?seg ((case dict_get (seg_files s2) ?seg of None \<Rightarrow> [] | Some es \<Rightarrow> es) @ [e])
    (seg_files s2)\<rparr>"
  have "\<exists>gone. seg_files st' = filter (\<lambda>(s, _). s \<notin> set gone) (seg_files ?s3) \<and> pin_root st' = pin_root ?s3 \<and>
    store_config st' = store_config ?s3 \<and> (pinned ?s3 \<noteq> None \<longrightarrow> pinned st' = pinned ?s3) \<and>
    (\<forall>s \<in> set gone. expired_segment ?s3 (ent_ts e) s \<and> 0 < retention_days (store_config ?s3))"
  proof (cases "\<exists>gone s4. dict_get (seg_files s2) ?seg = None \<and>
      prune_segments after unlink_ok (ent_ts e) ?s3 = Inr (gone, s4)")
    case True
    then obtain gone s4 where p: "dict_get (seg_files s2) ?seg = None"
      "prune_segments after unlink_ok (ent_ts e) ?s3 = Inr (gone, s4)" by blast
    then have "st' = s4" by (simp add: st')
    with prune_Inr [OF p(2)] show ?thesis by blast
  next
    case False
    then have "st' = ?s3" by (auto simp: st' Let_def split: sum.splits)
    then show ?thesis by (intro exI [of _ "[]"]) simp
  qed
  then obtain gone where g: "seg_files st' = filter (\<lambda>(s, _). s \<notin> set gone) (seg_files ?s3)"
    "pin_root st' = pin_root st" "store_config st' = store_config st"
    "pinned s2 \<noteq> None \<longrightarrow> pinned st' = pinned s2"
    "\<forall>s \<in> set gone. expired_segment ?s3 (ent_ts e) s \<and> 0 < retention_days (store_config st)"
    using s2 by auto
  have exp: "expired_segment ?s3 = expired_segment st" using s2(2) by (simp add: expired_segment_def fun_eq_iff split: segment.split)
  have d: "dict_ok (seg_files ?s3)" using assms(2) s2 by simp
  have get: "dict_get (seg_files st') s = (if s \<in> set gone then None else dict_get (seg_files ?s3) s)" for s
    unfolding g(1) dict_get_filter [OF d] by (auto split: option.splits)
  have "?seg \<notin> set gone"
    using g(5) unfolding exp by (auto simp: expired_segment_def segment_of_def)
  then show "dict_get (seg_files st') s =
       (if s = ?seg then Some ((case dict_get (seg_files st) s of None \<Rightarrow> [] | Some es \<Rightarrow> es) @ [e])
        else case dict_get (seg_files st') s of None \<Rightarrow> None | Some _ \<Rightarrow> dict_get (seg_files st) s)"
    by (auto simp: get s2 split: option.splits)
  show "dict_get (seg_files st) s \<noteq> None \<Longrightarrow> dict_get (seg_files st') s = None \<Longrightarrow>
       expired_segment st (ent_ts e) s \<and> 0 < retention_days (store_config st)"
    using g(5) unfolding exp by (auto simp: get s2 split: if_splits)
  show "dict_ok (seg_files st')" unfolding g(1) using d by (rule dict_ok_filter)
  show "pinned st \<noteq> None \<longrightarrow> pinned st' = pinned st \<and> (pin_root st \<longrightarrow> current = pinned st)"
    using g(4) s2(4) by auto
  show "write_ok" by (rule w)
  show "pin_root st' = pin_root st" "store_config st' = store_config st" by (rule g)+
qed

lemma append_Inl:
  assumes "append_entry current after write_ok unlink_ok e st = Inl (x, st')"
  shows "seg_files st' = seg_files st \<and> store_config st' = store_config st \<and> pin_root st' = pin_root st \<and>
    (pinned st \<noteq> None \<longrightarrow> pinned st' = pinned st)"
  using assms
  by (auto simp: append_entry_def Let_def split: sum.splits if_splits dest!: verify_root_Inr)


section \<open>Runs\<close>

text \<open>
  A run of the log. A write brings its root identities, what the disk does, its clock and its id;
  \<open>AVerify\<close> is a check of the root, \<open>APrune\<close> a retention pass. The machine keeps the latest clock
  reading and the entries that landed so far, which the code does not keep.
\<close>

datatype audit_op =
    ARecord identity identity bool "segment \<Rightarrow> bool" microseconds string audit_args
  | AVerify identity
  | APrune identity "segment \<Rightarrow> bool" microseconds

record audit_machine =
  am_store :: audit_store
  am_clock :: microseconds
  am_landed :: "audit_entry list"

definition apply_audit_op :: "(string \<Rightarrow> string) \<Rightarrow> audit_machine \<Rightarrow> audit_op \<Rightarrow> audit_machine" where
  "apply_audit_op sha m x = (case x of
     ARecord current after write_ok unlink_ok ts fresh a \<Rightarrow>
       (case audit_record sha current after write_ok unlink_ok ts fresh a (am_store m) of
          Inl (_, st') \<Rightarrow> m\<lparr>am_store := st', am_clock := ts\<rparr>
        | Inr (e, st') \<Rightarrow> \<lparr>am_store = st', am_clock = ts, am_landed = e # am_landed m\<rparr>)
   | AVerify current \<Rightarrow>
       (case verify_root current (am_store m) of Inl _ \<Rightarrow> m | Inr st' \<Rightarrow> m\<lparr>am_store := st'\<rparr>)
   | APrune current unlink_ok now \<Rightarrow>
       (case prune_segments current unlink_ok now (am_store m) of
          Inl _ \<Rightarrow> m\<lparr>am_clock := now\<rparr>
        | Inr (_, st') \<Rightarrow> m\<lparr>am_store := st', am_clock := now\<rparr>))"

definition audit_op_enabled :: "audit_machine \<Rightarrow> audit_op \<Rightarrow> bool" where
  "audit_op_enabled m x = (case x of
     ARecord current after write_ok unlink_ok ts fresh a \<Rightarrow> am_clock m \<le> ts
   | AVerify current \<Rightarrow> True
   | APrune current unlink_ok now \<Rightarrow> am_clock m \<le> now)"

definition within_retention :: "audit_machine \<Rightarrow> audit_entry \<Rightarrow> bool" where
  "within_retention m e \<longleftrightarrow> retention_days (store_config (am_store m)) \<le> 0 \<or>
     am_clock m div DAY - retention_days (store_config (am_store m)) \<le> ent_ts e div DAY"

definition on_disk :: "audit_machine \<Rightarrow> audit_entry \<Rightarrow> bool" where
  "on_disk m e = (case dict_get (seg_files (am_store m)) (segment_of (ent_ts e)) of
     None \<Rightarrow> False | Some es \<Rightarrow> e \<in> set es)"

definition audit_ok :: "audit_machine \<Rightarrow> bool" where
  "audit_ok m \<longleftrightarrow> dict_ok (seg_files (am_store m)) \<and>
     list_all (\<lambda>e. within_retention m e \<longrightarrow> on_disk m e) (am_landed m)"

lemma DAY_pos: "0 < DAY" by (simp add: DAY_def)

lemma day_mono: "a \<le> b \<Longrightarrow> a div DAY \<le> b div DAY"
  using DAY_pos zdiv_mono1 by blast

lemma prune_dict_ok:
  "prune_segments current unlink_ok now st = Inr (gone, st') \<Longrightarrow> dict_ok (seg_files st) \<Longrightarrow>
   dict_ok (seg_files st')"
  using prune_Inr by fastforce

lemma audit_op_keeps:
  assumes ok: "audit_ok m" and en: "audit_op_enabled m x"
  shows "audit_ok (apply_audit_op sha m x)"
proof (cases x)
  case (ARecord current after write_ok unlink_ok ts fresh a)
  have clock: "am_clock m \<le> ts" using en by (simp add: ARecord audit_op_enabled_def)
  have d: "dict_ok (seg_files (am_store m))" using ok by (simp add: audit_ok_def)
  show ?thesis
  proof (cases "audit_record sha current after write_ok unlink_ok ts fresh a (am_store m)")
    case (Inl p)
    obtain x st' where p: "p = (x, st')" by fastforce
    with Inl have "\<exists>e. append_entry current after write_ok unlink_ok e (am_store m) = Inl (x, st')"
      by (auto simp: audit_record_def Let_def map_sum_def split: sum.splits)
    with append_Inl have same: "seg_files st' = seg_files (am_store m)" "store_config st' = store_config (am_store m)" by blast+
    have "within_retention (m\<lparr>am_store := st', am_clock := ts\<rparr>) e \<Longrightarrow> within_retention m e" for e
      using day_mono [OF clock] by (auto simp: within_retention_def same)
    with ok Inl p show ?thesis
      by (auto simp: ARecord apply_audit_op_def audit_ok_def list_all_iff on_disk_def same)
  next
    case (Inr p)
    obtain e st' where "p = (e, st')" by fastforce
    with Inr have r: "audit_record sha current after write_ok unlink_ok ts fresh a (am_store m) = Inr (e, st')"
      by simp
    then have e: "ent_ts e = ts" and ap: "append_entry current after write_ok unlink_ok e (am_store m) = Inr st'"
      by (auto simp: audit_record_def make_entry_def Let_def map_sum_def split: sum.splits)
    note A = append_Inr [OF ap d]
    let ?m' = "\<lparr>am_store = st', am_clock = ts, am_landed = e # am_landed m\<rparr>"
    have "on_disk ?m' e" by (simp add: on_disk_def A(6) [of "segment_of (ent_ts e)"])
    moreover have "on_disk ?m' f" if f: "f \<in> set (am_landed m)" and w: "within_retention ?m' f" for f
    proof -
      have "within_retention m f"
        using w day_mono [OF clock] by (auto simp: within_retention_def A(4))
      then have "on_disk m f" using ok f by (auto simp: audit_ok_def list_all_iff)
      then obtain es where es: "dict_get (seg_files (am_store m)) (segment_of (ent_ts f)) = Some es" "f \<in> set es"
        by (auto simp: on_disk_def split: option.splits)
      have "dict_get (seg_files st') (segment_of (ent_ts f)) \<noteq> None"
      proof
        assume "dict_get (seg_files st') (segment_of (ent_ts f)) = None"
        with A(7) es have "expired_segment (am_store m) ts (segment_of (ent_ts f))"
          "0 < retention_days (store_config (am_store m))" by (auto simp: e)
        with w show False by (auto simp: within_retention_def A(4) expired_segment_def segment_of_def)
      qed
      then show ?thesis
        using A(6) [of "segment_of (ent_ts f)"] es by (auto simp: on_disk_def split: if_splits option.splits)
    qed
    ultimately show ?thesis
      using A(1) by (auto simp: ARecord apply_audit_op_def r audit_ok_def list_all_iff)
  qed
next
  case (AVerify current)
  show ?thesis
  proof (cases "verify_root current (am_store m)")
    case (Inr st')
    with verify_root_Inr [OF Inr] ok show ?thesis
      by (auto simp: AVerify apply_audit_op_def audit_ok_def list_all_iff within_retention_def on_disk_def)
  qed (use ok in \<open>simp add: AVerify apply_audit_op_def\<close>)
next
  case (APrune current unlink_ok now)
  have clock: "am_clock m \<le> now" using en by (simp add: APrune audit_op_enabled_def)
  have narrower: "within_retention (m\<lparr>am_clock := now\<rparr>) e \<Longrightarrow> within_retention m e" for e
    using day_mono [OF clock] by (auto simp: within_retention_def)
  show ?thesis
  proof (cases "prune_segments current unlink_ok now (am_store m)")
    case (Inl e)
    with ok narrower show ?thesis
      by (auto simp: APrune apply_audit_op_def audit_ok_def list_all_iff on_disk_def)
  next
    case (Inr p)
    obtain gone st' where "p = (gone, st')" by fastforce
    with Inr have p: "prune_segments current unlink_ok now (am_store m) = Inr (gone, st')" by simp
    have d: "dict_ok (seg_files (am_store m))" using ok by (simp add: audit_ok_def)
    note P = prune_Inr [OF p]
    let ?m' = "m\<lparr>am_store := st', am_clock := now\<rparr>"
    have "on_disk ?m' f" if f: "f \<in> set (am_landed m)" and w: "within_retention ?m' f" for f
    proof -
      have "on_disk m f"
        using ok f w narrower P by (auto simp: audit_ok_def list_all_iff within_retention_def)
      moreover have "segment_of (ent_ts f) \<notin> set gone"
        using w P by (auto simp: within_retention_def expired_segment_def segment_of_def)
      ultimately show ?thesis
        using P by (auto simp: on_disk_def dict_get_filter [OF d] split: option.splits)
    qed
    with prune_dict_ok [OF p d] show ?thesis
      by (auto simp: APrune apply_audit_op_def p audit_ok_def list_all_iff)
  qed
qed

interpretation audit_log: op_machine "apply_audit_op sha" audit_op_enabled audit_ok for sha
  by unfold_locales (rule audit_op_keeps)

definition pinned_to :: "int \<times> int \<Rightarrow> audit_machine \<Rightarrow> bool" where
  "pinned_to i m \<longleftrightarrow> pin_root (am_store m) \<and> pinned (am_store m) = Some i"

lemma pinned_stays: "audit_ok m \<Longrightarrow> pinned_to i m \<Longrightarrow> pinned_to i (apply_audit_op sha m x)"
proof (cases x)
  case (ARecord current after write_ok unlink_ok ts fresh a)
  assume "audit_ok m" "pinned_to i m"
  then show ?thesis
    using append_Inr(3,5) append_Inl
    by (fastforce simp: ARecord apply_audit_op_def pinned_to_def audit_record_def Let_def map_sum_def
        audit_ok_def split: sum.splits)
next
  case (AVerify current)
  assume "pinned_to i m"
  then show ?thesis
    using verify_root_Inr by (fastforce simp: AVerify apply_audit_op_def pinned_to_def split: sum.splits)
next
  case (APrune current unlink_ok now)
  assume "pinned_to i m"
  then show ?thesis
    using prune_Inr by (fastforce simp: APrune apply_audit_op_def pinned_to_def split: sum.splits)
qed

interpretation pinned_root: stable_fact "apply_audit_op sha" audit_op_enabled audit_ok "pinned_to i" for sha i
  by unfold_locales (rule pinned_stays)


section \<open>Properties\<close>

text \<open>C35. A landed record stays: after any sequence of writes, root checks and retention passes, every entry
  whose write landed is in the segment of its day as long as that day is within the retention,
  whatever the disk refused and whichever deletions failed. With no retention it stays for good.\<close>

theorem landed_entries_stay:
  assumes "audit_ok m" and "run_enabled (apply_audit_op sha) audit_op_enabled m xs"
    and "e \<in> set (am_landed (foldl (apply_audit_op sha) m xs))"
    and "within_retention (foldl (apply_audit_op sha) m xs) e"
  shows "on_disk (foldl (apply_audit_op sha) m xs) e"
  using audit_log.run_keeps [OF assms(1,2)] assms(3,4) by (auto simp: audit_ok_def list_all_iff)

definition empty_log :: "audit_config \<Rightarrow> identity \<Rightarrow> audit_machine" where
  "empty_log cfg current = \<lparr>am_store = new_audit_store cfg True current [], am_clock = 0, am_landed = []\<rparr>"

lemma empty_log_ok: "audit_ok (empty_log cfg current)"
  by (simp add: empty_log_def audit_ok_def new_audit_store_def)

definition sample_entry :: audit_entry where
  "sample_entry = make_entry id \<lparr>retention_days = 1, record_command_text = False\<rparr> 5 ''e1''
     (no_args ''allow'' ''mutate.remote'' ''interactive'')"

theorem landed_entries_stay_witness:
  "on_disk (foldl (apply_audit_op id)
     (empty_log \<lparr>retention_days = 1, record_command_text = False\<rparr> (Some (1, 2)))
     [ARecord (Some (1, 2)) (Some (1, 2)) True (\<lambda>_. True) 5 ''e1'' (no_args ''allow'' ''mutate.remote'' ''interactive''),
      APrune (Some (1, 2)) (\<lambda>_. True) 86400000001]) sample_entry"
proof (rule landed_entries_stay)
  show "audit_ok (empty_log \<lparr>retention_days = 1, record_command_text = False\<rparr> (Some (1, 2)))"
    by (rule empty_log_ok)
qed code_simp+

text \<open>A moved root is never written and never adopted: once the store is pinned to a directory, through
  any run, a write or a listing under another identity raises, so no record lands in a replacement.\<close>

theorem moved_root_refused:
  assumes "audit_ok m" and "pinned_to i m" and "run_enabled (apply_audit_op sha) audit_op_enabled m xs"
    and "current \<noteq> Some i"
  shows "audit_record sha current after write_ok unlink_ok ts fresh a
      (am_store (foldl (apply_audit_op sha) m xs)) = Inl (OSError, am_store (foldl (apply_audit_op sha) m xs))
    \<and> segments current (am_store (foldl (apply_audit_op sha) m xs)) = Inl OSError"
proof -
  have "pinned_to i (foldl (apply_audit_op sha) m xs)"
    by (rule pinned_root.run_fact [OF assms(1,3,2)])
  with assms(4) have "verify_root current (am_store (foldl (apply_audit_op sha) m xs)) = Inl OSError"
    by (simp add: pinned_to_def verify_root_def)
  then show ?thesis by (simp add: audit_record_def append_entry_def segments_def Let_def)
qed

theorem moved_root_refused_witness:
  "segments (Some (1, 9)) (am_store (foldl (apply_audit_op id)
     (empty_log \<lparr>retention_days = 1, record_command_text = False\<rparr> (Some (1, 2)))
     [AVerify (Some (1, 2))])) = Inl OSError"
proof (rule moved_root_refused [THEN conjunct2])
  show "audit_ok (empty_log \<lparr>retention_days = 1, record_command_text = False\<rparr> (Some (1, 2)))"
    by (rule empty_log_ok)
  show "pinned_to (1, 2) (empty_log \<lparr>retention_days = 1, record_command_text = False\<rparr> (Some (1, 2)))"
    by (simp add: pinned_to_def empty_log_def new_audit_store_def)
qed (simp_all add: audit_op_enabled_def)

text \<open>A completion record carries every fact of the action and no step of the authorization: it
  names the decision it follows, keeps its session, class, scope, hosts, digest, origin and
  delegation chain, and names no approver, no grant, no approval, no token and no path comparison.\<close>

theorem completion_carries_facts_only:
  "let c = make_entry sha cfg t' i' (completion_args (make_entry sha cfg t i a) exit_code duration reason);
       d = make_entry sha cfg t i a
   in ent_follows c = Some (ent_id d) \<and> ent_session c = ent_session d \<and> ent_class c = ent_class d \<and>
      ent_context c = ent_context d \<and> ent_scope c = ent_scope d \<and> ent_hosts c = ent_hosts d \<and>
      ent_digest c = ent_digest d \<and> ent_origin_path c = ent_origin_path d \<and>
      ent_origin_actor c = ent_origin_actor d \<and> ent_chain c = ent_chain d \<and>
      ent_actor c = None \<and> ent_grant c = None \<and> ent_approval c = None \<and> ent_nonce c = None \<and>
      ent_approval_path c = None \<and> ent_same_path c = None \<and> ent_command_text c = None"
proof -
  have [simp]: "named_or_none (named_or_none v) = named_or_none v" for v
    by (auto simp: named_or_none_def Let_def split: option.splits)
  have [simp]: "delegation_chain (named_or_none x) (named_or_none y) (named_or_none z) = delegation_chain x y z"
    for x y z by (simp add: delegation_chain_def split: option.split)
  show ?thesis
    by (simp add: Let_def make_entry_def completion_args_def no_args_def same_path_of_def
        split: option.split)
qed

end
