(* ===== verification/Log.thy ===== *)
theory Log
  imports AuditStore
begin

text \<open>
  The audit log as text: the JSON line one entry becomes (\<open>AuditStore._append\<close>), and how the
  readers take a segment apart again (\<open>AuditStore._read_segment\<close> and \<open>_read_records\<close> of
  \<open>nanoinfra/gates/latch_restore.py\<close>). \<open>json.loads\<close> is the parameter \<open>loads\<close> (\<open>None\<close> for
  \<open>JSONDecodeError\<close>), \<open>datetime.isoformat\<close> the parameter \<open>stamp\<close>.
\<close>

section \<open>\<open>json.dumps(value, ensure_ascii=False)\<close>\<close>

definition raw_json_char :: "char \<Rightarrow> string" where
  "raw_json_char c = (let n = (of_char c :: nat) in
     if c = quote \<or> c = backslash then [backslash, c]
     else if n = 8 then [backslash, CHR ''b'']
     else if n = 9 then [backslash, CHR ''t'']
     else if n = 10 then [backslash, CHR ''n'']
     else if n = 12 then [backslash, CHR ''f'']
     else if n = 13 then [backslash, CHR ''r'']
     else if 32 \<le> n then [c]
     else [backslash, CHR ''u'', CHR ''0'', CHR ''0'', hex_digit (n div 16), hex_digit (n mod 16)])"

definition raw_json_string :: "string \<Rightarrow> string" where
  "raw_json_string s = quote # concat (map raw_json_char s) @ [quote]"

definition int_str :: "int \<Rightarrow> string" where
  "int_str n = (if n < 0 then CHR ''-'' # nat_str (nat (- n)) else nat_str (nat n))"

text \<open>The text of a float is the parameter \<open>flt\<close>; the log writes none.\<close>

fun dumps :: "(rat \<Rightarrow> string) \<Rightarrow> jval \<Rightarrow> string" where
  "dumps flt JNull = ''null''"
| "dumps flt (JBool b) = (if b then ''true'' else ''false'')"
| "dumps flt (JInt n) = int_str n"
| "dumps flt (JFloat r) = flt r"
| "dumps flt (JStr s) = raw_json_string s"
| "dumps flt (JList xs) = ''['' @ join_with '', '' (map (dumps flt) xs) @ '']''"
| "dumps flt (JObj kvs) =
     ''{'' @ join_with '', '' (map (\<lambda>(k, v). raw_json_string k @ '': '' @ dumps flt v) kvs) @ ''}''"


section \<open>The line of an entry\<close>

definition entry_json :: "(microseconds \<Rightarrow> string) \<Rightarrow> audit_entry \<Rightarrow> (string \<times> jval) list" where
  "entry_json stamp e =
     [(''ts'', JStr (stamp (ent_ts e))), (''record_id'', JStr (ent_id e)),
      (''follows'', jopt (ent_follows e)), (''session_id'', jopt (ent_session e)),
      (''execution_context'', JStr (ent_context e)), (''origin_path'', jopt (ent_origin_path e)),
      (''approval_path'', jopt (ent_approval_path e)), (''same_path'', jbool (ent_same_path e)),
      (''origin_actor'', jopt (ent_origin_actor e)), (''acting_agent'', jopt (ent_acting_agent e)),
      (''delegated_by'', jopt (ent_delegated_by e)), (''delegation_chain'', jopt (ent_chain e)),
      (''actor'', jopt (ent_actor e)), (''capability_class'', JStr (ent_class e)),
      (''scope'', jopt (ent_scope e)), (''hosts'', JList (map JStr (ent_hosts e))),
      (''host_count'', JInt (int (ent_host_count e))), (''secret_ref'', jopt (ent_secret_ref e)),
      (''command_digest'', jopt (ent_digest e)), (''decision'', JStr (ent_decision e)),
      (''reason'', jopt (ent_reason e)), (''grant_id'', jopt (ent_grant e)),
      (''approval_id'', jopt (ent_approval e)), (''token_nonce'', jopt (ent_nonce e)),
      (''exit_code'', jint (ent_exit_code e)), (''duration_ms'', jint (ent_duration e)),
      (''tool'', jopt (ent_tool e))]
     @ (case ent_command_text e of None \<Rightarrow> [] | Some c \<Rightarrow> [(''command_text'', JStr c)])"

definition entry_line :: "(rat \<Rightarrow> string) \<Rightarrow> (microseconds \<Rightarrow> string) \<Rightarrow> audit_entry \<Rightarrow> string" where
  "entry_line flt stamp e = dumps flt (JObj (entry_json stamp e))"

definition segment_text :: "(rat \<Rightarrow> string) \<Rightarrow> (microseconds \<Rightarrow> string) \<Rightarrow> audit_entry list \<Rightarrow> string" where
  "segment_text flt stamp es = concat (map (\<lambda>e. entry_line flt stamp e @ [CHR 0x0A]) es)"


section \<open>Reading a segment\<close>

text \<open>\<open>[line for line in text.splitlines() if line.strip()]\<close>, each line parsed.\<close>

definition parsed_lines :: "(string \<Rightarrow> jval option) \<Rightarrow> string \<Rightarrow> jval option list" where
  "parsed_lines loads t = map loads (filter (\<lambda>l. strip l \<noteq> []) (splitlines t))"

definition object_of :: "jval \<Rightarrow> (string \<times> jval) list option" where
  "object_of v = (case v of JObj kvs \<Rightarrow> Some kvs | _ \<Rightarrow> None)"

text \<open>\<open>AuditStore._read_segment\<close>: a line that does not parse is skipped.\<close>

definition read_segment :: "(string \<Rightarrow> jval option) \<Rightarrow> string \<Rightarrow> (string \<times> jval) list list" where
  "read_segment loads t =
     List.map_filter (\<lambda>v. Option.bind v object_of) (parsed_lines loads t)"

text \<open>\<open>_read_records\<close>: only the last line of a segment may fail to parse; the second result says
  whether the log is trustworthy.\<close>

fun read_records :: "(string \<Rightarrow> jval option) \<Rightarrow> string list \<Rightarrow> (string \<times> jval) list list \<times> bool" where
  "read_records loads [] = ([], True)"
| "read_records loads (t # ts) =
     (let vs = parsed_lines loads t;
          (rs, healthy) = read_records loads ts
      in (List.map_filter (\<lambda>v. Option.bind v object_of) vs @ rs,
          list_all (\<lambda>v. v \<noteq> None) (butlast vs) \<and> healthy))"


section \<open>Lemmas on lines\<close>

lemma splitlines_append:
  "list_all (\<lambda>c. \<not> line_break c) l \<Longrightarrow> splitlines (l @ CHR 0x0A # t) = l # splitlines t"
proof (induction l)
  case Nil
  have nl: "line_break (CHR 0x0A)" by (simp add: line_break_def)
  show ?case by (cases t) (simp_all add: nl)
next
  case (Cons c l)
  then show ?case by (cases l) auto
qed

lemma splitlines_lines:
  "list_all (list_all (\<lambda>c. \<not> line_break c)) ls \<Longrightarrow>
   splitlines (concat (map (\<lambda>l. l @ [CHR 0x0A]) ls)) = ls"
  by (induction ls) (simp_all add: splitlines_append)

text \<open>The one break a JSON line can hold is NEL, which \<open>ensure_ascii=False\<close> leaves as it is.\<close>

definition NEL :: char where "NEL = CHR 0x85"

definition no_break :: "string \<Rightarrow> bool" where
  "no_break s \<longleftrightarrow> list_all (\<lambda>c. \<not> line_break c) s"

lemma no_break_append [simp]: "no_break (a @ b) \<longleftrightarrow> no_break a \<and> no_break b"
  by (simp add: no_break_def)

lemma no_break_Cons: "no_break (c # b) \<longleftrightarrow> \<not> line_break c \<and> no_break b"
  by (simp add: no_break_def)

lemma hex_digit_no_break: "n < 16 \<Longrightarrow> \<not> line_break (hex_digit n)"
  by (auto simp: hex_digit_def line_break_def of_char_of)

lemma nel_code: "(of_char c :: nat) = 133 \<longleftrightarrow> c = NEL"
proof -
  have "c = char_of (133 :: nat) \<longleftrightarrow> 133 = (of_char c :: nat)" by (simp add: char_code_eq)
  moreover have "char_of (133 :: nat) = NEL" by (simp add: char_code_eq NEL_def)
  ultimately show ?thesis by metis
qed

lemma raw_json_char_no_break: "c \<noteq> NEL \<Longrightarrow> no_break (raw_json_char c)"
proof -
  assume c: "c \<noteq> NEL"
  have b: "\<not> line_break backslash" "\<not> line_break quote" "\<not> line_break CHR ''b''" "\<not> line_break CHR ''t''"
    "\<not> line_break CHR ''n''" "\<not> line_break CHR ''f''" "\<not> line_break CHR ''r''" "\<not> line_break CHR ''u''"
    "\<not> line_break CHR ''0''"
    by (simp_all add: line_break_def backslash_def quote_def)
  have h: "\<not> line_break (hex_digit (of_char c div 16))" "\<not> line_break (hex_digit (of_char c mod 16))"
    if "(of_char c :: nat) < 32"
    by (rule hex_digit_no_break; use that in simp)+
  have p: "\<not> line_break c" if "32 \<le> (of_char c :: nat)"
    using that c nel_code [of c] by (auto simp: line_break_def Let_def)
  show ?thesis
    using b h p by (auto simp: raw_json_char_def Let_def no_break_def)
qed

lemma raw_json_string_no_break: "NEL \<notin> set s \<Longrightarrow> no_break (raw_json_string s)"
proof -
  assume "NEL \<notin> set s"
  then have "no_break (concat (map raw_json_char s))"
    by (induction s) (auto simp: raw_json_char_no_break, simp add: no_break_def)
  then show ?thesis by (simp add: raw_json_string_def no_break_def quote_def line_break_def)
qed

lemma digit_no_break: "\<not> line_break (char_of (48 + m mod 10 :: nat))"
proof -
  have "(48 + m mod 10) mod 256 = 48 + m mod 10" by (rule mod_less) linarith
  then show ?thesis by (simp add: line_break_def Let_def of_char_of)
qed

lemma nat_str_no_break: "no_break (nat_str n)"
proof (induction n rule: nat_str.induct)
  case (1 n)
  then show ?case
    using digit_no_break [of n]
    by (subst nat_str.simps) (cases "n < 10", auto simp: no_break_def)
qed

lemma int_str_no_break: "no_break (int_str n)"
  using nat_str_no_break by (auto simp: int_str_def no_break_Cons) (auto simp: line_break_def)

lemma join_no_break: "no_break sep \<Longrightarrow> list_all no_break xs \<Longrightarrow> no_break (join_with sep xs)"
  by (induction sep xs rule: join_with.induct) (auto simp: no_break_def)

text \<open>A value of the log: no float, and no NEL in any text.\<close>

fun plain :: "jval \<Rightarrow> bool" where
  "plain (JFloat _) = False"
| "plain (JStr s) = (NEL \<notin> set s)"
| "plain (JList xs) = list_all plain xs"
| "plain (JObj kvs) = list_all (\<lambda>(k, v). NEL \<notin> set k \<and> plain v) kvs"
| "plain _ = True"

lemma dumps_no_break: "plain v \<Longrightarrow> no_break (dumps flt v)"
proof (induction flt v rule: dumps.induct)
  case (6 flt xs)
  then have "list_all no_break (map (dumps flt) xs)" by (auto simp: list_all_iff)
  then have "no_break (join_with '', '' (map (dumps flt) xs))"
    by (rule join_no_break [rotated]) (simp add: no_break_def line_break_def)
  then show ?case by (simp add: no_break_def line_break_def)
next
  case (7 flt kvs)
  then have "list_all no_break (map (\<lambda>(k, v). raw_json_string k @ '': '' @ dumps flt v) kvs)"
    by (fastforce simp: list_all_iff raw_json_string_no_break no_break_Cons line_break_def)
  then have "no_break (join_with '', '' (map (\<lambda>(k, v). raw_json_string k @ '': '' @ dumps flt v) kvs))"
    by (rule join_no_break [rotated]) (simp add: no_break_def line_break_def)
  then show ?case by (simp add: no_break_def line_break_def)
qed (simp_all add: raw_json_string_no_break int_str_no_break, simp_all add: no_break_def line_break_def)

text \<open>What \<open>json.loads\<close> does with what \<open>json.dumps\<close> wrote for these entries.\<close>

definition loads_back ::
  "(rat \<Rightarrow> string) \<Rightarrow> (string \<Rightarrow> jval option) \<Rightarrow> (microseconds \<Rightarrow> string) \<Rightarrow> audit_entry \<Rightarrow> bool" where
  "loads_back flt loads stamp e \<longleftrightarrow> loads (entry_line flt stamp e) = Some (JObj (entry_json stamp e))"

lemma entry_line_not_blank: "strip (entry_line flt stamp e) \<noteq> []"
  by (simp add: entry_line_def strip_blank_iff is_space_def)

text \<open>An entry whose texts hold no NEL, under a timestamp that prints none.\<close>

definition nel_free :: "(microseconds \<Rightarrow> string) \<Rightarrow> audit_entry \<Rightarrow> bool" where
  "nel_free stamp e \<longleftrightarrow> plain (JObj (entry_json stamp e))"

lemma entry_line_no_break: "nel_free stamp e \<Longrightarrow> no_break (entry_line flt stamp e)"
  unfolding nel_free_def entry_line_def by (rule dumps_no_break)

lemma entry_lines_split:
  assumes "list_all (nel_free stamp) es"
  shows "splitlines (segment_text flt stamp es) = map (entry_line flt stamp) es"
proof -
  have "segment_text flt stamp es = concat (map (\<lambda>l. l @ [CHR 0x0A]) (map (entry_line flt stamp) es))"
    by (simp add: segment_text_def comp_def)
  moreover have "list_all (list_all (\<lambda>c. \<not> line_break c)) (map (entry_line flt stamp) es)"
    unfolding no_break_def [symmetric] using assms by (auto simp: list_all_iff entry_line_no_break)
  ultimately show ?thesis by (simp only: splitlines_lines)
qed

lemma parsed_segment:
  assumes "list_all (loads_back flt loads stamp) es" and "list_all (nel_free stamp) es"
  shows "parsed_lines loads (segment_text flt stamp es) = map (\<lambda>e. Some (JObj (entry_json stamp e))) es"
  unfolding parsed_lines_def entry_lines_split [OF assms(2)]
  using assms(1) by (simp add: filter_map comp_def entry_line_not_blank loads_back_def list_all_iff)

lemma objects_of_entries:
  "List.map_filter (\<lambda>v. Option.bind v object_of) (map (\<lambda>e. Some (JObj (entry_json stamp e))) es) =
   map (entry_json stamp) es"
  by (induction es) (auto simp: List.map_filter_def object_of_def)

lemma read_records_written:
  assumes "list_all (list_all (loads_back flt loads stamp)) ess" and "list_all (list_all (nel_free stamp)) ess"
  shows "read_records loads (map (segment_text flt stamp) ess) =
    (map (entry_json stamp) (concat ess), True)"
  using assms
proof (induction ess)
  case (Cons es ess)
  have "list_all (\<lambda>v. v \<noteq> None) (butlast (map (\<lambda>e. Some (JObj (entry_json stamp e))) es))"
    by (auto simp: list_all_iff dest!: in_set_butlastD)
  with Cons show ?case
    by (simp add: parsed_segment objects_of_entries Let_def)
qed simp


section \<open>Properties\<close>

text \<open>The log reads back what was written: a segment of entries whose texts hold no NEL splits
  into exactly its lines, both readers return every entry in order, and the log counts as healthy.\<close>

theorem log_roundtrip:
  assumes "list_all (list_all (loads_back flt loads stamp)) ess"
    and "list_all (list_all (nel_free stamp)) ess"
  shows "read_records loads (map (segment_text flt stamp) ess) = (map (entry_json stamp) (concat ess), True)
    \<and> concat (map (\<lambda>es. read_segment loads (segment_text flt stamp es)) ess) = map (entry_json stamp) (concat ess)"
proof
  show "read_records loads (map (segment_text flt stamp) ess) = (map (entry_json stamp) (concat ess), True)"
    by (rule read_records_written [OF assms])
  show "concat (map (\<lambda>es. read_segment loads (segment_text flt stamp es)) ess) = map (entry_json stamp) (concat ess)"
    using assms by (induction ess) (auto simp: read_segment_def parsed_segment objects_of_entries)
qed

definition plain_entry :: "string \<Rightarrow> audit_entry" where
  "plain_entry session = make_entry id \<lparr>retention_days = 1, record_command_text = False\<rparr> 5 ''e1''
     ((no_args ''denied'' ''mutate.remote'' ''interactive'')\<lparr>arg_session := Some session\<rparr>)"

definition loads_one :: "audit_entry \<Rightarrow> string \<Rightarrow> jval option" where
  "loads_one e l = (if l = entry_line (\<lambda>_. []) (\<lambda>_. ''t'') e
     then Some (JObj (entry_json (\<lambda>_. ''t'') e)) else None)"

theorem log_roundtrip_witness:
  "snd (read_records (loads_one (plain_entry ''s1''))
     [segment_text (\<lambda>_. []) (\<lambda>_. ''t'') [plain_entry ''s1'', plain_entry ''s1'']])"
proof -
  let ?e = "plain_entry ''s1''"
  have "nel_free (\<lambda>_. ''t'') ?e" by code_simp
  then show ?thesis
    using log_roundtrip [of "\<lambda>_. []" "loads_one ?e" "\<lambda>_. ''t''" "[[?e, ?e]]"]
    by (simp add: loads_back_def loads_one_def)
qed

lemma splitlines_no_break: "no_break t \<Longrightarrow> t \<noteq> [] \<Longrightarrow> splitlines t = [t]"
  by (induction t rule: splitlines.induct) (auto simp: no_break_def)

lemma splitlines_at_break:
  "no_break l \<Longrightarrow> line_break c \<Longrightarrow> c \<noteq> CHR 0x0D \<Longrightarrow> splitlines (l @ c # t) = l # splitlines t"
proof (induction l)
  case Nil
  then show ?case by (cases t) simp_all
next
  case (Cons d l)
  then show ?case by (cases l) (auto simp: no_break_def)
qed

lemma join_around:
  "no_break sep \<Longrightarrow> list_all no_break xs \<Longrightarrow> list_all no_break zs \<Longrightarrow>
   \<exists>A B. join_with sep (xs @ y # zs) = A @ y @ B \<and> no_break A \<and> no_break B"
proof (induction xs)
  case Nil
  have "join_with sep (y # zs) = [] @ y @ (if zs = [] then [] else sep @ join_with sep zs)"
    by (cases zs) simp_all
  moreover have "no_break []" by (simp add: no_break_def)
  moreover have "no_break (if zs = [] then [] else sep @ join_with sep zs)"
    using Nil by (simp add: join_no_break no_break_def [of "[]"])
  ultimately show ?case by (metis append_Nil)
next
  case (Cons x xs)
  then obtain A B where "join_with sep (xs @ y # zs) = A @ y @ B" "no_break A" "no_break B" by auto
  moreover have "join_with sep ((x # xs) @ y # zs) = x @ sep @ join_with sep (xs @ y # zs)"
    by (cases xs) simp_all
  ultimately show ?case using Cons.prems by (intro exI [of _ "x @ sep @ A"] exI [of _ B]) simp
qed

lemma member_no_break:
  "list_all (\<lambda>(k, v). NEL \<notin> set k \<and> plain v) kvs \<Longrightarrow>
   list_all no_break (map (\<lambda>(k, v). raw_json_string k @ '': '' @ dumps flt v) kvs)"
  by (fastforce simp: list_all_iff raw_json_string_no_break dumps_no_break no_break_Cons line_break_def)

text \<open>The line of an entry with a NEL in its session id, around that character.\<close>

lemma nel_line_parts:
  assumes "ent_session e = Some (a @ NEL # b)" and "nel_free stamp (e\<lparr>ent_session := Some (a @ b)\<rparr>)"
  obtains pre post where "entry_line flt stamp e = pre @ NEL # post" "no_break pre" "no_break post"
    "CHR ''{'' \<in> set pre" "quote \<in> set post"
proof -
  let ?kv = "\<lambda>(k, v). raw_json_string k @ '': '' @ dumps flt v"
  obtain xs zs where x: "\<And>s. entry_json stamp (e\<lparr>ent_session := Some s\<rparr>) = xs @ (''session_id'', JStr s) # zs"
    using that by (rule_tac that [of "take 3 (entry_json stamp e)" "drop 4 (entry_json stamp e)"])
      (simp add: entry_json_def jopt_def)
  have "e\<lparr>ent_session := Some (a @ NEL # b)\<rparr> = e" using assms(1) by simp
  then have e: "entry_json stamp e = xs @ (''session_id'', JStr (a @ NEL # b)) # zs" using x by metis
  have p: "list_all (\<lambda>(k, v). NEL \<notin> set k \<and> plain v) xs" "list_all (\<lambda>(k, v). NEL \<notin> set k \<and> plain v) zs"
    "NEL \<notin> set a" "NEL \<notin> set b"
    using assms(2) unfolding nel_free_def x by simp_all
  obtain A B where AB: "join_with '', '' (map ?kv (entry_json stamp e)) = A @ ?kv (''session_id'', JStr (a @ NEL # b)) @ B"
    "no_break A" "no_break B"
    using join_around [of "'', ''" "map ?kv xs" "map ?kv zs" "?kv (''session_id'', JStr (a @ NEL # b))"]
      member_no_break [OF p(1)] member_no_break [OF p(2)]
    by (auto simp: e no_break_def line_break_def)
  have raw: "no_break (concat (map raw_json_char t))" if "NEL \<notin> set t" for t
    using that by (induction t) (auto simp: raw_json_char_no_break, simp add: no_break_def)
  have nel: "raw_json_char NEL = [NEL]"
    by (simp add: raw_json_char_def NEL_def quote_def backslash_def)
  show ?thesis
  proof
    show "entry_line flt stamp e = (''{'' @ A @ raw_json_string ''session_id'' @ '': '' @ quote # concat (map raw_json_char a))
        @ NEL # (concat (map raw_json_char b) @ quote # B @ ''}'')"
      using AB(1) by (simp add: entry_line_def raw_json_string_def nel)
    have "no_break (raw_json_string ''session_id'')"
      by (rule raw_json_string_no_break) (simp add: NEL_def)
    then show "no_break (''{'' @ A @ raw_json_string ''session_id'' @ '': '' @ quote # concat (map raw_json_char a))"
      using AB(2) raw [OF p(3)] by (simp add: no_break_Cons) (simp add: no_break_def line_break_def quote_def)
    show "no_break (concat (map raw_json_char b) @ quote # B @ ''}'')"
      using AB(3) raw [OF p(4)] by (simp add: no_break_Cons) (simp add: no_break_def line_break_def quote_def)
  qed simp_all
qed

text \<open>One NEL in one field breaks the log: an entry whose session id holds the character
  U+0085, every other text being clean, is written as a line that reads back as two, neither of which
  is a JSON value. The reader that skips bad lines loses the decision, and the one that rebuilds
  latches calls the log corrupt.\<close>

theorem nel_splits_record:
  assumes "ent_session e = Some (a @ NEL # b)" and "nel_free stamp (e\<lparr>ent_session := Some (a @ b)\<rparr>)"
    and "list_all (\<lambda>l. loads l = None) (splitlines (entry_line flt stamp e))"
  shows "length (splitlines (entry_line flt stamp e)) = 2
    \<and> read_segment loads (segment_text flt stamp [e]) = []
    \<and> \<not> snd (read_records loads [segment_text flt stamp [e]])"
proof -
  obtain pre post where l: "entry_line flt stamp e = pre @ NEL # post" "no_break pre" "no_break post"
    "CHR ''{'' \<in> set pre" "quote \<in> set post" using nel_line_parts [OF assms(1,2)] .
  have nel: "line_break NEL" "NEL \<noteq> CHR 0x0D" by (simp_all add: line_break_def NEL_def)
  have "post \<noteq> []" using l(5) by auto
  with l have line: "splitlines (entry_line flt stamp e) = [pre, post]"
    by (simp add: splitlines_at_break nel splitlines_no_break)
  have seg: "splitlines (segment_text flt stamp [e]) = [pre, post]"
    using l splitlines_append [of post "[]"]
    by (simp add: segment_text_def splitlines_at_break nel no_break_def)
  have sp: "\<not> is_space CHR ''{''" "\<not> is_space quote" by (simp_all add: is_space_def quote_def)
  have "strip pre \<noteq> []" "strip post \<noteq> []"
    using l(4,5) sp by (auto simp: strip_blank_iff list_all_iff)
  then have "parsed_lines loads (segment_text flt stamp [e]) = [None, None]"
    using assms(3) by (simp add: parsed_lines_def seg line)
  then show ?thesis by (simp add: line read_segment_def List.map_filter_def Let_def)
qed

theorem nel_splits_record_witness:
  "read_segment (\<lambda>_. None) (segment_text (\<lambda>_. []) (\<lambda>_. ''t'') [plain_entry [NEL]]) = []"
proof (rule nel_splits_record [THEN conjunct2, THEN conjunct1])
  show "ent_session (plain_entry [NEL]) = Some ([] @ NEL # [])"
    by (simp add: plain_entry_def make_entry_def)
  show "nel_free (\<lambda>_. ''t'') (plain_entry [NEL]\<lparr>ent_session := Some ([] @ [])\<rparr>)" by code_simp
qed (simp add: list_all_iff)

end
