(* ===== verification/Latch.thy ===== *)
theory Latch
  imports Log
begin

text \<open>
  Terminal denials: \<open>nanoinfra/gates/latch.py\<close>, the two halves that share one state; and the
  restore of that state from the audit log, \<open>nanoinfra/gates/latch_restore.py\<close>. The lock makes each
  method one step. The clock reading is an argument; the events an operation hands to the recorder are
  its result. \<open>clear_session\<close> reads the clock once per class it lifts; here that reading is a function
  of the class. \<open>datetime.fromisoformat\<close> is the parameter \<open>parse_iso\<close>.
\<close>

section \<open>The shared state\<close>

datatype latch_kind = LDenied | LRefused | LCleared

fun kind_text :: "latch_kind \<Rightarrow> string" where
  "kind_text LDenied = ''denied''"
| "kind_text LRefused = ''refused''"
| "kind_text LCleared = ''cleared''"

datatype latch_reason = Said string | BeforeRestart

record latch_event =
  ev_kind :: latch_kind
  ev_session :: string
  ev_class :: string
  ev_at :: seconds
  ev_tool :: "string option"
  ev_turn :: "string option"
  ev_actor :: "string option"
  ev_reason :: "latch_reason option"
  ev_digest :: "digest option"
  ev_count :: nat

record latch_entry =
  le_reason :: latch_reason
  le_at :: seconds
  le_refusals :: nat

type_synonym latch_key = "string \<times> string"
type_synonym latch_state = "(latch_key, latch_entry) dict"

text \<open>The text of a terminal denial is its message and its class.\<close>

datatype denial_message = DeniedByGate string | AlreadyDenied string

record terminal_denial =
  td_message :: denial_message
  td_class :: string


section \<open>The gate half\<close>

definition latch_deny ::
  "seconds \<Rightarrow> string \<Rightarrow> string \<Rightarrow> string \<Rightarrow> string \<Rightarrow> string option \<Rightarrow> string option \<Rightarrow> digest option \<Rightarrow>
   latch_state \<Rightarrow> terminal_denial \<times> latch_event list \<times> latch_state" where
  "latch_deny now session cls tool why turn actor dig st =
     (\<lparr>td_message = DeniedByGate why, td_class = cls\<rparr>,
      [\<lparr>ev_kind = LDenied, ev_session = session, ev_class = cls, ev_at = now, ev_tool = Some tool,
        ev_turn = turn, ev_actor = actor, ev_reason = Some (Said why), ev_digest = dig, ev_count = 0\<rparr>],
      dict_set (session, cls) \<lparr>le_reason = Said why, le_at = now, le_refusals = 0\<rparr> st)"

definition latch_refuse ::
  "seconds \<Rightarrow> string \<Rightarrow> string \<Rightarrow> string \<Rightarrow> string option \<Rightarrow> digest option \<Rightarrow> latch_state \<Rightarrow>
   terminal_denial option \<times> latch_event list \<times> latch_state" where
  "latch_refuse now session cls tool turn dig st =
     (case dict_get st (session, cls) of
        None \<Rightarrow> (None, [], st)
      | Some e \<Rightarrow>
          (let n = le_refusals e + 1
           in (Some \<lparr>td_message = AlreadyDenied cls, td_class = cls\<rparr>,
               [\<lparr>ev_kind = LRefused, ev_session = session, ev_class = cls, ev_at = now,
                 ev_tool = Some tool, ev_turn = turn, ev_actor = None, ev_reason = Some (le_reason e),
                 ev_digest = dig, ev_count = n\<rparr>],
               dict_set (session, cls) (e\<lparr>le_refusals := n\<rparr>) st)))"

definition is_latched :: "string \<Rightarrow> string \<Rightarrow> latch_state \<Rightarrow> bool" where
  "is_latched session cls st \<longleftrightarrow> dict_get st (session, cls) \<noteq> None"

definition latched_classes :: "string \<Rightarrow> latch_state \<Rightarrow> string list" where
  "latched_classes session st = map snd (filter (\<lambda>k. fst k = session) (dict_keys st))"

definition refusal_count :: "string \<Rightarrow> string \<Rightarrow> latch_state \<Rightarrow> nat" where
  "refusal_count session cls st =
     (case dict_get st (session, cls) of None \<Rightarrow> 0 | Some e \<Rightarrow> le_refusals e)"


section \<open>The operator half\<close>

definition latch_clear ::
  "seconds \<Rightarrow> string \<Rightarrow> string \<Rightarrow> string \<Rightarrow> string option \<Rightarrow> latch_state \<Rightarrow>
   bool \<times> latch_event list \<times> latch_state" where
  "latch_clear now session cls actor why st =
     (if dict_get st (session, cls) = None then (False, [], st)
      else (True,
        [\<lparr>ev_kind = LCleared, ev_session = session, ev_class = cls, ev_at = now, ev_tool = None,
          ev_turn = None, ev_actor = Some actor, ev_reason = map_option Said why, ev_digest = None,
          ev_count = 0\<rparr>],
        dict_del (session, cls) st))"

fun clear_classes ::
  "(string \<Rightarrow> seconds) \<Rightarrow> string \<Rightarrow> string \<Rightarrow> string option \<Rightarrow> string list \<Rightarrow> latch_state \<Rightarrow>
   string list \<times> latch_event list \<times> latch_state" where
  "clear_classes now session actor why [] st = ([], [], st)"
| "clear_classes now session actor why (c # cs) st =
     (let (ok, evs, st1) = latch_clear (now c) session c actor why st;
          (done, evs', st2) = clear_classes now session actor why cs st1
      in (if ok then c # done else done, evs @ evs', st2))"

definition clear_session ::
  "(string \<Rightarrow> seconds) \<Rightarrow> string \<Rightarrow> string \<Rightarrow> string option \<Rightarrow> latch_state \<Rightarrow>
   string list \<times> latch_event list \<times> latch_state" where
  "clear_session now session actor why st =
     clear_classes now session actor why (sort (latched_classes session st)) st"


section \<open>Restore\<close>

record restored_latches =
  res_latched :: "(latch_key, seconds) dict"
  res_refusals :: "(latch_key, nat) dict"
  res_degraded :: bool

definition degraded_restore :: restored_latches where
  "degraded_restore = \<lparr>res_latched = [], res_refusals = [], res_degraded = True\<rparr>"

definition restored_is_latched :: "restored_latches \<Rightarrow> string \<Rightarrow> string \<Rightarrow> bool" where
  "restored_is_latched r session cls \<longleftrightarrow>
     (if res_degraded r then True else dict_get (res_latched r) (session, cls) \<noteq> None)"

definition restored_refusal_count :: "restored_latches \<Rightarrow> string \<Rightarrow> string \<Rightarrow> nat" where
  "restored_refusal_count r session cls =
     (case dict_get (res_refusals r) (session, cls) of None \<Rightarrow> 0 | Some n \<Rightarrow> n)"

type_synonym json_record = "(string \<times> jval) list"

definition record_key :: "(jval \<Rightarrow> string) \<Rightarrow> json_record \<Rightarrow> latch_key option" where
  "record_key repr r =
     (let s = jget r ''session_id''; c = jget r ''capability_class''
      in if \<not> truthy s \<or> \<not> truthy c then None else Some (str_of repr s, str_of repr c))"

definition record_time :: "(string \<Rightarrow> py_datetime option) \<Rightarrow> json_record \<Rightarrow> seconds" where
  "record_time parse_iso r = (case jget r ''ts'' of
     JInt n \<Rightarrow> of_int n
   | JFloat q \<Rightarrow> q
   | JBool b \<Rightarrow> (if b then 1 else 0)
   | JStr s \<Rightarrow> (case parse_iso s of None \<Rightarrow> 0 | Some t \<Rightarrow> of_int (utc_instant t) / 1000000)
   | _ \<Rightarrow> 0)"

definition restore_step ::
  "(jval \<Rightarrow> string) \<Rightarrow> (string \<Rightarrow> py_datetime option) \<Rightarrow> restored_latches \<Rightarrow> json_record \<Rightarrow> restored_latches" where
  "restore_step repr parse_iso r rec =
     (case record_key repr rec of
        None \<Rightarrow> r
      | Some k \<Rightarrow>
          (let decision = str_or_blank repr (jget rec ''decision'')
           in if decision = kind_text LDenied
              then r\<lparr>res_latched := dict_set k (record_time parse_iso rec) (res_latched r),
                     res_refusals := dict_setdefault k 0 (res_refusals r)\<rparr>
              else if decision = kind_text LCleared
              then r\<lparr>res_latched := dict_del k (res_latched r), res_refusals := dict_del k (res_refusals r)\<rparr>
              else if decision = kind_text LRefused
              then r\<lparr>res_refusals := dict_set k
                       ((case dict_get (res_refusals r) k of None \<Rightarrow> 0 | Some n \<Rightarrow> n) + 1) (res_refusals r)\<rparr>
              else r))"

definition restore_records ::
  "(jval \<Rightarrow> string) \<Rightarrow> (string \<Rightarrow> py_datetime option) \<Rightarrow> json_record list \<Rightarrow> restored_latches" where
  "restore_records repr parse_iso rs =
     foldl (restore_step repr parse_iso) \<lparr>res_latched = [], res_refusals = [], res_degraded = False\<rparr> rs"

text \<open>The texts of the segments in order, \<open>None\<close> where listing or reading them raised \<open>OSError\<close>.\<close>

definition restore_latches ::
  "(string \<Rightarrow> jval option) \<Rightarrow> (jval \<Rightarrow> string) \<Rightarrow> (string \<Rightarrow> py_datetime option) \<Rightarrow> string list option \<Rightarrow>
   restored_latches" where
  "restore_latches loads repr parse_iso texts =
     (case texts of
        None \<Rightarrow> degraded_restore
      | Some ts \<Rightarrow>
          (let (rs, healthy) = read_records loads ts
           in if \<not> healthy then degraded_restore else restore_records repr parse_iso rs))"

text \<open>\<open>_seed\<close> and \<open>new_denial_latch\<close>: what a new process starts from.\<close>

fun seed :: "(latch_key \<times> seconds) list \<Rightarrow> (latch_key, nat) dict \<Rightarrow> latch_state \<Rightarrow> latch_state" where
  "seed [] refusals st = st"
| "seed ((k, t) # rest) refusals st =
     seed rest refusals (dict_set k \<lparr>le_reason = BeforeRestart, le_at = t,
       le_refusals = (case dict_get refusals k of None \<Rightarrow> 0 | Some n \<Rightarrow> n)\<rparr> st)"

definition new_denial_latch :: "restored_latches option \<Rightarrow> latch_state" where
  "new_denial_latch restored =
     (case restored of None \<Rightarrow> [] | Some r \<Rightarrow> seed (res_latched r) (res_refusals r) [])"


section \<open>Operations and their log\<close>

datatype latch_op =
    LDeny seconds string string string string "string option" "string option" "digest option"
  | LRefuse seconds string string string "string option" "digest option"
  | LClear seconds string string string "string option"
  | LClearSession "string \<Rightarrow> seconds" string string "string option"

fun latch_step :: "latch_state \<Rightarrow> latch_op \<Rightarrow> latch_event list \<times> latch_state" where
  "latch_step st (LDeny now session cls tool why turn actor dig) =
     snd (latch_deny now session cls tool why turn actor dig st)"
| "latch_step st (LRefuse now session cls tool turn dig) = snd (latch_refuse now session cls tool turn dig st)"
| "latch_step st (LClear now session cls actor why) = snd (latch_clear now session cls actor why st)"
| "latch_step st (LClearSession now session actor why) = snd (clear_session now session actor why st)"

fun latch_run :: "latch_state \<Rightarrow> latch_op list \<Rightarrow> latch_event list \<times> latch_state" where
  "latch_run st [] = ([], st)"
| "latch_run st (x # xs) =
     (let (evs, st1) = latch_step st x; (evs', st2) = latch_run st1 xs in (evs @ evs', st2))"

text \<open>What the recorder of \<open>nanoinfra/gates/runtime.py\<close> passes to the audit store for an event;
  \<open>words\<close> is the text of a reason, and the store stamps its own clock.\<close>

definition event_args :: "(latch_reason \<Rightarrow> string) \<Rightarrow> latch_event \<Rightarrow> audit_args" where
  "event_args words e =
     (no_args (kind_text (ev_kind e)) (ev_class e) CTX_AUTOMATION)
       \<lparr>arg_session := Some (ev_session e), arg_tool := ev_tool e, arg_actor := ev_actor e,
        arg_reason := map_option words (ev_reason e), arg_command_digest := ev_digest e\<rparr>"


section \<open>Lemmas\<close>

lemma latch_simps:
  "snd (latch_step st (LDeny now session cls tool why turn actor dig)) =
     dict_set (session, cls) \<lparr>le_reason = Said why, le_at = now, le_refusals = 0\<rparr> st"
  "dict_get (snd (latch_step st (LRefuse now session cls tool turn dig))) k =
     (if k = (session, cls) then map_option (\<lambda>e. e\<lparr>le_refusals := le_refusals e + 1\<rparr>) (dict_get st k)
      else dict_get st k)"
  "dict_get (snd (latch_step st (LClear now session cls who reas))) k =
     (if k = (session, cls) then None else dict_get st k)"
  by (auto simp: latch_deny_def latch_refuse_def latch_clear_def Let_def split: option.splits)

lemma clear_classes_get:
  "dict_get (snd (snd (clear_classes now session actor why cs st))) k =
     (if fst k = session \<and> snd k \<in> set cs then None else dict_get st k)"
  by (induction cs arbitrary: st)
     (auto simp: latch_clear_def case_prod_beta Let_def split: option.splits)

lemma latched_classes_iff: "c \<in> set (latched_classes session st) \<longleftrightarrow> is_latched session c st"
  by (force simp: latched_classes_def is_latched_def dict_get_None_keys)

lemma clear_session_get:
  "dict_get (snd (snd (clear_session now session actor why st))) k =
     (if fst k = session then None else dict_get st k)"
  using latched_classes_iff [of "snd k" session st]
  by (cases k) (auto simp: clear_session_def clear_classes_get is_latched_def)

text \<open>An operation that may lift the latch of one key.\<close>

fun clears :: "string \<Rightarrow> string \<Rightarrow> latch_op \<Rightarrow> bool" where
  "clears session cls (LClear now s c actor why) = (s = session \<and> c = cls)"
| "clears session cls (LClearSession now s actor why) = (s = session)"
| "clears session cls _ = False"

lemma latch_stays:
  "is_latched session cls st \<Longrightarrow> \<not> clears session cls x \<Longrightarrow> is_latched session cls (snd (latch_step st x))"
  by (cases x) (auto simp: is_latched_def latch_simps clear_session_get simp del: latch_step.simps(1-3))

interpretation latch_machine: op_machine "\<lambda>st x. snd (latch_step st x)" "\<lambda>st x. \<not> clears session cls x" "\<lambda>_. True"
  for session cls
  by unfold_locales simp

interpretation latched_stays: stable_fact "\<lambda>st x. snd (latch_step st x)" "\<lambda>st x. \<not> clears session cls x"
  "\<lambda>_. True" "is_latched session cls" for session cls
  by unfold_locales (rule latch_stays)

lemma latch_run_state: "snd (latch_run st xs) = foldl (\<lambda>st x. snd (latch_step st x)) st xs"
  by (induction xs arbitrary: st) (simp_all add: case_prod_beta Let_def)


section \<open>The restored state against the live one\<close>

text \<open>What one recorded event does to the restore.\<close>

definition restore_event :: "seconds \<Rightarrow> restored_latches \<Rightarrow> latch_event \<Rightarrow> restored_latches" where
  "restore_event t r e =
     (let k = (ev_session e, ev_class e)
      in case ev_kind e of
           LDenied \<Rightarrow> r\<lparr>res_latched := dict_set k t (res_latched r),
                       res_refusals := dict_setdefault k 0 (res_refusals r)\<rparr>
         | LCleared \<Rightarrow> r\<lparr>res_latched := dict_del k (res_latched r), res_refusals := dict_del k (res_refusals r)\<rparr>
         | LRefused \<Rightarrow> r\<lparr>res_refusals := dict_set k
                        ((case dict_get (res_refusals r) k of None \<Rightarrow> 0 | Some n \<Rightarrow> n) + 1) (res_refusals r)\<rparr>)"

lemma restore_event_entry:
  assumes "ev_session e \<noteq> []" and "ev_class e \<noteq> []"
  shows "restore_step repr parse_iso r (entry_json stamp (make_entry sha cfg ts fresh (event_args words e))) =
    restore_event (record_time parse_iso (entry_json stamp (make_entry sha cfg ts fresh (event_args words e)))) r e"
proof -
  let ?j = "entry_json stamp (make_entry sha cfg ts fresh (event_args words e))"
  have "jget ?j ''session_id'' = JStr (ev_session e)" "jget ?j ''capability_class'' = JStr (ev_class e)"
    "jget ?j ''decision'' = JStr (kind_text (ev_kind e))"
    by (simp_all add: jget_def entry_json_def make_entry_def event_args_def no_args_def jopt_def)
  then show ?thesis
    using assms
    by (cases "ev_kind e")
       (simp_all add: restore_step_def restore_event_def record_key_def str_or_blank_def Let_def)
qed

definition named_event :: "latch_event \<Rightarrow> bool" where
  "named_event e \<longleftrightarrow> ev_session e \<noteq> [] \<and> ev_class e \<noteq> []"

definition deny_is_first :: "latch_state \<Rightarrow> latch_op \<Rightarrow> bool" where
  "deny_is_first st x = (case x of
     LDeny now session cls tool why turn actor dig \<Rightarrow> \<not> is_latched session cls st
   | _ \<Rightarrow> True)"

fun denies_first :: "latch_state \<Rightarrow> latch_op list \<Rightarrow> bool" where
  "denies_first st [] = True"
| "denies_first st (x # xs) = (deny_is_first st x \<and> denies_first (snd (latch_step st x)) xs)"

text \<open>The refusals of one pair, none where it is not latched: as the events change it, and in a state.\<close>

definition replay :: "latch_key \<Rightarrow> nat option \<Rightarrow> latch_event \<Rightarrow> nat option" where
  "replay k n e =
     (if (ev_session e, ev_class e) \<noteq> k then n
      else case ev_kind e of LDenied \<Rightarrow> Some 0 | LCleared \<Rightarrow> None | LRefused \<Rightarrow> map_option Suc n)"

definition refusals_at :: "latch_state \<Rightarrow> latch_key \<Rightarrow> nat option" where
  "refusals_at st k = map_option le_refusals (dict_get st k)"

lemma clear_replay: "foldl (replay k) (refusals_at st k) (fst (snd (latch_clear now session cls actor why st))) =
    refusals_at (snd (snd (latch_clear now session cls actor why st))) k"
  by (auto simp: latch_clear_def refusals_at_def replay_def)

lemma clear_classes_replay:
  "foldl (replay k) (refusals_at st k) (fst (snd (clear_classes now session actor why cs st))) =
   refusals_at (snd (snd (clear_classes now session actor why cs st))) k"
proof (induction cs arbitrary: st)
  case (Cons c cs)
  obtain ok evs st1 where c: "latch_clear (now c) session c actor why st = (ok, evs, st1)" by (metis prod_cases3)
  with clear_replay [of k st "now c" session c actor why] have "foldl (replay k) (refusals_at st k) evs = refusals_at st1 k" by simp
  with Cons.IH [of st1] show ?case by (simp add: c Let_def case_prod_beta)
qed simp

lemma step_replay: "foldl (replay k) (refusals_at st k) (fst (latch_step st x)) = refusals_at (snd (latch_step st x)) k"
proof (cases x)
  case (LClear now session cls actor why)
  then show ?thesis by (simp add: clear_replay)
next
  case (LClearSession now session actor why)
  then show ?thesis by (simp add: clear_session_def clear_classes_replay)
qed (auto simp: latch_deny_def latch_refuse_def refusals_at_def replay_def Let_def split: option.splits)

lemma run_replay: "foldl (replay k) (refusals_at st k) (fst (latch_run st xs)) = refusals_at (snd (latch_run st xs)) k"
proof (induction xs arbitrary: st)
  case (Cons x xs)
  obtain evs st1 where x: "latch_step st x = (evs, st1)" by fastforce
  with step_replay [of k st x] Cons.IH [of st1] show ?case by (simp add: Let_def case_prod_beta)
qed simp

text \<open>The events of one pair where no denial hits a latched pair; a refusal is always one of a latched pair.\<close>

fun first_denials :: "latch_key \<Rightarrow> nat option \<Rightarrow> latch_event list \<Rightarrow> bool" where
  "first_denials k n [] = True"
| "first_denials k n (e # es) =
     (((ev_session e, ev_class e) = k \<longrightarrow> (ev_kind e = LDenied \<longrightarrow> n = None) \<and> (ev_kind e = LRefused \<longrightarrow> n \<noteq> None)) \<and>
      first_denials k (replay k n e) es)"

lemma first_denials_append: "first_denials k n (a @ b) \<longleftrightarrow> first_denials k n a \<and> first_denials k (foldl (replay k) n a) b"
  by (induction a arbitrary: n) simp_all

lemma first_denials_clears: "list_all (\<lambda>e. ev_kind e = LCleared) es \<Longrightarrow> first_denials k n es"
  by (induction es arbitrary: n) simp_all

lemma clear_classes_clears: "list_all (\<lambda>e. ev_kind e = LCleared) (fst (snd (clear_classes now session actor why cs st)))"
  by (induction cs arbitrary: st) (auto simp: latch_clear_def Let_def case_prod_beta split: option.split)

lemma step_first: "deny_is_first st x \<Longrightarrow> first_denials k (refusals_at st k) (fst (latch_step st x))"
proof (cases x)
  case (LClearSession now session actor why)
  then show ?thesis by (simp add: clear_session_def first_denials_clears clear_classes_clears)
qed (auto simp: deny_is_first_def is_latched_def latch_deny_def latch_refuse_def latch_clear_def refusals_at_def Let_def split: option.splits)

lemma denies_first_events: "denies_first st xs \<Longrightarrow> first_denials k (refusals_at st k) (fst (latch_run st xs))"
proof (induction xs arbitrary: st)
  case (Cons x xs)
  obtain evs st1 where x: "latch_step st x = (evs, st1)" by fastforce
  with step_first [of st x k] step_replay [of k st x] Cons show ?case by (simp add: Let_def case_prod_beta first_denials_append)
qed simp

text \<open>The log of a gates directory: the events of the latch, each at its own time and under its own id, and the records
  that other parts of the gate and the executor write in between.\<close>

type_synonym log_item = "latch_event + audit_entry"

definition own_events :: "log_item list \<Rightarrow> latch_event list" where
  "own_events items = concat (map (\<lambda>i. case i of Inl e \<Rightarrow> [e] | Inr _ \<Rightarrow> []) items)"

definition foreign_records :: "log_item list \<Rightarrow> audit_entry list" where
  "foreign_records items = concat (map (\<lambda>i. case i of Inl _ \<Rightarrow> [] | Inr a \<Rightarrow> [a]) items)"

definition item_entry ::
  "(string \<Rightarrow> string) \<Rightarrow> audit_config \<Rightarrow> (latch_reason \<Rightarrow> string) \<Rightarrow> (latch_event \<Rightarrow> microseconds \<times> string) \<Rightarrow> log_item \<Rightarrow> audit_entry" where
  "item_entry sha cfg words env i =
     (case i of Inl e \<Rightarrow> make_entry sha cfg (fst (env e)) (snd (env e)) (event_args words e) | Inr a \<Rightarrow> a)"

text \<open>A record that a restore reads as the denial of a pair.\<close>

definition reads_as_denial :: "audit_entry \<Rightarrow> string \<Rightarrow> string \<Rightarrow> bool" where
  "reads_as_denial a s c \<longleftrightarrow> ent_decision a = ''denied'' \<and> ent_session a = Some s \<and> ent_class a = c \<and> s \<noteq> [] \<and> c \<noteq> []"

definition about_pair :: "audit_entry \<Rightarrow> string \<Rightarrow> string \<Rightarrow> bool" where
  "about_pair a s c \<longleftrightarrow> ent_session a = Some s \<and> ent_class a = c"

text \<open>One pair in the latch and in the restore: never less there; and where no other record names the pair and no denial
  repeats, the same.\<close>

definition keeps_pair :: "bool \<Rightarrow> bool \<Rightarrow> nat option \<Rightarrow> seconds option \<Rightarrow> nat option \<Rightarrow> bool" where
  "keeps_pair tight denied live lat refs \<longleftrightarrow>
     (case live of None \<Rightarrow> True | Some n \<Rightarrow> lat \<noteq> None \<and> (\<exists>m. refs = Some m \<and> n \<le> m \<and> (tight \<longrightarrow> m = n))) \<and>
     (lat \<noteq> None \<longrightarrow> live \<noteq> None \<or> denied) \<and> (tight \<and> live = None \<longrightarrow> lat = None \<and> refs = None)"

lemma entry_json_get:
  "jget (entry_json stamp a) ''session_id'' = jopt (ent_session a)"
  "jget (entry_json stamp a) ''capability_class'' = JStr (ent_class a)"
  "jget (entry_json stamp a) ''decision'' = JStr (ent_decision a)"
  by (simp_all add: jget_def entry_json_def)

lemma foreign_step:
  assumes "ent_decision a \<noteq> ''cleared''" "keeps_pair tight denied n (dict_get (res_latched r) (s, c)) (dict_get (res_refusals r) (s, c))"
    and "tight \<longrightarrow> \<not> about_pair a s c" "restore_step repr parse_iso r (entry_json stamp a) = r'"
  shows "keeps_pair tight (denied \<or> reads_as_denial a s c) n (dict_get (res_latched r') (s, c)) (dict_get (res_refusals r') (s, c))"
proof (cases "record_key repr (entry_json stamp a) = Some (s, c)")
  case False
  then have "dict_get (res_latched r') (s, c) = dict_get (res_latched r) (s, c)" "dict_get (res_refusals r') (s, c) = dict_get (res_refusals r) (s, c)"
    using assms(4) by (auto simp: restore_step_def Let_def split: option.splits if_splits)
  with assms(2) show ?thesis by (auto simp: keeps_pair_def split: option.splits)
next
  case True
  then have p: "ent_session a = Some s" "ent_class a = c" "s \<noteq> []" "c \<noteq> []"
    by (auto simp: record_key_def entry_json_get jopt_def Let_def split: if_splits option.splits)
  then have "\<not> tight" using assms(3) by (simp add: about_pair_def)
  then show ?thesis
    using assms(1,2,4) p True
    by (auto simp: keeps_pair_def restore_step_def entry_json_get str_or_blank_def reads_as_denial_def Let_def split: option.splits if_splits)
qed

lemma own_step:
  assumes "named_event e" "keeps_pair tight denied n (dict_get (res_latched r) k) (dict_get (res_refusals r) k)"
    and "tight \<and> (ev_session e, ev_class e) = k \<longrightarrow> (ev_kind e = LDenied \<longrightarrow> n = None) \<and> (ev_kind e = LRefused \<longrightarrow> n \<noteq> None)"
  shows "keeps_pair tight denied (replay k n e) (dict_get (res_latched (restore_event t r e)) k) (dict_get (res_refusals (restore_event t r e)) k)"
  using assms by (cases "ev_kind e") (auto simp: keeps_pair_def restore_event_def replay_def Let_def split: option.splits)

lemma items_kept:
  assumes "list_all named_event (own_events items)" "list_all (\<lambda>a. ent_decision a \<noteq> ''cleared'') (foreign_records items)"
    and "keeps_pair tight denied n (dict_get (res_latched r) (s, c)) (dict_get (res_refusals r) (s, c))"
    and "tight \<longrightarrow> first_denials (s, c) n (own_events items) \<and> list_all (\<lambda>a. \<not> about_pair a s c) (foreign_records items)"
    and "foldl (restore_step repr parse_iso) r (map (\<lambda>i. entry_json stamp (item_entry sha cfg words env i)) items) = r'"
  shows "keeps_pair tight (denied \<or> list_ex (\<lambda>a. reads_as_denial a s c) (foreign_records items)) (foldl (replay (s, c)) n (own_events items))
    (dict_get (res_latched r') (s, c)) (dict_get (res_refusals r') (s, c))"
  using assms
proof (induction items arbitrary: n r denied)
  case Nil then show ?case by (simp add: own_events_def foreign_records_def)
next
  case (Cons i items)
  show ?case
  proof (cases i)
    case (Inl e)
    have e: "named_event e" and rest: "list_all named_event (own_events items)" using Cons.prems(1) Inl by (simp_all add: own_events_def)
    let ?t = "record_time parse_iso (entry_json stamp (make_entry sha cfg (fst (env e)) (snd (env e)) (event_args words e)))"
    have "restore_step repr parse_iso r (entry_json stamp (item_entry sha cfg words env i)) = restore_event ?t r e"
      using e Inl by (simp add: item_entry_def restore_event_entry named_event_def)
    then have f: "foldl (restore_step repr parse_iso) (restore_event ?t r e) (map (\<lambda>i. entry_json stamp (item_entry sha cfg words env i)) items) = r'"
      using Cons.prems(5) by simp
    have k: "keeps_pair tight denied (replay (s, c) n e) (dict_get (res_latched (restore_event ?t r e)) (s, c)) (dict_get (res_refusals (restore_event ?t r e)) (s, c))"
      by (rule own_step [OF e Cons.prems(3)]) (use Cons.prems(4) Inl in \<open>simp add: own_events_def\<close>)
    have o: "own_events (i # items) = e # own_events items" "foreign_records (i # items) = foreign_records items"
      using Inl by (simp_all add: own_events_def foreign_records_def)
    show ?thesis using Cons.IH [OF rest _ k _ f] Cons.prems(2,4) unfolding o by simp
  next
    case (Inr a)
    have o: "own_events (i # items) = own_events items" "foreign_records (i # items) = a # foreign_records items"
      using Inr by (simp_all add: own_events_def foreign_records_def)
    obtain r1 where r1: "restore_step repr parse_iso r (entry_json stamp a) = r1" by simp
    then have f: "foldl (restore_step repr parse_iso) r1 (map (\<lambda>i. entry_json stamp (item_entry sha cfg words env i)) items) = r'"
      using Cons.prems(5) Inr by (simp add: item_entry_def)
    have k: "keeps_pair tight (denied \<or> reads_as_denial a s c) n (dict_get (res_latched r1) (s, c)) (dict_get (res_refusals r1) (s, c))"
      by (rule foreign_step [OF _ Cons.prems(3) _ r1]) (use Cons.prems(2,4) in \<open>simp_all add: o\<close>)
    show ?thesis using Cons.IH [OF _ _ k _ f] Cons.prems(1,2,4) unfolding o by (simp add: disj_assoc)
  qed
qed

lemma seed_get:
  "dict_get (seed lat refusals st) k =
    (case map_of (rev lat) k of
       None \<Rightarrow> dict_get st k
     | Some t \<Rightarrow> Some \<lparr>le_reason = BeforeRestart, le_at = t,
         le_refusals = (case dict_get refusals k of None \<Rightarrow> 0 | Some n \<Rightarrow> n)\<rparr>)"
proof (induction lat refusals st rule: seed.induct)
  case (2 k' t rest refusals st)
  then show ?case by (auto simp: map_add_def split: option.splits)
qed simp

lemma map_of_rev: "dict_ok d \<Longrightarrow> map_of (rev d) = map_of d"
proof (rule map_of_eqI)
  assume "dict_ok d"
  then have d: "distinct (map fst d)" by (simp add: dict_ok_def dict_keys_def)
  then have "distinct (map fst (rev d))" by (metis distinct_rev rev_map)
  with d show "\<forall>k \<in> set (map fst (rev d)). map_of (rev d) k = map_of d k"
    by (metis map_of_eq_Some_iff map_of_is_SomeI option.exhaust set_rev)
qed simp

lemma restored_pair:
  assumes "dict_ok (res_latched r)"
  shows "is_latched s c (new_denial_latch (Some r)) \<longleftrightarrow> dict_get (res_latched r) (s, c) \<noteq> None"
    and "refusal_count s c (new_denial_latch (Some r)) = (case dict_get (res_latched r) (s, c) of None \<Rightarrow> 0
      | Some _ \<Rightarrow> case dict_get (res_refusals r) (s, c) of None \<Rightarrow> 0 | Some n \<Rightarrow> n)"
proof -
  have g: "dict_get (new_denial_latch (Some r)) k = (case dict_get (res_latched r) k of None \<Rightarrow> None
      | Some t \<Rightarrow> Some \<lparr>le_reason = BeforeRestart, le_at = t,
         le_refusals = (case dict_get (res_refusals r) k of None \<Rightarrow> 0 | Some n \<Rightarrow> n)\<rparr>)" for k
    using assms by (simp add: new_denial_latch_def seed_get map_of_rev dict_get_def [of "res_latched r"]
        cong: option.case_cong)
  show "is_latched s c (new_denial_latch (Some r)) \<longleftrightarrow> dict_get (res_latched r) (s, c) \<noteq> None"
    by (auto simp: is_latched_def g split: option.splits)
  show "refusal_count s c (new_denial_latch (Some r)) = (case dict_get (res_latched r) (s, c) of None \<Rightarrow> 0
      | Some _ \<Rightarrow> case dict_get (res_refusals r) (s, c) of None \<Rightarrow> 0 | Some n \<Rightarrow> n)"
    by (auto simp: refusal_count_def g split: option.splits)
qed

lemma restore_step_ok: "dict_ok (res_latched r) \<Longrightarrow> dict_ok (res_latched (restore_step repr parse_iso r rec))"
  by (auto simp: restore_step_def Let_def split: option.splits)

lemma restore_dict_ok: "dict_ok (res_latched r) \<Longrightarrow> dict_ok (res_latched (foldl (restore_step repr parse_iso) r rs))"
  by (induction rs arbitrary: r) (simp_all add: restore_step_ok)



section \<open>Properties\<close>

definition sample_denial :: latch_op where
  "sample_denial = LDeny 1 ''s1'' ''mutate.remote'' ''t'' ''no'' None None None"

definition sample_denial_entry :: audit_entry where
  "sample_denial_entry = make_entry id (audit_policy default_gates) 0 ''e1''
     (event_args (\<lambda>_. ''no'') (hd (fst (latch_run [] [sample_denial]))))"

text \<open>C32. A restart clears no denial. Whatever the gate and the operator did to a latch that started empty, and whatever
  other parts recorded in between in the same directory: a process that reads the log back holds every pair latched that was,
  with no smaller count of refusals, and it latches no other pair but one whose denial another part recorded. Where no other
  record names the pair and no denial hit it twice, the count is the same.\<close>

theorem restart_keeps_latches:
  assumes "own_events items = fst (latch_run [] xs)" "list_all named_event (own_events items)"
    and "list_all (\<lambda>a. ent_decision a \<noteq> ''cleared'') (foreign_records items)"
    and "concat ess = map (item_entry sha cfg words env) items"
    and "list_all (list_all (loads_back flt loads stamp)) ess" "list_all (list_all (nel_free stamp)) ess"
    and "restore_latches loads repr parse_iso (Some (map (segment_text flt stamp) ess)) = r"
  shows "(is_latched s c (snd (latch_run [] xs)) \<longrightarrow> is_latched s c (new_denial_latch (Some r))) \<and>
    refusal_count s c (snd (latch_run [] xs)) \<le> refusal_count s c (new_denial_latch (Some r)) \<and>
    (is_latched s c (new_denial_latch (Some r)) \<longrightarrow>
       is_latched s c (snd (latch_run [] xs)) \<or> list_ex (\<lambda>a. reads_as_denial a s c) (foreign_records items)) \<and>
    (denies_first [] xs \<and> list_all (\<lambda>a. \<not> about_pair a s c) (foreign_records items) \<longrightarrow>
       refusal_count s c (new_denial_latch (Some r)) = refusal_count s c (snd (latch_run [] xs)))"
proof -
  let ?r0 = "\<lparr>res_latched = [], res_refusals = [], res_degraded = False\<rparr>"
  let ?live = "snd (latch_run [] xs)" and ?den = "list_ex (\<lambda>a. reads_as_denial a s c) (foreign_records items)"
  let ?tight = "denies_first [] xs \<and> list_all (\<lambda>a. \<not> about_pair a s c) (foreign_records items)"
  have "read_records loads (map (segment_text flt stamp) ess) = (map (entry_json stamp) (concat ess), True)"
    by (rule read_records_written [OF assms(5,6)])
  then have r: "r = foldl (restore_step repr parse_iso) ?r0 (map (\<lambda>i. entry_json stamp (item_entry sha cfg words env i)) items)"
    using assms(4,7) by (simp add: restore_latches_def restore_records_def comp_def)
  have live: "foldl (replay (s, c)) None (own_events items) = refusals_at ?live (s, c)"
    using run_replay [of "(s, c)" "[]" xs] assms(1) by (simp add: refusals_at_def)
  have kept: "keeps_pair tight (False \<or> ?den) (refusals_at ?live (s, c)) (dict_get (res_latched r) (s, c)) (dict_get (res_refusals r) (s, c))"
    if "tight \<longrightarrow> ?tight" for tight
  proof -
    have "tight \<longrightarrow> first_denials (s, c) None (own_events items) \<and> list_all (\<lambda>a. \<not> about_pair a s c) (foreign_records items)"
      using that denies_first_events [of "[]" xs "(s, c)"] assms(1) by (simp add: refusals_at_def)
    from items_kept [OF assms(2,3) _ this r [symmetric], of False] show ?thesis unfolding live by (simp add: keeps_pair_def)
  qed
  have ok: "dict_ok (res_latched r)" unfolding r by (rule restore_dict_ok) simp
  have count: "refusal_count s c st = (case refusals_at st (s, c) of None \<Rightarrow> 0 | Some n \<Rightarrow> n)" "is_latched s c st \<longleftrightarrow> refusals_at st (s, c) \<noteq> None" for st
    by (auto simp: refusal_count_def refusals_at_def is_latched_def split: option.splits)
  from kept [of False] kept [of ?tight] show ?thesis
    unfolding restored_pair [OF ok] count by (auto simp: keeps_pair_def split: option.splits)
qed

text \<open>A denial, and between it and the restart a record of the executor about another session.\<close>

definition sample_foreign :: audit_entry where
  "sample_foreign = make_entry id (audit_policy default_gates) 1 ''f1'' ((no_args ''allow'' ''mutate.remote'' CTX_AUTOMATION)\<lparr>arg_session := Some ''s2''\<rparr>)"

definition sample_items :: "log_item list" where
  "sample_items = [Inl (hd (fst (latch_run [] [sample_denial]))), Inr sample_foreign]"

definition loads_two :: "string \<Rightarrow> jval option" where
  "loads_two l = (if l = entry_line (\<lambda>_. []) (\<lambda>_. ''t'') sample_foreign then Some (JObj (entry_json (\<lambda>_. ''t'') sample_foreign))
     else loads_one sample_denial_entry l)"

theorem restart_keeps_latches_witness:
  "is_latched ''s1'' ''mutate.remote'' (new_denial_latch (Some (restore_latches loads_two
     (\<lambda>_. []) (\<lambda>_. None) (Some (map (segment_text (\<lambda>_. []) (\<lambda>_. ''t'')) [[sample_denial_entry, sample_foreign]])))))"
proof -
  have o: "own_events sample_items = fst (latch_run [] [sample_denial])"
    by (simp add: own_events_def sample_items_def sample_denial_def latch_deny_def)
  have n: "list_all named_event (own_events sample_items)" unfolding o by (simp add: sample_denial_def latch_deny_def named_event_def)
  have f: "foreign_records sample_items = [sample_foreign]" by (simp add: foreign_records_def sample_items_def)
  have e: "concat [[sample_denial_entry, sample_foreign]] = map (item_entry id (audit_policy default_gates) (\<lambda>_. ''no'') (\<lambda>_. (0, ''e1''))) sample_items"
    by (simp add: sample_items_def item_entry_def sample_denial_entry_def)
  have "entry_line (\<lambda>_. []) (\<lambda>_. ''t'') sample_denial_entry \<noteq> entry_line (\<lambda>_. []) (\<lambda>_. ''t'') sample_foreign" by code_simp
  then have b: "list_all (list_all (loads_back (\<lambda>_. []) loads_two (\<lambda>_. ''t''))) [[sample_denial_entry, sample_foreign]]"
    by (simp add: loads_back_def loads_two_def loads_one_def)
  have p: "list_all (list_all (nel_free (\<lambda>_. ''t''))) [[sample_denial_entry, sample_foreign]]" by code_simp
  have c: "ent_decision sample_foreign \<noteq> ''cleared''" by (simp add: sample_foreign_def make_entry_def no_args_def)
  have l: "is_latched ''s1'' ''mutate.remote'' (snd (latch_run [] [sample_denial]))"
    by (simp add: sample_denial_def latch_deny_def is_latched_def)
  show ?thesis using restart_keeps_latches [OF o n _ e b p refl, of "''s1''" "''mutate.remote''"] l f c by simp
qed

text \<open>So the restore also latches what was never latched: the executor records a refusal that it means to be answered later
  under the same decision as a terminal denial, and a restart makes it one.\<close>

lemma foreign_denial_latches:
  assumes "reads_as_denial a s c" "loads_back flt loads stamp a" "nel_free stamp a"
  shows "is_latched s c (new_denial_latch (Some (restore_latches loads repr parse_iso (Some [segment_text flt stamp [a]]))))"
proof -
  have "read_records loads (map (segment_text flt stamp) [[a]]) = (map (entry_json stamp) (concat [[a]]), True)"
    by (rule read_records_written) (simp_all add: assms)
  then have "restore_latches loads repr parse_iso (Some [segment_text flt stamp [a]]) =
      restore_step repr parse_iso \<lparr>res_latched = [], res_refusals = [], res_degraded = False\<rparr> (entry_json stamp a)"
    by (simp add: restore_latches_def restore_records_def)
  moreover have "dict_get (res_latched (restore_step repr parse_iso \<lparr>res_latched = [], res_refusals = [], res_degraded = False\<rparr>
      (entry_json stamp a))) (s, c) \<noteq> None"
    using assms(1) by (simp add: restore_step_def reads_as_denial_def record_key_def entry_json_get str_or_blank_def Let_def jopt_def)
  ultimately show ?thesis by (subst restored_pair(1)) (simp_all add: restore_step_ok)
qed

text \<open>C33. Nothing on the gate half lifts a latch: after a denial, through any operations that are not an
  operator's clear of that pair, the pair stays latched and the gate refuses it without asking.\<close>

theorem only_operator_clears:
  assumes "run_enabled (\<lambda>st x. snd (latch_step st x)) (\<lambda>st x. \<not> clears session cls x)
      (snd (latch_step st (LDeny t session cls tool why turn actor dig))) xs"
  shows "is_latched session cls (snd (latch_run (snd (latch_step st (LDeny t session cls tool why turn actor dig))) xs))
    \<and> fst (latch_refuse now session cls tool' turn' dig'
        (snd (latch_run (snd (latch_step st (LDeny t session cls tool why turn actor dig))) xs))) \<noteq> None"
proof -
  have "is_latched session cls (snd (latch_step st (LDeny t session cls tool why turn actor dig)))"
    by (simp add: is_latched_def latch_deny_def)
  from latched_stays.run_fact [OF TrueI assms this]
  show ?thesis
    unfolding latch_run_state by (auto simp: is_latched_def latch_refuse_def Let_def)
qed

theorem only_operator_clears_witness:
  "is_latched ''s1'' ''c'' (snd (latch_run (snd (latch_step [] (LDeny 1 ''s1'' ''c'' ''t'' ''no'' None None None)))
     [LRefuse 2 ''s1'' ''c'' ''t'' None None, LClear 3 ''s2'' ''c'' ''op'' None]))"
  by (rule only_operator_clears [THEN conjunct1]) simp

text \<open>An unreadable log latches everything where it is read, and nothing where it is seeded: the
  restored value of a log that could not be read answers \<open>latched\<close> for every pair, and the gate state
  a new process builds from that very value has no pair latched.\<close>

theorem degraded_restore_seeds_nothing:
  "restored_is_latched (restore_latches loads repr parse_iso None) session cls
   \<and> \<not> is_latched session cls (new_denial_latch (Some (restore_latches loads repr parse_iso None)))"
  by (simp add: restore_latches_def degraded_restore_def restored_is_latched_def new_denial_latch_def is_latched_def)

end
