(* ===== verification/Approvals.thy ===== *)
theory Approvals
  imports Config
begin

text \<open>
  Which answer counts: \<open>nanoinfra/gates/approvals.py\<close>. An approval counts when an approver the
  operator listed answers on an authenticated path, and the answer is independent of the request:
  it came on another path, or, where \<open>gates.identityIndependence\<close> is on, from another person. The
  reason of a refusal is the data its sentence interpolates.
\<close>

datatype approval_refusal =
    UnknownOriginPath | NoSecondPath | NotAnApprover | UnauthenticatedPath | SamePath
  | SameActorAndPath

datatype approval_reason =
    NoReason
  | NamesNoOrigin
  | SecondPathMissing "string list" string
  | ListsNobody "string list" string
  | NotListed string string
  | PathNotListed string
  | SelfApproval string string
  | OnOriginPath string bool

record approval_check =
  check_ok :: bool
  check_origin_path :: string
  check_path :: string
  check_sender :: string
  check_same_path :: bool
  check_actor :: string
  check_same_actor :: bool
  check_refusal :: "approval_refusal option"
  check_reason :: approval_reason

record feasibility =
  feasible_ok :: bool
  feasible_refusal :: "approval_refusal option"
  feasible_reason :: approval_reason

definition identity_may_substitute :: "gates_config \<Rightarrow> string \<Rightarrow> bool" where
  "identity_may_substitute g actor \<longleftrightarrow> identity_independence g \<and> strip actor \<noteq> []"

definition answer_is_independent ::
  "gates_config \<Rightarrow> string \<Rightarrow> string \<Rightarrow> string \<Rightarrow> string \<Rightarrow> bool" where
  "answer_is_independent g o_path o_actor a_path who =
     (let origin = strip o_path; path = strip a_path
      in if origin = [] then False
         else if path \<noteq> origin then True
         else if \<not> identity_may_substitute g o_actor then False
         else strip who \<noteq> strip o_actor)"

definition authenticated_paths :: "gates_config \<Rightarrow> string list" where
  "authenticated_paths g = filter (\<lambda>p. p \<noteq> []) (map strip (approval_paths g))"

definition answering_paths :: "gates_config \<Rightarrow> string \<Rightarrow> string \<Rightarrow> string list" where
  "answering_paths g origin o_actor =
     (if identity_may_substitute g o_actor then authenticated_paths g
      else filter (\<lambda>p. p \<noteq> origin) (authenticated_paths g))"

definition is_approver :: "gates_config \<Rightarrow> string \<Rightarrow> string \<Rightarrow> bool" where
  "is_approver g path who =
     (if path = [] \<or> who = [] then False
      else list_ex (\<lambda>a. strip (approver_channel a) = path \<and> strip (approver_sender a) = who)
             (approvers g))"

definition approval_feasible :: "gates_config \<Rightarrow> string \<Rightarrow> string \<Rightarrow> feasibility" where
  "approval_feasible g o_path o_actor =
     (let origin = strip o_path;
          who_origin = strip o_actor;
          answering = answering_paths g origin who_origin
      in if origin = []
         then \<lparr>feasible_ok = False, feasible_refusal = Some UnknownOriginPath,
               feasible_reason = NamesNoOrigin\<rparr>
         else if answering = []
         then \<lparr>feasible_ok = False, feasible_refusal = Some NoSecondPath,
               feasible_reason = SecondPathMissing (authenticated_paths g) origin\<rparr>
         else if filter (\<lambda>a. strip (approver_channel a) \<in> set answering \<and> strip (approver_sender a) \<noteq> [] \<and>
                    answer_is_independent g origin who_origin (strip (approver_channel a))
                      (strip (approver_sender a))) (approvers g) = []
         then \<lparr>feasible_ok = False, feasible_refusal = Some NotAnApprover,
               feasible_reason = ListsNobody (authenticated_paths g) origin\<rparr>
         else \<lparr>feasible_ok = True, feasible_refusal = None, feasible_reason = NoReason\<rparr>)"

definition check_approval ::
  "gates_config \<Rightarrow> string \<Rightarrow> string \<Rightarrow> string \<Rightarrow> string \<Rightarrow> approval_check" where
  "check_approval g o_path a_path a_sender o_actor =
     (let origin = strip o_path;
          path = strip a_path;
          who = strip a_sender;
          who_origin = strip o_actor;
          same_p = (origin \<noteq> [] \<and> origin = path);
          same_a = (who_origin \<noteq> [] \<and> who_origin = who);
          refuse = (\<lambda>r reason. \<lparr>check_ok = False, check_origin_path = origin, check_path = path,
             check_sender = who, check_same_path = same_p, check_actor = who_origin, check_same_actor = same_a,
             check_refusal = Some r, check_reason = reason\<rparr>)
      in if origin = [] then refuse UnknownOriginPath NamesNoOrigin
         else if answering_paths g origin who_origin = []
         then refuse NoSecondPath (SecondPathMissing (authenticated_paths g) origin)
         else if \<not> is_approver g path who then refuse NotAnApprover (NotListed who path)
         else if path \<notin> set (authenticated_paths g) then refuse UnauthenticatedPath (PathNotListed path)
         else if \<not> answer_is_independent g origin who_origin path who
         then (if same_a \<and> identity_may_substitute g who_origin
               then refuse SameActorAndPath (SelfApproval who origin)
               else refuse SamePath (OnOriginPath origin (identity_independence g \<and> who_origin = [])))
         else \<lparr>check_ok = True, check_origin_path = origin, check_path = path, check_sender = who,
               check_same_path = same_p, check_actor = who_origin, check_same_actor = same_a,
               check_refusal = None, check_reason = NoReason\<rparr>)"


section \<open>Lemmas\<close>

lemma independent_iff:
  "answer_is_independent g o_path o_actor a_path who \<longleftrightarrow> strip o_path \<noteq> [] \<and>
     (strip a_path \<noteq> strip o_path \<or>
      identity_independence g \<and> strip o_actor \<noteq> [] \<and> strip who \<noteq> strip o_actor)"
  by (auto simp: answer_is_independent_def identity_may_substitute_def Let_def)

lemma independent_answers:
  "answer_is_independent g o_path o_actor a_path who \<Longrightarrow> strip a_path \<in> set (authenticated_paths g) \<Longrightarrow>
   strip a_path \<in> set (answering_paths g (strip o_path) (strip o_actor))"
  by (auto simp: independent_iff answering_paths_def identity_may_substitute_def)

lemma answering_authenticated: "set (answering_paths g origin who) \<subseteq> set (authenticated_paths g)"
  by (auto simp: answering_paths_def)

lemma authenticated_stripped:
  "p \<in> set (authenticated_paths g) \<Longrightarrow> strip p = p \<and> p \<noteq> []"
  by (auto simp: authenticated_paths_def)

lemma is_approver_iff:
  "is_approver g path who \<longleftrightarrow> path \<noteq> [] \<and> who \<noteq> [] \<and>
     (\<exists>a \<in> set (approvers g). strip (approver_channel a) = path \<and> strip (approver_sender a) = who)"
  by (auto simp: is_approver_def list_ex_iff)

lemma check_ok_iff:
  "check_ok (check_approval g o_path a_path a_sender o_actor) \<longleftrightarrow>
     is_approver g (strip a_path) (strip a_sender) \<and>
     strip a_path \<in> set (authenticated_paths g) \<and>
     answer_is_independent g o_path o_actor a_path a_sender"
proof -
  have "answering_paths g (strip o_path) (strip o_actor) \<noteq> []"
    if "strip a_path \<in> set (authenticated_paths g)" "answer_is_independent g o_path o_actor a_path a_sender"
    using independent_answers [OF that(2,1)] by force
  moreover have "answer_is_independent g (strip o_path) (strip o_actor) (strip a_path) (strip a_sender) =
      answer_is_independent g o_path o_actor a_path a_sender"
    by (simp add: independent_iff)
  ultimately show ?thesis
    by (auto simp: check_approval_def Let_def) (auto simp: independent_iff)
qed

lemma feasible_ok_iff:
  "feasible_ok (approval_feasible g o_path o_actor) \<longleftrightarrow>
     (\<exists>a \<in> set (approvers g). strip (approver_channel a) \<in> set (authenticated_paths g) \<and>
        strip (approver_sender a) \<noteq> [] \<and>
        answer_is_independent g o_path o_actor (approver_channel a) (approver_sender a))"
    (is "?f \<longleftrightarrow> ?r")
proof -
  have ind: "answer_is_independent g (strip o_path) (strip o_actor) (strip p) (strip w) =
      answer_is_independent g o_path o_actor p w" for p w
    by (simp add: independent_iff)
  have ans: "strip p \<in> set (answering_paths g (strip o_path) (strip o_actor)) \<longleftrightarrow>
      strip p \<in> set (authenticated_paths g)" if "answer_is_independent g o_path o_actor p w" for p w
    using independent_answers [OF that] answering_authenticated by blast
  have "?f \<longleftrightarrow> strip o_path \<noteq> [] \<and> answering_paths g (strip o_path) (strip o_actor) \<noteq> [] \<and>
    (\<exists>a \<in> set (approvers g). strip (approver_channel a) \<in> set (answering_paths g (strip o_path) (strip o_actor)) \<and>
        strip (approver_sender a) \<noteq> [] \<and>
        answer_is_independent g o_path o_actor (approver_channel a) (approver_sender a))"
    by (simp add: approval_feasible_def Let_def filter_empty_conv ind)
  also have "\<dots> \<longleftrightarrow> ?r"
    using ans by (metis (no_types, lifting) empty_iff empty_set independent_iff)
  finally show ?thesis .
qed


section \<open>Properties\<close>

text \<open>C31. An answer counts exactly when three facts hold: the pair of path and sender is an entry of
  the approver list, the path is one the operator authenticated, and the answer came on another path
  than the request or, with identity independence on and a named requester, from another person.\<close>

theorem answer_counts_iff:
  "check_ok (check_approval g o_path a_path a_sender o_actor) \<longleftrightarrow>
     strip a_sender \<noteq> [] \<and>
     list_ex (\<lambda>a. strip (approver_channel a) = strip a_path \<and> strip (approver_sender a) = strip a_sender)
       (approvers g) \<and>
     strip a_path \<in> set (map strip (approval_paths g)) \<and> strip a_path \<noteq> [] \<and> strip o_path \<noteq> [] \<and>
     (if strip a_path = strip o_path
      then identity_independence g \<and> strip o_actor \<noteq> [] \<and> strip a_sender \<noteq> strip o_actor
      else True)"
  unfolding check_ok_iff independent_iff is_approver_iff list_ex_iff authenticated_paths_def by auto

text \<open>Nobody approves their own request: an answer by the person who asked, on the path they
  asked on, counts under no policy.\<close>

theorem self_approval_impossible:
  "\<not> check_ok (check_approval g path path who who)"
  by (simp add: check_ok_iff independent_iff)

text \<open>The feasibility test is exact: it admits a request if and only if some answer to it
  would count. So no action is suspended that nobody may answer, and none is refused that
  somebody could have approved.\<close>

theorem feasible_iff_some_answer_counts:
  "feasible_ok (approval_feasible g o_path o_actor) \<longleftrightarrow>
     (\<exists>a_path a_sender. check_ok (check_approval g o_path a_path a_sender o_actor))"
proof
  assume "feasible_ok (approval_feasible g o_path o_actor)"
  then obtain a where "a \<in> set (approvers g)" "strip (approver_channel a) \<in> set (authenticated_paths g)"
    "strip (approver_sender a) \<noteq> []"
    "answer_is_independent g o_path o_actor (approver_channel a) (approver_sender a)"
    unfolding feasible_ok_iff by blast
  then have "check_ok (check_approval g o_path (approver_channel a) (approver_sender a) o_actor)"
    unfolding check_ok_iff is_approver_iff using authenticated_stripped by blast
  then show "\<exists>a_path a_sender. check_ok (check_approval g o_path a_path a_sender o_actor)" by blast
next
  assume "\<exists>a_path a_sender. check_ok (check_approval g o_path a_path a_sender o_actor)"
  then obtain p w where "is_approver g (strip p) (strip w)" "strip p \<in> set (authenticated_paths g)"
    "answer_is_independent g o_path o_actor p w"
    unfolding check_ok_iff by blast
  then show "feasible_ok (approval_feasible g o_path o_actor)"
    unfolding feasible_ok_iff is_approver_iff by (metis independent_iff)
qed

text \<open>The two functions never disagree about a deployment-level refusal: where the feasibility test
  reads \<open>unknown_origin_path\<close> or \<open>no_second_path\<close>, every answer is refused with the same name and the
  same sentence, and no other request meets those two names.\<close>

theorem deployment_refusals_agree:
  "r \<in> {UnknownOriginPath, NoSecondPath} \<Longrightarrow>
   (feasible_refusal (approval_feasible g o_path o_actor) = Some r \<longleftrightarrow>
    check_refusal (check_approval g o_path a_path a_sender o_actor) = Some r) \<and>
   (feasible_refusal (approval_feasible g o_path o_actor) = Some r \<longrightarrow>
    check_reason (check_approval g o_path a_path a_sender o_actor) =
      feasible_reason (approval_feasible g o_path o_actor))"
  by (auto simp: approval_feasible_def check_approval_def Let_def)

theorem deployment_refusals_agree_witness:
  "check_refusal (check_approval default_gates ''webui'' ''webui'' ''ana'' ''bo'') = Some NoSecondPath"
  by (rule deployment_refusals_agree [of NoSecondPath default_gates "''webui''" "''bo''" "''webui''" "''ana''",
        THEN conjunct1, THEN iffD1]) (simp, code_simp)

end
