(* ===== verification/Pending.thy ===== *)
theory Pending
  imports Prelude
begin

text \<open>
  Actions that wait for a human: \<open>nanoinfra/gates/pending.py\<close>. The store maps a request id to a
  suspended action and the outcome of its wait. The lock makes each method one step, except
  \<open>wait\<close>, which releases it while it sleeps: \<open>wait_enter\<close> is its entry, \<open>wait_poll\<close> one turn of
  its loop (\<open>None\<close> while it goes back to sleep). Clock readings and fresh ids are arguments. A waiter
  holds its record object; the model looks it up again, which differs only for a waiter that
  does not run for 900 seconds past its deadline.
\<close>

section \<open>Data\<close>

definition PENDING_RETENTION_S :: seconds where "PENDING_RETENTION_S = 900"

datatype approval_state = Pending | Approved | Denied | Expired

datatype answer_refusal = UnknownRequest | AlreadyAnswered | AnswerExpired | AnswerDigestMismatch

record pending_request =
  pr_session :: string
  pr_origin_path :: string
  pr_context :: string
  pr_class :: string
  pr_scope :: string
  pr_hosts :: "string list"
  pr_command :: string
  pr_payload :: string
  pr_digest :: digest
  pr_origin_actor :: string
  pr_acting_agent :: string
  pr_delegated_by :: string

record pending_approval = pending_request +
  pa_id :: string
  pa_created_at :: seconds
  pa_expires_at :: seconds

definition host_count :: "pending_approval \<Rightarrow> nat" where
  "host_count a = length (pr_hosts a)"

datatype outcome_reason = NoneGiven | DeniedBecause string | NobodyAnswered

record approval_outcome =
  out_state :: approval_state
  out_actor :: "string option"
  out_path :: "string option"
  out_nonce :: "string option"
  out_reason :: outcome_reason

definition still_pending :: approval_outcome where
  "still_pending = \<lparr>out_state = Pending, out_actor = None, out_path = None, out_nonce = None,
     out_reason = NoneGiven\<rparr>"

record pending_record =
  pend_approval :: pending_approval
  pend_outcome :: approval_outcome

record pending_store =
  pend_records :: "(string, pending_record) dict"
  waiters :: nat

definition new_pending_store :: pending_store where
  "new_pending_store = \<lparr>pend_records = [], waiters = 0\<rparr>"


section \<open>Operations\<close>

definition prune_pending :: "seconds \<Rightarrow> string \<Rightarrow> pending_store \<Rightarrow> pending_store" where
  "prune_pending now keep s = s\<lparr>pend_records := filter
     (\<lambda>(i, r). \<not> (pa_expires_at (pend_approval r) < now - PENDING_RETENTION_S \<and> i \<noteq> keep)) (pend_records s)\<rparr>"

definition create_pending ::
  "seconds \<Rightarrow> seconds \<Rightarrow> string \<Rightarrow> pending_request \<Rightarrow> seconds \<Rightarrow> pending_store \<Rightarrow>
   py_exn + (pending_approval \<times> pending_store)" where
  "create_pending now now' fresh q timeout s =
     (if timeout \<le> 0 then Inl ValueError
      else (let a = pending_request.extend q \<lparr>pa_id = fresh, pa_created_at = now, pa_expires_at = now + timeout\<rparr>
            in Inr (a, prune_pending now' fresh
                 (s\<lparr>pend_records := dict_set fresh \<lparr>pend_approval = a, pend_outcome = still_pending\<rparr>
                      (pend_records s)\<rparr>))))"

definition get_pending :: "string \<Rightarrow> pending_store \<Rightarrow> pending_approval option" where
  "get_pending i s = map_option pend_approval (dict_get (pend_records s) i)"

definition pending_list :: "seconds \<Rightarrow> pending_store \<Rightarrow> pending_approval list" where
  "pending_list now s = sort_key pa_created_at
     (map pend_approval (filter (\<lambda>r. out_state (pend_outcome r) = Pending \<and>
        now < pa_expires_at (pend_approval r)) (dict_values (pend_records s))))"

definition answerable :: "seconds \<Rightarrow> pending_record \<Rightarrow> answer_refusal option" where
  "answerable now r =
     (if out_state (pend_outcome r) \<noteq> Pending
      then (if out_state (pend_outcome r) = Expired then Some AnswerExpired else Some AlreadyAnswered)
      else if pa_expires_at (pend_approval r) \<le> now then Some AnswerExpired
      else None)"

definition set_outcome :: "string \<Rightarrow> pending_record \<Rightarrow> approval_outcome \<Rightarrow> pending_store \<Rightarrow> pending_store" where
  "set_outcome i r oc s = s\<lparr>pend_records := dict_set i (r\<lparr>pend_outcome := oc\<rparr>) (pend_records s)\<rparr>"

definition approve_pending ::
  "seconds \<Rightarrow> string \<Rightarrow> string \<Rightarrow> string \<Rightarrow> string \<Rightarrow> digest \<Rightarrow> pending_store \<Rightarrow>
   answer_refusal option \<times> pending_store" where
  "approve_pending now i actor path nonce dig s =
     (case dict_get (pend_records s) i of
        None \<Rightarrow> (Some UnknownRequest, s)
      | Some r \<Rightarrow>
          (case answerable now r of
             Some x \<Rightarrow> (Some x, s)
           | None \<Rightarrow>
               (if pr_digest (pend_approval r) \<noteq> dig then (Some AnswerDigestMismatch, s)
                else (None, set_outcome i r \<lparr>out_state = Approved, out_actor = Some actor,
                        out_path = Some path, out_nonce = Some nonce, out_reason = NoneGiven\<rparr> s))))"

definition deny_pending ::
  "seconds \<Rightarrow> string \<Rightarrow> string \<Rightarrow> string \<Rightarrow> string \<Rightarrow> pending_store \<Rightarrow>
   answer_refusal option \<times> pending_store" where
  "deny_pending now i actor path why s =
     (case dict_get (pend_records s) i of
        None \<Rightarrow> (Some UnknownRequest, s)
      | Some r \<Rightarrow>
          (case answerable now r of
             Some x \<Rightarrow> (Some x, s)
           | None \<Rightarrow> (None, set_outcome i r \<lparr>out_state = Denied, out_actor = Some actor,
                        out_path = Some path, out_nonce = None, out_reason = DeniedBecause why\<rparr> s)))"

definition wait_enter :: "string \<Rightarrow> pending_store \<Rightarrow> py_exn + pending_store" where
  "wait_enter i s =
     (if dict_get (pend_records s) i = None then Inl KeyError else Inr (s\<lparr>waiters := waiters s + 1\<rparr>))"

definition wait_poll ::
  "seconds \<Rightarrow> string \<Rightarrow> pending_store \<Rightarrow> py_exn + (approval_outcome option \<times> pending_store)" where
  "wait_poll now i s =
     (case dict_get (pend_records s) i of
        None \<Rightarrow> Inl KeyError
      | Some r \<Rightarrow>
          (if out_state (pend_outcome r) \<noteq> Pending
           then Inr (Some (pend_outcome r), s\<lparr>waiters := waiters s - 1\<rparr>)
           else if pa_expires_at (pend_approval r) - now \<le> 0
           then (let oc = \<lparr>out_state = Expired, out_actor = None, out_path = None, out_nonce = None,
                          out_reason = NobodyAnswered\<rparr>
                 in Inr (Some oc, (set_outcome i r oc s)\<lparr>waiters := waiters s - 1\<rparr>))
           else Inr (None, s)))"


section \<open>Runs\<close>

record pending_machine =
  pm_store :: pending_store
  pm_clock :: seconds
  pm_created :: "(string \<times> seconds \<times> seconds \<times> pending_request) list"
  pm_approvals :: "(string \<times> seconds \<times> digest \<times> approval_outcome) list"

datatype pending_op =
    PCreate seconds seconds string pending_request seconds
  | PApprove seconds string string string string digest
  | PDeny seconds string string string string
  | PEnter string
  | PPoll seconds string

text \<open>\<open>pm_created\<close> and \<open>pm_approvals\<close> are history the code does not keep: what each creation was called
  with (id, time, timeout, request), and each approval that landed (id, time, digest, outcome).\<close>

definition apply_pending_op :: "pending_machine \<Rightarrow> pending_op \<Rightarrow> pending_machine" where
  "apply_pending_op m x = (case x of
     PCreate now now' fresh q timeout \<Rightarrow>
       (case create_pending now now' fresh q timeout (pm_store m) of
          Inl _ \<Rightarrow> m
        | Inr (_, s') \<Rightarrow> m\<lparr>pm_store := s', pm_clock := now', pm_created := (fresh, now, timeout, q) # pm_created m\<rparr>)
   | PApprove now i actor path nonce dig \<Rightarrow>
       (case approve_pending now i actor path nonce dig (pm_store m) of
          (None, s') \<Rightarrow> m\<lparr>pm_store := s', pm_clock := now, pm_approvals :=
            (i, now, dig, \<lparr>out_state = Approved, out_actor = Some actor, out_path = Some path,
                 out_nonce = Some nonce, out_reason = NoneGiven\<rparr>) # pm_approvals m\<rparr>
        | (Some _, s') \<Rightarrow> m\<lparr>pm_store := s', pm_clock := now\<rparr>)
   | PDeny now i actor path why \<Rightarrow>
       m\<lparr>pm_store := snd (deny_pending now i actor path why (pm_store m)), pm_clock := now\<rparr>
   | PEnter i \<Rightarrow> (case wait_enter i (pm_store m) of Inl _ \<Rightarrow> m | Inr s' \<Rightarrow> m\<lparr>pm_store := s'\<rparr>)
   | PPoll now i \<Rightarrow>
       (case wait_poll now i (pm_store m) of
          Inl _ \<Rightarrow> m\<lparr>pm_clock := now\<rparr>
        | Inr (_, s') \<Rightarrow> m\<lparr>pm_store := s', pm_clock := now\<rparr>))"

definition pending_op_enabled :: "pending_machine \<Rightarrow> pending_op \<Rightarrow> bool" where
  "pending_op_enabled m x = (case x of
     PCreate now now' fresh q timeout \<Rightarrow> pm_clock m \<le> now \<and> now \<le> now' \<and> fresh \<notin> set (map fst (pm_created m))
   | PApprove now i actor path nonce dig \<Rightarrow> pm_clock m \<le> now
   | PDeny now i actor path why \<Rightarrow> pm_clock m \<le> now
   | PEnter i \<Rightarrow> True
   | PPoll now i \<Rightarrow> pm_clock m \<le> now)"

text \<open>A record carries its key, stems from a creation, and where it is approved, from an approval
  that landed before its deadline with its digest.\<close>

definition pending_record_ok :: "pending_machine \<Rightarrow> string \<Rightarrow> pending_record \<Rightarrow> bool" where
  "pending_record_ok m i r \<longleftrightarrow> pa_id (pend_approval r) = i \<and>      (\<exists>timeout q. (i, pa_created_at (pend_approval r), timeout, q) \<in> set (pm_created m) \<and> 0 < timeout \<and>
        pa_expires_at (pend_approval r) = pa_created_at (pend_approval r) + timeout \<and>
        pr_digest (pend_approval r) = pr_digest q) \<and>
     (out_state (pend_outcome r) = Pending \<longrightarrow> pend_outcome r = still_pending) \<and>
     (out_state (pend_outcome r) = Approved \<longrightarrow>
        (\<exists>t < pa_expires_at (pend_approval r).
           (i, t, pr_digest (pend_approval r), pend_outcome r) \<in> set (pm_approvals m)))"

definition pending_ok :: "pending_machine \<Rightarrow> bool" where
  "pending_ok m \<longleftrightarrow> dict_ok (pend_records (pm_store m)) \<and>
     (\<forall>i r. dict_get (pend_records (pm_store m)) i = Some r \<longrightarrow> pending_record_ok m i r)"

lemma set_outcome_get [simp]:
  "dict_get (pend_records (set_outcome i r oc s)) j =
     (if j = i then Some (r\<lparr>pend_outcome := oc\<rparr>) else dict_get (pend_records s) j)"
  "waiters (set_outcome i r oc s) = waiters s"
  by (simp_all add: set_outcome_def)

lemma set_outcome_dict_ok [simp]: "dict_ok (pend_records s) \<Longrightarrow> dict_ok (pend_records (set_outcome i r oc s))"
  by (simp add: set_outcome_def)

lemma answerable_None: "answerable now r = None \<longleftrightarrow>
    out_state (pend_outcome r) = Pending \<and> now < pa_expires_at (pend_approval r)"
  by (auto simp: answerable_def)

lemma create_get:
  assumes "dict_ok (pend_records s)" "create_pending now now' fresh q timeout s = Inr (a, s')"
  shows "dict_get (pend_records s') i =
      (if i = fresh then Some \<lparr>pend_approval = a, pend_outcome = still_pending\<rparr>
       else case dict_get (pend_records s) i of
         None \<Rightarrow> None
       | Some r \<Rightarrow> if pa_expires_at (pend_approval r) < now' - PENDING_RETENTION_S then None else Some r)"
    and "dict_ok (pend_records s')" "pa_id a = fresh" "pa_created_at a = now" "pa_expires_at a = now + timeout"
    "0 < timeout" "pr_digest a = pr_digest q" "waiters s' = waiters s"
  using assms
  by (auto simp: create_pending_def prune_pending_def dict_get_filter pending_request.defs Let_def
      split: if_splits option.splits)

lemma approve_None:
  "approve_pending now i actor path nonce dig s = (None, s') \<longleftrightarrow>
    (\<exists>r. dict_get (pend_records s) i = Some r \<and> answerable now r = None \<and> pr_digest (pend_approval r) = dig \<and>
       s' = set_outcome i r \<lparr>out_state = Approved, out_actor = Some actor, out_path = Some path,
              out_nonce = Some nonce, out_reason = NoneGiven\<rparr> s)"
  by (auto simp: approve_pending_def split: option.splits)

lemma approve_Some: "approve_pending now i actor path nonce dig s = (Some x, s') \<Longrightarrow> s' = s"
  by (auto simp: approve_pending_def split: option.splits if_splits)

lemma pending_op_keeps:
  assumes ok: "pending_ok m" and en: "pending_op_enabled m x"
  shows "pending_ok (apply_pending_op m x)"
proof (cases x)
  case (PCreate now now' fresh q timeout)
  show ?thesis
  proof (cases "create_pending now now' fresh q timeout (pm_store m)")
    case (Inr p)
    obtain a s' where "p = (a, s')" by fastforce
    with Inr have c: "create_pending now now' fresh q timeout (pm_store m) = Inr (a, s')" by simp
    have d: "dict_ok (pend_records (pm_store m))" using ok by (simp add: pending_ok_def)
    note g = create_get [OF d c]
    show ?thesis
      using ok g(2-) by (auto simp: pending_ok_def PCreate apply_pending_op_def c g(1) pending_record_ok_def
          still_pending_def split: if_splits option.splits)
  qed (use ok in \<open>simp add: PCreate apply_pending_op_def\<close>)
next
  case (PApprove now i actor path nonce dig)
  show ?thesis
  proof (cases "fst (approve_pending now i actor path nonce dig (pm_store m))")
    case None
    then obtain s' where a: "approve_pending now i actor path nonce dig (pm_store m) = (None, s')"
      by (metis prod.collapse)
    then obtain r where r: "dict_get (pend_records (pm_store m)) i = Some r" "now < pa_expires_at (pend_approval r)"
      "pr_digest (pend_approval r) = dig"
      and s': "s' = set_outcome i r \<lparr>out_state = Approved, out_actor = Some actor, out_path = Some path,
        out_nonce = Some nonce, out_reason = NoneGiven\<rparr> (pm_store m)"
      unfolding approve_None answerable_None by blast
    from ok r show ?thesis
      by (auto simp: PApprove apply_pending_op_def a s' pending_ok_def pending_record_ok_def)
  next
    case (Some r)
    then obtain s' where a: "approve_pending now i actor path nonce dig (pm_store m) = (Some r, s')"
      by (metis prod.collapse)
    from approve_Some [OF a] ok show ?thesis
      by (simp add: PApprove apply_pending_op_def a pending_ok_def pending_record_ok_def)
  qed
next
  case (PDeny now i actor path why)
  with ok show ?thesis
    by (auto simp: apply_pending_op_def deny_pending_def pending_ok_def pending_record_ok_def
        split: option.splits)
next
  case (PEnter i)
  with ok show ?thesis
    by (auto simp: apply_pending_op_def wait_enter_def pending_ok_def pending_record_ok_def)
next
  case (PPoll now i)
  with ok show ?thesis
    by (auto simp: apply_pending_op_def wait_poll_def Let_def pending_ok_def pending_record_ok_def
        split: option.splits)
qed

interpretation pending: op_machine apply_pending_op pending_op_enabled pending_ok
  by unfold_locales (rule pending_op_keeps)

text \<open>A decided action keeps its outcome as long as its record stays.\<close>

definition decided :: "string \<Rightarrow> approval_outcome \<Rightarrow> pending_machine \<Rightarrow> bool" where
  "decided i oc m \<longleftrightarrow> out_state oc \<noteq> Pending \<and> i \<in> set (map fst (pm_created m)) \<and>
     (\<forall>r. dict_get (pend_records (pm_store m)) i = Some r \<longrightarrow> pend_outcome r = oc)"

lemma decided_stays:
  assumes ok: "pending_ok m" and en: "pending_op_enabled m x" and dc: "decided i oc m"
  shows "decided i oc (apply_pending_op m x)"
proof (cases x)
  case (PCreate now now' fresh q timeout)
  show ?thesis
  proof (cases "create_pending now now' fresh q timeout (pm_store m)")
    case (Inr p)
    obtain a s' where "p = (a, s')" by fastforce
    with Inr have c: "create_pending now now' fresh q timeout (pm_store m) = Inr (a, s')" by simp
    have d: "dict_ok (pend_records (pm_store m))" using ok by (simp add: pending_ok_def)
    show ?thesis
      using dc en by (auto simp: decided_def PCreate apply_pending_op_def c create_get(1) [OF d c]
          pending_op_enabled_def split: if_splits option.splits)
  qed (use dc in \<open>simp add: PCreate apply_pending_op_def\<close>)
next
  case (PApprove now j actor path nonce dig)
  show ?thesis
  proof (cases "fst (approve_pending now j actor path nonce dig (pm_store m))")
    case None
    then obtain s' where a: "approve_pending now j actor path nonce dig (pm_store m) = (None, s')"
      by (metis prod.collapse)
    then obtain r where r: "dict_get (pend_records (pm_store m)) j = Some r" "answerable now r = None"
      and s': "s' = set_outcome j r \<lparr>out_state = Approved, out_actor = Some actor, out_path = Some path,
        out_nonce = Some nonce, out_reason = NoneGiven\<rparr> (pm_store m)"
      unfolding approve_None by blast
    from r dc have "j \<noteq> i" by (auto simp: decided_def answerable_None)
    with dc show ?thesis by (auto simp: decided_def PApprove apply_pending_op_def a s')
  next
    case (Some r)
    then obtain s' where a: "approve_pending now j actor path nonce dig (pm_store m) = (Some r, s')"
      by (metis prod.collapse)
    from approve_Some [OF a] dc show ?thesis
      by (simp add: decided_def PApprove apply_pending_op_def a)
  qed
next
  case (PDeny now j actor path why)
  with dc show ?thesis
    by (auto simp: decided_def apply_pending_op_def deny_pending_def answerable_def split: option.splits if_splits)
next
  case (PEnter j)
  with dc show ?thesis by (auto simp: decided_def apply_pending_op_def wait_enter_def)
next
  case (PPoll now j)
  with dc show ?thesis
    by (auto simp: decided_def apply_pending_op_def wait_poll_def Let_def split: option.splits)
qed

interpretation decided_action: stable_fact apply_pending_op pending_op_enabled pending_ok "decided i oc" for i oc
  by unfold_locales (rule decided_stays)


text \<open>Until its retention ends the record of an action stays, with the deadline it was created with.\<close>

definition kept :: "string \<Rightarrow> seconds \<Rightarrow> pending_machine \<Rightarrow> bool" where
  "kept i deadline m \<longleftrightarrow> i \<in> set (map fst (pm_created m)) \<and>
     (deadline + PENDING_RETENTION_S < pm_clock m \<or>
      (\<exists>r. dict_get (pend_records (pm_store m)) i = Some r \<and> pa_expires_at (pend_approval r) = deadline))"

lemma kept_stays:
  assumes ok: "pending_ok m" and en: "pending_op_enabled m x" and k: "kept i e m"
  shows "kept i e (apply_pending_op m x)"
proof (cases x)
  case (PCreate now now' fresh q timeout)
  show ?thesis
  proof (cases "create_pending now now' fresh q timeout (pm_store m)")
    case (Inr p)
    obtain a s' where "p = (a, s')" by fastforce
    with Inr have c: "create_pending now now' fresh q timeout (pm_store m) = Inr (a, s')" by simp
    have d: "dict_ok (pend_records (pm_store m))" using ok by (simp add: pending_ok_def)
    show ?thesis
      using k en by (auto simp: kept_def PCreate apply_pending_op_def c create_get(1) [OF d c] pending_op_enabled_def)
  qed (use k in \<open>simp add: PCreate apply_pending_op_def\<close>)
next
  case (PApprove now j actor path nonce dig)
  show ?thesis
  proof (cases "fst (approve_pending now j actor path nonce dig (pm_store m))")
    case None
    then obtain s' where a: "approve_pending now j actor path nonce dig (pm_store m) = (None, s')" by (metis prod.collapse)
    then obtain r oc where "dict_get (pend_records (pm_store m)) j = Some r" "s' = set_outcome j r oc (pm_store m)"
      unfolding approve_None by blast
    with k en show ?thesis by (auto simp: kept_def PApprove apply_pending_op_def pending_op_enabled_def a)
  next
    case (Some x)
    then obtain s' where a: "approve_pending now j actor path nonce dig (pm_store m) = (Some x, s')" by (metis prod.collapse)
    from approve_Some [OF a] k en show ?thesis
      by (auto simp: kept_def PApprove apply_pending_op_def pending_op_enabled_def a)
  qed
next
  case (PDeny now j actor path why)
  with k en show ?thesis
    by (auto simp: kept_def apply_pending_op_def deny_pending_def pending_op_enabled_def split: option.splits)
next
  case (PEnter j)
  with k show ?thesis by (auto simp: kept_def apply_pending_op_def wait_enter_def)
next
  case (PPoll now j)
  with k en show ?thesis
    by (auto simp: kept_def apply_pending_op_def wait_poll_def Let_def pending_op_enabled_def split: option.splits)
qed

interpretation kept_action: stable_fact apply_pending_op pending_op_enabled pending_ok "kept i deadline" for i deadline
  by unfold_locales (rule kept_stays)

section \<open>Properties\<close>

definition pending_start :: "seconds \<Rightarrow> pending_machine" where
  "pending_start now = \<lparr>pm_store = new_pending_store, pm_clock = now, pm_created = [], pm_approvals = []\<rparr>"

text \<open>The outcome an answer writes when it lands, and the outcome a waiter gets.\<close>

definition landed :: "pending_machine \<Rightarrow> pending_op \<Rightarrow> (string \<times> approval_outcome) option" where
  "landed m x = (case x of
     PApprove now i actor path nonce dig \<Rightarrow>
       (if fst (approve_pending now i actor path nonce dig (pm_store m)) = None
        then Some (i, \<lparr>out_state = Approved, out_actor = Some actor, out_path = Some path,
               out_nonce = Some nonce, out_reason = NoneGiven\<rparr>) else None)
   | PDeny now i actor path why \<Rightarrow>
       (if fst (deny_pending now i actor path why (pm_store m)) = None
        then Some (i, \<lparr>out_state = Denied, out_actor = Some actor, out_path = Some path,
               out_nonce = None, out_reason = DeniedBecause why\<rparr>) else None)
   | _ \<Rightarrow> None)"

definition poll_outcome :: "pending_machine \<Rightarrow> seconds \<Rightarrow> string \<Rightarrow> approval_outcome option" where
  "poll_outcome m now i = (case wait_poll now i (pm_store m) of Inl _ \<Rightarrow> None | Inr (r, _) \<Rightarrow> r)"

lemma pending_start_ok: "pending_ok (pending_start now)"
  by (simp add: pending_ok_def pending_start_def new_pending_store_def)

lemma landed_record:
  assumes "landed m x = Some (i, oc)"
  shows "\<exists>r now. dict_get (pend_records (pm_store m)) i = Some r \<and> answerable now r = None \<and>
    out_state oc \<in> {Approved, Denied} \<and>
    dict_get (pend_records (pm_store (apply_pending_op m x))) i = Some (r\<lparr>pend_outcome := oc\<rparr>) \<and>
    pm_created (apply_pending_op m x) = pm_created m"
  using assms
  by (cases x)
     (auto simp: landed_def apply_pending_op_def approve_pending_def deny_pending_def
       split: option.splits if_splits)

lemma landed_decides:
  assumes "pending_ok m" "landed m x = Some (i, oc)"
  shows "decided i oc (apply_pending_op m x)"
proof -
  from landed_record [OF assms(2)] obtain r where r: "dict_get (pend_records (pm_store m)) i = Some r"
    "out_state oc \<in> {Approved, Denied}"
    "dict_get (pend_records (pm_store (apply_pending_op m x))) i = Some (r\<lparr>pend_outcome := oc\<rparr>)"
    "pm_created (apply_pending_op m x) = pm_created m" by blast
  from assms(1) r(1) obtain c t q where "(i, c, t, q) \<in> set (pm_created m)"
    unfolding pending_ok_def pending_record_ok_def by blast
  then have "i \<in> set (map fst (pm_created m))" by force
  with r show ?thesis by (auto simp: decided_def)
qed

lemma decided_poll:
  assumes "decided i oc m"
  shows "poll_outcome m now i = (if get_pending i (pm_store m) = None then None else Some oc)"
  using assms by (cases "dict_get (pend_records (pm_store m)) i") (auto simp: decided_def poll_outcome_def wait_poll_def get_pending_def)

lemma landed_kept:
  assumes "pending_ok m" "landed m x = Some (i, oc)" "get_pending i (pm_store m) = Some a"
  shows "kept i (pa_expires_at a) (apply_pending_op m x)"
proof -
  from landed_record [OF assms(2)] obtain r where r: "dict_get (pend_records (pm_store m)) i = Some r"
    "dict_get (pend_records (pm_store (apply_pending_op m x))) i = Some (r\<lparr>pend_outcome := oc\<rparr>)" by blast
  then have "pend_approval r = a" using assms(3) by (simp add: get_pending_def)
  with r landed_decides [OF assms(1,2)] show ?thesis by (simp add: kept_def decided_def)
qed

lemma decided_not_landed: "decided i oc m \<Longrightarrow> landed m x \<noteq> Some (i, oc')"
  using landed_record [of m x i oc'] by (auto simp: decided_def answerable_None)

text \<open>C30. One answer is one answer. In any run of the store, once an approval or a denial of an action has landed, no later
  answer to it lands, and every wait that looks at it afterwards returns, with that answer, as long as the action is in
  the store: at least until 900 seconds past its deadline.\<close>

theorem one_answer:
  assumes "run_enabled apply_pending_op pending_op_enabled (pending_start start) (xs @ x # ys)"
    and "landed (foldl apply_pending_op (pending_start start) xs) x = Some (i, oc)"
    and "get_pending i (pm_store (foldl apply_pending_op (pending_start start) xs)) = Some a"
    and "foldl apply_pending_op (pending_start start) (xs @ x # ys) = m"
  shows "landed m y \<noteq> Some (i, oc') \<and> poll_outcome m now i = (if get_pending i (pm_store m) = None then None else Some oc) \<and>
    (pm_clock m \<le> pa_expires_at a + PENDING_RETENTION_S \<longrightarrow> poll_outcome m now i = Some oc)"
proof -
  let ?m = "foldl apply_pending_op (pending_start start) xs"
  have ok: "pending_ok ?m"
    using assms(1) by (intro pending.run_keeps pending_start_ok) simp
  have ok': "pending_ok (apply_pending_op ?m x)" using ok assms(1) by (intro pending_op_keeps) simp_all
  have m: "m = foldl apply_pending_op (apply_pending_op ?m x) ys" using assms(4) by simp
  have "decided i oc m"
    unfolding m using ok' assms(1) by (intro decided_action.run_fact landed_decides [OF ok assms(2)]) simp_all
  moreover have "kept i (pa_expires_at a) m"
    unfolding m using ok' assms(1) by (intro kept_action.run_fact landed_kept [OF ok assms(2,3)]) simp_all
  ultimately show ?thesis using decided_not_landed by (auto simp: decided_poll kept_def get_pending_def)
qed

definition sample_pending :: pending_request where
  "sample_pending = \<lparr>pr_session = ''s1'', pr_origin_path = ''telegram'', pr_context = ''interactive'',
     pr_class = ''mutate.remote'', pr_scope = ''host'', pr_hosts = [''h1''], pr_command = ''uptime'',
     pr_payload = ''p'', pr_digest = ''d1'', pr_origin_actor = ''bo'', pr_acting_agent = [],
     pr_delegated_by = []\<rparr>"

definition sample_answered :: "pending_op list" where
  "sample_answered = [PCreate 1 1 ''r1'' sample_pending 120] @ PApprove 2 ''r1'' ''ana'' ''webui'' ''n1'' ''d1'' # [PEnter ''r1'', PPoll 3 ''r1'']"

definition sample_approved :: approval_outcome where
  "sample_approved = \<lparr>out_state = Approved, out_actor = Some ''ana'', out_path = Some ''webui'', out_nonce = Some ''n1'', out_reason = NoneGiven\<rparr>"

theorem one_answer_witness:
  "landed (foldl apply_pending_op (pending_start 0) sample_answered) (PDeny 3 ''r1'' ''ana'' ''webui'' ''no'') \<noteq> Some (''r1'', still_pending) \<and>
   poll_outcome (foldl apply_pending_op (pending_start 0) sample_answered) 4 ''r1'' = Some sample_approved"
proof -
  let ?m = "foldl apply_pending_op (pending_start 0) [PCreate 1 1 ''r1'' sample_pending 120]"
  have run: "run_enabled apply_pending_op pending_op_enabled (pending_start 0)
      ([PCreate 1 1 ''r1'' sample_pending 120] @ PApprove 2 ''r1'' ''ana'' ''webui'' ''n1'' ''d1'' # [PEnter ''r1'', PPoll 3 ''r1''])" by code_simp
  have land: "landed ?m (PApprove 2 ''r1'' ''ana'' ''webui'' ''n1'' ''d1'') = Some (''r1'', sample_approved)" by code_simp
  have "map_option pa_expires_at (get_pending ''r1'' (pm_store ?m)) = Some 121" by code_simp
  then obtain a where a: "get_pending ''r1'' (pm_store ?m) = Some a" "pa_expires_at a = 121" by auto
  have "pm_clock (foldl apply_pending_op (pending_start 0) sample_answered) = 3" by code_simp
  then have t: "pm_clock (foldl apply_pending_op (pending_start 0) sample_answered) \<le> pa_expires_at a + PENDING_RETENTION_S"
    by (simp add: a(2) PENDING_RETENTION_S_def)
  note answered = one_answer [OF run land a(1) sample_answered_def [THEN arg_cong, of "foldl apply_pending_op (pending_start 0)", symmetric]]
  show ?thesis by (intro conjI answered [THEN conjunct1] answered [THEN conjunct2, THEN conjunct2, THEN mp, OF t])
qed

lemma created_in_run:
  "(j, c, timeout, q) \<in> set (pm_created (foldl apply_pending_op m xs)) \<Longrightarrow>
   (j, c, timeout, q) \<in> set (pm_created m) \<or> (\<exists>c'. PCreate c c' j q timeout \<in> set xs)"
proof (induction xs arbitrary: m)
  case (Cons x xs)
  have "(j, c, timeout, q) \<in> set (pm_created (apply_pending_op m x)) \<Longrightarrow>
      (j, c, timeout, q) \<in> set (pm_created m) \<or> (\<exists>c'. x = PCreate c c' j q timeout)"
    by (cases x) (auto simp: apply_pending_op_def split: sum.splits prod.splits option.splits)
  with Cons show ?case by fastforce
qed simp

definition approved_by :: "string \<Rightarrow> string \<Rightarrow> string \<Rightarrow> approval_outcome" where
  "approved_by actor path nonce = \<lparr>out_state = Approved, out_actor = Some actor, out_path = Some path,
     out_nonce = Some nonce, out_reason = NoneGiven\<rparr>"

lemma approvals_in_run:
  "(j, t, d, oc) \<in> set (pm_approvals (foldl apply_pending_op m xs)) \<Longrightarrow>
   (j, t, d, oc) \<in> set (pm_approvals m) \<or>
   (\<exists>actor path nonce. PApprove t j actor path nonce d \<in> set xs \<and> oc = approved_by actor path nonce)"
proof (induction xs arbitrary: m)
  case (Cons x xs)
  have "(j, t, d, oc) \<in> set (pm_approvals (apply_pending_op m x)) \<Longrightarrow>
      (j, t, d, oc) \<in> set (pm_approvals m) \<or>
      (\<exists>actor path nonce. x = PApprove t j actor path nonce d \<and> oc = approved_by actor path nonce)"
    by (cases x) (auto simp: apply_pending_op_def approved_by_def split: sum.splits prod.splits option.splits)
  with Cons show ?case by fastforce
qed simp

lemma approved_record:
  assumes "pending_ok m" "dict_get (pend_records (pm_store m)) i = Some r"
    and "out_state (pend_outcome r) = Approved"
  obtains t timeout q where "(i, pa_created_at (pend_approval r), timeout, q) \<in> set (pm_created m)"
    "t < pa_created_at (pend_approval r) + timeout"
    "(i, t, pr_digest q, pend_outcome r) \<in> set (pm_approvals m)"
proof -
  have ok: "pending_record_ok m i r" using assms by (simp add: pending_ok_def)
  then obtain timeout q where c: "(i, pa_created_at (pend_approval r), timeout, q) \<in> set (pm_created m)"
    "pa_expires_at (pend_approval r) = pa_created_at (pend_approval r) + timeout"
    "pr_digest (pend_approval r) = pr_digest q"
    unfolding pending_record_ok_def by blast
  from ok assms(3) obtain t where "t < pa_expires_at (pend_approval r)"
    "(i, t, pr_digest (pend_approval r), pend_outcome r) \<in> set (pm_approvals m)"
    unfolding pending_record_ok_def by blast
  with c that show thesis by simp
qed

text \<open>C28. A wait that ends approved was approved in time and over the right bytes: the run holds
  the creation of that request and a landed approval that named its digest, before the deadline the
  creation set, and the waiter gets that approval's actor, path and token.\<close>

theorem approved_wait_origin:
  assumes "run_enabled apply_pending_op pending_op_enabled (pending_start start) xs"
    and "poll_outcome (foldl apply_pending_op (pending_start start) xs) now i = Some oc"
    and "out_state oc = Approved"
  shows "\<exists>c c' q timeout t actor path nonce.
    PCreate c c' i q timeout \<in> set xs \<and> PApprove t i actor path nonce (pr_digest q) \<in> set xs \<and>
    t < c + timeout \<and> oc = approved_by actor path nonce"
proof -
  let ?m = "foldl apply_pending_op (pending_start start) xs"
  have ok: "pending_ok ?m" using assms(1) by (intro pending.run_keeps pending_start_ok)
  from assms(2,3) obtain r where r: "dict_get (pend_records (pm_store ?m)) i = Some r" "pend_outcome r = oc"
    by (auto simp: poll_outcome_def wait_poll_def Let_def split: option.splits if_splits)
  with assms(3) have "out_state (pend_outcome r) = Approved" by simp
  from approved_record [OF ok r(1) this] obtain t timeout q where
    c: "(i, pa_created_at (pend_approval r), timeout, q) \<in> set (pm_created ?m)"
    and t: "t < pa_created_at (pend_approval r) + timeout"
    and a: "(i, t, pr_digest q, pend_outcome r) \<in> set (pm_approvals ?m)" by metis
  have none: "pm_created (pending_start start) = []" "pm_approvals (pending_start start) = []"
    by (simp_all add: pending_start_def)
  from created_in_run [OF c] none obtain c' where
    "PCreate (pa_created_at (pend_approval r)) c' i q timeout \<in> set xs" by auto
  moreover from approvals_in_run [OF a] none r(2) obtain actor path nonce where
    "PApprove t i actor path nonce (pr_digest q) \<in> set xs" "oc = approved_by actor path nonce" by auto
  ultimately show ?thesis using t by blast
qed

theorem approved_wait_origin_witness:
  "\<exists>c c' q timeout t actor path nonce.
    PCreate c c' ''r1'' q timeout \<in> set [PCreate 1 1 ''r1'' sample_pending 120, PApprove 2 ''r1'' ''ana'' ''webui'' ''n1'' ''d1''] \<and>
    PApprove t ''r1'' actor path nonce (pr_digest q) \<in> set [PCreate 1 1 ''r1'' sample_pending 120, PApprove 2 ''r1'' ''ana'' ''webui'' ''n1'' ''d1''] \<and>
    t < c + timeout \<and>
    approved_by ''ana'' ''webui'' ''n1'' = approved_by actor path nonce"
  by (rule approved_wait_origin [where start = 0 and now = 3]; code_simp)

text \<open>What the operator surface lists is exactly what can still be answered: on a store that
  keeps its invariant, an action is listed at an instant if and only if an approval of it, naming
  its digest, would land at that instant; and the list is sorted by creation.\<close>

theorem listed_iff_answerable:
  assumes "pending_ok m"
  shows "(a \<in> set (pending_list now (pm_store m)) \<longleftrightarrow>
      get_pending (pa_id a) (pm_store m) = Some a \<and>
      fst (approve_pending now (pa_id a) actor path nonce (pr_digest a) (pm_store m)) = None)
    \<and> sorted (map pa_created_at (pending_list now (pm_store m)))"
proof -
  have d: "dict_ok (pend_records (pm_store m))" using assms by (simp add: pending_ok_def)
  have "r \<in> set (dict_values (pend_records (pm_store m))) \<longleftrightarrow>
      dict_get (pend_records (pm_store m)) (pa_id (pend_approval r)) = Some r" for r
    using assms dict_get_mem [OF d]
    by (force simp: dict_values_def pending_ok_def pending_record_ok_def)
  then show ?thesis
    by (auto simp: pending_list_def get_pending_def approve_pending_def answerable_def image_iff
        split: option.splits)
qed

theorem listed_iff_answerable_witness:
  "\<exists>a. pending_list 5 (pm_store (foldl apply_pending_op (pending_start 0) [PCreate 1 1 ''r1'' sample_pending 120])) = [a] \<and>
     fst (approve_pending 5 ''r1'' ''ana'' ''webui'' ''n1'' (pr_digest a)
       (pm_store (foldl apply_pending_op (pending_start 0) [PCreate 1 1 ''r1'' sample_pending 120]))) = None"
proof -
  let ?m = "foldl apply_pending_op (pending_start 0) [PCreate 1 1 ''r1'' sample_pending 120]"
  have "run_enabled apply_pending_op pending_op_enabled (pending_start 0) [PCreate 1 1 ''r1'' sample_pending 120]" by code_simp
  then have ok: "pending_ok ?m" by (rule pending.run_keeps [OF pending_start_ok])
  have "map pa_id (pending_list 5 (pm_store ?m)) = [''r1'']" by code_simp
  then obtain a where a: "pending_list 5 (pm_store ?m) = [a]" "pa_id a = ''r1''" by auto
  then have "a \<in> set (pending_list 5 (pm_store ?m))" by simp
  then show ?thesis using listed_iff_answerable [OF ok, of a 5 "''ana''" "''webui''" "''n1''"] a by simp
qed

lemma created_kept:
  assumes "pending_ok m" "0 < timeout"
  shows "kept i (c + timeout) (apply_pending_op m (PCreate c c' i q timeout))"
proof -
  obtain a s' where c: "create_pending c c' i q timeout (pm_store m) = Inr (a, s')"
    using assms(2) by (simp add: create_pending_def Let_def)
  have d: "dict_ok (pend_records (pm_store m))" using assms(1) by (simp add: pending_ok_def)
  show ?thesis by (simp add: kept_def apply_pending_op_def c create_get [OF d c])
qed

text \<open>No suspended action waits for ever: whatever operations of the store follow its creation, and whether or not an
  operator answers, the wait that looks at its record once the deadline has passed ends with an answer or the
  expiry. The record is there as long as the retention, so no wait ends in a missing record.\<close>

theorem wait_ends:
  assumes "run_enabled apply_pending_op pending_op_enabled (pending_start start) (xs @ PCreate c c' i q timeout # ys)"
    and "0 < timeout" and "c + timeout \<le> now" and "now \<le> c + timeout + PENDING_RETENTION_S"
    and "pm_clock (foldl apply_pending_op (pending_start start) (xs @ PCreate c c' i q timeout # ys)) \<le> now"
  shows "\<exists>oc. poll_outcome (foldl apply_pending_op (pending_start start) (xs @ PCreate c c' i q timeout # ys)) now i = Some oc \<and>
    out_state oc \<noteq> Pending"
proof -
  let ?m = "foldl apply_pending_op (pending_start start) xs"
  let ?x = "PCreate c c' i q timeout"
  from assms(1) have en: "run_enabled apply_pending_op pending_op_enabled (pending_start start) xs" "pending_op_enabled ?m ?x"
    "run_enabled apply_pending_op pending_op_enabled (apply_pending_op ?m ?x) ys"
    by (simp_all add: run_enabled_append)
  have ok: "pending_ok ?m" using en(1) by (intro pending.run_keeps pending_start_ok)
  have "kept i (c + timeout) (foldl apply_pending_op (apply_pending_op ?m ?x) ys)"
    using kept_action.run_fact [OF pending.op_keeps [OF ok en(2)] en(3) created_kept [OF ok assms(2)]] .
  with assms(4,5) obtain r where
    "dict_get (pend_records (pm_store (foldl apply_pending_op (apply_pending_op ?m ?x) ys))) i = Some r"
    "pa_expires_at (pend_approval r) = c + timeout" by (fastforce simp: kept_def)
  with assms(3) show ?thesis by (simp add: poll_outcome_def wait_poll_def Let_def)
qed

theorem wait_ends_witness:
  "\<exists>oc. poll_outcome (foldl apply_pending_op (pending_start 0)
     ([] @ PCreate 1 1 ''r1'' sample_pending 120 # [PEnter ''r1''])) 121 ''r1'' = Some oc \<and> out_state oc \<noteq> Pending"
  by (rule wait_ends; code_simp)
end
