(* ===== verification/Tokens.thy ===== *)
theory Tokens
  imports Digest
begin

text \<open>
  Single-use approval tokens: \<open>nanoinfra/gates/tokens.py\<close>. The store maps a nonce to a token and a
  used mark. The clock readings and the fresh nonce of an operation are its arguments; where the
  code reads the clock twice, there are two readings. The lock makes each method one step. The
  constant-time comparison is equality on ASCII text.
\<close>

section \<open>The store\<close>

definition DEFAULT_TTL_S :: seconds where "DEFAULT_TTL_S = 120"
definition MAX_TTL_S :: seconds where "MAX_TTL_S = 300"
definition TOKEN_RETENTION_S :: seconds where "TOKEN_RETENTION_S = 900"

datatype token_refusal = UnknownToken | AlreadyUsed | TokenExpired | WrongSession | TokenDigestMismatch

record approval_token =
  tok_session :: string
  tok_actor :: string
  tok_origin_path :: string
  tok_approval_path :: string
  tok_digest :: digest
  tok_class :: string
  tok_scope :: string
  tok_issued_at :: seconds
  tok_expires_at :: seconds
  tok_nonce :: string

record token_verification =
  ver_ok :: bool
  ver_refusal :: "token_refusal option"
  ver_token :: "approval_token option"

record token_record =
  rec_token :: approval_token
  rec_used :: bool

record token_store =
  store_ttl :: seconds
  token_records :: "(string, token_record) dict"

definition check_ttl :: "seconds \<Rightarrow> py_exn + unit" where
  "check_ttl ttl = (if ttl \<le> 0 then Inl ValueError else if ttl > MAX_TTL_S then Inl ValueError else Inr ())"

definition ascii :: "string \<Rightarrow> bool" where
  "ascii s = list_all (\<lambda>c. (of_char c :: nat) < 128) s"

definition equal_text :: "string \<Rightarrow> string \<Rightarrow> bool" where
  "equal_text stored proposed \<longleftrightarrow> (if \<not> ascii proposed \<or> \<not> ascii stored then False else stored = proposed)"

text \<open>The constructor; it refuses a lifetime the rules do not allow.\<close>

definition new_token_store :: "seconds \<Rightarrow> py_exn + token_store" where
  "new_token_store ttl =
     (case check_ttl ttl of Inl e \<Rightarrow> Inl e | Inr _ \<Rightarrow> Inr \<lparr>store_ttl = ttl, token_records = []\<rparr>)"

definition prune_tokens :: "seconds \<Rightarrow> string option \<Rightarrow> token_store \<Rightarrow> token_store" where
  "prune_tokens now keep s =
     s\<lparr>token_records := filter
         (\<lambda>(n, r). \<not> (tok_expires_at (rec_token r) < now - TOKEN_RETENTION_S \<and> Some n \<noteq> keep))
         (token_records s)\<rparr>"

definition find_token :: "string \<Rightarrow> token_store \<Rightarrow> token_record option" where
  "find_token n s =
     foldl (\<lambda>found (stored, r). if equal_text stored n then Some r else found) None (token_records s)"

definition evaluate_token ::
  "seconds \<Rightarrow> string \<Rightarrow> string \<Rightarrow> digest \<Rightarrow> token_store \<Rightarrow> token_verification \<times> token_record option" where
  "evaluate_token now n session dig s =
     (let refuse = (\<lambda>r. \<lparr>ver_ok = False, ver_refusal = Some r, ver_token = None\<rparr>)
      in case find_token n s of
           None \<Rightarrow> (refuse UnknownToken, None)
         | Some r \<Rightarrow>
             (if rec_used r then (refuse AlreadyUsed, Some r)
              else if tok_expires_at (rec_token r) \<le> now then (refuse TokenExpired, Some r)
              else if tok_session (rec_token r) \<noteq> session then (refuse WrongSession, Some r)
              else if \<not> equal_text (tok_digest (rec_token r)) dig
              then (refuse TokenDigestMismatch, Some r)
              else (\<lparr>ver_ok = True, ver_refusal = None, ver_token = Some (rec_token r)\<rparr>, Some r)))"

text \<open>What a caller of \<open>issue\<close> passes.\<close>

record token_request =
  req_session :: string
  req_actor :: string
  req_origin_path :: string
  req_approval_path :: string
  req_digest :: digest
  req_class :: string
  req_scope :: string
  req_ttl :: "seconds option"

definition issue_token ::
  "seconds \<Rightarrow> seconds \<Rightarrow> string \<Rightarrow> token_request \<Rightarrow> token_store \<Rightarrow> py_exn + (approval_token \<times> token_store)" where
  "issue_token now now' fresh q s =
     (let ttl = (case req_ttl q of None \<Rightarrow> store_ttl s | Some t \<Rightarrow> t)
      in case check_ttl ttl of
           Inl e \<Rightarrow> Inl e
         | Inr _ \<Rightarrow>
             (let t = \<lparr>tok_session = req_session q, tok_actor = req_actor q,
                       tok_origin_path = req_origin_path q, tok_approval_path = req_approval_path q,
                       tok_digest = req_digest q, tok_class = req_class q, tok_scope = req_scope q,
                       tok_issued_at = now, tok_expires_at = now + ttl, tok_nonce = fresh\<rparr>
              in Inr (t, prune_tokens now' (Some fresh)
                   (s\<lparr>token_records := dict_set fresh \<lparr>rec_token = t, rec_used = False\<rparr> (token_records s)\<rparr>))))"

definition verify_token ::
  "seconds \<Rightarrow> string \<Rightarrow> string \<Rightarrow> digest \<Rightarrow> token_store \<Rightarrow> token_verification" where
  "verify_token now n session dig s = fst (evaluate_token now n session dig s)"

definition consume_token ::
  "seconds \<Rightarrow> string \<Rightarrow> string \<Rightarrow> digest \<Rightarrow> token_store \<Rightarrow> token_verification \<times> token_store" where
  "consume_token now n session dig s =
     (case evaluate_token now n session dig s of
        (v, Some r) \<Rightarrow>
          (v, if ver_ok v
              then s\<lparr>token_records := dict_set (tok_nonce (rec_token r)) (r\<lparr>rec_used := True\<rparr>) (token_records s)\<rparr>
              else s)
      | (v, None) \<Rightarrow> (v, s))"

definition pending_count :: "seconds \<Rightarrow> seconds \<Rightarrow> token_store \<Rightarrow> nat \<times> token_store" where
  "pending_count now now' s =
     (let s' = prune_tokens now None s
      in (length (filter (\<lambda>(n, r). \<not> rec_used r \<and> now' < tok_expires_at (rec_token r)) (token_records s')), s'))"


section \<open>What the store keeps\<close>

definition token_record_ok :: "string \<Rightarrow> token_record \<Rightarrow> bool" where
  "token_record_ok n r \<longleftrightarrow> tok_nonce (rec_token r) = n \<and> ascii n \<and>
     tok_expires_at (rec_token r) \<le> tok_issued_at (rec_token r) + MAX_TTL_S"

definition token_store_ok :: "token_store \<Rightarrow> bool" where
  "token_store_ok s \<longleftrightarrow> dict_ok (token_records s) \<and> check_ttl (store_ttl s) = Inr () \<and>
     (\<forall>n r. dict_get (token_records s) n = Some r \<longrightarrow> token_record_ok n r)"

lemma find_token_get:
  assumes "token_store_ok s"
  shows "find_token n s = dict_get (token_records s) n"
proof -
  have scan: "foldl (\<lambda>found (stored, r). if equal_text stored n then Some r else found) acc d =
      (case dict_get d n of None \<Rightarrow> acc | Some r \<Rightarrow> Some r)"
    if "dict_ok d" "\<And>k r. (k, r) \<in> set d \<Longrightarrow> ascii k" for d acc
    using that
  proof (induction d arbitrary: acc)
    case (Cons p d)
    obtain k r where p: "p = (k, r)" by fastforce
    have d: "dict_ok d" and k: "dict_get d k = None"
      using Cons.prems(1) by (auto simp: p dict_ok_def dict_keys_def dict_get_def map_of_eq_None_iff)
    have eq: "equal_text k n \<longleftrightarrow> k = n" using Cons.prems(2) by (auto simp: p equal_text_def)
    have ih: "foldl (\<lambda>found (stored, r). if equal_text stored n then Some r else found) acc' d =
        (case dict_get d n of None \<Rightarrow> acc' | Some r \<Rightarrow> Some r)" for acc'
      by (rule Cons.IH [OF d]) (use Cons.prems(2) in auto)
    from eq k show ?case by (auto simp: p ih dict_get_def split: option.splits)
  qed simp
  have "ascii k" if "(k, r) \<in> set (token_records s)" for k r
    using that assms by (auto simp: token_store_ok_def token_record_ok_def dict_get_mem)
  moreover have "dict_ok (token_records s)" using assms by (simp add: token_store_ok_def)
  ultimately show ?thesis
    unfolding find_token_def by (subst scan) (auto split: option.splits)
qed

lemma prune_get:
  assumes "dict_ok (token_records s)"
  shows "dict_get (token_records (prune_tokens now keep s)) n =
    (case dict_get (token_records s) n of
       None \<Rightarrow> None
     | Some r \<Rightarrow> if tok_expires_at (rec_token r) < now - TOKEN_RETENTION_S \<and> Some n \<noteq> keep
                then None else Some r)"
  using assms by (simp add: prune_tokens_def dict_get_filter split: option.splits)

lemma prune_ok [keeps]: "token_store_ok s \<Longrightarrow> token_store_ok (prune_tokens now keep s)"
  using prune_get [of s now keep]
  by (auto simp: token_store_ok_def prune_tokens_def split: option.splits if_splits)

lemma evaluate_token_ok:
  assumes "token_store_ok s"
  shows "ver_ok (fst (evaluate_token now n session dig s)) \<longleftrightarrow>
    (\<exists>r. dict_get (token_records s) n = Some r \<and> \<not> rec_used r \<and> now < tok_expires_at (rec_token r) \<and>
       tok_session (rec_token r) = session \<and> equal_text (tok_digest (rec_token r)) dig)"
  by (auto simp: evaluate_token_def find_token_get [OF assms] Let_def split: option.splits)

lemma consume_token_eq:
  assumes "token_store_ok s"
  shows "consume_token now n session dig s =
    (fst (evaluate_token now n session dig s),
     if ver_ok (fst (evaluate_token now n session dig s))
     then s\<lparr>token_records := dict_set n ((the (dict_get (token_records s) n))\<lparr>rec_used := True\<rparr>) (token_records s)\<rparr>
     else s)"
proof (cases "dict_get (token_records s) n")
  case None
  then show ?thesis
    by (simp add: consume_token_def evaluate_token_def find_token_get [OF assms] Let_def)
next
  case (Some r)
  then have "tok_nonce (rec_token r) = n"
    using assms by (simp add: token_store_ok_def token_record_ok_def)
  with Some show ?thesis
    by (simp add: consume_token_def evaluate_token_def find_token_get [OF assms] Let_def)
qed

lemma consume_get:
  assumes "token_store_ok s"
  shows "dict_get (token_records (snd (consume_token now n session dig s))) k =
    map_option (\<lambda>r. if k = n \<and> ver_ok (fst (evaluate_token now n session dig s)) then r\<lparr>rec_used := True\<rparr> else r)
      (dict_get (token_records s) k)"
  using evaluate_token_ok [OF assms, of now n session dig]
  by (cases "dict_get (token_records s) k") (auto simp: consume_token_eq [OF assms])

lemma issue_Inr:
  assumes "issue_token now now' fresh q s = Inr (t, s')"
  shows "tok_nonce t = fresh" "tok_issued_at t = now"
    "now < tok_expires_at t" "tok_expires_at t \<le> now + MAX_TTL_S"
    "s' = prune_tokens now' (Some fresh)
       (s\<lparr>token_records := dict_set fresh \<lparr>rec_token = t, rec_used = False\<rparr> (token_records s)\<rparr>)"
  using assms
  by (auto simp: issue_token_def check_ttl_def Let_def split: option.splits if_splits)

lemma issue_ok [keeps]:
  assumes "token_store_ok s" "ascii fresh" "issue_token now now' fresh q s = Inr (t, s')"
  shows "token_store_ok s'"
  unfolding issue_Inr(5) [OF assms(3)]
  by (rule prune_ok)
     (use assms(1,2) issue_Inr [OF assms(3)] in \<open>auto simp: token_store_ok_def token_record_ok_def\<close>)

lemma consume_ok [keeps]:
  assumes "token_store_ok s"
  shows "token_store_ok (snd (consume_token now n session dig s))"
  using assms evaluate_token_ok [OF assms, of now n session dig]
  by (auto simp: consume_token_eq [OF assms] token_store_ok_def token_record_ok_def split: if_splits)


section \<open>Runs\<close>

text \<open>
  The store between calls, the last clock reading, and the issues so far (nonce, time, request),
  which the code does not keep. A call is one its environment can make when the clock does not
  run backwards and a fresh nonce is ASCII and was never drawn before.
\<close>

record token_machine =
  tm_store :: token_store
  tm_clock :: seconds
  tm_issued :: "(string \<times> seconds \<times> token_request) list"

datatype token_op =
    TIssue seconds seconds string token_request
  | TVerify seconds string string digest
  | TConsume seconds string string digest
  | TCount seconds seconds

definition apply_token_op :: "token_machine \<Rightarrow> token_op \<Rightarrow> token_machine" where
  "apply_token_op m x = (case x of
     TIssue now now' fresh q \<Rightarrow>
       (case issue_token now now' fresh q (tm_store m) of
          Inl _ \<Rightarrow> m
        | Inr (_, s') \<Rightarrow> \<lparr>tm_store = s', tm_clock = now', tm_issued = (fresh, now, q) # tm_issued m\<rparr>)
   | TVerify now n session dig \<Rightarrow> m\<lparr>tm_clock := now\<rparr>
   | TConsume now n session dig \<Rightarrow>
       m\<lparr>tm_store := snd (consume_token now n session dig (tm_store m)), tm_clock := now\<rparr>
   | TCount now now' \<Rightarrow> m\<lparr>tm_store := snd (pending_count now now' (tm_store m)), tm_clock := now'\<rparr>)"

definition token_op_enabled :: "token_machine \<Rightarrow> token_op \<Rightarrow> bool" where
  "token_op_enabled m x = (case x of
     TIssue now now' fresh q \<Rightarrow>
       tm_clock m \<le> now \<and> now \<le> now' \<and> ascii fresh \<and> fresh \<notin> set (map fst (tm_issued m))
   | TVerify now n session dig \<Rightarrow> tm_clock m \<le> now
   | TConsume now n session dig \<Rightarrow> tm_clock m \<le> now
   | TCount now now' \<Rightarrow> tm_clock m \<le> now \<and> now \<le> now')"

definition issued_as :: "token_machine \<Rightarrow> string \<Rightarrow> token_record \<Rightarrow> bool" where
  "issued_as m n r \<longleftrightarrow> (\<exists>now q. (n, now, q) \<in> set (tm_issued m) \<and> tok_session (rec_token r) = req_session q \<and>
     tok_digest (rec_token r) = req_digest q \<and> tok_expires_at (rec_token r) \<le> now + MAX_TTL_S)"

definition token_machine_ok :: "token_machine \<Rightarrow> bool" where
  "token_machine_ok m \<longleftrightarrow> token_store_ok (tm_store m) \<and>
     (\<forall>n r. dict_get (token_records (tm_store m)) n = Some r \<longrightarrow> issued_as m n r)"

lemma apply_issue:
  assumes "token_machine_ok m" "token_op_enabled m (TIssue now now' fresh q)"
    and "issue_token now now' fresh q (tm_store m) = Inr (t, s')"
  shows "dict_get (token_records s') n =
     (if n = fresh then Some \<lparr>rec_token = t, rec_used = False\<rparr>
      else case dict_get (token_records (tm_store m)) n of
        None \<Rightarrow> None
      | Some r \<Rightarrow> if tok_expires_at (rec_token r) < now' - TOKEN_RETENTION_S then None else Some r)"
  using assms(1) unfolding issue_Inr(5) [OF assms(3)]
  by (subst prune_get) (auto simp: token_machine_ok_def token_store_ok_def split: option.splits)

lemma issue_request:
  "issue_token now now' fresh q s = Inr (t, s') \<Longrightarrow>
   tok_session t = req_session q \<and> tok_digest t = req_digest q"
  by (auto simp: issue_token_def Let_def split: option.splits sum.splits)

lemma token_op_keeps:
  assumes ok: "token_machine_ok m" and en: "token_op_enabled m x"
  shows "token_machine_ok (apply_token_op m x)"
proof (cases x)
  case (TIssue now now' fresh q)
  show ?thesis
  proof (cases "issue_token now now' fresh q (tm_store m)")
    case (Inl e)
    with ok TIssue show ?thesis by (simp add: apply_token_op_def)
  next
    case (Inr p)
    obtain t s' where "p = (t, s')" by fastforce
    with Inr have i: "issue_token now now' fresh q (tm_store m) = Inr (t, s')" by simp
    note get = apply_issue [OF ok en [unfolded TIssue] i]
    have "token_store_ok s'"
      using issue_ok [OF _ _ i] ok en by (simp add: token_machine_ok_def token_op_enabled_def TIssue)
    moreover have "issued_as (apply_token_op m x) n r" if "dict_get (token_records s') n = Some r" for n r
      using that ok issue_request [OF i] issue_Inr(4) [OF i]
      by (fastforce simp: get TIssue apply_token_op_def i issued_as_def token_machine_ok_def
          split: if_splits option.splits)
    ultimately show ?thesis by (simp add: token_machine_ok_def apply_token_op_def TIssue i)
  qed
next
  case (TConsume now n session dig)
  let ?s' = "snd (consume_token now n session dig (tm_store m))"
  have s: "token_store_ok (tm_store m)" using ok by (simp add: token_machine_ok_def)
  have "issued_as m k r" if got: "dict_get (token_records ?s') k = Some r" for k r
  proof -
    obtain r' where "dict_get (token_records (tm_store m)) k = Some r'" "rec_token r = rec_token r'"
      using got by (auto simp: consume_get [OF s] split: if_splits)
    then show ?thesis using ok by (auto simp: token_machine_ok_def issued_as_def)
  qed
  with consume_ok [OF s] show ?thesis
    by (simp add: token_machine_ok_def apply_token_op_def TConsume issued_as_def)
next
  case (TVerify now n session dig)
  with ok show ?thesis by (simp add: apply_token_op_def token_machine_ok_def issued_as_def)
next
  case (TCount now now')
  with ok prune_ok [of "tm_store m" now None] show ?thesis
    by (auto simp: apply_token_op_def token_machine_ok_def issued_as_def pending_count_def Let_def
        token_store_ok_def prune_get split: option.splits if_splits)
qed

interpretation tokens: op_machine apply_token_op token_op_enabled token_machine_ok
  by unfold_locales (rule token_op_keeps)

text \<open>Two facts no call undoes: a spent nonce stays spent, and a token keeps its record long
  enough to explain a late refusal.\<close>

definition spent :: "string \<Rightarrow> token_machine \<Rightarrow> bool" where
  "spent n m \<longleftrightarrow> n \<in> set (map fst (tm_issued m)) \<and>
     (\<forall>r. dict_get (token_records (tm_store m)) n = Some r \<longrightarrow> rec_used r)"

definition explained :: "string \<Rightarrow> seconds \<Rightarrow> token_machine \<Rightarrow> bool" where
  "explained n e m \<longleftrightarrow> n \<in> set (map fst (tm_issued m)) \<and>
     (tm_clock m \<le> e + TOKEN_RETENTION_S \<longrightarrow>
      (\<exists>r. dict_get (token_records (tm_store m)) n = Some r \<and> tok_expires_at (rec_token r) = e))"

lemma spent_stays:
  assumes ok: "token_machine_ok m" and en: "token_op_enabled m x" and sp: "spent n m"
  shows "spent n (apply_token_op m x)"
proof (cases x)
  case (TIssue now now' fresh q)
  show ?thesis
  proof (cases "issue_token now now' fresh q (tm_store m)")
    case (Inr p)
    obtain t s' where "p = (t, s')" by fastforce
    with Inr have i: "issue_token now now' fresh q (tm_store m) = Inr (t, s')" by simp
    show ?thesis
      using sp en apply_issue [OF ok en [unfolded TIssue] i, of n]
      by (auto simp: spent_def TIssue apply_token_op_def i token_op_enabled_def split: option.splits if_splits)
  qed (use sp in \<open>simp add: TIssue apply_token_op_def\<close>)
next
  case (TConsume now k session dig)
  have s: "token_store_ok (tm_store m)" using ok by (simp add: token_machine_ok_def)
  show ?thesis
    using sp by (auto simp: spent_def TConsume apply_token_op_def consume_token_eq [OF s])
next
  case (TVerify now k session dig)
  with sp show ?thesis by (simp add: spent_def apply_token_op_def)
next
  case (TCount now now')
  with sp ok show ?thesis
    by (auto simp: spent_def apply_token_op_def pending_count_def Let_def token_machine_ok_def
        token_store_ok_def prune_get split: option.splits if_splits)
qed

lemma explained_stays:
  assumes ok: "token_machine_ok m" and en: "token_op_enabled m x" and ex: "explained n e m"
  shows "explained n e (apply_token_op m x)"
proof (cases x)
  case (TIssue now now' fresh q)
  show ?thesis
  proof (cases "issue_token now now' fresh q (tm_store m)")
    case (Inr p)
    obtain t s' where "p = (t, s')" by fastforce
    with Inr have i: "issue_token now now' fresh q (tm_store m) = Inr (t, s')" by simp
    have "n \<noteq> fresh" using ex en by (auto simp: explained_def token_op_enabled_def TIssue)
    with ex en apply_issue [OF ok en [unfolded TIssue] i, of n] show ?thesis
      by (auto simp: explained_def TIssue apply_token_op_def i token_op_enabled_def)
  qed (use ex in \<open>simp add: TIssue apply_token_op_def\<close>)
next
  case (TConsume now k session dig)
  have s: "token_store_ok (tm_store m)" using ok by (simp add: token_machine_ok_def)
  show ?thesis
    using ex en evaluate_token_ok [OF s, of now k session dig]
    by (auto simp: explained_def TConsume apply_token_op_def consume_token_eq [OF s] token_op_enabled_def)
next
  case (TVerify now k session dig)
  with ex en show ?thesis by (auto simp: explained_def apply_token_op_def token_op_enabled_def)
next
  case (TCount now now')
  with ex en ok show ?thesis
    by (auto simp: explained_def apply_token_op_def pending_count_def Let_def token_machine_ok_def
        token_op_enabled_def token_store_ok_def prune_get split: option.splits if_splits)
qed

interpretation spent_token: stable_fact apply_token_op token_op_enabled token_machine_ok "spent n" for n
  by unfold_locales (rule spent_stays)

interpretation explained_token: stable_fact apply_token_op token_op_enabled token_machine_ok
  "explained n e" for n e
  by unfold_locales (rule explained_stays)

definition fresh_tokens :: "seconds \<Rightarrow> seconds \<Rightarrow> token_machine" where
  "fresh_tokens ttl now = \<lparr>tm_store = \<lparr>store_ttl = ttl, token_records = []\<rparr>, tm_clock = now, tm_issued = []\<rparr>"

lemma fresh_tokens_ok: "new_token_store ttl = Inr s \<Longrightarrow> token_machine_ok (fresh_tokens ttl now)"
  by (auto simp: new_token_store_def fresh_tokens_def token_machine_ok_def token_store_ok_def
      split: sum.splits)

lemma issued_in_run:
  "(n, t, q) \<in> set (tm_issued (foldl apply_token_op m xs)) \<Longrightarrow>
   (n, t, q) \<in> set (tm_issued m) \<or> (\<exists>t'. TIssue t t' n q \<in> set xs)"
proof (induction xs arbitrary: m)
  case (Cons x xs)
  have "(n, t, q) \<in> set (tm_issued (apply_token_op m x)) \<Longrightarrow>
      (n, t, q) \<in> set (tm_issued m) \<or> (\<exists>t'. x = TIssue t t' n q)"
    by (cases x) (auto simp: apply_token_op_def split: sum.splits)
  with Cons show ?case by fastforce
qed simp


section \<open>Properties\<close>

definition consumes :: "token_machine \<Rightarrow> seconds \<Rightarrow> string \<Rightarrow> string \<Rightarrow> digest \<Rightarrow> bool" where
  "consumes m now n session dig \<longleftrightarrow> ver_ok (fst (consume_token now n session dig (tm_store m)))"

definition consume_refusal :: "token_machine \<Rightarrow> seconds \<Rightarrow> string \<Rightarrow> string \<Rightarrow> digest \<Rightarrow> token_refusal option" where
  "consume_refusal m now n session dig = ver_refusal (fst (consume_token now n session dig (tm_store m)))"

lemma consumes_iff:
  assumes "token_machine_ok m"
  shows "consumes m now n session dig \<longleftrightarrow>
    (\<exists>r. dict_get (token_records (tm_store m)) n = Some r \<and> \<not> rec_used r \<and> now < tok_expires_at (rec_token r) \<and>
       tok_session (rec_token r) = session \<and> equal_text (tok_digest (rec_token r)) dig)"
  using assms by (simp add: consumes_def token_machine_ok_def consume_token_eq evaluate_token_ok)

lemma consume_spends:
  assumes "token_machine_ok m" "consumes m now n session dig"
  shows "spent n (apply_token_op m (TConsume now n session dig))"
proof -
  have s: "token_store_ok (tm_store m)" using assms by (simp add: token_machine_ok_def)
  have v: "ver_ok (fst (evaluate_token now n session dig (tm_store m)))"
    using assms by (simp add: consumes_def consume_token_eq [OF s])
  obtain r where "dict_get (token_records (tm_store m)) n = Some r"
    using assms(2) consumes_iff [OF assms(1)] by blast
  moreover then have "n \<in> set (map fst (tm_issued m))"
    using assms(1) by (force simp: token_machine_ok_def issued_as_def)
  ultimately show ?thesis
    by (auto simp: spent_def apply_token_op_def consume_get [OF s] v)
qed

text \<open>C25. One approval is one use. From a fresh store, through any sequence of calls: once a nonce has
  been consumed successfully, no later consumption of it succeeds, whatever was called in between,
  and the refusal says \<open>already_used\<close> (or \<open>unknown_token\<close> when the record has been dropped).\<close>

theorem token_single_use:
  assumes "new_token_store ttl = Inr s"
    and "run_enabled apply_token_op token_op_enabled (fresh_tokens ttl start)
           (xs @ TConsume now n session dig # ys)"
    and "consumes (foldl apply_token_op (fresh_tokens ttl start) xs) now n session dig"
  shows "consume_refusal (foldl apply_token_op (fresh_tokens ttl start) (xs @ TConsume now n session dig # ys))
           now' n session' dig' \<in> {Some AlreadyUsed, Some UnknownToken}"
proof -
  let ?m = "foldl apply_token_op (fresh_tokens ttl start) xs"
  let ?m' = "apply_token_op ?m (TConsume now n session dig)"
  let ?e = "foldl apply_token_op ?m' ys"
  have ok: "token_machine_ok ?m"
    using assms(1,2) by (intro tokens.run_keeps fresh_tokens_ok) simp_all
  have ok': "token_machine_ok ?m'" using ok assms(2) by (intro token_op_keeps) simp_all
  have "spent n ?e"
    using assms(2) by (intro spent_token.run_fact [OF ok' _ consume_spends [OF ok assms(3)]]) simp
  moreover have e: "token_store_ok (tm_store ?e)"
    using tokens.run_keeps [OF ok'] assms(2) by (simp add: token_machine_ok_def)
  ultimately have "consume_refusal ?e now' n session' dig' \<in> {Some AlreadyUsed, Some UnknownToken}"
    by (auto simp: consume_refusal_def consume_token_eq [OF e] evaluate_token_def find_token_get [OF e]
        spent_def Let_def split: option.splits)
  then show ?thesis by simp
qed

definition sample_request :: token_request where
  "sample_request = \<lparr>req_session = ''s1'', req_actor = ''ana'', req_origin_path = ''telegram'',
     req_approval_path = ''webui'', req_digest = ''sha256:ab'', req_class = ''mutate.remote'',
     req_scope = ''host'', req_ttl = None\<rparr>"

theorem token_single_use_witness:
  "consume_refusal (foldl apply_token_op (fresh_tokens 120 0)
     ([TIssue 1 1 ''n1'' sample_request] @ TConsume 2 ''n1'' ''s1'' ''sha256:ab'' # [TCount 3 3]))
     4 ''n1'' ''s1'' ''sha256:ab'' \<in> {Some AlreadyUsed, Some UnknownToken}"
proof (rule token_single_use)
  show "new_token_store 120 = Inr \<lparr>store_ttl = 120, token_records = []\<rparr>"
    by (simp add: new_token_store_def check_ttl_def MAX_TTL_S_def)
  show "run_enabled apply_token_op token_op_enabled (fresh_tokens 120 0)
     ([TIssue 1 1 ''n1'' sample_request] @ TConsume 2 ''n1'' ''s1'' ''sha256:ab'' # [TCount 3 3])"
    by code_simp
  show "consumes (foldl apply_token_op (fresh_tokens 120 0) [TIssue 1 1 ''n1'' sample_request])
     2 ''n1'' ''s1'' ''sha256:ab''" by code_simp
qed

text \<open>C29. A token authorizes only what it was issued for: when a consumption succeeds in any run,
  the run holds the issue of that very nonce, for that session and that target digest, at most
  300 seconds earlier.\<close>

theorem token_binds:
  assumes "new_token_store ttl = Inr s"
    and "run_enabled apply_token_op token_op_enabled (fresh_tokens ttl start) xs"
    and "consumes (foldl apply_token_op (fresh_tokens ttl start) xs) now n session dig"
  shows "\<exists>issued issued' q. TIssue issued issued' n q \<in> set xs \<and> req_session q = session \<and>
    req_digest q = dig \<and> now < issued + MAX_TTL_S"
proof -
  have ok: "token_machine_ok (foldl apply_token_op (fresh_tokens ttl start) xs)"
    using assms(1,2) by (intro tokens.run_keeps fresh_tokens_ok)
  from assms(3) obtain r where r: "dict_get (token_records (tm_store
        (foldl apply_token_op (fresh_tokens ttl start) xs))) n = Some r"
    "now < tok_expires_at (rec_token r)" "tok_session (rec_token r) = session"
    "tok_digest (rec_token r) = dig"
    unfolding consumes_iff [OF ok] by (auto simp: equal_text_def split: if_splits)
  with ok obtain t q where "(n, t, q) \<in> set (tm_issued (foldl apply_token_op (fresh_tokens ttl start) xs))"
    "req_session q = session" "req_digest q = dig" "tok_expires_at (rec_token r) \<le> t + MAX_TTL_S"
    unfolding token_machine_ok_def issued_as_def by metis
  moreover from this(1) obtain t' where "TIssue t t' n q \<in> set xs"
    using issued_in_run [of n t q "fresh_tokens ttl start" xs] by (auto simp: fresh_tokens_def)
  ultimately show ?thesis using r(2) by force
qed

theorem token_binds_witness:
  "\<exists>issued issued' q. TIssue issued issued' ''n1'' q \<in> set [TIssue 1 1 ''n1'' sample_request] \<and>
     req_session q = ''s1'' \<and> req_digest q = ''sha256:ab'' \<and> (2::seconds) < issued + MAX_TTL_S"
proof (rule token_binds [where ttl = 120 and start = 0])
  show "new_token_store 120 = Inr \<lparr>store_ttl = 120, token_records = []\<rparr>"
    by (simp add: new_token_store_def check_ttl_def MAX_TTL_S_def)
qed code_simp+

text \<open>A refusal spends nothing and a check spends nothing: after a refused consumption the store is
  the one before it, so the approval it named can still be used once.\<close>

theorem refused_consume_keeps_store:
  assumes "\<not> ver_ok (fst (consume_token now n session dig s))"
  shows "snd (consume_token now n session dig s) = s"
  using assms by (auto simp: consume_token_def split: option.splits prod.splits)

theorem refused_consume_keeps_store_witness:
  "snd (consume_token 1 ''n1'' ''s1'' ''d'' \<lparr>store_ttl = 120, token_records = []\<rparr>) =
     \<lparr>store_ttl = 120, token_records = []\<rparr>"
  by (rule refused_consume_keeps_store) code_simp

text \<open>A late answer reads the right word: through any run of calls, until 900 seconds past the
  expiry of an issued token, a consumption of it never answers \<open>unknown_token\<close>.\<close>

theorem late_refusal_explained:
  assumes "token_machine_ok m" and "issue_token now now' n q (tm_store m) = Inr (t, s')"
    and "run_enabled apply_token_op token_op_enabled m (TIssue now now' n q # xs)"
    and "tm_clock (foldl apply_token_op m (TIssue now now' n q # xs)) \<le> tok_expires_at t + TOKEN_RETENTION_S"
  shows "consume_refusal (foldl apply_token_op m (TIssue now now' n q # xs)) later n session dig \<noteq> Some UnknownToken"
proof -
  let ?m' = "apply_token_op m (TIssue now now' n q)"
  let ?e = "foldl apply_token_op ?m' xs"
  have en: "token_op_enabled m (TIssue now now' n q)" using assms(3) by simp
  have ok': "token_machine_ok ?m'" by (rule token_op_keeps [OF assms(1) en])
  have "explained n (tok_expires_at t) ?m'"
    using apply_issue [OF assms(1) en assms(2), of n] assms(2)
    by (simp add: explained_def apply_token_op_def)
  then have "explained n (tok_expires_at t) ?e"
    using assms(3) by (intro explained_token.run_fact [OF ok']) simp_all
  with assms(4) obtain r where "dict_get (token_records (tm_store ?e)) n = Some r"
    by (auto simp: explained_def)
  moreover have e: "token_store_ok (tm_store ?e)"
    using tokens.run_keeps [OF ok'] assms(3) by (simp add: token_machine_ok_def)
  ultimately show ?thesis
    by (simp add: consume_refusal_def consume_token_eq [OF e] evaluate_token_def find_token_get [OF e] Let_def)
qed

theorem late_refusal_explained_witness:
  "consume_refusal (foldl apply_token_op (fresh_tokens 120 0) (TIssue 1 1 ''n1'' sample_request # [TCount 500 500]))
     600 ''n1'' ''s1'' ''sha256:ab'' \<noteq> Some UnknownToken"
proof (rule late_refusal_explained)
  show "token_machine_ok (fresh_tokens 120 0)"
    by (rule fresh_tokens_ok) (simp add: new_token_store_def check_ttl_def MAX_TTL_S_def)
  show "issue_token 1 1 ''n1'' sample_request (tm_store (fresh_tokens 120 0)) =
    Inr (\<lparr>tok_session = ''s1'', tok_actor = ''ana'', tok_origin_path = ''telegram'',
      tok_approval_path = ''webui'', tok_digest = ''sha256:ab'', tok_class = ''mutate.remote'',
      tok_scope = ''host'', tok_issued_at = 1, tok_expires_at = 121, tok_nonce = ''n1''\<rparr>,
      snd (projr (issue_token 1 1 ''n1'' sample_request (tm_store (fresh_tokens 120 0)))))"
    by code_simp
qed code_simp+

end
