(* ===== verification/Operator.thy ===== *)
theory Operator
  imports Approvals Pending Tokens AuditStore
begin

text \<open>
  The authority behind the operator socket: \<open>ApprovalService\<close> of
  \<open>nanoinfra/gates/executor/operator_socket.py\<close>, and the frames of that socket. \<open>approve\<close> takes
  the lock of the pending store twice and the lock of the token store in between, so it is two steps
  here, \<open>approve_begin\<close> and \<open>approve_finish\<close>; other threads run between them. A refused answer is
  a record; what it passes to the audit store is a result. JSON parsing is outside the frames: they
  are objects with their keys in order.
\<close>

section \<open>Answers\<close>

definition REFUSED_ANSWER_DECISION :: string where "REFUSED_ANSWER_DECISION = ''approval_refused''"

datatype answer_error = ByStore answer_refusal | ByCheck approval_refusal

record answer_result =
  ans_ok :: bool
  ans_error :: "answer_error option"

definition answered :: answer_result where
  "answered = \<lparr>ans_ok = True, ans_error = None\<rparr>"

definition refused :: "answer_error \<Rightarrow> answer_result" where
  "refused e = \<lparr>ans_ok = False, ans_error = Some e\<rparr>"

definition service_check :: "gates_config \<Rightarrow> pending_approval \<Rightarrow> string \<Rightarrow> string \<Rightarrow> approval_check" where
  "service_check g a path actor =
     check_approval g (pr_origin_path a) path actor (pr_origin_actor a)"

text \<open>\<open>_record_refused_answer\<close>: what it passes to the audit store; the reason is the check's, or the
  digest mismatch.\<close>

definition refused_answer_args :: "(string \<Rightarrow> string) \<Rightarrow> pending_approval \<Rightarrow> string \<Rightarrow> string \<Rightarrow> string \<Rightarrow> audit_args" where
  "refused_answer_args sha a actor path why =
     (no_args REFUSED_ANSWER_DECISION (pr_class a) (pr_context a))
       \<lparr>arg_session := Some (pr_session a), arg_tool := Some ''execute_on_server'',
        arg_origin_path := Some (pr_origin_path a), arg_origin_actor := Some (pr_origin_actor a),
        arg_approval_path := Some path, arg_actor := Some actor, arg_scope := Some (pr_scope a),
        arg_hosts := pr_hosts a, arg_command_digest := Some (command_digest sha (pr_command a)),
        arg_reason := Some why\<rparr>"

text \<open>What \<open>approve\<close> asks the token store for.\<close>

definition token_request_for :: "pending_approval \<Rightarrow> string \<Rightarrow> string \<Rightarrow> token_request" where
  "token_request_for a actor path =
     \<lparr>req_session = pr_session a, req_actor = actor, req_origin_path = pr_origin_path a,
      req_approval_path = path, req_digest = pr_digest a, req_class = pr_class a,
      req_scope = pr_scope a, req_ttl = None\<rparr>"

text \<open>
  The first half of \<open>approve\<close>: the lookup, the check, the digest, the token. The left result ends the
  call, with the refused answer to record if there is one (\<open>words\<close> is the text of a check's reason).
\<close>

definition approve_begin ::
  "(string \<Rightarrow> string) \<Rightarrow> (approval_reason \<Rightarrow> string) \<Rightarrow> gates_config \<Rightarrow> seconds \<Rightarrow> seconds \<Rightarrow> string \<Rightarrow>
   string \<Rightarrow> string \<Rightarrow> string \<Rightarrow> digest \<Rightarrow> pending_store \<Rightarrow> token_store \<Rightarrow>
   (answer_result \<times> audit_args option) + (py_exn + (approval_token \<times> token_store))" where
  "approve_begin sha words g now now' fresh i actor path dig ps ts =
     (case get_pending i ps of
        None \<Rightarrow> Inl (refused (ByStore UnknownRequest), None)
      | Some a \<Rightarrow>
          (let c = service_check g a path actor
           in if \<not> check_ok c
              then Inl (\<lparr>ans_ok = False, ans_error = map_option ByCheck (check_refusal c)\<rparr>,
                        Some (refused_answer_args sha a actor path (words (check_reason c))))
              else if pr_digest a \<noteq> dig
              then Inl (refused (ByStore AnswerDigestMismatch),
                        Some (refused_answer_args sha a actor path
                          ''the answer carried another digest, so it describes bytes this executor did not render.''))
              else Inr (issue_token now now' fresh (token_request_for a actor path) ts)))"

definition approve_finish ::
  "seconds \<Rightarrow> string \<Rightarrow> string \<Rightarrow> string \<Rightarrow> string \<Rightarrow> digest \<Rightarrow> pending_store \<Rightarrow> answer_result \<times> pending_store" where
  "approve_finish now i actor path nonce dig ps =
     (case approve_pending now i actor path nonce dig ps of
        (Some r, ps') \<Rightarrow> (refused (ByStore r), ps')
      | (None, ps') \<Rightarrow> (answered, ps'))"

definition deny_service ::
  "(string \<Rightarrow> string) \<Rightarrow> (approval_reason \<Rightarrow> string) \<Rightarrow> gates_config \<Rightarrow> seconds \<Rightarrow>
   string \<Rightarrow> string \<Rightarrow> string \<Rightarrow> string \<Rightarrow> pending_store \<Rightarrow>
   answer_result \<times> audit_args option \<times> pending_store" where
  "deny_service sha words g now i actor path why ps =
     (case get_pending i ps of
        None \<Rightarrow> (refused (ByStore UnknownRequest), None, ps)
      | Some a \<Rightarrow>
          (let c = service_check g a path actor
           in if \<not> check_ok c
              then (\<lparr>ans_ok = False, ans_error = map_option ByCheck (check_refusal c)\<rparr>,
                    Some (refused_answer_args sha a actor path (words (check_reason c))), ps)
              else (case deny_pending now i actor path why ps of
                      (Some r, ps') \<Rightarrow> (refused (ByStore r), None, ps')
                    | (None, ps') \<Rightarrow> (answered, None, ps'))))"

text \<open>\<open>pending_view\<close>: what the wire shows of one suspended action.\<close>

record pending_shown =
  shown_id :: string
  shown_session :: string
  shown_origin_path :: string
  shown_origin_actor :: string
  shown_acting_agent :: string
  shown_delegated_by :: string
  shown_context :: string
  shown_class :: string
  shown_scope :: string
  shown_host_count :: nat
  shown_hosts :: "string list"
  shown_payload :: string
  shown_digest :: digest
  shown_expires_in :: seconds

definition pending_view :: "seconds \<Rightarrow> pending_approval \<Rightarrow> pending_shown" where
  "pending_view now a =
     \<lparr>shown_id = pa_id a, shown_session = pr_session a, shown_origin_path = pr_origin_path a, shown_origin_actor = pr_origin_actor a,
      shown_acting_agent = pr_acting_agent a, shown_delegated_by = pr_delegated_by a, shown_context = pr_context a,
      shown_class = pr_class a, shown_scope = pr_scope a, shown_host_count = host_count a, shown_hosts = pr_hosts a,
      shown_payload = pr_payload a, shown_digest = pr_digest a, shown_expires_in = max 0 (pa_expires_at a - now)\<rparr>"

definition list_pending :: "seconds \<Rightarrow> seconds \<Rightarrow> pending_store \<Rightarrow> pending_shown list" where
  "list_pending now now' ps = map (pending_view now') (pending_list now ps)"


section \<open>Frames\<close>

definition OPERATOR_PROTOCOL_VERSION :: int where "OPERATOR_PROTOCOL_VERSION = 2"

definition OP_PENDING :: string where "OP_PENDING = ''pending''"
definition OP_APPROVE :: string where "OP_APPROVE = ''approve''"
definition OP_DENY :: string where "OP_DENY = ''deny''"

lemmas op_defs = OP_PENDING_def OP_APPROVE_def OP_DENY_def

definition required_fields :: "string \<Rightarrow> string list option" where
  "required_fields op =
     (if op = OP_PENDING then Some []
      else if op = OP_APPROVE then Some [''request_id'', ''actor'', ''approval_path'', ''target_digest'']
      else if op = OP_DENY then Some [''request_id'', ''actor'', ''approval_path'']
      else None)"

definition optional_fields :: "string \<Rightarrow> string list" where
  "optional_fields op = (if op = OP_DENY then [''reason''] else [])"

record operator_request =
  opr_op :: string
  opr_request_id :: string
  opr_actor :: string
  opr_path :: string
  opr_digest :: string
  opr_reason :: string

definition operator_field :: "operator_request \<Rightarrow> string \<Rightarrow> string" where
  "operator_field r f =
     (if f = ''request_id'' then opr_request_id r
      else if f = ''actor'' then opr_actor r
      else if f = ''approval_path'' then opr_path r
      else if f = ''target_digest'' then opr_digest r
      else opr_reason r)"

datatype protocol_error =
    NotJson | NotObject | NoVersion | WrongVersion | UnknownVerb | UnknownFields "string list"
  | MissingFields "string list" | NotText string

definition encode_operator_request :: "operator_request \<Rightarrow> protocol_error + jval" where
  "encode_operator_request r =
     (case required_fields (opr_op r) of
        None \<Rightarrow> Inl UnknownVerb
      | Some req \<Rightarrow>
          Inr (JObj ([(''v'', JInt OPERATOR_PROTOCOL_VERSION), (''op'', JStr (opr_op r))] @
                 map (\<lambda>f. (f, JStr (operator_field r f))) (sorted_set (req @ optional_fields (opr_op r))))))"

text \<open>\<open>_frame_object\<close>: the version is checked and removed. \<open>2.0\<close> and \<open>2\<close> compare equal in Python.\<close>

definition is_version :: "int \<Rightarrow> jval \<Rightarrow> bool" where
  "is_version n v = (case v of
     JInt m \<Rightarrow> m = n
   | JFloat q \<Rightarrow> q = of_int n
   | JBool b \<Rightarrow> n = (if b then 1 else 0)
   | _ \<Rightarrow> False)"

definition frame_object :: "jval option \<Rightarrow> protocol_error + (string \<times> jval) list" where
  "frame_object parsed =
     (case parsed of
        None \<Rightarrow> Inl NotJson
      | Some (JObj kvs) \<Rightarrow>
          (if jget kvs ''v'' = JNull then Inl NoVersion
           else if \<not> is_version OPERATOR_PROTOCOL_VERSION (jget kvs ''v'') then Inl WrongVersion
           else Inr (dict_del ''v'' kvs))
      | Some _ \<Rightarrow> Inl NotObject)"

definition text_field :: "(string \<times> jval) list \<Rightarrow> string \<Rightarrow> string" where
  "text_field kvs f = (case map_of kvs f of Some (JStr s) \<Rightarrow> s | _ \<Rightarrow> [])"

definition is_text :: "jval \<Rightarrow> bool" where
  "is_text v = (case v of JStr _ \<Rightarrow> True | _ \<Rightarrow> False)"

definition decode_operator_request :: "jval option \<Rightarrow> protocol_error + operator_request" where
  "decode_operator_request parsed =
     (case frame_object parsed of
        Inl e \<Rightarrow> Inl e
      | Inr obj \<Rightarrow>
          (case jget obj ''op'' of
             JStr op \<Rightarrow>
               (let kvs = dict_del ''op'' obj in
                case required_fields op of
                  None \<Rightarrow> Inl UnknownVerb
                | Some req \<Rightarrow>
                    (let unknown = filter (\<lambda>f. f \<notin> set (req @ optional_fields op)) (dict_keys kvs);
                         missing = filter (\<lambda>f. f \<notin> set (dict_keys kvs)) req
                     in if unknown \<noteq> [] then Inl (UnknownFields (sorted_set unknown))
                        else if missing \<noteq> [] then Inl (MissingFields (sorted_set missing))
                        else (case find (\<lambda>(f, v). \<not> is_text v) kvs of
                                Some (f, _) \<Rightarrow> Inl (NotText f)
                              | None \<Rightarrow>
                                  Inr \<lparr>opr_op = op, opr_request_id = text_field kvs ''request_id'',
                                       opr_actor = text_field kvs ''actor'', opr_path = text_field kvs ''approval_path'',
                                       opr_digest = text_field kvs ''target_digest'',
                                       opr_reason = text_field kvs ''reason''\<rparr>)))
           | _ \<Rightarrow> Inl UnknownVerb))"


section \<open>Properties\<close>

text \<open>The fields a verb does not use are blank, which is what a caller leaves them at.\<close>

definition used_fields_only :: "operator_request \<Rightarrow> bool" where
  "used_fields_only r \<longleftrightarrow>
     (opr_op r = OP_PENDING \<longrightarrow> opr_request_id r = [] \<and> opr_actor r = [] \<and> opr_path r = []) \<and>
     (opr_op r \<noteq> OP_APPROVE \<longrightarrow> opr_digest r = []) \<and>
     (opr_op r \<noteq> OP_DENY \<longrightarrow> opr_reason r = [])"

lemma sorted_request_fields:
  "sorted_set [''request_id'', ''actor'', ''approval_path'', ''target_digest''] =
     [''actor'', ''approval_path'', ''request_id'', ''target_digest'']"
  "sorted_set [''request_id'', ''actor'', ''approval_path'', ''reason''] =
     [''actor'', ''approval_path'', ''reason'', ''request_id'']"
  "sorted_set [] = ([] :: string list)"
  by code_simp+

lemmas frame_defs = required_fields_def optional_fields_def op_defs sorted_request_fields operator_field_def
  OPERATOR_PROTOCOL_VERSION_def

lemma encode_Inr_iff:
  "(\<exists>j. encode_operator_request r = Inr j) \<longleftrightarrow> required_fields (opr_op r) \<noteq> None"
  by (auto simp: encode_operator_request_def split: option.splits)

lemma required_Some_iff:
  "required_fields op \<noteq> None \<longleftrightarrow> op = OP_PENDING \<or> op = OP_APPROVE \<or> op = OP_DENY"
  by (auto simp: required_fields_def)

lemma encoded_frame:
  "opr_op r = OP_PENDING \<Longrightarrow> encode_operator_request r = Inr (JObj [(''v'', JInt 2), (''op'', JStr ''pending'')])"
  "opr_op r = OP_APPROVE \<Longrightarrow> encode_operator_request r =
     Inr (JObj [(''v'', JInt 2), (''op'', JStr ''approve''), (''actor'', JStr (opr_actor r)),
       (''approval_path'', JStr (opr_path r)), (''request_id'', JStr (opr_request_id r)),
       (''target_digest'', JStr (opr_digest r))])"
  "opr_op r = OP_DENY \<Longrightarrow> encode_operator_request r =
     Inr (JObj [(''v'', JInt 2), (''op'', JStr ''deny''), (''actor'', JStr (opr_actor r)),
       (''approval_path'', JStr (opr_path r)), (''reason'', JStr (opr_reason r)),
       (''request_id'', JStr (opr_request_id r))])"
  by (simp_all add: encode_operator_request_def frame_defs)

lemma frame_object_versioned:
  "frame_object (Some (JObj ((''v'', JInt 2) # kvs))) = Inr (dict_del ''v'' kvs)"
  by (simp add: frame_object_def jget_def is_version_def OPERATOR_PROTOCOL_VERSION_def dict_del_def)

text \<open>A request an operator client encodes is the request the executor decodes, whichever of the
  three verbs it carries.\<close>

theorem operator_request_roundtrip:
  assumes "used_fields_only r" "encode_operator_request r = Inr j"
  shows "decode_operator_request (Some j) = Inr r"
proof -
  have "opr_op r = OP_PENDING \<or> opr_op r = OP_APPROVE \<or> opr_op r = OP_DENY"
    using assms(2) encode_Inr_iff required_Some_iff by blast
  then show ?thesis
    using assms
    by (elim disjE)
       (simp_all add: encoded_frame,
        auto simp: decode_operator_request_def frame_object_versioned jget_def dict_del_def frame_defs
          dict_keys_def is_text_def text_field_def used_fields_only_def)
qed

definition sample_answer_frame :: operator_request where
  "sample_answer_frame = \<lparr>opr_op = ''deny'', opr_request_id = ''r1'', opr_actor = ''bob'', opr_path = ''slack'',
     opr_digest = [], opr_reason = ''no''\<rparr>"

theorem operator_request_roundtrip_witness:
  "decode_operator_request (Some (JObj [(''v'', JInt 2), (''op'', JStr ''deny''), (''actor'', JStr ''bob''),
       (''approval_path'', JStr ''slack''), (''reason'', JStr ''no''), (''request_id'', JStr ''r1'')])) =
     Inr sample_answer_frame"
  by (rule operator_request_roundtrip)
     (simp_all add: sample_answer_frame_def used_fields_only_def op_defs encoded_frame)

text \<open>The executor decodes nothing but what a client can encode: a decoded request has one of the
  three verbs, and every field its verb does not use is blank.\<close>

theorem decoded_request_encodable:
  assumes "decode_operator_request parsed = Inr r"
  shows "used_fields_only r \<and> (\<exists>j. encode_operator_request r = Inr j)"
proof -
  obtain obj op req where *: "jget obj ''op'' = JStr op" "required_fields op = Some req"
    "filter (\<lambda>f. f \<notin> set (req @ optional_fields op)) (dict_keys (dict_del ''op'' obj)) = []"
    "r = \<lparr>opr_op = op, opr_request_id = text_field (dict_del ''op'' obj) ''request_id'',
       opr_actor = text_field (dict_del ''op'' obj) ''actor'', opr_path = text_field (dict_del ''op'' obj) ''approval_path'',
       opr_digest = text_field (dict_del ''op'' obj) ''target_digest'',
       opr_reason = text_field (dict_del ''op'' obj) ''reason''\<rparr>"
    using assms
    by (auto simp: decode_operator_request_def Let_def split: sum.splits jval.splits option.splits if_splits)
  have blank: "f \<notin> set (req @ optional_fields op) \<Longrightarrow> text_field (dict_del ''op'' obj) f = []" for f
    using *(3) by (fastforce simp: text_field_def filter_empty_conv dict_keys_def map_of_eq_None_iff
        split: option.split jval.split dest: map_of_SomeD)
  have "used_fields_only r"
    using *(2,4) by (auto simp: used_fields_only_def required_fields_def optional_fields_def op_defs
        split: if_splits intro!: blank)
  then show ?thesis using *(2,4) by (simp add: encode_Inr_iff)
qed

theorem decoded_request_encodable_witness:
  "used_fields_only sample_answer_frame \<and> (\<exists>j. encode_operator_request sample_answer_frame = Inr j)"
  by (rule decoded_request_encodable [where parsed = "Some (JObj [(''v'', JInt 2), (''op'', JStr ''deny''),
        (''actor'', JStr ''bob''), (''approval_path'', JStr ''slack''), (''reason'', JStr ''no''),
        (''request_id'', JStr ''r1'')])"])
     code_simp

text \<open>C27. What the executor mints a token for: a known request, an answer the path and identity check
  accepts, and the digest of the payload that was rendered. Any other answer leaves the token store
  alone. The token then names the session, the origin and the digest of that request.\<close>

theorem approval_mints_iff:
  "(\<exists>t ts'. approve_begin sha words g now now' fresh i actor path dig ps ts = Inr (Inr (t, ts')) \<and>
     tok_session t = session \<and> tok_origin_path t = origin \<and> tok_digest t = rendered) \<longleftrightarrow>
   check_ttl (store_ttl ts) = Inr () \<and> rendered = dig \<and>
   (\<exists>a. get_pending i ps = Some a \<and> pr_session a = session \<and> pr_origin_path a = origin \<and> pr_digest a = rendered \<and>
      is_approver g (strip path) (strip actor) \<and> strip path \<in> set (authenticated_paths g) \<and>
      answer_is_independent g (pr_origin_path a) (pr_origin_actor a) path actor)"
  by (auto simp: approve_begin_def service_check_def check_ok_iff issue_token_def token_request_for_def Let_def
      split: option.splits sum.splits)

end
