(* ===== verification/Jobs.thy ===== *)
theory Jobs
  imports Inventory
begin

text \<open>
  The record of one remote command: \<open>nanoinfra/servers/job_types.py\<close> and \<open>job_store.py\<close>. A job is a
  file named by its id; the executor creates and updates it, and the gateway ends the jobs a crash
  left running. \<open>io\<close> says whether a write reaches the disk; file modes and groups are not modelled. A file
  is its JSON object, none where it cannot be opened or is not JSON. Its bytes are UTF-8: the \<open>UnicodeDecodeError\<close>
  that other bytes raise is caught by neither this store nor that of the servers, and is outside of the model.
\<close>

section \<open>Data\<close>

record server_job =
  job_id :: string
  job_server :: string
  job_provider :: string
  job_command :: string
  job_status :: string
  job_created :: string
  job_started :: "string option"
  job_ended :: "string option"
  job_exit :: "int option"
  job_output :: string
  job_error :: "string option"
  job_timeout :: int

definition job_to_dict :: "server_job \<Rightarrow> (string \<times> jval) list" where
  "job_to_dict j =
     [(''id'', JStr (job_id j)), (''serverId'', JStr (job_server j)), (''providerId'', JStr (job_provider j)),
      (''command'', JStr (job_command j)), (''status'', JStr (job_status j)), (''createdAt'', JStr (job_created j)),
      (''startedAt'', jopt (job_started j)), (''endedAt'', jopt (job_ended j)), (''exitCode'', jint (job_exit j)),
      (''output'', JStr (job_output j)), (''error'', jopt (job_error j)), (''timeoutS'', JInt (job_timeout j))]"

text \<open>\<open>int(v)\<close> of a JSON value; \<open>None\<close> for the exception.\<close>

fun int_of :: "jval \<Rightarrow> int option" where
  "int_of (JInt n) = Some n"
| "int_of (JBool b) = Some (if b then 1 else 0)"
| "int_of (JFloat q) = Some (if 0 \<le> q then \<lfloor>q\<rfloor> else \<lceil>q\<rceil>)"
| "int_of (JStr s) = py_int s"
| "int_of _ = None"

definition job_from_dict :: "(jval \<Rightarrow> string) \<Rightarrow> (string \<times> jval) list \<Rightarrow> server_job option" where
  "job_from_dict repr d =
     (case those (map (map_of d) [''id'', ''serverId'', ''providerId'', ''command'', ''status'', ''createdAt'', ''timeoutS'']) of
        Some [i, s, p, c, st, cr, t] \<Rightarrow>
          (case (int_of t, if jget d ''exitCode'' = JNull then Some None else map_option Some (int_of (jget d ''exitCode''))) of
             (Some secs, Some code) \<Rightarrow>
               Some \<lparr>job_id = str_of repr i, job_server = str_of repr s, job_provider = str_of repr p,
                     job_command = str_of repr c, job_status = str_of repr st, job_created = str_of repr cr,
                     job_started = opt_str repr (jget d ''startedAt''), job_ended = opt_str repr (jget d ''endedAt''),
                     job_exit = code, job_output = str_or_blank repr (jget d ''output''),
                     job_error = opt_str repr (jget d ''error''), job_timeout = secs\<rparr>
           | _ \<Rightarrow> None)
      | _ \<Rightarrow> None)"


section \<open>The store\<close>

type_synonym job_files = "(string, (string \<times> jval) list option) dict"

definition job_read :: "(jval \<Rightarrow> string) \<Rightarrow> job_files \<Rightarrow> string \<Rightarrow> server_job option" where
  "job_read repr fs i =
     (if \<not> valid_server_id i then None
      else (case dict_get fs i of Some (Some d) \<Rightarrow> job_from_dict repr d | _ \<Rightarrow> None))"

definition job_write :: "bool \<Rightarrow> server_job \<Rightarrow> job_files \<Rightarrow> py_exn + job_files" where
  "job_write io j fs =
     (if \<not> valid_server_id (job_id j) then Inl ValueError
      else if \<not> io then Inl OSError
      else Inr (dict_set (job_id j) (Some (job_to_dict j)) fs))"

text \<open>\<open>create\<close>: \<open>fresh\<close> is \<open>uuid4().hex\<close>.\<close>

definition job_create ::
  "bool \<Rightarrow> string \<Rightarrow> string \<Rightarrow> string \<Rightarrow> string \<Rightarrow> string \<Rightarrow> int \<Rightarrow> job_files \<Rightarrow> py_exn + (server_job \<times> job_files)" where
  "job_create io fresh now server provider command timeout fs =
     (let j = \<lparr>job_id = fresh, job_server = server, job_provider = provider, job_command = command,
               job_status = ''queued'', job_created = now, job_started = None, job_ended = None, job_exit = None,
               job_output = [], job_error = None, job_timeout = timeout\<rparr>
      in map_sum id (\<lambda>fs'. (j, fs')) (job_write io j fs))"

definition job_change ::
  "(jval \<Rightarrow> string) \<Rightarrow> bool \<Rightarrow> string \<Rightarrow> (server_job \<Rightarrow> server_job) \<Rightarrow> job_files \<Rightarrow> py_exn + job_files" where
  "job_change repr io i f fs =
     (case job_read repr fs i of None \<Rightarrow> Inl KeyError | Some j \<Rightarrow> job_write io (f j) fs)"

definition mark_running :: "(jval \<Rightarrow> string) \<Rightarrow> bool \<Rightarrow> string \<Rightarrow> string \<Rightarrow> job_files \<Rightarrow> py_exn + job_files" where
  "mark_running repr io now i fs =
     job_change repr io i (\<lambda>j. j\<lparr>job_status := ''running'', job_started := Some now\<rparr>) fs"

definition update_output :: "(jval \<Rightarrow> string) \<Rightarrow> bool \<Rightarrow> string \<Rightarrow> string \<Rightarrow> job_files \<Rightarrow> py_exn + job_files" where
  "update_output repr io i out fs = job_change repr io i (\<lambda>j. j\<lparr>job_output := out\<rparr>) fs"

definition job_complete ::
  "(jval \<Rightarrow> string) \<Rightarrow> bool \<Rightarrow> string \<Rightarrow> string \<Rightarrow> int option \<Rightarrow> string \<Rightarrow> string option \<Rightarrow> string \<Rightarrow> job_files \<Rightarrow>
   py_exn + job_files" where
  "job_complete repr io now i code out err status fs =
     job_change repr io i (\<lambda>j. j\<lparr>job_status := status, job_exit := code, job_output := out, job_error := err,
       job_ended := Some now\<rparr>) fs"

text \<open>\<open>list_jobs\<close>: each file by its name, the readable ones newest first; the sort is stable.\<close>

definition readable_jobs :: "(jval \<Rightarrow> string) \<Rightarrow> job_files \<Rightarrow> server_job list" where
  "readable_jobs repr fs = List.map_filter (job_read repr fs) (dict_keys fs)"

definition list_jobs :: "(jval \<Rightarrow> string) \<Rightarrow> string option \<Rightarrow> job_files \<Rightarrow> server_job list" where
  "list_jobs repr server fs =
     rev (sort_key job_created (rev (filter (\<lambda>j. server = None \<or> server = Some (job_server j)) (readable_jobs repr fs))))"

definition interrupted :: "string \<Rightarrow> server_job \<Rightarrow> server_job" where
  "interrupted now j = j\<lparr>job_status := ''failed'',
     job_error := Some ''Interrupted by gateway restart -- the connection could not survive the process exiting.'',
     job_ended := Some now\<rparr>"

text \<open>\<open>reconcile_interrupted_jobs\<close>: the count and the files, or the exception of the first write that
  fails, with the files written before it.\<close>

fun reconcile_loop ::
  "(string \<Rightarrow> bool) \<Rightarrow> string \<Rightarrow> server_job list \<Rightarrow> nat \<Rightarrow> job_files \<Rightarrow> (py_exn + nat) \<times> job_files" where
  "reconcile_loop io now [] n fs = (Inr n, fs)"
| "reconcile_loop io now (j # js) n fs =
     (if job_status j \<noteq> ''running'' then reconcile_loop io now js n fs
      else (case job_write (io (job_id j)) (interrupted now j) fs of
              Inl e \<Rightarrow> (Inl e, fs)
            | Inr fs' \<Rightarrow> reconcile_loop io now js (n + 1) fs'))"

definition reconcile_interrupted_jobs ::
  "(jval \<Rightarrow> string) \<Rightarrow> (string \<Rightarrow> bool) \<Rightarrow> string \<Rightarrow> job_files \<Rightarrow> (py_exn + nat) \<times> job_files" where
  "reconcile_interrupted_jobs repr io now fs = reconcile_loop io now (list_jobs repr None fs) 0 fs"


section \<open>What the store keeps\<close>

text \<open>A job as its file holds it reads back: a blank optional text would come back absent.\<close>

definition job_plain :: "server_job \<Rightarrow> bool" where
  "job_plain j \<longleftrightarrow> job_started j \<noteq> Some [] \<and> job_ended j \<noteq> Some [] \<and> job_error j \<noteq> Some []"

lemma job_from_to: "job_plain j \<Longrightarrow> job_from_dict repr (job_to_dict j) = Some j"
  by (cases j) (auto simp: job_from_dict_def job_to_dict_def job_plain_def jget_def jint_def str_or_blank_def
      split: option.split)

lemma opt_str_nonblank: "opt_str repr v \<noteq> Some []" if "\<And>w. repr w \<noteq> []"
  using that by (cases v) (auto simp: opt_str_def)

text \<open>Every file has a valid name and holds nothing readable but the job of that name.\<close>

definition jobs_ok :: "(jval \<Rightarrow> string) \<Rightarrow> job_files \<Rightarrow> bool" where
  "jobs_ok repr fs \<longleftrightarrow> dict_ok fs \<and>
     (\<forall>i j. job_read repr fs i = Some j \<longrightarrow> job_id j = i \<and> job_plain j)"

lemma job_write_Inr:
  "job_write io j fs = Inr fs' \<longleftrightarrow>
     valid_server_id (job_id j) \<and> io \<and> fs' = dict_set (job_id j) (Some (job_to_dict j)) fs"
  by (auto simp: job_write_def)

lemma job_read_write:
  assumes "job_plain j" "job_write io j fs = Inr fs'"
  shows "job_read repr fs' i = (if i = job_id j then Some j else job_read repr fs i)"
  using assms by (auto simp: job_write_Inr job_read_def job_from_to)

lemma jobs_ok_read: "jobs_ok repr fs \<Longrightarrow> job_read repr fs i = Some j \<Longrightarrow> job_id j = i \<and> job_plain j \<and> valid_server_id i"
  by (auto simp: jobs_ok_def job_read_def split: if_splits)

lemma job_write_ok:
  assumes "jobs_ok repr fs" "job_plain j" "job_write io j fs = Inr fs'"
  shows "jobs_ok repr fs'"
proof -
  have "dict_ok fs'" using assms by (auto simp: job_write_Inr jobs_ok_def)
  then show ?thesis
    using assms(2) jobs_ok_read [OF assms(1)]
    by (auto simp: jobs_ok_def job_read_write [OF assms(2,3)] split: if_splits)
qed

lemma set_readable_jobs:
  "set (readable_jobs repr fs) = {j. \<exists>i. job_read repr fs i = Some j}"
proof -
  have "job_read repr fs i = Some j \<Longrightarrow> i \<in> set (dict_keys fs)" for i j
    using dict_get_None_keys [of fs i] by (auto simp: job_read_def split: option.splits if_splits)
  then show ?thesis by (force simp: readable_jobs_def map_filter_def)
qed

lemma set_list_jobs: "set (list_jobs repr None fs) = {j. \<exists>i. job_read repr fs i = Some j}"
  by (simp add: list_jobs_def set_readable_jobs)

text \<open>A pass over jobs whose writes all land ends each running one and touches no other.\<close>

lemma reconcile_loop_spec:
  assumes "now \<noteq> []" "\<And>j. j \<in> set js \<Longrightarrow> read0 (job_id j) = Some j \<and> job_plain j \<and> valid_server_id (job_id j)"
  shows "\<exists>fs'. reconcile_loop (\<lambda>_. True) now js n fs =
      (Inr (n + length (filter (\<lambda>j. job_status j = ''running'') js)), fs') \<and>
    (\<forall>i. job_read repr fs' i =
      (if \<exists>j \<in> set js. job_status j = ''running'' \<and> job_id j = i
       then map_option (interrupted now) (read0 i) else job_read repr fs i))"
  using assms(2)
proof (induction js arbitrary: n fs)
  case (Cons j js)
  have rest: "read0 (job_id k) = Some k \<and> job_plain k \<and> valid_server_id (job_id k)" if "k \<in> set js" for k
    using Cons.prems that by simp
  show ?case
  proof (cases "job_status j = ''running''")
    case False
    with Cons.IH [OF rest, of n fs] show ?thesis by auto
  next
    case True
    have plain: "job_plain (interrupted now j)"
      using Cons.prems [of j] assms(1) by (simp add: job_plain_def interrupted_def)
    obtain fs1 where w: "job_write True (interrupted now j) fs = Inr fs1"
      using Cons.prems [of j] by (simp add: job_write_def interrupted_def)
    from Cons.IH [OF rest, of "n + 1" fs1] obtain fs' where
      "reconcile_loop (\<lambda>_. True) now js (n + 1) fs1 =
        (Inr (n + 1 + length (filter (\<lambda>j. job_status j = ''running'') js)), fs')"
      "\<forall>i. job_read repr fs' i = (if \<exists>k \<in> set js. job_status k = ''running'' \<and> job_id k = i
         then map_option (interrupted now) (read0 i) else job_read repr fs1 i)" by blast
    moreover have "read0 (job_id j) = Some j" using Cons.prems [of j] by simp
    ultimately show ?thesis
      using True w by (auto simp: job_read_write [OF plain w] interrupted_def)
  qed
qed simp

text \<open>C40. After the start-up pass no job is left running: exactly the jobs that were running are failed,
  with what output they had, every other job is as it was, and the pass returns their number.\<close>

theorem reconcile_ends_running:
  assumes "jobs_ok repr fs" "now \<noteq> []"
  shows "\<exists>fs'. reconcile_interrupted_jobs repr (\<lambda>_. True) now fs =
      (Inr (length (filter (\<lambda>j. job_status j = ''running'') (list_jobs repr None fs))), fs') \<and>
    (\<forall>i. job_read repr fs' i = map_option
       (\<lambda>j. if job_status j = ''running'' then interrupted now j else j) (job_read repr fs i))"
proof -
  have js: "job_read repr fs (job_id j) = Some j \<and> job_plain j \<and> valid_server_id (job_id j)"
    if "j \<in> set (list_jobs repr None fs)" for j
    using that jobs_ok_read [OF assms(1)] by (auto simp: set_list_jobs)
  have mem: "(\<exists>j \<in> set (list_jobs repr None fs). job_status j = ''running'' \<and> job_id j = i) \<longleftrightarrow>
      (\<exists>j. job_read repr fs i = Some j \<and> job_status j = ''running'')" for i
    using jobs_ok_read [OF assms(1)] by (auto simp: set_list_jobs)
  have out: "(if \<exists>j. job_read repr fs i = Some j \<and> job_status j = ''running''
       then map_option (interrupted now) (job_read repr fs i) else job_read repr fs i) =
      map_option (\<lambda>j. if job_status j = ''running'' then interrupted now j else j) (job_read repr fs i)" for i
    by (cases "job_read repr fs i") auto
  from reconcile_loop_spec [OF assms(2) js, of "list_jobs repr None fs" 0 fs repr] show ?thesis
    unfolding reconcile_interrupted_jobs_def mem out by simp
qed

definition sample_job :: server_job where
  "sample_job = \<lparr>job_id = replicate 32 CHR ''a'', job_server = ''s'', job_provider = ''ssh'', job_command = ''ls'',
     job_status = ''running'', job_created = ''t'', job_started = Some ''t'', job_ended = None, job_exit = None,
     job_output = ''half'', job_error = None, job_timeout = 60\<rparr>"

lemma sample_jobs_ok: "jobs_ok repr [(replicate 32 CHR ''a'', Some (job_to_dict sample_job))]"
proof -
  have plain: "job_plain sample_job" by (simp add: job_plain_def sample_job_def)
  have empty: "jobs_ok repr []" by (simp add: jobs_ok_def job_read_def)
  have id: "job_id sample_job = replicate 32 CHR ''a''" by (simp add: sample_job_def)
  have "job_write True sample_job [] = Inr [(replicate 32 CHR ''a'', Some (job_to_dict sample_job))]"
    by (simp add: job_write_Inr id valid_server_id_a dict_set_def)
  from job_write_ok [OF empty plain this] show ?thesis .
qed

theorem reconcile_ends_running_witness:
  "\<exists>fs'. reconcile_interrupted_jobs (\<lambda>_. []) (\<lambda>_. True) ''t1'' [(replicate 32 CHR ''a'', Some (job_to_dict sample_job))] =
      (Inr (length (filter (\<lambda>j. job_status j = ''running'') (list_jobs (\<lambda>_. []) None
         [(replicate 32 CHR ''a'', Some (job_to_dict sample_job))]))), fs') \<and>
    (\<forall>i. job_read (\<lambda>_. []) fs' i = map_option
       (\<lambda>j. if job_status j = ''running'' then interrupted ''t1'' j else j)
       (job_read (\<lambda>_. []) [(replicate 32 CHR ''a'', Some (job_to_dict sample_job))] i))"
  by (rule reconcile_ends_running [OF sample_jobs_ok]) simp

end
