(* ===== verification/Output.thy ===== *)
theory Output
  imports Prelude
begin

text \<open>
  The output of one remote command under a character budget:
  \<open>nanoinfra/servers/execution/base.py\<close>. The head and the most recent tail of a stream are kept.
\<close>

definition MAX_OUTPUT_CHARS :: int where "MAX_OUTPUT_CHARS = 50000"

record bounded_output =
  max_chars :: nat
  head_text :: string
  tail_chunks :: "string list"
  tail_chars :: nat
  total_chars :: nat

definition new_bounded :: "int \<Rightarrow> bounded_output" where
  "new_bounded m = \<lparr>max_chars = nat (max 2 m), head_text = [], tail_chunks = [], tail_chars = 0, total_chars = 0\<rparr>"

text \<open>The loop over the deque of chunks; an empty deque counts no characters.\<close>

fun trim_tail :: "nat \<Rightarrow> string list \<Rightarrow> nat \<Rightarrow> string list \<times> nat" where
  "trim_tail budget [] n = ([], n)"
| "trim_tail budget (c # cs) n =
     (if n \<le> budget then (c # cs, n)
      else (let excess = n - budget
            in if length c \<le> excess then trim_tail budget cs (n - length c)
               else (drop excess c # cs, n - excess)))"

definition bo_append :: "string \<Rightarrow> bounded_output \<Rightarrow> bounded_output" where
  "bo_append text b =
     (if text = [] then b
      else (let b1 = b\<lparr>total_chars := total_chars b + length text\<rparr>;
                head_budget = max_chars b div 2;
                take_n = head_budget - length (head_text b);
                b2 = (if length (head_text b) < head_budget
                      then b1\<lparr>head_text := head_text b @ take take_n text\<rparr> else b1);
                rest = (if length (head_text b) < head_budget then drop take_n text else text)
            in if rest = [] then b2
               else (let (chunks, n) = trim_tail (max_chars b - head_budget)
                           (tail_chunks b @ [rest]) (tail_chars b + length rest)
                     in b2\<lparr>tail_chunks := chunks, tail_chars := n\<rparr>)))"

text \<open>\<open>f"{n:,}"\<close>\<close>

fun comma_str :: "nat \<Rightarrow> string" where
  "comma_str n =
     (if n < 1000 then nat_str n
      else comma_str (n div 1000) @ '','' @
        (let m = n mod 1000 in replicate (3 - length (nat_str m)) (CHR ''0'') @ nat_str m))"

declare comma_str.simps [simp del]

definition truncation_note :: "nat \<Rightarrow> string" where
  "truncation_note n = CHR 0x0A # ''('' @ comma_str n @ '' chars truncated from output)''"

definition bo_text :: "bounded_output \<Rightarrow> string" where
  "bo_text b =
     (let retained = head_text b @ concat (tail_chunks b);
          omitted = int (total_chars b) - int (length retained)
      in if omitted \<le> 0 then retained else retained @ truncation_note (nat omitted))"

definition truncate_output :: "int \<Rightarrow> string \<Rightarrow> string" where
  "truncate_output m s = (if int (length s) \<le> m then s else bo_text (bo_append s (new_bounded m)))"


section \<open>What a buffer holds\<close>

text \<open>The last \<open>n\<close> characters of a text.\<close>

definition suffix_of :: "nat \<Rightarrow> string \<Rightarrow> string" where
  "suffix_of n s = drop (length s - n) s"

lemma length_suffix_of [simp]: "length (suffix_of n s) = min n (length s)"
  by (simp add: suffix_of_def)

lemma suffix_of_append: "suffix_of n (suffix_of n s @ t) = suffix_of n (s @ t)"
proof (cases "n \<le> length s")
  case True
  then have "length s + length t - n = (length s - n) + length t" by simp
  with True show ?thesis by (simp add: suffix_of_def) (simp add: add.commute)
next
  case False
  then show ?thesis by (simp add: suffix_of_def)
qed

lemma suffix_of_le: "length s \<le> n \<Longrightarrow> suffix_of n s = s"
  by (simp add: suffix_of_def)

lemma suffix_of_right: "n \<le> length t \<Longrightarrow> suffix_of n (s @ t) = suffix_of n t"
  by (simp add: suffix_of_def)

lemma trim_tail_spec:
  assumes "n = length (concat cs)"
  shows "concat (fst (trim_tail budget cs n)) = suffix_of budget (concat cs) \<and>
    snd (trim_tail budget cs n) = length (concat (fst (trim_tail budget cs n)))"
  using assms
proof (induction budget cs n rule: trim_tail.induct)
  case (1 budget n)
  then show ?case by (simp add: suffix_of_def)
next
  case (2 budget c cs n)
  let ?excess = "n - budget"
  consider "n \<le> budget" | "budget < n" "length c \<le> ?excess" | "budget < n" "?excess < length c"
    by linarith
  then show ?case
  proof cases
    case 1
    with 2(2) show ?thesis by (simp add: suffix_of_le)
  next
    case 2
    have "n - length c = length (concat cs)" using \<open>n = length (concat (c # cs))\<close> by simp
    with 2 have "concat (fst (trim_tail budget cs (n - length c))) = suffix_of budget (concat cs) \<and>
        snd (trim_tail budget cs (n - length c)) = length (concat (fst (trim_tail budget cs (n - length c))))"
      using "2.IH" by simp
    moreover have "budget \<le> length (concat cs)" using 2 \<open>n = length (concat (c # cs))\<close> by simp
    ultimately show ?thesis using 2 by (simp add: Let_def suffix_of_right)
  next
    case 3
    with \<open>n = length (concat (c # cs))\<close> show ?thesis by (simp add: Let_def suffix_of_def)
  qed
qed

text \<open>What the buffer holds after a stream \<open>s\<close> under the budget \<open>m\<close>.\<close>

definition holds :: "nat \<Rightarrow> string \<Rightarrow> bounded_output \<Rightarrow> bool" where
  "holds m s b \<longleftrightarrow> max_chars b = m \<and> total_chars b = length s \<and> head_text b = take (m div 2) s \<and>
     concat (tail_chunks b) = suffix_of (m - m div 2) (drop (m div 2) s) \<and>
     tail_chars b = length (concat (tail_chunks b))"

lemma holds_new: "holds (nat (max 2 m)) [] (new_bounded m)"
  by (simp add: holds_def new_bounded_def suffix_of_def)

text \<open>One \<open>append\<close>: where the text goes, in terms of the stream.\<close>

lemma bo_append_parts:
  assumes "holds m s b" "t \<noteq> []"
  defines "h \<equiv> m div 2" and "rest \<equiv> drop (m div 2 - length s) t"
  shows "max_chars (bo_append t b) = m" "total_chars (bo_append t b) = length (s @ t)"
    "head_text (bo_append t b) = take h (s @ t)"
    "tail_chunks (bo_append t b) = (if rest = [] then tail_chunks b
       else fst (trim_tail (m - h) (tail_chunks b @ [rest]) (tail_chars b + length rest)))"
    "tail_chars (bo_append t b) = (if rest = [] then tail_chars b
       else snd (trim_tail (m - h) (tail_chunks b @ [rest]) (tail_chars b + length rest)))"
proof -
  have b: "max_chars b = m" "total_chars b = length s" "head_text b = take h s"
    using assms(1) by (simp_all add: holds_def h_def)
  have e: "bo_append t b = (let b1 = b\<lparr>total_chars := length (s @ t), head_text := take h (s @ t)\<rparr>
      in if rest = [] then b1
         else (let (chunks, n) = trim_tail (m - h) (tail_chunks b @ [rest]) (tail_chars b + length rest)
               in b1\<lparr>tail_chunks := chunks, tail_chars := n\<rparr>))"
    using assms(2) b by (cases b; cases "length s < h") (simp_all add: bo_append_def Let_def rest_def h_def)
  show "max_chars (bo_append t b) = m" "total_chars (bo_append t b) = length (s @ t)"
    "head_text (bo_append t b) = take h (s @ t)"
    "tail_chunks (bo_append t b) = (if rest = [] then tail_chunks b
       else fst (trim_tail (m - h) (tail_chunks b @ [rest]) (tail_chars b + length rest)))"
    "tail_chars (bo_append t b) = (if rest = [] then tail_chars b
       else snd (trim_tail (m - h) (tail_chunks b @ [rest]) (tail_chars b + length rest)))"
    unfolding e by (simp_all add: Let_def b(1) case_prod_beta)
qed

lemma holds_append:
  assumes "holds m s b"
  shows "holds m (s @ t) (bo_append t b)"
proof (cases "t = []")
  case True
  with assms show ?thesis by (simp add: bo_append_def)
next
  case False
  define h where "h = m div 2"
  define rest where "rest = drop (h - length s) t"
  note parts = bo_append_parts [OF assms False, folded h_def, folded rest_def]
  have b: "concat (tail_chunks b) = suffix_of (m - h) (drop h s)" "tail_chars b = length (concat (tail_chunks b))"
    using assms by (simp_all add: holds_def h_def)
  have whole: "drop h (s @ t) = drop h s @ rest" by (simp add: rest_def)
  have "concat (tail_chunks (bo_append t b)) = suffix_of (m - h) (drop h (s @ t)) \<and>
      tail_chars (bo_append t b) = length (concat (tail_chunks (bo_append t b)))"
  proof (cases "rest = []")
    case True
    with b whole show ?thesis by (simp add: parts)
  next
    case False
    have "tail_chars b + length rest = length (concat (tail_chunks b @ [rest]))" by (simp add: b)
    from trim_tail_spec [OF this, of "m - h"] False show ?thesis
      unfolding parts whole by (simp add: b(1) suffix_of_append)
  qed
  then show ?thesis using parts by (simp add: holds_def h_def)
qed

lemma holds_stream: "holds m s b \<Longrightarrow> holds m (s @ concat ts) (foldl (\<lambda>b t. bo_append t b) b ts)"
proof (induction ts arbitrary: s b)
  case (Cons t ts)
  from Cons.IH [OF holds_append [OF Cons.prems, of t]] show ?case by simp
qed simp

text \<open>What is shown of a stream: all of it within the budget, else its two ends and the count of what
  was left out.\<close>

definition shown_of :: "nat \<Rightarrow> string \<Rightarrow> string" where
  "shown_of m s =
     (if length s \<le> m then s
      else take (m div 2) s @ suffix_of (m - m div 2) s @ truncation_note (length s - m))"

lemma holds_text: "holds m s b \<Longrightarrow> bo_text b = shown_of m s"
proof -
  assume h: "holds m s b"
  have len: "length (head_text b @ concat (tail_chunks b)) = min m (length s)"
    using h by (auto simp: holds_def min_def)
  show ?thesis
  proof (cases "length s \<le> m")
    case True
    then have "suffix_of (m - m div 2) (drop (m div 2) s) = drop (m div 2) s"
      by (intro suffix_of_le) simp
    with h len True show ?thesis by (simp add: bo_text_def shown_of_def holds_def)
  next
    case False
    then have "suffix_of (m - m div 2) (drop (m div 2) s) = suffix_of (m - m div 2) s"
      by (simp add: suffix_of_def)
    with h len False show ?thesis
      by (simp add: bo_text_def shown_of_def holds_def Let_def nat_diff_distrib')
  qed
qed

lemma stream_text: "bo_text (foldl (\<lambda>b t. bo_append t b) (new_bounded m) ts) = shown_of (nat (max 2 m)) (concat ts)"
  using holds_text [OF holds_stream [OF holds_new]] by simp

lemma truncate_shown: "truncate_output m s = shown_of (nat (max 2 m)) s"
  using stream_text [of m "[s]"] by (auto simp: truncate_output_def shown_of_def)


section \<open>Properties\<close>

text \<open>C37. How a command's output arrives does not matter: streamed in any chunks through a bounded
  buffer it shows what the whole output shows when it is cut once at the end.\<close>

theorem streamed_equals_truncated:
  "bo_text (foldl (\<lambda>b t. bo_append t b) (new_bounded m) ts) = truncate_output m (concat ts)"
  unfolding stream_text truncate_shown by (rule refl)

text \<open>The memory a running command can take is bounded: the buffer never retains more characters than
  its budget, and what it retains are the first half of the budget and the latest rest of the stream.\<close>

theorem buffer_bounded:
  "length (head_text (foldl (\<lambda>b t. bo_append t b) (new_bounded m) ts)) +
     length (concat (tail_chunks (foldl (\<lambda>b t. bo_append t b) (new_bounded m) ts))) \<le> nat (max 2 m) \<and>
   take (nat (max 2 m) div 2) (concat ts) = head_text (foldl (\<lambda>b t. bo_append t b) (new_bounded m) ts) \<and>
   (\<exists>dropped. drop (nat (max 2 m) div 2) (concat ts) =
      dropped @ concat (tail_chunks (foldl (\<lambda>b t. bo_append t b) (new_bounded m) ts)))"
proof -
  define b where "b = foldl (\<lambda>b t. bo_append t b) (new_bounded m) ts"
  have "holds (nat (max 2 m)) (concat ts) b"
    using holds_stream [OF holds_new, of m ts] by (simp add: b_def)
  then have "max_chars b = nat (max 2 m)" "head_text b = take (nat (max 2 m) div 2) (concat ts)"
    and tl: "concat (tail_chunks b) = suffix_of (nat (max 2 m) - nat (max 2 m) div 2) (drop (nat (max 2 m) div 2) (concat ts))"
    by (simp_all add: holds_def)
  moreover have "\<exists>dropped. drop (nat (max 2 m) div 2) (concat ts) = dropped @ concat (tail_chunks b)"
    unfolding tl suffix_of_def by (metis append_take_drop_id)
  moreover have "min a h + min (k - h) c \<le> k" if "h \<le> k" for a h k c :: nat
    using that by linarith
  ultimately show ?thesis unfolding b_def [symmetric] by (simp only: tl) simp
qed

end
