(* ===== verification/Executor.thy ===== *)
theory Executor
  imports Policy Approvals Pending Tokens Prompt AuditStore Jobs Output
begin

text \<open>
  The process that acts: \<open>Executor\<close> of \<open>nanoinfra/gates/executor/server.py\<close>, from a decoded request to
  its response. \<open>handle\<close> guards, gates, records and runs one action; an action that needs a human stops
  at its wait (\<open>Waiting\<close>) and \<open>resume\<close> is what follows the wait. The state holds the stores of
  the process and a trace of what it did to the outside: records that landed, secrets opened, hosts
  dialed. An environment holds what one action reads: files, clocks, policy loads, the inventory,
  the network guard, the secret store and the transport. Sentences are constructors of \<open>exec_reason\<close> and
  \<open>exec_fault\<close>; the text of a recorded one is \<open>env_words\<close>. Connector calls and secret writes are not here.
\<close>

section \<open>Requests and answers\<close>

record execute_request = delegated_frame +
  rq_server :: string
  rq_command :: string
  rq_session :: "string option"
  rq_context :: string
  rq_preview :: bool
  rq_timeout :: "string option"
  rq_nonce :: "string option"
  rq_origin_path :: "string option"

definition rq_delegation :: "execute_request \<Rightarrow> delegation" where
  "rq_delegation r = delegation_of (delegated_frame.truncate r)"

datatype guard_error = NoAddress | Blocked string | OneBlocked string | CannotResolve string

datatype exec_reason =
    Unsaid
  | Decided reason
  | HostsUnresolved string
  | ScopeIsAll
  | NobodyWaits string
  | PreviewAsked
  | NoApprovalStore
  | NoSession
  | NoApprover approval_reason
  | Unrenderable prompt_error
  | WaitsFor "string option" int
  | OperatorDenied outcome_reason
  | NoApproval outcome_reason
  | TokenRefused "token_refusal option"
  | ApprovedBy "string option" "string option" "string option"
  | ForSecret reason string
  | EndedAs string string "int option" bool

datatype exec_fault =
    NonceOnWire
  | NoServer string
  | UnknownProvider string
  | GuardFault guard_error
  | BadTimeout string
  | Unrecorded string
  | SecretsNotConfigured string string
  | SecretUndecryptable string string
  | SecretGone string string
  | TimedOut string bool
  | Failed string string
  | RequestFailed

text \<open>\<open>_preview_line\<close>: the server, the command and the hosts, or why they did not resolve.\<close>

datatype exec_output = Text string | PreviewLine server string "string + scope_resolution"

record exec_response =
  rsp_ok :: bool
  rsp_output :: exec_output
  rsp_exit :: "int option"
  rsp_error :: "exec_fault option"
  rsp_reason :: exec_reason
  rsp_terminal :: bool
  rsp_preview_outcome :: "outcome option"
  rsp_preview_reason :: exec_reason
  rsp_preview_grant :: "string option"
  rsp_preview_scope :: "string option"
  rsp_preview_hosts :: "string list"
  rsp_preview_command :: string
  rsp_preview_credential :: "decision option"

definition response :: "bool \<Rightarrow> exec_output \<Rightarrow> int option \<Rightarrow> exec_fault option \<Rightarrow> exec_reason \<Rightarrow> exec_response" where
  "response ok out code err why =
     \<lparr>rsp_ok = ok, rsp_output = out, rsp_exit = code, rsp_error = err, rsp_reason = why, rsp_terminal = True,
      rsp_preview_outcome = None, rsp_preview_reason = Unsaid, rsp_preview_grant = None,
      rsp_preview_scope = None, rsp_preview_hosts = [], rsp_preview_command = [], rsp_preview_credential = None\<rparr>"

definition exec_error :: "exec_fault \<Rightarrow> exec_response" where
  "exec_error e = response False (Text []) None (Some e) Unsaid"


section \<open>The environment of one action\<close>

datatype exec_stage = AtGate | AtSuspend | AtResume | AtCredential | AtCompletion

text \<open>What one audit write meets: the root directory before and after it is made, and the disk.\<close>

record disk =
  dsk_current :: identity
  dsk_after :: identity
  dsk_write_ok :: bool
  dsk_unlink_ok :: "segment \<Rightarrow> bool"
  dsk_ts :: microseconds
  dsk_id :: string

datatype secret_read = NoKey string | WrongKey | NoSecret | Plain string | SecretStoreFailed

record exec_ended =
  end_exit :: "int option"
  end_output :: string
  end_error :: "string option"
  end_timed_out :: bool

text \<open>The transport under \<open>run_with_idle_timeout\<close>: what it raises or ends with, and the chunks it reports on
  the way with the clock and the fate of the job write they may cause.\<close>

datatype transport = TransportRaised | TransportEnded exec_ended

record chunk =
  chunk_text :: string
  chunk_clock :: seconds
  chunk_io :: bool

record exec_env =
  env_repr :: "jval \<Rightarrow> string"
  env_sha :: "string \<Rightarrow> string"
  env_words :: "exec_reason \<Rightarrow> string"
  env_gates :: "exec_stage \<Rightarrow> gates_config"
  env_now :: "exec_stage \<Rightarrow> microseconds"
  env_disk :: "exec_stage \<Rightarrow> disk"
  env_servers :: server_files
  env_scope :: "server \<Rightarrow> string + scope_resolution"
  env_check :: "string \<Rightarrow> string option"
  env_urlhost :: "string \<Rightarrow> string option"
  env_secret :: "string \<Rightarrow> secret_read"
  env_monotonic :: "seconds \<times> seconds"
  env_request_id :: string
  env_job_id :: string
  env_job_io :: "bool \<times> bool \<times> bool"
  env_job_now :: "string \<times> string \<times> string"
  env_default_idle :: "string \<Rightarrow> int"
  env_transport :: "server \<Rightarrow> string \<Rightarrow> string option \<Rightarrow> transport"
  env_chunks :: "server \<Rightarrow> string \<Rightarrow> string option \<Rightarrow> chunk list"
  env_started :: seconds
  env_duration :: int


section \<open>The state of the process\<close>

text \<open>\<open>Dialed\<close> carries the record the action runs under, which the code hands to the completion record.\<close>

datatype exec_event =
    Recorded audit_entry
  | Opened string
  | Dialed "audit_entry option" server string "string option"

record exec_state =
  xs_audit :: "audit_store option"
  xs_pending :: "pending_store option"
  xs_tokens :: "token_store option"
  xs_jobs :: job_files
  xs_trace :: "exec_event list"

definition happens :: "exec_event \<Rightarrow> exec_state \<Rightarrow> exec_state" where
  "happens ev st = st\<lparr>xs_trace := xs_trace st @ [ev]\<rparr>"

datatype exec_exn = Python py_exn | Transport | SecretStore

record suspension =
  sus_server :: server
  sus_request :: execute_request
  sus_resolution :: scope_resolution
  sus_idle :: "int option"
  sus_prompt :: approval_prompt
  sus_session :: string
  sus_id :: string

datatype exec_result = Answered exec_response | Raised exec_exn | Waiting suspension


section \<open>Guard and gate\<close>

definition KNOWN_PROVIDER_IDS :: "string list" where
  "KNOWN_PROVIDER_IDS = [''ssh'', ''ansible-runner'', ''ssm'', ''api'']"
definition STREAMING_PROVIDERS :: "string list" where "STREAMING_PROVIDERS = [''ssh'']"
definition UNSTOPPABLE_ON_TIMEOUT :: "string list" where "UNSTOPPABLE_ON_TIMEOUT = [''ansible-runner'', ''ssm'']"
definition PARTIAL_OUTPUT_PERSIST_INTERVAL_S :: seconds where "PARTIAL_OUTPUT_PERSIST_INTERVAL_S = 5"

definition DECISION_ALLOW :: string where "DECISION_ALLOW = ''allow''"
definition DECISION_APPROVE :: string where "DECISION_APPROVE = ''approve''"
definition DECISION_DENIED :: string where "DECISION_DENIED = ''denied''"
definition DECISION_EXPIRED :: string where "DECISION_EXPIRED = ''expired''"

lemmas decision_texts = DECISION_ALLOW_def DECISION_APPROVE_def DECISION_DENIED_def DECISION_EXPIRED_def

text \<open>A text that is there and not empty.\<close>

definition given :: "string option \<Rightarrow> string option" where
  "given v = (case v of Some (c # cs) \<Rightarrow> Some (c # cs) | _ \<Rightarrow> None)"

text \<open>The end of \<open>_guard\<close>: one address, or none to check.\<close>

definition guard_target :: "exec_env \<Rightarrow> string option \<Rightarrow> guard_error option" where
  "guard_target env target =
     (case given target of None \<Rightarrow> Some NoAddress | Some t \<Rightarrow> map_option Blocked (env_check env t))"

definition guard :: "exec_env \<Rightarrow> server \<Rightarrow> guard_error option" where
  "guard env sv =
     (let config = server_config sv
      in if provider_id sv = ''ssh'' then guard_target env (dict_get config ''host'')
         else if provider_id sv = ''api''
         then guard_target env (env_urlhost env (case dict_get config ''baseUrl'' of None \<Rightarrow> [] | Some u \<Rightarrow> u))
         else if provider_id sv = ''ansible-runner'' then
           (let target = dict_get config ''inventoryHost''
            in if given target = None \<and> given (dict_get config ''group'') = None then guard_target env target
               else (case env_scope env sv of
                       Inl e \<Rightarrow> (case given target of
                                  Some t \<Rightarrow> map_option Blocked (env_check env t)
                                | None \<Rightarrow> Some (CannotResolve e))
                     | Inr r \<Rightarrow> (case List.find (\<lambda>h. env_check env h \<noteq> None) (res_hosts r) of
                                  None \<Rightarrow> None
                                | Some h \<Rightarrow> map_option OneBlocked (env_check env h))))
         else None)"

record gate_answer =
  ga_outcome :: outcome
  ga_reason :: exec_reason
  ga_grant :: "string option"

definition env_inventory :: "exec_env \<Rightarrow> inventory_view" where
  "env_inventory env = (resolve_server (env_repr env) (env_servers env),
     \<lambda>s. case env_scope env s of Inl _ \<Rightarrow> None | Inr r \<Rightarrow> Some (res_hosts r))"

definition exec_gate :: "exec_env \<Rightarrow> server \<Rightarrow> execute_request \<Rightarrow> gate_answer \<times> scope_resolution option" where
  "exec_gate env sv rq =
     (case env_scope env sv of
        Inl e \<Rightarrow> (\<lparr>ga_outcome = Deny, ga_reason = HostsUnresolved e, ga_grant = None\<rparr>, None)
      | Inr r \<Rightarrow>
          (if res_scope r = SCOPE_ALL
           then (\<lparr>ga_outcome = Deny, ga_reason = ScopeIsAll, ga_grant = None\<rparr>, Some r)
           else (let d = evaluate (env_gates env AtGate) (env_now env AtGate) MUTATE_REMOTE (res_scope r)
                       (rq_context rq) (res_hosts r) (rq_command rq) (Some (env_inventory env)) (Some (rq_delegation rq))
                 in if outcome d = Approve \<and> rq_context rq \<noteq> CTX_INTERACTIVE
                    then (\<lparr>ga_outcome = Deny, ga_reason = NobodyWaits (res_scope r), ga_grant = None\<rparr>, Some r)
                    else (\<lparr>ga_outcome = outcome d, ga_reason = Decided (reason d), ga_grant = matched_grant d\<rparr>, Some r))))"


section \<open>Records\<close>

definition record_args ::
  "exec_env \<Rightarrow> execute_request \<Rightarrow> string \<Rightarrow> string \<Rightarrow> exec_reason \<Rightarrow> scope_resolution option \<Rightarrow> audit_args" where
  "record_args env rq decision cls why res =
     (no_args decision cls (rq_context rq))
       \<lparr>arg_session := rq_session rq, arg_tool := Some ''execute_on_server'',
        arg_scope := map_option res_scope res, arg_hosts := (case res of None \<Rightarrow> [] | Some r \<Rightarrow> res_hosts r),
        arg_command := Some (rq_command rq), arg_reason := given (Some (env_words env why)),
        arg_origin_actor := frame_origin_actor rq, arg_acting_agent := frame_acting_agent rq,
        arg_delegated_by := frame_delegated_by rq\<rparr>"

text \<open>One audit write. The left result is the refusal of an action nothing records; without an audit store
  there is no record and no refusal.\<close>

definition exec_record ::
  "exec_env \<Rightarrow> exec_stage \<Rightarrow> server \<Rightarrow> audit_args \<Rightarrow> exec_state \<Rightarrow> (exec_response + audit_entry option) \<times> exec_state" where
  "exec_record env stage sv a st =
     (case xs_audit st of
        None \<Rightarrow> (Inr None, st)
      | Some store \<Rightarrow>
          (let d = env_disk env stage
           in case audit_record (env_sha env) (dsk_current d) (dsk_after d) (dsk_write_ok d) (dsk_unlink_ok d)
                     (dsk_ts d) (dsk_id d) a store of
                Inl (_, store') \<Rightarrow> (Inl (exec_error (Unrecorded (server_name sv))), st\<lparr>xs_audit := Some store'\<rparr>)
              | Inr (e, store') \<Rightarrow> (Inr (Some e), happens (Recorded e) (st\<lparr>xs_audit := Some store'\<rparr>))))"

definition record_outcome ::
  "exec_env \<Rightarrow> audit_entry option \<Rightarrow> int option \<Rightarrow> exec_reason \<Rightarrow> exec_state \<Rightarrow> exec_state" where
  "record_outcome env follows code why st =
     (case (xs_audit st, follows) of
        (Some store, Some e) \<Rightarrow>
          (let d = env_disk env AtCompletion
           in case audit_record (env_sha env) (dsk_current d) (dsk_after d) (dsk_write_ok d) (dsk_unlink_ok d)
                     (dsk_ts d) (dsk_id d) (completion_args e code (Some (env_duration env)) (Some (env_words env why))) store of
                Inl (_, store') \<Rightarrow> st\<lparr>xs_audit := Some store'\<rparr>
              | Inr (c, store') \<Rightarrow> happens (Recorded c) (st\<lparr>xs_audit := Some store'\<rparr>))
      | _ \<Rightarrow> st)"

definition withheld :: "exec_env \<Rightarrow> server \<Rightarrow> execute_request \<Rightarrow> exec_reason \<Rightarrow> bool \<Rightarrow> exec_response" where
  "withheld env sv rq why terminal =
     (response False (PreviewLine sv (rq_command rq) (env_scope env sv)) None None why)\<lparr>rsp_terminal := terminal\<rparr>"

definition refuse_action ::
  "exec_env \<Rightarrow> exec_stage \<Rightarrow> server \<Rightarrow> execute_request \<Rightarrow> audit_args \<Rightarrow> exec_reason \<Rightarrow> bool \<Rightarrow> exec_state \<Rightarrow>
   exec_result \<times> exec_state" where
  "refuse_action env stage sv rq a why terminal st =
     (case exec_record env stage sv a st of
        (Inl r, st') \<Rightarrow> (Answered r, st')
      | (Inr _, st') \<Rightarrow> (Answered (withheld env sv rq why terminal), st'))"


section \<open>Running\<close>

definition credential_gate ::
  "exec_env \<Rightarrow> server \<Rightarrow> string \<Rightarrow> execute_request \<Rightarrow> scope_resolution option \<Rightarrow> action_authorization \<Rightarrow> exec_state \<Rightarrow>
   exec_response option \<times> exec_state" where
  "credential_gate env sv ref rq res auth st =
     (let d = evaluate_credential_access (env_gates env AtCredential) (rq_context rq) (Some auth) (Some (rq_delegation rq));
          allowed = (outcome d = Allow);
          why = ForSecret (reason d) ref;
          a = (record_args env rq (if allowed then DECISION_ALLOW else DECISION_DENIED) CREDENTIAL_ACCESS why res)
                \<lparr>arg_secret_ref := Some ref, arg_grant := matched_grant d, arg_approval := approval_id d,
                 arg_actor := auth_actor auth, arg_approval_path := auth_path auth,
                 arg_origin_path := rq_origin_path rq\<rparr>
      in case exec_record env AtCredential sv a st of
           (Inl r, st') \<Rightarrow> (Some r, st')
         | (Inr _, st') \<Rightarrow> ((if allowed then None else Some (withheld env sv rq why True)), st'))"

text \<open>\<open>on_activity\<close>: a streaming transport writes its partial output to the job, at most every five seconds.\<close>

definition stream_chunk ::
  "exec_env \<Rightarrow> string \<Rightarrow> bounded_output \<times> seconds \<times> job_files \<Rightarrow> chunk \<Rightarrow> bounded_output \<times> seconds \<times> job_files" where
  "stream_chunk env i acc c =
     (case acc of (partial, last_persist, jobs) \<Rightarrow>
        (let partial' = bo_append (chunk_text c) partial
         in if chunk_clock c - last_persist < PARTIAL_OUTPUT_PERSIST_INTERVAL_S then (partial', last_persist, jobs)
            else (partial', chunk_clock c,
                  (case update_output (env_repr env) (chunk_io c) i (bo_text partial') jobs of
                     Inl _ \<Rightarrow> jobs | Inr jobs' \<Rightarrow> jobs'))))"

definition run_transport ::
  "exec_env \<Rightarrow> audit_entry option \<Rightarrow> server \<Rightarrow> string \<Rightarrow> string option \<Rightarrow> string \<Rightarrow> exec_state \<Rightarrow> transport \<times> exec_state" where
  "run_transport env follows sv command secret i st =
     (let st1 = happens (Dialed follows sv command secret) st;
          jobs = (if provider_id sv \<in> set STREAMING_PROVIDERS
                  then snd (snd (foldl (stream_chunk env i) (new_bounded MAX_OUTPUT_CHARS, env_started env, xs_jobs st1)
                        (env_chunks env sv command secret)))
                  else xs_jobs st1)
      in (env_transport env sv command secret, st1\<lparr>xs_jobs := jobs\<rparr>))"

definition CAVEAT :: string where
  "CAVEAT = '' The remote command may still run, and this side cannot confirm it stopped.''"

text \<open>What follows a transport that ended: the job, the completion record, the response.\<close>

definition finish_run ::
  "exec_env \<Rightarrow> audit_entry option \<Rightarrow> server \<Rightarrow> string \<Rightarrow> exec_ended \<Rightarrow> exec_state \<Rightarrow> exec_result \<times> exec_state" where
  "finish_run env follows sv i r st =
     (let output = truncate_output MAX_OUTPUT_CHARS (end_output r);
          caveat = provider_id sv \<in> set UNSTOPPABLE_ON_TIMEOUT;
          name = server_name sv;
          (io, now) = (snd (snd (env_job_io env)), snd (snd (env_job_now env)));
          done' = (\<lambda>code err status why rsp.
             (case job_complete (env_repr env) io now i code output err status (xs_jobs st) of
                Inl e \<Rightarrow> (Raised (Python e), st)
              | Inr jobs \<Rightarrow> (Answered rsp, record_outcome env follows code why (st\<lparr>xs_jobs := jobs\<rparr>))))
      in if end_timed_out r
         then done' None (Some (''Timed out.'' @ (if caveat then CAVEAT else []))) ''timed_out'' (EndedAs ''timed out'' name None caveat)
                (response False (Text output) None (Some (TimedOut name caveat)) Unsaid)
         else (case given (end_error r) of
                 Some err \<Rightarrow>
                   done' (end_exit r) (Some err) ''failed'' (EndedAs ''failed'' name (end_exit r) False)
                     (response False (Text output) (end_exit r) (Some (Failed name err)) Unsaid)
               | None \<Rightarrow>
                   done' (end_exit r) None ''completed'' (EndedAs ''ended'' name (end_exit r) False)
                     (response True (Text output) (end_exit r) None Unsaid)))"

text \<open>The secret of \<open>_run\<close>: none, the one the credential gate lets it open, or the response that ends the run.\<close>

definition open_secret ::
  "exec_env \<Rightarrow> server \<Rightarrow> execute_request \<Rightarrow> scope_resolution option \<Rightarrow> action_authorization \<Rightarrow> exec_state \<Rightarrow>
   (exec_result + string option) \<times> exec_state" where
  "open_secret env sv rq res auth st =
     (case given (secret_ref sv) of
        None \<Rightarrow> (Inr None, st)
      | Some ref \<Rightarrow>
          (case credential_gate env sv ref rq res auth st of
             (Some r, st') \<Rightarrow> (Inl (Answered r), st')
           | (None, st') \<Rightarrow>
               (let st2 = happens (Opened ref) st'
                in case env_secret env ref of
                     NoKey detail \<Rightarrow> (Inl (Answered (exec_error (SecretsNotConfigured (server_name sv) detail))), st2)
                   | WrongKey \<Rightarrow> (Inl (Answered (exec_error (SecretUndecryptable (server_name sv) ref))), st2)
                   | NoSecret \<Rightarrow> (Inl (Answered (exec_error (SecretGone (server_name sv) ref))), st2)
                   | SecretStoreFailed \<Rightarrow> (Inl (Raised SecretStore), st2)
                   | Plain v \<Rightarrow> (Inr (Some v), st2))))"

definition exec_run ::
  "exec_env \<Rightarrow> server \<Rightarrow> execute_request \<Rightarrow> int option \<Rightarrow> scope_resolution option \<Rightarrow> audit_entry option \<Rightarrow>
   action_authorization \<Rightarrow> exec_state \<Rightarrow> exec_result \<times> exec_state" where
  "exec_run env sv rq idle res follows auth st =
     (case open_secret env sv rq res auth st of
        (Inl r, st1) \<Rightarrow> (r, st1)
      | (Inr secret, st1) \<Rightarrow>
          (case job_create (fst (env_job_io env)) (env_job_id env) (fst (env_job_now env)) (server_id sv)
                  (provider_id sv) (rq_command rq)
                  (case idle of Some n \<Rightarrow> n | None \<Rightarrow> env_default_idle env (provider_id sv)) (xs_jobs st1) of
             Inl e \<Rightarrow> (Raised (Python e), st1)
           | Inr (j, jobs) \<Rightarrow>
               (case mark_running (env_repr env) (fst (snd (env_job_io env))) (fst (snd (env_job_now env))) (job_id j) jobs of
                  Inl e \<Rightarrow> (Raised (Python e), st1\<lparr>xs_jobs := jobs\<rparr>)
                | Inr jobs' \<Rightarrow>
                    (case run_transport env follows sv (rq_command rq) secret (job_id j) (st1\<lparr>xs_jobs := jobs'\<rparr>) of
                       (TransportRaised, st2) \<Rightarrow>
                         (Raised Transport, record_outcome env follows None
                            (EndedAs ''ended with no answer from the transport'' (server_name sv) None False) st2)
                     | (TransportEnded r, st2) \<Rightarrow> finish_run env follows sv (job_id j) r st2))))"


section \<open>Deciding\<close>

definition gate_authorization :: "gate_answer \<Rightarrow> scope_resolution option \<Rightarrow> action_authorization" where
  "gate_authorization ga res =
     no_authorization\<lparr>auth_grant := ga_grant ga, auth_policy := Some (case ga_outcome ga of
         Allow \<Rightarrow> ''allow'' | Approve \<Rightarrow> ''approve'' | Deny \<Rightarrow> ''deny''),
       auth_scope := map_option res_scope res\<rparr>"

definition preview :: "exec_env \<Rightarrow> server \<Rightarrow> execute_request \<Rightarrow> exec_response" where
  "preview env sv rq =
     (let (ga, res) = exec_gate env sv rq;
          cred = evaluate_credential_access (env_gates env AtCredential) (rq_context rq)
                   (Some (gate_authorization ga res)) (Some (rq_delegation rq))
      in (response True (PreviewLine sv (rq_command rq) (env_scope env sv)) None None PreviewAsked)
           \<lparr>rsp_preview_outcome := Some (ga_outcome ga), rsp_preview_reason := ga_reason ga,
            rsp_preview_grant := ga_grant ga, rsp_preview_scope := map_option res_scope res,
            rsp_preview_hosts := (case res of None \<Rightarrow> [] | Some r \<Rightarrow> res_hosts r),
            rsp_preview_command := rq_command rq, rsp_preview_credential := Some cred\<rparr>)"

text \<open>\<open>_suspend\<close> up to its wait. Every way no answer could ever count refuses at once.\<close>

definition suspend ::
  "exec_env \<Rightarrow> server \<Rightarrow> execute_request \<Rightarrow> scope_resolution \<Rightarrow> int option \<Rightarrow> exec_state \<Rightarrow> exec_result \<times> exec_state" where
  "suspend env sv rq r idle st =
     (let g = env_gates env AtSuspend;
          session = strip (case rq_session rq of None \<Rightarrow> [] | Some s \<Rightarrow> s);
          origin = (case rq_origin_path rq of None \<Rightarrow> [] | Some p \<Rightarrow> p);
          who = (case frame_origin_actor rq of None \<Rightarrow> [] | Some a \<Rightarrow> a);
          feasible = approval_feasible g origin who;
          refuse = (\<lambda>why. refuse_action env AtSuspend sv rq
                      (record_args env rq DECISION_DENIED MUTATE_REMOTE why (Some r)) why False st)
      in if xs_pending st = None \<or> xs_tokens st = None then refuse NoApprovalStore
         else if session = []
         then refuse_action env AtSuspend sv rq
                (record_args env rq DECISION_DENIED MUTATE_REMOTE NoSession (Some r)) NoSession True st
         else if \<not> feasible_ok feasible then refuse (NoApprover (feasible_reason feasible))
         else (case render_approval_prompt (env_sha env) (rq_command rq) r of
                 Inl e \<Rightarrow> refuse (Unrenderable e)
               | Inr p \<Rightarrow>
                   (case exec_record env AtSuspend sv
                           ((record_args env rq DECISION_APPROVE MUTATE_REMOTE
                               (WaitsFor (rq_origin_path rq) (approval_timeout_s g)) (Some r))
                              \<lparr>arg_origin_path := rq_origin_path rq\<rparr>) st of
                      (Inl rsp, st1) \<Rightarrow> (Answered rsp, st1)
                    | (Inr _, st1) \<Rightarrow>
                        (let q = \<lparr>pr_session = session, pr_origin_path = strip origin, pr_context = rq_context rq,
                                  pr_class = MUTATE_REMOTE,
                                  pr_scope = (case given (prompt_scope p) of Some s \<Rightarrow> s | None \<Rightarrow> res_scope r),
                                  pr_hosts = prompt_hosts p, pr_command = rq_command rq, pr_payload = prompt_text p,
                                  pr_digest = prompt_digest p, pr_origin_actor = strip who,
                                  pr_acting_agent = acting_agent (rq_delegation rq),
                                  pr_delegated_by = delegated_by (rq_delegation rq)\<rparr>
                         in case create_pending (fst (env_monotonic env)) (snd (env_monotonic env)) (env_request_id env) q
                                  (of_int (approval_timeout_s g))
                                  (case xs_pending st1 of Some ps \<Rightarrow> ps | None \<Rightarrow> new_pending_store) of
                              Inl e \<Rightarrow> (Raised (Python e), st1)
                            | Inr (a, ps) \<Rightarrow>
                                (Waiting \<lparr>sus_server = sv, sus_request = rq, sus_resolution = r, sus_idle = idle,
                                          sus_prompt = p, sus_session = session, sus_id = pa_id a\<rparr>,
                                 st1\<lparr>xs_pending := Some ps\<rparr>)))))"

text \<open>\<open>_suspend\<close> from the outcome of its wait on. \<open>now\<close> is the clock of the token store.\<close>

definition resume ::
  "exec_env \<Rightarrow> suspension \<Rightarrow> approval_outcome \<Rightarrow> seconds \<Rightarrow> exec_state \<Rightarrow> exec_result \<times> exec_state" where
  "resume env s oc now st =
     (let sv = sus_server s; rq = sus_request s; r = sus_resolution s;
          refuse = (\<lambda>decision why f. refuse_action env AtResume sv rq
                      (f ((record_args env rq decision MUTATE_REMOTE why (Some r))\<lparr>arg_origin_path := rq_origin_path rq\<rparr>))
                      why True st);
          answered_by = (\<lambda>a. a\<lparr>arg_actor := out_actor oc, arg_approval_path := out_path oc\<rparr>)
      in if out_state oc = Denied then refuse DECISION_DENIED (OperatorDenied (out_reason oc)) answered_by
         else (case (if out_state oc = Approved then out_nonce oc else None) of
                 None \<Rightarrow> refuse DECISION_EXPIRED (NoApproval (out_reason oc)) id
               | Some n \<Rightarrow>
                   (case xs_tokens st of
                      None \<Rightarrow> (Raised (Python TypeError), st)
                    | Some ts \<Rightarrow>
                        (let (v, ts') = consume_token now n (sus_session s) (prompt_digest (sus_prompt s)) ts;
                             st1 = st\<lparr>xs_tokens := Some ts'\<rparr>
                         in if \<not> ver_ok v
                            then refuse_action env AtResume sv rq
                                   (answered_by ((record_args env rq DECISION_DENIED MUTATE_REMOTE
                                        (TokenRefused (ver_refusal v)) (Some r))\<lparr>arg_origin_path := rq_origin_path rq\<rparr>))
                                   (TokenRefused (ver_refusal v)) True st1
                            else (case exec_record env AtResume sv
                                    (answered_by ((record_args env rq DECISION_ALLOW MUTATE_REMOTE
                                        (ApprovedBy (out_actor oc) (out_path oc) (rq_origin_path rq)) (Some r))
                                      \<lparr>arg_origin_path := rq_origin_path rq, arg_approval := Some (sus_id s)\<rparr>)) st1 of
                                    (Inl rsp, st2) \<Rightarrow> (Answered rsp, st2)
                                  | (Inr e, st2) \<Rightarrow>
                                      exec_run env sv rq (sus_idle s) (Some r) e
                                        (no_authorization\<lparr>auth_approval := Some (sus_id s), auth_actor := out_actor oc,
                                           auth_path := out_path oc\<rparr>) st2)))))"

definition decide :: "exec_env \<Rightarrow> server \<Rightarrow> execute_request \<Rightarrow> exec_state \<Rightarrow> exec_result \<times> exec_state" where
  "decide env sv rq st =
     (case guard env sv of
        Some e \<Rightarrow> (Answered (exec_error (GuardFault e)), st)
      | None \<Rightarrow>
          (case (case given (rq_timeout rq) of None \<Rightarrow> Some None | Some t \<Rightarrow> map_option Some (py_int t)) of
             None \<Rightarrow> (Answered (exec_error (BadTimeout (case rq_timeout rq of Some t \<Rightarrow> t | None \<Rightarrow> []))), st)
           | Some idle \<Rightarrow>
               (if rq_preview rq then (Answered (preview env sv rq), st)
                else (case exec_gate env sv rq of
                        (ga, res) \<Rightarrow>
                          (case (if ga_outcome ga = Approve then res else None) of
                             Some r \<Rightarrow> suspend env sv rq r idle st
                           | None \<Rightarrow>
                               (case exec_record env AtGate sv
                                   ((record_args env rq
                                      (if ga_outcome ga = Allow then DECISION_ALLOW else DECISION_DENIED)
                                      MUTATE_REMOTE (ga_reason ga) res)\<lparr>arg_grant := ga_grant ga\<rparr>) st of
                                 (Inl rsp, st1) \<Rightarrow> (Answered rsp, st1)
                               | (Inr e, st1) \<Rightarrow>
                                   (if ga_outcome ga \<noteq> Allow then (Answered (withheld env sv rq (ga_reason ga) True), st1)
                                    else exec_run env sv rq idle res e (gate_authorization ga res) st1)))))))"

definition as_decided :: "execute_request \<Rightarrow> execute_request" where
  "as_decided rq = rq\<lparr>rq_context := effective_execution_context (rq_delegation rq) (rq_context rq)\<rparr>"

definition handle :: "exec_env \<Rightarrow> execute_request \<Rightarrow> exec_state \<Rightarrow> exec_result \<times> exec_state" where
  "handle env rq st =
     (if given (rq_nonce rq) \<noteq> None then (Answered (exec_error NonceOnWire), st)
      else (let rq = as_decided rq
            in case resolve_server (env_repr env) (env_servers env) (rq_server rq) of
                 None \<Rightarrow> (Answered (exec_error (NoServer (rq_server rq))), st)
               | Some sv \<Rightarrow>
                   (if provider_id sv \<notin> set KNOWN_PROVIDER_IDS
                    then (Answered (exec_error (UnknownProvider (provider_id sv))), st)
                    else decide env sv rq st)))"

text \<open>\<open>_serve_one\<close>: whatever one request raises becomes a response.\<close>

definition served :: "exec_result \<Rightarrow> exec_response option" where
  "served r = (case r of Answered rsp \<Rightarrow> Some rsp | Raised _ \<Rightarrow> Some (exec_error RequestFailed) | Waiting _ \<Rightarrow> None)"

end
