(* ===== verification/ActionTrace.thy ===== *)
theory ActionTrace
  imports Executor
begin

text \<open>
  What the executor does to the outside, in which order: the lemmas about the trace of
  \<open>Executor\<close>. \<open>justified\<close> states what must precede a decryption and a connection; \<open>good\<close> is the
  invariant of a call in progress; \<open>dialed\<close> counts connections; \<open>waiting_facts\<close> is what an action has
  passed before it waits for a human.
\<close>

section \<open>What a trace shows\<close>

definition recorded_before :: "(audit_entry \<Rightarrow> bool) \<Rightarrow> exec_event list \<Rightarrow> bool" where
  "recorded_before P pre \<longleftrightarrow> list_ex (\<lambda>ev. case ev of Recorded e \<Rightarrow> P e | _ \<Rightarrow> False) pre"

text \<open>What must have happened before a secret is opened or a host is dialed.\<close>

fun justified :: "exec_env \<Rightarrow> exec_event list \<Rightarrow> exec_event \<Rightarrow> bool" where
  "justified env pre (Recorded e) = True"
| "justified env pre (Opened ref) =
     recorded_before (\<lambda>e. ent_decision e = DECISION_ALLOW \<and> ent_class e = CREDENTIAL_ACCESS \<and>
       ent_secret_ref e = Some ref) pre"
| "justified env pre (Dialed follows sv command secret) =
     (case (follows, env_scope env sv) of
        (Some f, Inr r) \<Rightarrow>
          recorded_before (\<lambda>e. e = f \<and> ent_decision e = DECISION_ALLOW \<and> ent_class e = MUTATE_REMOTE \<and>
            ent_digest e = Some (command_digest (env_sha env) command) \<and> ent_scope e = Some (res_scope r) \<and>
            ent_hosts e = res_hosts r) pre \<and>
          (secret = None \<or> list_ex (\<lambda>ev. ev = Opened (the (secret_ref sv))) pre)
      | _ \<Rightarrow> False)"

definition all_justified :: "exec_env \<Rightarrow> exec_event list \<Rightarrow> bool" where
  "all_justified env tr \<longleftrightarrow> list_all (\<lambda>i. justified env (take i tr) (tr ! i)) [0..<length tr]"

lemma all_justified_Nil [simp]: "all_justified env []"
  by (simp add: all_justified_def)

lemma all_justified_snoc [simp]:
  "all_justified env (tr @ [ev]) \<longleftrightarrow> all_justified env tr \<and> justified env tr ev"
  by (auto simp: all_justified_def list_all_iff nth_append)

text \<open>The events of one call, and that a call only adds events.\<close>

definition since :: "exec_state \<Rightarrow> exec_state \<Rightarrow> exec_event list" where
  "since st st' = drop (length (xs_trace st)) (xs_trace st')"

definition extends :: "exec_state \<Rightarrow> exec_state \<Rightarrow> bool" where
  "extends st st' \<longleftrightarrow> (\<exists>new. xs_trace st' = xs_trace st @ new) \<and> (xs_audit st' = None \<longleftrightarrow> xs_audit st = None)"

lemma since_simps [simp]:
  "since st st = []"
  "since st (st'\<lparr>xs_audit := a\<rparr>) = since st st'"
  "since st (st'\<lparr>xs_pending := p\<rparr>) = since st st'"
  "since st (st'\<lparr>xs_tokens := t\<rparr>) = since st st'"
  "since st (st'\<lparr>xs_jobs := j\<rparr>) = since st st'"
  by (simp_all add: since_def)

lemma extends_simps [simp]:
  "extends st st"
  "extends st (st'\<lparr>xs_pending := p\<rparr>) \<longleftrightarrow> extends st st'"
  "extends st (st'\<lparr>xs_tokens := t\<rparr>) \<longleftrightarrow> extends st st'"
  "extends st (st'\<lparr>xs_jobs := j\<rparr>) \<longleftrightarrow> extends st st'"
  by (simp_all add: extends_def)

lemma happens_since [simp]: "extends st st' \<Longrightarrow> since st (happens ev st') = since st st' @ [ev]"
  by (auto simp: extends_def since_def happens_def)

lemma happens_extends [simp]: "extends st st' \<Longrightarrow> extends st (happens ev st')"
  by (auto simp: extends_def happens_def)

text \<open>A call in progress: its events so far are justified.\<close>

definition good :: "exec_env \<Rightarrow> exec_state \<Rightarrow> exec_state \<Rightarrow> bool" where
  "good env st st' \<longleftrightarrow> extends st st' \<and> all_justified env (since st st')"

lemma good_refl [simp]: "good env st st"
  by (simp add: good_def)

lemma good_happens:
  "good env st st' \<Longrightarrow> justified env (since st st') ev \<Longrightarrow> good env st (happens ev st')"
  by (simp add: good_def)

lemma good_simps [simp]:
  "good env st (st'\<lparr>xs_pending := p\<rparr>) \<longleftrightarrow> good env st st'"
  "good env st (st'\<lparr>xs_tokens := t\<rparr>) \<longleftrightarrow> good env st st'"
  "good env st (st'\<lparr>xs_jobs := j\<rparr>) \<longleftrightarrow> good env st st'"
  by (simp_all add: good_def)

lemma extends_audit [simp]:
  "xs_audit st' \<noteq> None \<Longrightarrow> extends st (st'\<lparr>xs_audit := Some a\<rparr>) \<longleftrightarrow> extends st st'"
  by (auto simp: extends_def)

lemma record_cases:
  assumes "exec_record env stage sv a st = (r, st')"
  obtains (unaudited) "xs_audit st = None" "r = Inr None" "st' = st"
  | (failed) store' where "xs_audit st \<noteq> None" "r = Inl (exec_error (Unrecorded (server_name sv)))" "st' = st\<lparr>xs_audit := Some store'\<rparr>"
  | (landed) store store' e where "xs_audit st = Some store" "r = Inr (Some e)"
      "e = make_entry (env_sha env) (store_config store) (dsk_ts (env_disk env stage)) (dsk_id (env_disk env stage)) a"
      "st' = happens (Recorded e) (st\<lparr>xs_audit := Some store'\<rparr>)"
proof (cases "xs_audit st")
  case None
  with assms show ?thesis by (intro unaudited) (simp_all add: exec_record_def)
next
  case (Some store)
  show ?thesis
  proof (cases "append_entry (dsk_current (env_disk env stage)) (dsk_after (env_disk env stage))
      (dsk_write_ok (env_disk env stage)) (dsk_unlink_ok (env_disk env stage))
      (make_entry (env_sha env) (store_config store) (dsk_ts (env_disk env stage)) (dsk_id (env_disk env stage)) a) store")
    case (Inl x)
    with assms Some show ?thesis
      by (intro failed [of "snd x"]) (auto simp: exec_record_def audit_record_def Let_def split: prod.splits)
  next
    case (Inr store')
    with assms Some show ?thesis
      by (intro landed [of store _ store']) (auto simp: exec_record_def audit_record_def Let_def)
  qed
qed

lemma good_record:
  assumes "good env st st1" "exec_record env stage sv a st1 = (r, st2)"
  shows "good env st st2"
  using assms(2)
proof (cases rule: record_cases)
  case (landed store store' e)
  have "good env st (st1\<lparr>xs_audit := Some store'\<rparr>)"
    using assms(1) landed(1) by (simp add: good_def)
  then show ?thesis unfolding landed(4) by (rule good_happens) simp
qed (use assms(1) in \<open>auto simp: good_def\<close>)

lemma good_outcome:
  assumes "good env st st1"
  shows "good env st (record_outcome env follows code why st1)"
proof -
  have "good env st (st1\<lparr>xs_audit := Some s\<rparr>)" if "xs_audit st1 \<noteq> None" for s
    using assms that by (simp add: good_def)
  then show ?thesis
    using assms by (auto simp: record_outcome_def Let_def split: option.splits sum.splits intro!: good_happens)
qed

lemma good_refuse:
  "good env st st1 \<Longrightarrow> refuse_action env stage sv rq a why terminal st1 = (r, st2) \<Longrightarrow> good env st st2"
  by (auto simp: refuse_action_def split: prod.splits sum.splits dest: good_record)


lemma recorded_before_iff: "recorded_before P pre \<longleftrightarrow> (\<exists>e. Recorded e \<in> set pre \<and> P e)"
proof (induction pre)
  case (Cons ev pre)
  then show ?case by (cases ev) (auto simp: recorded_before_def)
qed (simp add: recorded_before_def)

text \<open>What a call has shown stays shown.\<close>

lemma record_since:
  assumes "extends st st1" "exec_record env stage sv a st1 = (r, st2)"
  shows "set (since st st1) \<subseteq> set (since st st2)"
    and "r = Inr (Some e) \<Longrightarrow> Recorded e \<in> set (since st st2)"
    and "r = Inr e' \<Longrightarrow> e' = None \<longleftrightarrow> xs_audit st1 = None"
proof -
  have "set (since st st1) \<subseteq> set (since st st2) \<and> (r = Inr (Some e) \<longrightarrow> Recorded e \<in> set (since st st2)) \<and>
      (r = Inr e' \<longrightarrow> (e' = None \<longleftrightarrow> xs_audit st1 = None))"
    using assms(2)
  proof (cases rule: record_cases)
    case (landed store store' e0)
    have "since st st2 = since st st1 @ [Recorded e0]"
      unfolding landed(4) using assms(1) landed(1) by simp
    then show ?thesis using landed(1,2) by auto
  qed auto
  then show "set (since st st1) \<subseteq> set (since st st2)"
    and "r = Inr (Some e) \<Longrightarrow> Recorded e \<in> set (since st st2)"
    and "r = Inr e' \<Longrightarrow> e' = None \<longleftrightarrow> xs_audit st1 = None" by blast+
qed

lemma landed_entry:
  assumes "exec_record env stage sv a st = (Inr (Some e), st')"
  shows "ent_decision e = arg_decision a \<and> ent_class e = arg_class a \<and> ent_secret_ref e = arg_secret_ref a \<and>
    (\<forall>c. arg_command a = Some c \<longrightarrow> ent_digest e = Some (command_digest (env_sha env) c)) \<and>
    ent_scope e = arg_scope a \<and> ent_hosts e = arg_hosts a"
  using assms
proof (cases rule: record_cases)
  case (landed store store' e0)
  from landed(2) have "e = e0" by simp
  then show ?thesis unfolding landed(3) by (simp add: make_entry_def)
qed simp_all

lemma record_args_simps [simp]:
  "arg_decision (record_args env rq d cls why res) = d" "arg_class (record_args env rq d cls why res) = cls"
  "arg_command (record_args env rq d cls why res) = Some (rq_command rq)"
  "arg_scope (record_args env rq d cls why res) = map_option res_scope res"
  "arg_hosts (record_args env rq d cls why res) = (case res of None \<Rightarrow> [] | Some r \<Rightarrow> res_hosts r)"
  by (simp_all add: record_args_def no_args_def)

lemma credential_gate_good:
  assumes "good env st st1" "xs_audit st \<noteq> None" "credential_gate env sv ref rq res auth st1 = (out, st2)"
  shows "good env st st2" "set (since st st1) \<subseteq> set (since st st2)"
    "out = None \<Longrightarrow> justified env (since st st2) (Opened ref)"
proof -
  define d where "d = evaluate_credential_access (env_gates env AtCredential) (rq_context rq) (Some auth) (Some (rq_delegation rq))"
  define a where "a = (record_args env rq (if outcome d = Allow then DECISION_ALLOW else DECISION_DENIED) CREDENTIAL_ACCESS
      (ForSecret (reason d) ref) res)
        \<lparr>arg_secret_ref := Some ref, arg_grant := matched_grant d, arg_approval := approval_id d,
         arg_actor := auth_actor auth, arg_approval_path := auth_path auth, arg_origin_path := rq_origin_path rq\<rparr>"
  obtain r where r: "exec_record env AtCredential sv a st1 = (r, st2)" "out = None \<longrightarrow> outcome d = Allow \<and> (\<exists>e. r = Inr e)"
    using assms(3) by (cases "exec_record env AtCredential sv a st1")
      (auto simp: credential_gate_def Let_def a_def d_def split: sum.splits if_splits)
  have ext: "extends st st1" using assms(1) by (simp add: good_def)
  show "good env st st2" by (rule good_record [OF assms(1) r(1)])
  show "set (since st st1) \<subseteq> set (since st st2)" by (rule record_since(1) [OF ext r(1)])
  assume "out = None"
  with r(2) obtain e' where e': "outcome d = Allow" "r = Inr e'" by blast
  have "xs_audit st1 \<noteq> None" using ext assms(2) by (simp add: extends_def)
  with record_since(3) [OF ext r(1) e'(2)] obtain e where e: "r = Inr (Some e)" using e'(2) by auto
  with landed_entry [of env AtCredential sv a st1 e st2] r(1) record_since(2) [OF ext r(1) e]
  show "justified env (since st st2) (Opened ref)"
    by (auto simp: recorded_before_iff a_def e'(1))
qed

lemma open_secret_good:
  assumes "good env st st1" "xs_audit st \<noteq> None" "open_secret env sv rq res auth st1 = (out, st2)"
  shows "good env st st2" "set (since st st1) \<subseteq> set (since st st2)"
    "out = Inr (Some v) \<Longrightarrow> Opened (the (secret_ref sv)) \<in> set (since st st2)"
proof -
  have "good env st st2 \<and> set (since st st1) \<subseteq> set (since st st2) \<and>
    (out = Inr (Some v) \<longrightarrow> Opened (the (secret_ref sv)) \<in> set (since st st2))"
  proof (cases "given (secret_ref sv)")
    case None
    with assms show ?thesis by (auto simp: open_secret_def)
  next
    case (Some ref)
    then have ref: "secret_ref sv = Some ref" by (auto simp: given_def split: option.splits list.splits)
    obtain o' st3 where c: "credential_gate env sv ref rq res auth st1 = (o', st3)" by fastforce
    note g = credential_gate_good [OF assms(1,2) c]
    show ?thesis
    proof (cases o')
      case (Some r)
      with assms(3) c g \<open>given _ = _\<close> show ?thesis by (auto simp: open_secret_def)
    next
      case None
      then have st2: "st2 = happens (Opened ref) st3"
        using assms(3) c \<open>given _ = _\<close> by (auto simp: open_secret_def Let_def split: secret_read.splits)
      have ext: "extends st st3" using g(1) by (simp add: good_def)
      show ?thesis unfolding st2 using g None ext ref by (auto intro: good_happens simp del: justified.simps)
    qed
  qed
  then show "good env st st2" "set (since st st1) \<subseteq> set (since st st2)"
    "out = Inr (Some v) \<Longrightarrow> Opened (the (secret_ref sv)) \<in> set (since st st2)" by blast+
qed

lemma finish_run_good:
  "good env st st1 \<Longrightarrow> finish_run env follows sv i r st1 = (out, st2) \<Longrightarrow> good env st st2"
  by (auto simp: finish_run_def Let_def split: prod.splits sum.splits option.splits if_splits intro!: good_outcome)

text \<open>A run dials under the record it was given.\<close>

lemma exec_run_good:
  assumes "good env st st1" "xs_audit st \<noteq> None" "env_scope env sv = Inr r"
    and "Recorded e \<in> set (since st st1)" "ent_decision e = DECISION_ALLOW" "ent_class e = MUTATE_REMOTE"
    and "ent_digest e = Some (command_digest (env_sha env) (rq_command rq))" "ent_scope e = Some (res_scope r)"
    and "ent_hosts e = res_hosts r" "exec_run env sv rq idle res (Some e) auth st1 = (out, st2)"
  shows "good env st st2"
proof -
  obtain o' st3 where s: "open_secret env sv rq res auth st1 = (o', st3)" by fastforce
  note g = open_secret_good [OF assms(1,2) s]
  have ext: "extends st st3" using g(1) by (simp add: good_def)
  have dial: "good env st (happens (Dialed (Some e) sv (rq_command rq) secret) (st3\<lparr>xs_jobs := jobs\<rparr>))"
    if "o' = Inr secret" for secret jobs
  proof (rule good_happens)
    show "good env st (st3\<lparr>xs_jobs := jobs\<rparr>)" using g(1) by simp
    have "secret = None \<or> Opened (the (secret_ref sv)) \<in> set (since st st3)"
      using g(3) that by (cases secret) auto
    then show "justified env (since st (st3\<lparr>xs_jobs := jobs\<rparr>)) (Dialed (Some e) sv (rq_command rq) secret)"
      using assms(3-9) g(2) by (auto simp: recorded_before_iff list_ex_iff)
  qed
  show ?thesis
  proof (cases o')
    case (Inl x)
    with assms(10) s g(1) show ?thesis by (simp add: exec_run_def)
  next
    case (Inr secret)
    show ?thesis
      using assms(10) g(1) dial [OF Inr]
      by (auto simp: exec_run_def s Inr run_transport_def Let_def split: sum.splits prod.splits transport.splits
          intro!: good_outcome dest!: finish_run_good [rotated])
  qed
qed


section \<open>Whole calls\<close>

lemma suspend_good:
  "suspend env sv rq r idle st1 = (out, st2) \<Longrightarrow> good env st st1 \<Longrightarrow> good env st st2"
  by (auto simp: suspend_def Let_def split: if_splits sum.splits prod.splits
      dest: good_record good_refuse)

lemma exec_gate_scope:
  assumes "exec_gate env sv rq = (ga, res)" "ga_outcome ga \<noteq> Deny"
  shows "\<exists>r. env_scope env sv = Inr r \<and> res = Some r \<and> res_scope r \<noteq> SCOPE_ALL \<and>
    ga_outcome ga = outcome (evaluate (env_gates env AtGate) (env_now env AtGate) MUTATE_REMOTE (res_scope r)
      (rq_context rq) (res_hosts r) (rq_command rq) (Some (env_inventory env)) (Some (rq_delegation rq))) \<and>
    (ga_outcome ga = Approve \<longrightarrow> rq_context rq = CTX_INTERACTIVE)"
  using assms by (auto simp: exec_gate_def Let_def split: sum.splits if_splits)

lemma allow_record:
  assumes "exec_record env stage sv a st1 = (Inr (Some e), st2)" "good env st st1"
    and "arg_decision a = DECISION_ALLOW" "arg_class a = MUTATE_REMOTE" "arg_command a = Some c"
    and "arg_scope a = Some (res_scope r)" "arg_hosts a = res_hosts r"
  shows "Recorded e \<in> set (since st st2) \<and> ent_decision e = DECISION_ALLOW \<and> ent_class e = MUTATE_REMOTE \<and>
    ent_digest e = Some (command_digest (env_sha env) c) \<and> ent_scope e = Some (res_scope r) \<and> ent_hosts e = res_hosts r"
  using landed_entry [OF assms(1)] record_since(2) [OF _ assms(1) refl, of st] assms(2-)
  by (simp add: good_def)

lemma decide_good:
  assumes "xs_audit st \<noteq> None" "decide env sv rq st = (out, st')"
  shows "good env st st'"
proof (cases "guard env sv = None \<and> \<not> rq_preview rq \<and> ga_outcome (fst (exec_gate env sv rq)) = Allow \<and>
    (given (rq_timeout rq) = None \<or> py_int (the (given (rq_timeout rq))) \<noteq> None)")
  case False
  then show ?thesis
    using assms by (cases "exec_gate env sv rq")
      (auto simp: decide_def split: option.splits if_splits prod.splits sum.splits
        dest: good_record [OF good_refl] suspend_good [OF _ good_refl])
next
  case True
  obtain ga res where g: "exec_gate env sv rq = (ga, res)" by fastforce
  with True obtain r where r: "env_scope env sv = Inr r" "res = Some r" "ga_outcome ga = Allow"
    using exec_gate_scope [OF g] by auto
  define a where "a = (record_args env rq DECISION_ALLOW MUTATE_REMOTE (ga_reason ga) res)\<lparr>arg_grant := ga_grant ga\<rparr>"
  obtain o' st1 where rec: "exec_record env AtGate sv a st = (o', st1)" by fastforce
  from True obtain idle where idle: "(case given (rq_timeout rq) of None \<Rightarrow> Some None | Some t \<Rightarrow> map_option Some (py_int t)) = Some idle"
    by (cases "given (rq_timeout rq)") auto
  have d: "decide env sv rq st = (case o' of Inl rsp \<Rightarrow> (Answered rsp, st1)
      | Inr e \<Rightarrow> exec_run env sv rq idle res e (gate_authorization ga res) st1)"
    using True g r(3) rec idle by (simp add: decide_def a_def split: sum.split)
  have good1: "good env st st1" by (rule good_record [OF good_refl rec])
  show ?thesis
  proof (cases o')
    case (Inl x)
    with d assms(2) good1 show ?thesis by simp
  next
    case (Inr e')
    with record_since(3) [OF extends_simps(1) rec Inr] assms(1) obtain e where e: "e' = Some e" by auto
    have "Recorded e \<in> set (since st st1) \<and> ent_decision e = DECISION_ALLOW \<and> ent_class e = MUTATE_REMOTE \<and>
        ent_digest e = Some (command_digest (env_sha env) (rq_command rq)) \<and> ent_scope e = Some (res_scope r) \<and>
        ent_hosts e = res_hosts r"
      by (rule allow_record [OF rec [unfolded Inr e] good_refl]) (simp_all add: a_def r(2))
    moreover have run: "exec_run env sv rq idle res (Some e) (gate_authorization ga res) st1 = (out, st')"
      using d Inr e assms(2) by simp
    ultimately show ?thesis
      by (intro exec_run_good [OF good1 assms(1) r(1) _ _ _ _ _ _ run]) simp_all
  qed
qed

lemma resume_good:
  assumes "xs_audit st \<noteq> None" "env_scope env (sus_server s) = Inr (sus_resolution s)"
    and "resume env s oc now st = (out, st')"
  shows "good env st st'"
proof (cases "out_state oc = Approved \<and> out_nonce oc \<noteq> None \<and> xs_tokens st \<noteq> None \<and>
    ver_ok (fst (consume_token now (the (out_nonce oc)) (sus_session s) (prompt_digest (sus_prompt s)) (the (xs_tokens st))))")
  case False
  have tokens: "good env st (st\<lparr>xs_tokens := t\<rparr>)" for t by simp
  show ?thesis
    using assms False by (auto simp: resume_def Let_def split: option.splits if_splits prod.splits
        dest: good_refuse [OF good_refl] good_refuse [OF tokens])
next
  case True
  then obtain n ts where nt: "out_nonce oc = Some n" "xs_tokens st = Some ts" by auto
  obtain v ts' where c: "consume_token now n (sus_session s) (prompt_digest (sus_prompt s)) ts = (v, ts')" by fastforce
  let ?st1 = "st\<lparr>xs_tokens := Some ts'\<rparr>"
  define a where "a = (record_args env (sus_request s) DECISION_ALLOW MUTATE_REMOTE
      (ApprovedBy (out_actor oc) (out_path oc) (rq_origin_path (sus_request s))) (Some (sus_resolution s)))
      \<lparr>arg_origin_path := rq_origin_path (sus_request s), arg_approval := Some (sus_id s),
       arg_actor := out_actor oc, arg_approval_path := out_path oc\<rparr>"
  obtain o' st2 where rec: "exec_record env AtResume (sus_server s) a ?st1 = (o', st2)" by fastforce
  have d: "resume env s oc now st = (case o' of Inl rsp \<Rightarrow> (Answered rsp, st2)
      | Inr e \<Rightarrow> exec_run env (sus_server s) (sus_request s) (sus_idle s) (Some (sus_resolution s)) e
          (no_authorization\<lparr>auth_approval := Some (sus_id s), auth_actor := out_actor oc, auth_path := out_path oc\<rparr>) st2)"
    using True nt c rec by (simp add: resume_def Let_def a_def split: sum.split)
  have good1: "good env st ?st1" by simp
  have good2: "good env st st2" by (rule good_record [OF good1 rec])
  show ?thesis
  proof (cases o')
    case (Inl x)
    with d assms(3) good2 show ?thesis by simp
  next
    case (Inr e')
    have "extends st ?st1" by simp
    from record_since(3) [OF this rec Inr] assms(1) obtain e where e: "e' = Some e" by auto
    have "Recorded e \<in> set (since st st2) \<and> ent_decision e = DECISION_ALLOW \<and> ent_class e = MUTATE_REMOTE \<and>
        ent_digest e = Some (command_digest (env_sha env) (rq_command (sus_request s))) \<and>
        ent_scope e = Some (res_scope (sus_resolution s)) \<and> ent_hosts e = res_hosts (sus_resolution s)"
      by (rule allow_record [OF rec [unfolded Inr e] good1]) (simp_all add: a_def)
    moreover have run: "exec_run env (sus_server s) (sus_request s) (sus_idle s) (Some (sus_resolution s)) (Some e)
        (no_authorization\<lparr>auth_approval := Some (sus_id s), auth_actor := out_actor oc, auth_path := out_path oc\<rparr>) st2 =
        (out, st')"
      using d Inr e assms(3) by simp
    ultimately show ?thesis
      by (intro exec_run_good [OF good2 assms(1,2) _ _ _ _ _ _ run]) simp_all
  qed
qed


section \<open>How often a call dials\<close>

fun is_dial :: "exec_event \<Rightarrow> bool" where
  "is_dial (Dialed _ _ _ _) = True"
| "is_dial _ = False"

definition dialed :: "exec_state \<Rightarrow> exec_event list" where
  "dialed st = filter is_dial (xs_trace st)"

lemma dialed_simps [simp]:
  "dialed (st\<lparr>xs_audit := a\<rparr>) = dialed st" "dialed (st\<lparr>xs_pending := p\<rparr>) = dialed st"
  "dialed (st\<lparr>xs_tokens := t\<rparr>) = dialed st" "dialed (st\<lparr>xs_jobs := j\<rparr>) = dialed st"
  "dialed (happens ev st) = dialed st @ (if is_dial ev then [ev] else [])"
  by (simp_all add: dialed_def happens_def)

lemma record_dialed: "exec_record env stage sv a st = (r, st') \<Longrightarrow> dialed st' = dialed st"
  by (erule record_cases) simp_all

lemma outcome_dialed [simp]: "dialed (record_outcome env follows code why st) = dialed st"
  by (auto simp: record_outcome_def Let_def split: option.splits sum.splits)

lemma refuse_dialed: "refuse_action env stage sv rq a why terminal st = (r, st') \<Longrightarrow> dialed st' = dialed st"
  by (auto simp: refuse_action_def split: prod.splits sum.splits dest: record_dialed)

lemma open_secret_dialed: "open_secret env sv rq res auth st = (r, st') \<Longrightarrow> dialed st' = dialed st"
  by (auto simp: open_secret_def credential_gate_def Let_def dest!: record_dialed
      split: option.splits prod.splits sum.splits secret_read.splits if_splits)

lemma finish_run_dialed: "finish_run env follows sv i r st = (out, st') \<Longrightarrow> dialed st' = dialed st"
  by (auto simp: finish_run_def Let_def split: prod.splits sum.splits option.splits if_splits)

lemma exec_run_dialed:
  "exec_run env sv rq idle res follows auth st = (out, st') \<Longrightarrow>
   dialed st' = dialed st \<or> (\<exists>secret. dialed st' = dialed st @ [Dialed follows sv (rq_command rq) secret])"
  by (auto simp: exec_run_def run_transport_def Let_def dest!: open_secret_dialed finish_run_dialed
      split: prod.splits sum.splits transport.splits)

lemma suspend_dialed: "suspend env sv rq r idle st = (out, st') \<Longrightarrow> dialed st' = dialed st"
  by (auto simp: suspend_def Let_def split: if_splits sum.splits prod.splits dest: record_dialed refuse_dialed)


lemma decide_dialed:
  assumes "decide env sv rq st = (out, st')"
  shows "dialed st' = dialed st \<or>
    (\<exists>f secret. dialed st' = dialed st @ [Dialed f sv (rq_command rq) secret] \<and> guard env sv = None \<and>
       \<not> rq_preview rq \<and> ga_outcome (fst (exec_gate env sv rq)) = Allow)"
proof (cases "exec_gate env sv rq")
  case (Pair ga res)
  show ?thesis
    using assms Pair
    by (auto simp: decide_def split: option.splits if_splits prod.splits sum.splits
        dest: record_dialed suspend_dialed dest!: exec_run_dialed)
qed

lemma resume_dialed:
  assumes "resume env s oc now st = (out, st')"
  shows "dialed st' = dialed st \<or>
    (\<exists>f secret n ts. dialed st' = dialed st @ [Dialed f (sus_server s) (rq_command (sus_request s)) secret] \<and>
       out_state oc = Approved \<and> out_nonce oc = Some n \<and> xs_tokens st = Some ts \<and>
       ver_ok (fst (consume_token now n (sus_session s) (prompt_digest (sus_prompt s)) ts)))"
  using assms
  by (auto simp: resume_def Let_def split: option.splits if_splits prod.splits sum.splits
      dest!: record_dialed refuse_dialed exec_run_dialed)

text \<open>Completion records of a trace, and how a run adds one.\<close>

fun is_completion :: "exec_event \<Rightarrow> bool" where
  "is_completion (Recorded e) = (ent_decision e = DECISION_COMPLETION)"
| "is_completion _ = False"

definition completed :: "exec_state \<Rightarrow> exec_event list" where
  "completed st = filter is_completion (xs_trace st)"

lemma completed_simps [simp]:
  "completed (st\<lparr>xs_audit := a\<rparr>) = completed st" "completed (st\<lparr>xs_tokens := t\<rparr>) = completed st"
  "completed (st\<lparr>xs_jobs := j\<rparr>) = completed st"
  "completed (happens ev st) = completed st @ (if is_completion ev then [ev] else [])"
  by (simp_all add: completed_def happens_def)

lemma record_completed:
  assumes "exec_record env stage sv a st = (r, st')" "arg_decision a \<noteq> DECISION_COMPLETION"
  shows "completed st' = completed st"
  using assms(1)
proof (cases rule: record_cases)
  case (landed store store' e)
  then have "ent_decision e = arg_decision a" by (simp add: make_entry_def)
  with assms(2) landed(4) show ?thesis by simp
qed simp_all

lemma decisions_not_completion [simp]:
  "DECISION_ALLOW \<noteq> DECISION_COMPLETION" "DECISION_DENIED \<noteq> DECISION_COMPLETION"
  "(if b then DECISION_ALLOW else DECISION_DENIED) \<noteq> DECISION_COMPLETION"
  by (simp_all add: decision_texts DECISION_COMPLETION_def)

lemma open_secret_completed:
  "open_secret env sv rq res auth st = (r, st') \<Longrightarrow> completed st' = completed st"
  by (auto simp: open_secret_def credential_gate_def Let_def dest!: record_completed
      split: option.splits prod.splits sum.splits secret_read.splits if_splits)

text \<open>The end of a run whose job file cannot be written.\<close>

lemma finish_run_unwritten:
  assumes "\<not> snd (snd (env_job_io env))" "finish_run env follows sv i r st = (out, st')"
  shows "st' = st \<and> (\<exists>e. out = Raised (Python e))"
proof -
  have "\<exists>e. job_complete repr False now i code out err status fs = Inl e" for repr now code out err status fs
    by (auto simp: job_complete_def job_change_def job_write_def split: option.split)
  with assms show ?thesis
    by (auto simp: finish_run_def Let_def split: prod.splits sum.splits option.splits if_splits)
      (metis sum.distinct(1))+
qed

lemma exec_run_unwritten:
  assumes "exec_run env sv rq idle res follows auth st = (out, st')" "dialed st' \<noteq> dialed st"
    and "\<not> snd (snd (env_job_io env))" "\<And>c s. env_transport env sv c s \<noteq> TransportRaised"
  shows "completed st' = completed st \<and> (\<exists>e. out = Raised (Python e))"
proof -
  obtain o1 st1 where s: "open_secret env sv rq res auth st = (o1, st1)" by fastforce
  note keep = open_secret_dialed [OF s] open_secret_completed [OF s]
  show ?thesis
    using assms(1,2,4) keep
    by (auto simp: exec_run_def s run_transport_def Let_def split: sum.splits prod.splits transport.splits
        dest!: finish_run_unwritten [OF assms(3)])
qed

text \<open>What an action that waits has passed.\<close>

lemma suspend_waiting:
  assumes "suspend env sv rq r idle st = (Waiting s, st')"
  shows "\<exists>p ps a ps1. s = \<lparr>sus_server = sv, sus_request = rq, sus_resolution = r, sus_idle = idle, sus_prompt = p,
       sus_session = strip (case rq_session rq of None \<Rightarrow> [] | Some x \<Rightarrow> x), sus_id = pa_id a\<rparr> \<and> sus_session s \<noteq> [] \<and>
     feasible_ok (approval_feasible (env_gates env AtSuspend) (case rq_origin_path rq of None \<Rightarrow> [] | Some x \<Rightarrow> x)
       (case frame_origin_actor rq of None \<Rightarrow> [] | Some x \<Rightarrow> x)) \<and>
     render_approval_prompt (env_sha env) (rq_command rq) r = Inr p \<and>
     xs_pending st = Some ps \<and> xs_tokens st \<noteq> None \<and>
     (\<exists>q. create_pending (fst (env_monotonic env)) (snd (env_monotonic env)) (env_request_id env) q
         (of_int (approval_timeout_s (env_gates env AtSuspend))) ps = Inr (a, ps1) \<and> pr_digest q = prompt_digest p \<and>
       pr_session q = sus_session s \<and> pr_command q = rq_command rq \<and> pr_hosts q = prompt_hosts p \<and>
       pr_origin_path q = strip (case rq_origin_path rq of None \<Rightarrow> [] | Some x \<Rightarrow> x) \<and>
       pr_origin_actor q = strip (case frame_origin_actor rq of None \<Rightarrow> [] | Some x \<Rightarrow> x)) \<and>
     xs_pending st' = Some ps1 \<and> xs_tokens st' = xs_tokens st"
proof -
  have keep: "xs_pending st1 = xs_pending st \<and> xs_tokens st1 = xs_tokens st" if "exec_record env AtSuspend sv x st = (y, st1)" for x y st1
    using that by (rule record_cases) (simp_all add: happens_def)
  show ?thesis
    using assms keep
    by (auto simp: suspend_def Let_def refuse_action_def split: if_splits sum.splits prod.splits option.splits
        intro!: exI)
qed


lemma handle_cases:
  assumes "handle env rq st = (out, st')"
  obtains (turned_away) e where "st' = st" "out = Answered (exec_error e)"
  | (decided) sv where "given (rq_nonce rq) = None" "resolve_server (env_repr env) (env_servers env) (rq_server rq) = Some sv"
      "provider_id sv \<in> set KNOWN_PROVIDER_IDS" "decide env sv (as_decided rq) st = (out, st')"
  using assms by (auto simp: handle_def Let_def as_decided_def split: if_splits option.splits)

lemma as_decided_simps [simp]:
  "rq_server (as_decided rq) = rq_server rq" "rq_command (as_decided rq) = rq_command rq"
  "rq_session (as_decided rq) = rq_session rq" "rq_origin_path (as_decided rq) = rq_origin_path rq"
  "frame_origin_actor (as_decided rq) = frame_origin_actor rq" "rq_preview (as_decided rq) = rq_preview rq"
  "rq_delegation (as_decided rq) = rq_delegation rq"
  by (simp_all add: as_decided_def rq_delegation_def delegated_frame.defs)

lemma open_secret_no_wait: "open_secret env sv rq res auth st \<noteq> (Inl (Waiting s), st')"
  by (auto simp: open_secret_def Let_def split: prod.splits option.splits secret_read.splits)

lemma finish_run_no_wait: "finish_run env follows sv i r st \<noteq> (Waiting s, st')"
  by (auto simp: finish_run_def Let_def split: prod.splits sum.splits option.splits if_splits)

lemma exec_run_no_wait: "exec_run env sv rq idle res f auth st \<noteq> (Waiting s, st')"
  using open_secret_no_wait [of env sv rq res auth st s]
  by (auto simp: exec_run_def finish_run_no_wait split: prod.splits sum.splits transport.splits)

lemma decide_runs:
  assumes "decide env sv rq st = (out, st')" "dialed st' \<noteq> dialed st"
  shows "\<exists>a e st1 idle res auth. exec_record env AtGate sv a st = (Inr e, st1) \<and> arg_decision a = DECISION_ALLOW \<and>
    exec_run env sv rq idle res e auth st1 = (out, st')"
proof -
  obtain ga res where g: "exec_gate env sv rq = (ga, res)" by fastforce
  define a where "a = (record_args env rq DECISION_ALLOW MUTATE_REMOTE (ga_reason ga) res)\<lparr>arg_grant := ga_grant ga\<rparr>"
  from decide_dialed [OF assms(1)] assms(2) g
  have c: "guard env sv = None" "\<not> rq_preview rq" "ga_outcome ga = Allow" by auto
  obtain o1 st1 where rec: "exec_record env AtGate sv a st = (o1, st1)" by fastforce
  note rec' = rec [unfolded a_def]
  have "arg_decision a = DECISION_ALLOW" by (simp add: a_def)
  moreover obtain e idle where "o1 = Inr e" "exec_run env sv rq idle res e (gate_authorization ga res) st1 = (out, st')"
    using assms c g rec' record_dialed [OF rec]
    by (auto simp: decide_def split: option.splits sum.splits)
  ultimately show ?thesis using rec by blast
qed

lemma decide_waiting:
  assumes "decide env sv rq st = (Waiting s, st')"
  shows "\<exists>r idle. guard env sv = None \<and> \<not> rq_preview rq \<and> env_scope env sv = Inr r \<and>
    ga_outcome (fst (exec_gate env sv rq)) = Approve \<and> rq_context rq = CTX_INTERACTIVE \<and>
    suspend env sv rq r idle st = (Waiting s, st')"
proof (cases "exec_gate env sv rq")
  case (Pair ga res)
  from assms Pair obtain r idle where *: "guard env sv = None" "\<not> rq_preview rq" "ga_outcome ga = Approve" "res = Some r"
    "suspend env sv rq r idle st = (Waiting s, st')"
    by (auto simp: decide_def exec_run_no_wait split: option.splits if_splits prod.splits sum.splits)
  with exec_gate_scope [OF Pair] Pair show ?thesis by auto
qed

text \<open>The suspension of a call, and the record of the pending store it stands for.\<close>

lemma waiting_facts:
  assumes "handle env rq st = (Waiting s, st')"
  shows "sus_request s = as_decided rq \<and> env_scope env (sus_server s) = Inr (sus_resolution s) \<and>
    guard env (sus_server s) = None \<and> rq_context (sus_request s) = CTX_INTERACTIVE \<and> sus_session s \<noteq> [] \<and>
    ga_outcome (fst (exec_gate env (sus_server s) (sus_request s))) = Approve \<and>
    feasible_ok (approval_feasible (env_gates env AtSuspend) (case rq_origin_path rq of None \<Rightarrow> [] | Some x \<Rightarrow> x)
       (case frame_origin_actor rq of None \<Rightarrow> [] | Some x \<Rightarrow> x)) \<and>
    render_approval_prompt (env_sha env) (rq_command rq) (sus_resolution s) = Inr (sus_prompt s)"
  using assms
proof (cases rule: handle_cases)
  case (decided sv)
  from decide_waiting [OF this(4)] obtain r idle where *: "guard env sv = None" "env_scope env sv = Inr r"
    "ga_outcome (fst (exec_gate env sv (as_decided rq))) = Approve" "rq_context (as_decided rq) = CTX_INTERACTIVE"
    "suspend env sv (as_decided rq) r idle st = (Waiting s, st')" by blast
  from suspend_waiting [OF this(5)] * show ?thesis by auto
qed auto


text \<open>A deployment to evaluate on: one server, an approver on a second path, a log.\<close>

definition ssm_server :: server where
  "ssm_server = \<lparr>server_id = replicate 32 CHR ''a'', server_name = ''w'', provider_id = ''ssm'', server_config = [],
     secret_ref = None, server_tags = [], created_at = ''t'', updated_at = ''t'', notes_updated_at = None\<rparr>"

definition allowing_gates :: gates_config where
  "allowing_gates = default_gates\<lparr>approvers := [\<lparr>approver_channel = ''webui'', approver_sender = ''bob''\<rparr>],
     interactive := default_interactive\<lparr>mutate_remote :=
     \<lparr>pol_host = ''allow'', pol_group = ''approve'', pol_all = ''deny''\<rparr>\<rparr>\<rparr>"

definition sample_disk :: disk where
  "sample_disk = \<lparr>dsk_current = Some (1, 2), dsk_after = Some (1, 2), dsk_write_ok = True, dsk_unlink_ok = (\<lambda>_. True),
     dsk_ts = 5, dsk_id = ''r1''\<rparr>"

definition sample_env :: "string \<Rightarrow> exec_env" where
  "sample_env scope = \<lparr>env_repr = (\<lambda>_. []), env_sha = (\<lambda>s. s), env_words = (\<lambda>_. ''why''), env_gates = (\<lambda>_. allowing_gates),
     env_now = (\<lambda>_. 0), env_disk = (\<lambda>_. sample_disk),
     env_servers = [(replicate 32 CHR ''a'', Some (to_dict ssm_server))],
     env_scope = (\<lambda>_. Inr \<lparr>res_scope = scope, res_hosts = [''h''], res_pattern = None, res_expander = []\<rparr>),
     env_check = (\<lambda>_. None), env_urlhost = (\<lambda>_. None), env_secret = (\<lambda>_. NoSecret), env_monotonic = (0, 0),
     env_request_id = ''q1'', env_job_id = replicate 32 CHR ''b'', env_job_io = (True, True, True),
     env_job_now = (''t'', ''t'', ''t''), env_default_idle = (\<lambda>_. 60),
     env_transport = (\<lambda>_ _ _. TransportEnded \<lparr>end_exit = Some 0, end_output = ''ok'', end_error = None, end_timed_out = False\<rparr>),
     env_chunks = (\<lambda>_ _ _. []), env_started = 0, env_duration = 3\<rparr>"

definition sample_rq :: execute_request where
  "sample_rq = \<lparr>frame_origin_actor = Some ''u'', frame_acting_agent = None, frame_delegated_by = None,
     frame_inherited = Some [], rq_server = ''w'', rq_command = ''ls'', rq_session = Some ''s'', rq_context = ''interactive'',
     rq_preview = False, rq_timeout = None, rq_nonce = None, rq_origin_path = Some ''chat''\<rparr>"

definition sample_exec :: exec_state where
  "sample_exec = \<lparr>xs_audit = Some (new_audit_store \<lparr>retention_days = 90, record_command_text = False\<rparr> True None []),
     xs_pending = Some new_pending_store, xs_tokens = Some \<lparr>store_ttl = 120, token_records = []\<rparr>, xs_jobs = [], xs_trace = []\<rparr>"

text \<open>The suspended call of a group-wide action, an approval for it and the token it carries.\<close>

definition sample_wait :: "suspension option \<times> exec_state" where
  "sample_wait = (case handle (sample_env ''group'') sample_rq sample_exec of
     (Waiting s, st) \<Rightarrow> (Some s, st) | (_, st) \<Rightarrow> (None, st))"

definition sample_sus :: suspension where "sample_sus = the (fst sample_wait)"

definition sample_tokens :: token_store where
  "sample_tokens = (case issue_token 0 0 ''n''
       \<lparr>req_session = ''s'', req_actor = ''bob'', req_origin_path = ''chat'', req_approval_path = ''webui'',
        req_digest = prompt_digest (sus_prompt sample_sus), req_class = MUTATE_REMOTE, req_scope = ''group'', req_ttl = None\<rparr>
       \<lparr>store_ttl = 120, token_records = []\<rparr> of
     Inr (_, ts) \<Rightarrow> ts | Inl _ \<Rightarrow> \<lparr>store_ttl = 0, token_records = []\<rparr>)"

definition sample_approval :: approval_outcome where
  "sample_approval = \<lparr>out_state = Approved, out_actor = Some ''bob'', out_path = Some ''webui'',
     out_nonce = Some ''n'', out_reason = NoneGiven\<rparr>"

definition sample_resumed :: "exec_result \<times> exec_state" where
  "sample_resumed = resume (sample_env ''group'') sample_sus sample_approval 1 (snd sample_wait\<lparr>xs_tokens := Some sample_tokens\<rparr>)"

lemma sample_waits: "handle (sample_env ''group'') sample_rq sample_exec = (Waiting sample_sus, snd sample_wait)"
proof -
  have "fst sample_wait \<noteq> None" by code_simp
  then show ?thesis
    by (auto simp: sample_sus_def sample_wait_def split: prod.splits exec_result.splits)
qed

lemma sample_dials:
  "dialed (snd (handle (sample_env ''host'') sample_rq sample_exec)) \<noteq> dialed sample_exec"
  "dialed (snd sample_resumed) \<noteq> dialed (snd sample_wait\<lparr>xs_tokens := Some sample_tokens\<rparr>)"
proof -
  have "length (dialed (snd (handle (sample_env ''host'') sample_rq sample_exec))) \<noteq> length (dialed sample_exec)"
    by code_simp
  then show "dialed (snd (handle (sample_env ''host'') sample_rq sample_exec)) \<noteq> dialed sample_exec" by metis
  have "length (dialed (snd sample_resumed)) \<noteq> length (dialed (snd sample_wait))" by code_simp
  then show "dialed (snd sample_resumed) \<noteq> dialed (snd sample_wait\<lparr>xs_tokens := Some sample_tokens\<rparr>)" by auto
qed


section \<open>Properties\<close>

text \<open>C3. Nothing happens that the audit log does not justify. In a call of an executor that has a log,
  every secret is opened after a record that allowed that very decryption, and every host is dialed
  after a record that allowed this command on the host set that is dialed and, when a secret goes along,
  after that secret was opened. A record that cannot be written stops the action.\<close>

theorem submitted_actions_justified:
  assumes "xs_audit st \<noteq> None" "handle env rq st = (out, st')"
  shows "xs_trace st' = xs_trace st @ since st st' \<and> all_justified env (since st st')"
proof -
  from assms(2) have "good env st st'"
    by (cases rule: handle_cases) (auto intro: decide_good [OF assms(1)])
  then show ?thesis by (auto simp: good_def extends_def since_def)
qed

theorem submitted_actions_justified_witness:
  "xs_trace (snd (handle (sample_env ''host'') sample_rq sample_exec)) = xs_trace sample_exec @
     since sample_exec (snd (handle (sample_env ''host'') sample_rq sample_exec)) \<and>
   all_justified (sample_env ''host'') (since sample_exec (snd (handle (sample_env ''host'') sample_rq sample_exec)))"
  by (rule submitted_actions_justified [where rq = sample_rq and out = "fst (handle (sample_env ''host'') sample_rq sample_exec)"])
     (simp_all add: sample_exec_def)

text \<open>C6. The same holds for an action a human answered: what follows its wait is justified by records
  written after the answer, for the host set it was suspended with.\<close>

theorem resumed_actions_justified:
  assumes "handle env rq st0 = (Waiting s, st1)" "xs_audit st \<noteq> None" "resume env s oc now st = (out, st')"
  shows "xs_trace st' = xs_trace st @ since st st' \<and> all_justified env (since st st')"
proof -
  have "good env st st'" using resume_good [OF assms(2) _ assms(3)] waiting_facts [OF assms(1)] by blast
  then show ?thesis by (auto simp: good_def extends_def since_def)
qed

theorem resumed_actions_justified_witness:
  "xs_trace (snd sample_resumed) = xs_trace (snd sample_wait\<lparr>xs_tokens := Some sample_tokens\<rparr>) @
     since (snd sample_wait\<lparr>xs_tokens := Some sample_tokens\<rparr>) (snd sample_resumed) \<and>
   all_justified (sample_env ''group'') (since (snd sample_wait\<lparr>xs_tokens := Some sample_tokens\<rparr>) (snd sample_resumed))"
proof (rule resumed_actions_justified [OF sample_waits, where oc = sample_approval and now = 1 and out = "fst sample_resumed"])
  have "xs_audit (snd sample_wait) = None \<longleftrightarrow> False" by code_simp
  then show "xs_audit (snd sample_wait\<lparr>xs_tokens := Some sample_tokens\<rparr>) \<noteq> None" by simp
qed (simp add: sample_resumed_def)

text \<open>C4. What reaches a host without a human: a call dials at most once, only the command it was sent, only
  a server whose addresses passed the guard, only over a bounded resolved host set, and only when the policy
  allows that command there. A request with a nonce or a preview dials nothing.\<close>

theorem submitted_dial_allowed:
  assumes "handle env rq st = (out, st')" "dialed st' \<noteq> dialed st"
  shows "\<exists>f sv secret r. dialed st' = dialed st @ [Dialed f sv (rq_command rq) secret] \<and>
    given (rq_nonce rq) = None \<and> \<not> rq_preview rq \<and>
    resolve_server (env_repr env) (env_servers env) (rq_server rq) = Some sv \<and> guard env sv = None \<and>
    env_scope env sv = Inr r \<and> res_scope r \<noteq> SCOPE_ALL \<and>
    outcome (evaluate (env_gates env AtGate) (env_now env AtGate) MUTATE_REMOTE (res_scope r)
      (rq_context (as_decided rq)) (res_hosts r) (rq_command rq) (Some (env_inventory env)) (Some (rq_delegation rq))) = Allow"
  using assms(1)
proof (cases rule: handle_cases)
  case turned_away
  with assms(2) show ?thesis by simp
next
  case (decided sv)
  obtain ga res where g: "exec_gate env sv (as_decided rq) = (ga, res)" by fastforce
  from decide_dialed [OF decided(4)] assms(2) g obtain f secret
    where d: "dialed st' = dialed st @ [Dialed f sv (rq_command rq) secret]" "guard env sv = None"
      "\<not> rq_preview rq" "ga_outcome ga = Allow" by auto
  from exec_gate_scope [OF g] d(4) obtain r where "env_scope env sv = Inr r" "res_scope r \<noteq> SCOPE_ALL"
    "outcome (evaluate (env_gates env AtGate) (env_now env AtGate) MUTATE_REMOTE (res_scope r)
      (rq_context (as_decided rq)) (res_hosts r) (rq_command rq) (Some (env_inventory env)) (Some (rq_delegation rq))) = Allow"
    by auto
  with d decided show ?thesis by blast
qed

theorem submitted_dial_allowed_witness:
  "\<exists>f sv secret r. dialed (snd (handle (sample_env ''host'') sample_rq sample_exec)) =
      dialed sample_exec @ [Dialed f sv (rq_command sample_rq) secret] \<and>
    given (rq_nonce sample_rq) = None \<and> \<not> rq_preview sample_rq \<and>
    resolve_server (env_repr (sample_env ''host'')) (env_servers (sample_env ''host'')) (rq_server sample_rq) = Some sv \<and>
    guard (sample_env ''host'') sv = None \<and> env_scope (sample_env ''host'') sv = Inr r \<and> res_scope r \<noteq> SCOPE_ALL \<and>
    outcome (evaluate (env_gates (sample_env ''host'') AtGate) (env_now (sample_env ''host'') AtGate) MUTATE_REMOTE (res_scope r)
      (rq_context (as_decided sample_rq)) (res_hosts r) (rq_command sample_rq) (Some (env_inventory (sample_env ''host'')))
      (Some (rq_delegation sample_rq))) = Allow"
  by (rule submitted_dial_allowed [where out = "fst (handle (sample_env ''host'') sample_rq sample_exec)"])
     (simp_all add: sample_dials)

text \<open>C5. What reaches a host after a wait: at most one connection, for the command that was suspended, and only
  when the wait ended in an approval whose nonce the token store accepts, for the suspended session and
  the digest of the prompt that was rendered.\<close>

theorem resumed_dial_approved:
  assumes "resume env s oc now st = (out, st')" "dialed st' \<noteq> dialed st"
  shows "\<exists>f secret n ts. dialed st' = dialed st @ [Dialed f (sus_server s) (rq_command (sus_request s)) secret] \<and>
    out_state oc = Approved \<and> out_nonce oc = Some n \<and> xs_tokens st = Some ts \<and>
    ver_ok (fst (consume_token now n (sus_session s) (prompt_digest (sus_prompt s)) ts))"
  using resume_dialed [OF assms(1)] assms(2) by blast

theorem resumed_dial_approved_witness:
  "\<exists>f secret n ts. dialed (snd sample_resumed) = dialed (snd sample_wait\<lparr>xs_tokens := Some sample_tokens\<rparr>) @
      [Dialed f (sus_server sample_sus) (rq_command (sus_request sample_sus)) secret] \<and>
    out_state sample_approval = Approved \<and> out_nonce sample_approval = Some n \<and>
    xs_tokens (snd sample_wait\<lparr>xs_tokens := Some sample_tokens\<rparr>) = Some ts \<and>
    ver_ok (fst (consume_token 1 n (sus_session sample_sus) (prompt_digest (sus_prompt sample_sus)) ts))"
  by (rule resumed_dial_approved [where out = "fst sample_resumed" and env = "sample_env ''group''"])
     (simp_all add: sample_resumed_def [symmetric] sample_dials del: dialed_simps)

text \<open>C7. Who is asked to wait: only an action in an attended context, on a guarded server, whose outcome is
  approve, for which some approver could answer, and with a prompt that renders; its digest covers exactly
  the command of the request and the hosts that were resolved.\<close>

theorem waiting_action_answerable:
  assumes "handle env rq st = (Waiting s, st')"
  shows "rq_context (as_decided rq) = CTX_INTERACTIVE \<and> guard env (sus_server s) = None \<and> sus_session s \<noteq> [] \<and>
    feasible_ok (approval_feasible (env_gates env AtSuspend) (case rq_origin_path rq of None \<Rightarrow> [] | Some x \<Rightarrow> x)
       (case frame_origin_actor rq of None \<Rightarrow> [] | Some x \<Rightarrow> x)) \<and>
    (\<exists>r. env_scope env (sus_server s) = Inr r \<and>
      render_approval_prompt (env_sha env) (rq_command rq) r = Inr (sus_prompt s))"
  using waiting_facts [OF assms] by auto

theorem waiting_action_answerable_witness:
  "rq_context (as_decided sample_rq) = CTX_INTERACTIVE \<and> guard (sample_env ''group'') (sus_server sample_sus) = None \<and>
    sus_session sample_sus \<noteq> [] \<and>
    feasible_ok (approval_feasible (env_gates (sample_env ''group'') AtSuspend)
       (case rq_origin_path sample_rq of None \<Rightarrow> [] | Some x \<Rightarrow> x) (case frame_origin_actor sample_rq of None \<Rightarrow> [] | Some x \<Rightarrow> x)) \<and>
    (\<exists>r. env_scope (sample_env ''group'') (sus_server sample_sus) = Inr r \<and>
      render_approval_prompt (env_sha (sample_env ''group'')) (rq_command sample_rq) r = Inr (sus_prompt sample_sus))"
  by (rule waiting_action_answerable [OF sample_waits])

text \<open>What a run appends to the trace stays in front of what it appends later.\<close>

definition begins :: "exec_state \<Rightarrow> exec_event \<Rightarrow> exec_state \<Rightarrow> bool" where
  "begins st ev st' \<longleftrightarrow> (\<exists>rest. xs_trace st' = xs_trace st @ ev # rest)"

lemma begins_simps [simp]:
  "begins st ev (st'\<lparr>xs_audit := a\<rparr>) = begins st ev st'" "begins st ev (st'\<lparr>xs_pending := p\<rparr>) = begins st ev st'"
  "begins st ev (st'\<lparr>xs_tokens := t\<rparr>) = begins st ev st'" "begins st ev (st'\<lparr>xs_jobs := j\<rparr>) = begins st ev st'"
  by (simp_all add: begins_def)

lemma begins_happens: "begins st ev st' \<Longrightarrow> begins st ev (happens ev' st')"
  by (auto simp: begins_def happens_def)

lemma begins_record: "begins st ev st1 \<Longrightarrow> exec_record env stage sv a st1 = (r, st2) \<Longrightarrow> begins st ev st2"
  by (erule record_cases) (auto intro: begins_happens)

lemma begins_outcome: "begins st ev st1 \<Longrightarrow> begins st ev (record_outcome env follows code why st1)"
  by (auto simp: record_outcome_def Let_def split: option.splits sum.splits intro: begins_happens)

lemma begins_open: "begins st ev st1 \<Longrightarrow> open_secret env sv rq res auth st1 = (r, st2) \<Longrightarrow> begins st ev st2"
  by (auto simp: open_secret_def credential_gate_def Let_def dest!: begins_record [rotated] intro: begins_happens
      split: option.splits prod.splits sum.splits secret_read.splits if_splits)

lemma begins_finish: "begins st ev st1 \<Longrightarrow> finish_run env follows sv i r st1 = (out, st2) \<Longrightarrow> begins st ev st2"
  by (auto simp: finish_run_def Let_def split: prod.splits sum.splits option.splits if_splits intro: begins_outcome)

lemma begins_run: "begins st ev st1 \<Longrightarrow> exec_run env sv rq idle res follows auth st1 = (out, st2) \<Longrightarrow> begins st ev st2"
  by (auto simp: exec_run_def run_transport_def Let_def dest!: begins_open [rotated] begins_finish [rotated]
      intro!: begins_happens begins_outcome split: prod.splits sum.splits transport.splits)

lemma record_begins:
  assumes "exec_record env stage sv a st = (r, st')" "xs_audit st \<noteq> None"
  shows "(r = Inl (exec_error (Unrecorded (server_name sv))) \<and> xs_trace st' = xs_trace st) \<or> (\<exists>e. r = Inr (Some e) \<and> begins st (Recorded e) st' \<and>
    ent_decision e = arg_decision a \<and> ent_class e = arg_class a \<and> ent_scope e = arg_scope a \<and> ent_hosts e = arg_hosts a \<and>
    ent_grant e = arg_grant a \<and> (\<forall>c. arg_command a = Some c \<longrightarrow> ent_digest e = Some (command_digest (env_sha env) c)))"
  using assms(1)
proof (cases rule: record_cases)
  case (landed store store' e)
  then show ?thesis by (auto simp: begins_def happens_def make_entry_def)
qed (use assms(2) in auto)


text \<open>What a run that the gate allows answers, and when it dials, by the decision about its secret.\<close>

definition secret_decision :: "exec_env \<Rightarrow> execute_request \<Rightarrow> action_authorization \<Rightarrow> decision" where
  "secret_decision env rq auth =
     evaluate_credential_access (env_gates env AtCredential) (rq_context rq) (Some auth) (Some (rq_delegation rq))"

lemma credential_answer:
  assumes "credential_gate env sv ref rq res auth st = (out, st')"
  shows "case out of None \<Rightarrow> outcome (secret_decision env rq auth) = Allow
    | Some a \<Rightarrow> \<not> rsp_ok a \<and> (rsp_reason a = Unsaid \<or>
        (outcome (secret_decision env rq auth) \<noteq> Allow \<and> rsp_reason a = ForSecret (reason (secret_decision env rq auth)) ref))"
  using assms
  by (auto simp: credential_gate_def secret_decision_def Let_def withheld_def response_def exec_error_def
      dest!: record_cases [rotated] split: prod.splits sum.splits if_splits elim!: record_cases)


lemma finish_told:
  "finish_run env follows sv i r st = (out, st') \<Longrightarrow> dialed st' = dialed st \<and> (\<forall>a. out = Answered a \<longrightarrow> rsp_reason a = Unsaid)"
  by (auto simp: finish_run_def response_def Let_def split: prod.splits sum.splits option.splits if_splits)

lemma open_secret_told:
  assumes "open_secret env sv rq res auth st = (r, st')"
  shows "case r of
      Inl out \<Rightarrow> \<forall>a. out = Answered a \<longrightarrow> rsp_reason a = Unsaid \<or>
        (\<not> rsp_ok a \<and> outcome (secret_decision env rq auth) \<noteq> Allow \<and> (\<exists>ref. rsp_reason a = ForSecret (reason (secret_decision env rq auth)) ref))
    | Inr v \<Rightarrow> v \<noteq> None \<longrightarrow> outcome (secret_decision env rq auth) = Allow"
proof (cases "given (secret_ref sv)")
  case None
  with assms show ?thesis by (auto simp: open_secret_def)
next
  case (Some ref)
  obtain o1 st1 where c: "credential_gate env sv ref rq res auth st = (o1, st1)" by fastforce
  from credential_answer [OF c] assms c Some show ?thesis
    by (auto simp: open_secret_def exec_error_def response_def Let_def split: option.splits secret_read.splits)
qed

lemma dialed_in: "Dialed f sv c v \<in> set (xs_trace st) \<longleftrightarrow> Dialed f sv c v \<in> set (dialed st)"
  by (auto simp: dialed_def)

lemma run_told:
  assumes "exec_run env sv rq idle res follows auth st = (out, st')"
  shows "(\<forall>a. out = Answered a \<longrightarrow> rsp_reason a = Unsaid \<or>
      (\<not> rsp_ok a \<and> outcome (secret_decision env rq auth) \<noteq> Allow \<and> (\<exists>ref. rsp_reason a = ForSecret (reason (secret_decision env rq auth)) ref))) \<and>
    (dialed st' = dialed st \<or> (\<exists>v. dialed st' = dialed st @ [Dialed follows sv (rq_command rq) v] \<and>
       (v \<noteq> None \<longrightarrow> outcome (secret_decision env rq auth) = Allow)))"
proof -
  obtain r st1 where o: "open_secret env sv rq res auth st = (r, st1)" by fastforce
  note told = open_secret_told [OF o]
  have d: "dialed st1 = dialed st" by (rule open_secret_dialed [OF o])
  show ?thesis
  proof (cases r)
    case (Inl x)
    with assms o told d show ?thesis by (simp add: exec_run_def)
  next
    case (Inr v)
    with assms o told d show ?thesis
      by (auto simp: exec_run_def run_transport_def Let_def dest!: finish_told
          split: prod.splits sum.splits transport.splits)
  qed
qed

definition told_as :: "exec_env \<Rightarrow> execute_request \<Rightarrow> scope_resolution option \<Rightarrow> audit_entry \<Rightarrow> bool" where
  "told_as env rq res e \<longleftrightarrow> ent_class e = MUTATE_REMOTE \<and> ent_scope e = map_option res_scope res \<and>
     ent_hosts e = (case res of None \<Rightarrow> [] | Some r \<Rightarrow> res_hosts r) \<and> ent_digest e = Some (command_digest (env_sha env) (rq_command rq))"

lemma record_told:
  assumes "exec_record env stage sv a st = (r, st')" "xs_audit st \<noteq> None"
    and "arg_class a = MUTATE_REMOTE" "arg_command a = Some (rq_command rq)"
    and "arg_scope a = map_option res_scope res" "arg_hosts a = (case res of None \<Rightarrow> [] | Some r \<Rightarrow> res_hosts r)"
  shows "(r = Inl (exec_error (Unrecorded (server_name sv))) \<and> xs_trace st' = xs_trace st) \<or> (\<exists>e. r = Inr (Some e) \<and> begins st (Recorded e) st' \<and>
    ent_decision e = arg_decision a \<and> ent_grant e = arg_grant a \<and> told_as env rq res e)"
  using record_begins [OF assms(1,2)] assms(3-) by (auto simp: told_as_def)

lemma refuse_told:
  assumes "refuse_action env stage sv rq a why terminal st = (out, st')" "xs_audit st \<noteq> None" "arg_decision a = DECISION_DENIED"
    and "arg_class a = MUTATE_REMOTE" "arg_command a = Some (rq_command rq)"
    and "arg_scope a = map_option res_scope res" "arg_hosts a = (case res of None \<Rightarrow> [] | Some r \<Rightarrow> res_hosts r)"
  shows "(out = Answered (exec_error (Unrecorded (server_name sv))) \<and> xs_trace st' = xs_trace st) \<or>
    (\<exists>a' e. out = Answered a' \<and> begins st (Recorded e) st' \<and> ent_decision e = DECISION_DENIED \<and> told_as env rq res e)"
proof -
  obtain r st1 where r: "exec_record env stage sv a st = (r, st1)" by fastforce
  from record_told [OF r assms(2,4-7)] assms(1,3) r show ?thesis by (auto simp: refuse_action_def)
qed

lemma refuse_not_ok: "refuse_action env stage sv rq a why terminal st = (Answered a', st') \<Longrightarrow> \<not> rsp_ok a'"
  by (auto simp: refuse_action_def withheld_def response_def exec_error_def split: prod.splits sum.splits elim: record_cases)

lemma suspend_not_ok: "suspend env sv rq r idle st = (Answered a, st') \<Longrightarrow> \<not> rsp_ok a"
  by (auto simp: suspend_def Let_def exec_error_def response_def split: if_splits sum.splits prod.splits
      dest: refuse_not_ok elim: record_cases)

lemma suspend_told:
  assumes "suspend env sv rq r idle st = (out, st')" "xs_audit st \<noteq> None"
  shows "(out = Answered (exec_error (Unrecorded (server_name sv))) \<and> xs_trace st' = xs_trace st) \<or>
    (\<exists>e. begins st (Recorded e) st' \<and> ent_decision e \<in> {DECISION_APPROVE, DECISION_DENIED} \<and> told_as env rq (Some r) e \<and>
       (\<forall>s. out = Waiting s \<longrightarrow> ent_decision e = DECISION_APPROVE))"
proof -
  let ?a = "(record_args env rq DECISION_APPROVE MUTATE_REMOTE (WaitsFor (rq_origin_path rq) (approval_timeout_s (env_gates env AtSuspend))) (Some r))
      \<lparr>arg_origin_path := rq_origin_path rq\<rparr>"
  have refused: ?thesis if "refuse_action env stage sv rq (record_args env rq DECISION_DENIED MUTATE_REMOTE why (Some r)) why t st = (out, st')"
    for stage why t
    using refuse_told [OF that assms(2), of "Some r"] by auto
  have recorded: "(rs = Inl (exec_error (Unrecorded (server_name sv))) \<and> xs_trace st1 = xs_trace st) \<or>
      (\<exists>e. rs = Inr (Some e) \<and> begins st (Recorded e) st1 \<and> ent_decision e = DECISION_APPROVE \<and> told_as env rq (Some r) e)"
    if "exec_record env AtSuspend sv ?a st = (rs, st1)" for rs st1
    using record_told [OF that assms(2), of rq "Some r"] by auto
  obtain rs st1 where rec: "exec_record env AtSuspend sv ?a st = (rs, st1)" by fastforce
  show ?thesis
    using assms(1) recorded [OF rec]
    by (auto simp: suspend_def rec Let_def split: if_splits sum.splits prod.splits dest!: refused)
qed


text \<open>The record of a run against the fields of the preview of it.\<close>

definition record_of_preview :: "exec_env \<Rightarrow> exec_response \<Rightarrow> outcome \<Rightarrow> audit_entry \<Rightarrow> bool" where
  "record_of_preview env rsp oc e \<longleftrightarrow> ent_class e = MUTATE_REMOTE \<and>
     ent_decision e \<in> (case oc of Allow \<Rightarrow> {DECISION_ALLOW} | Deny \<Rightarrow> {DECISION_DENIED} | Approve \<Rightarrow> {DECISION_APPROVE, DECISION_DENIED}) \<and>
     (oc \<noteq> Approve \<longrightarrow> ent_grant e = rsp_preview_grant rsp) \<and> ent_scope e = rsp_preview_scope rsp \<and> ent_hosts e = rsp_preview_hosts rsp \<and>
     ent_digest e = Some (command_digest (env_sha env) (rsp_preview_command rsp))"

lemma decide_told:
  assumes "guard env sv = None" "\<not> rq_preview rq" "decide env sv rq st = (out, st')" "exec_gate env sv rq = (ga, res)"
    and "(case given (rq_timeout rq) of None \<Rightarrow> Some None | Some t \<Rightarrow> map_option Some (py_int t)) = Some idle"
  shows "(xs_audit st \<noteq> None \<longrightarrow> (out = Answered (exec_error (Unrecorded (server_name sv))) \<and> xs_trace st' = xs_trace st) \<or>
      (\<exists>e. begins st (Recorded e) st' \<and> told_as env rq res e \<and> (ga_outcome ga \<noteq> Approve \<longrightarrow> ent_grant e = ga_grant ga) \<and>
         ent_decision e \<in> (case ga_outcome ga of Allow \<Rightarrow> {DECISION_ALLOW} | Deny \<Rightarrow> {DECISION_DENIED} | Approve \<Rightarrow> {DECISION_APPROVE, DECISION_DENIED}))) \<and>
    (case ga_outcome ga of
       Deny \<Rightarrow> dialed st' = dialed st \<and> (\<exists>a. out = Answered a \<and> \<not> rsp_ok a \<and> (rsp_reason a = ga_reason ga \<or> a = exec_error (Unrecorded (server_name sv))))
     | Approve \<Rightarrow> dialed st' = dialed st \<and> (\<forall>a. out = Answered a \<longrightarrow> \<not> rsp_ok a)
     | Allow \<Rightarrow> (\<nexists>s. out = Waiting s) \<and>
         (\<forall>a. out = Answered a \<longrightarrow> rsp_reason a = Unsaid \<or> (\<not> rsp_ok a \<and> outcome (secret_decision env rq (gate_authorization ga res)) \<noteq> Allow \<and>
            (\<exists>ref. rsp_reason a = ForSecret (reason (secret_decision env rq (gate_authorization ga res))) ref))) \<and>
         (dialed st' = dialed st \<or> (\<exists>f v. dialed st' = dialed st @ [Dialed f sv (rq_command rq) v] \<and>
            (v \<noteq> None \<longrightarrow> outcome (secret_decision env rq (gate_authorization ga res)) = Allow))))"
proof (cases "ga_outcome ga = Approve")
  case True
  then obtain r where r: "res = Some r" using exec_gate_scope [OF assms(4)] by auto
  have "suspend env sv rq r idle st = (out, st')" using assms True r by (simp add: decide_def)
  from suspend_told [OF this] suspend_dialed [OF this] suspend_not_ok [of env sv rq r idle st _ st'] this True r show ?thesis by auto
next
  case False
  define a where "a = (record_args env rq (if ga_outcome ga = Allow then DECISION_ALLOW else DECISION_DENIED) MUTATE_REMOTE (ga_reason ga) res)
     \<lparr>arg_grant := ga_grant ga\<rparr>"
  obtain rs st1 where rec: "exec_record env AtGate sv a st = (rs, st1)" by fastforce
  have d: "(out, st') = (case rs of Inl rsp \<Rightarrow> (Answered rsp, st1) | Inr e \<Rightarrow>
      (if ga_outcome ga \<noteq> Allow then (Answered (withheld env sv rq (ga_reason ga) True), st1)
       else exec_run env sv rq idle res e (gate_authorization ga res) st1))"
    using assms False rec by (simp add: decide_def a_def split: sum.split)
  have told: "xs_audit st \<noteq> None \<longrightarrow> (rs = Inl (exec_error (Unrecorded (server_name sv))) \<and> xs_trace st1 = xs_trace st) \<or>
      (\<exists>e. rs = Inr (Some e) \<and> begins st (Recorded e) st1 \<and> ent_decision e = arg_decision a \<and> ent_grant e = ga_grant ga \<and> told_as env rq res e)"
    using record_told [OF rec, of rq res] by (simp add: a_def)
  have fault: "rs = Inl x \<Longrightarrow> x = exec_error (Unrecorded (server_name sv))" for x using rec by (auto elim: record_cases)
  have dial: "dialed st1 = dialed st" by (rule record_dialed [OF rec])
  show ?thesis
  proof (cases rs)
    case (Inl x)
    with d fault dial told have "out = Answered (exec_error (Unrecorded (server_name sv)))" "st' = st1" "dialed st' = dialed st"
      "xs_audit st \<noteq> None \<longrightarrow> xs_trace st1 = xs_trace st" by auto
    then show ?thesis using False by (cases "ga_outcome ga") (simp_all add: exec_error_def response_def)
  next
    case (Inr e)
    show ?thesis
    proof (cases "ga_outcome ga = Allow")
      case True
      have run: "exec_run env sv rq idle res e (gate_authorization ga res) st1 = (out, st')" using d Inr True by simp
      have "\<nexists>s. out = Waiting s" using run exec_run_no_wait by blast
      moreover note run_told [OF run] begins_run [OF _ run]
      ultimately show ?thesis using told Inr True dial by (auto simp: a_def)
    next
      case no: False
      then have deny: "ga_outcome ga = Deny" using False by (cases "ga_outcome ga") auto
      have "out = Answered (withheld env sv rq (ga_reason ga) True)" "st' = st1" using d Inr no by simp_all
      then show ?thesis using told Inr deny dial by (auto simp: a_def withheld_def response_def)
    qed
  qed
qed


lemma as_decided_preview [simp]: "as_decided (rq\<lparr>rq_preview := b\<rparr>) = (as_decided rq)\<lparr>rq_preview := b\<rparr>"
  by (simp add: as_decided_def rq_delegation_def delegated_frame.defs)

lemma gate_preview [simp]: "exec_gate env sv (r\<lparr>rq_preview := b\<rparr>) = exec_gate env sv r"
  by (simp add: exec_gate_def rq_delegation_def delegated_frame.defs split: sum.split)

lemma secret_preview [simp]: "secret_decision env (r\<lparr>rq_preview := b\<rparr>) auth = secret_decision env r auth"
  by (simp add: secret_decision_def rq_delegation_def delegated_frame.defs)

lemma told_preview [simp]: "told_as env (r\<lparr>rq_preview := b\<rparr>) res e = told_as env r res e"
  by (simp add: told_as_def)

lemma preview_decided:
  assumes "handle env (rq\<lparr>rq_preview := True\<rparr>) st = (Answered rsp, st1)" "rsp_preview_outcome rsp = Some oc"
  obtains sv idle ga res where "st1 = st" "guard env sv = None" "exec_gate env sv (as_decided rq) = (ga, res)"
    "(case given (rq_timeout (as_decided rq)) of None \<Rightarrow> Some None | Some t \<Rightarrow> map_option Some (py_int t)) = Some idle"
    "handle env (rq\<lparr>rq_preview := False\<rparr>) st = decide env sv ((as_decided rq)\<lparr>rq_preview := False\<rparr>) st"
    "oc = ga_outcome ga" "rsp_preview_reason rsp = ga_reason ga" "rsp_preview_grant rsp = ga_grant ga"
    "rsp_preview_scope rsp = map_option res_scope res" "rsp_preview_hosts rsp = (case res of None \<Rightarrow> [] | Some r \<Rightarrow> res_hosts r)"
    "rsp_preview_command rsp = rq_command rq" "rsp_preview_credential rsp = Some (secret_decision env (as_decided rq) (gate_authorization ga res))"
  using assms(1)
proof (cases rule: handle_cases)
  case (turned_away e)
  with assms(2) show ?thesis by (simp add: exec_error_def response_def)
next
  case (decided sv)
  let ?rq = "(as_decided rq)\<lparr>rq_preview := True\<rparr>"
  obtain ga res where g: "exec_gate env sv (as_decided rq) = (ga, res)" by fastforce
  have d: "decide env sv ?rq st = (Answered rsp, st1)" using decided(4) by simp
  have x: "guard env sv = None" "st1 = st" "rsp = preview env sv ?rq"
    "(case given (rq_timeout ?rq) of None \<Rightarrow> Some None | Some t \<Rightarrow> map_option Some (py_int t)) \<noteq> None"
    using d assms(2) by (auto simp: decide_def exec_error_def response_def split: option.splits)
  then obtain idle where i: "(case given (rq_timeout (as_decided rq)) of None \<Rightarrow> Some None | Some t \<Rightarrow> map_option Some (py_int t)) = Some idle"
    by auto
  have h: "handle env (rq\<lparr>rq_preview := False\<rparr>) st = decide env sv ((as_decided rq)\<lparr>rq_preview := False\<rparr>) st"
    using decided(1-3) by (simp add: handle_def Let_def)
  have g': "exec_gate env sv ?rq = (ga, res)" using g by simp
  show thesis
    by (rule that [OF x(2,1) g i h])
      (use x(3) assms(2) g' in \<open>simp_all add: preview_def response_def secret_decision_def rq_delegation_def delegated_frame.defs Let_def\<close>)
qed


definition preview_response :: exec_response where
  "preview_response = (case handle (sample_env ''host'') (sample_rq\<lparr>rq_preview := True\<rparr>) sample_exec of
     (Answered rsp, _) \<Rightarrow> rsp | _ \<Rightarrow> exec_error NonceOnWire)"


text \<open>Where the record of a run is lost: when the job file cannot be written after the transport
  answered, the call ends in an exception and the audit log has no completion record for a command
  that reached its host.\<close>

theorem unwritten_job_loses_completion:
  assumes "handle env rq st = (out, st')" "dialed st' \<noteq> dialed st" "\<not> snd (snd (env_job_io env))"
    and "\<And>sv c s. env_transport env sv c s \<noteq> TransportRaised"
  shows "completed st' = completed st \<and> (\<exists>e. out = Raised (Python e))"
  using assms(1)
proof (cases rule: handle_cases)
  case turned_away
  with assms(2) show ?thesis by simp
next
  case (decided sv)
  from decide_runs [OF this(4) assms(2)] obtain a e st1 idle res auth where
    r: "exec_record env AtGate sv a st = (Inr e, st1)" "arg_decision a = DECISION_ALLOW"
    "exec_run env sv (as_decided rq) idle res e auth st1 = (out, st')" by blast
  have "dialed st1 = dialed st" "completed st1 = completed st"
    using record_dialed [OF r(1)] record_completed [OF r(1)] r(2) by simp_all
  with exec_run_unwritten [OF r(3) _ assms(3,4)] assms(2) show ?thesis by simp
qed

definition unwritable_env :: exec_env where
  "unwritable_env = (sample_env ''host'')\<lparr>env_job_io := (True, True, False)\<rparr>"

theorem unwritten_job_loses_completion_witness:
  "completed (snd (handle unwritable_env sample_rq sample_exec)) = completed sample_exec \<and>
   (\<exists>e. fst (handle unwritable_env sample_rq sample_exec) = Raised (Python e))"
proof (rule unwritten_job_loses_completion [where rq = sample_rq])
  have "length (dialed (snd (handle unwritable_env sample_rq sample_exec))) \<noteq> length (dialed sample_exec)"
    by code_simp
  then show "dialed (snd (handle unwritable_env sample_rq sample_exec)) \<noteq> dialed sample_exec" by metis
next
  show "\<not> snd (snd (env_job_io unwritable_env))" by code_simp
  show "env_transport unwritable_env sv c s \<noteq> TransportRaised" for sv c s
    by (simp add: unwritable_env_def sample_env_def)
qed (rule surjective_pairing)

end
