(* ===== verification/System.thy ===== *)
theory System
  imports ActionTrace Operator
begin

text \<open>
  The executor process as a whole: connections that submit actions, the operator socket that answers them
  and the waits in between, as a step relation over the stores they share. One step is one critical section:
  a call up to its wait, one lock of a store, one turn of a wait, or what follows a wait. The order of
  steps is arbitrary. History components record what the stores do not keep: every suspension, every
  answer that minted a token, and every connection a resumed action made. Records of refused answers are
  not written here; they touch neither store.
\<close>

section \<open>The system\<close>

record operator_answer =
  oa_id :: string
  oa_gates :: gates_config
  oa_approval :: pending_approval
  oa_actor :: string
  oa_path :: string
  oa_nonce :: string

record sys_state =
  sys_exec :: exec_state
  sys_waiting :: "string list"
  sys_woken :: "(string \<times> approval_outcome) list"
  sys_inflight :: "operator_answer list"
  sys_created :: "(string \<times> exec_env \<times> suspension) list"
  sys_minted :: "operator_answer list"
  sys_ran :: "(string \<times> approval_outcome \<times> exec_event) list"

definition set_pending :: "pending_store \<Rightarrow> sys_state \<Rightarrow> sys_state" where
  "set_pending ps s = s\<lparr>sys_exec := (sys_exec s)\<lparr>xs_pending := Some ps\<rparr>\<rparr>"

text \<open>The connections one call made.\<close>

definition new_dials :: "exec_state \<Rightarrow> exec_state \<Rightarrow> exec_event list" where
  "new_dials st st' = drop (length (dialed st)) (dialed st')"

inductive sys_step :: "sys_state \<Rightarrow> sys_state \<Rightarrow> bool" where
  answers: "sys_step s (s\<lparr>sys_exec := st'\<rparr>)"
    if "handle env rq (sys_exec s) = (out, st')" "\<nexists>w. out = Waiting w"
| suspends: "sys_step s (s\<lparr>sys_exec := st', sys_created := (sus_id w, env, w) # sys_created s,
      sys_waiting := sus_id w # sys_waiting s\<rparr>)"
    if "handle env rq (sys_exec s) = (Waiting w, st')" "env_request_id env \<notin> fst ` set (sys_created s)"
| enters: "sys_step s (set_pending ps' s)"
    if "xs_pending (sys_exec s) = Some ps" "i \<in> set (sys_waiting s)" "wait_enter i ps = Inr ps'"
| mints: "sys_step s (s\<lparr>sys_exec := (sys_exec s)\<lparr>xs_tokens := Some ts'\<rparr>, sys_inflight := oa # sys_inflight s,
      sys_minted := oa # sys_minted s\<rparr>)"
    if "xs_pending (sys_exec s) = Some ps" "xs_tokens (sys_exec s) = Some ts" "get_pending i ps = Some a"
      "approve_begin sha words g now now' fresh i actor path dig ps ts = Inr (Inr (t, ts'))"
      "oa = \<lparr>oa_id = i, oa_gates = g, oa_approval = a, oa_actor = actor, oa_path = path, oa_nonce = tok_nonce t\<rparr>"
| lands: "sys_step s ((set_pending ps' s)\<lparr>sys_inflight := remove1 oa (sys_inflight s)\<rparr>)"
    if "xs_pending (sys_exec s) = Some ps" "oa \<in> set (sys_inflight s)"
      "approve_finish now (oa_id oa) (oa_actor oa) (oa_path oa) (oa_nonce oa) (pr_digest (oa_approval oa)) ps = (res, ps')"
| denies: "sys_step s (set_pending ps' s)"
    if "xs_pending (sys_exec s) = Some ps" "deny_service sha words g now i actor path why ps = (res, refusal, ps')"
| sleeps: "sys_step s (set_pending ps' s)"
    if "xs_pending (sys_exec s) = Some ps" "i \<in> set (sys_waiting s)" "wait_poll now i ps = Inr (None, ps')"
| wakes: "sys_step s ((set_pending ps' s)\<lparr>sys_waiting := remove1 i (sys_waiting s), sys_woken := (i, oc) # sys_woken s\<rparr>)"
    if "xs_pending (sys_exec s) = Some ps" "i \<in> set (sys_waiting s)" "wait_poll now i ps = Inr (Some oc, ps')"
| loses: "sys_step s (s\<lparr>sys_waiting := remove1 i (sys_waiting s)\<rparr>)"
    if "xs_pending (sys_exec s) = Some ps" "i \<in> set (sys_waiting s)" "wait_poll now i ps = Inl e"
| resumes: "sys_step s (s\<lparr>sys_exec := st', sys_woken := remove1 (i, oc) (sys_woken s),
      sys_ran := map (\<lambda>ev. (i, oc, ev)) (new_dials (sys_exec s) st') @ sys_ran s\<rparr>)"
    if "(i, oc) \<in> set (sys_woken s)" "(i, env, w) \<in> set (sys_created s)" "resume env w oc now (sys_exec s) = (out, st')"

definition sys_start :: "sys_state \<Rightarrow> bool" where
  "sys_start s \<longleftrightarrow> xs_pending (sys_exec s) \<in> {None, Some new_pending_store} \<and> sys_waiting s = [] \<and> sys_woken s = [] \<and>
     sys_inflight s = [] \<and> sys_created s = [] \<and> sys_minted s = [] \<and> sys_ran s = []"


section \<open>The invariant\<close>

text \<open>What a pending approval says of the suspension it stands for.\<close>

definition stands_for :: "pending_approval \<Rightarrow> suspension \<Rightarrow> bool" where
  "stands_for a w \<longleftrightarrow> pr_session a = sus_session w \<and> pr_digest a = prompt_digest (sus_prompt w) \<and>
     pr_command a = rq_command (sus_request w) \<and> pr_hosts a = prompt_hosts (sus_prompt w) \<and>
     pr_origin_path a = strip (case rq_origin_path (sus_request w) of None \<Rightarrow> [] | Some p \<Rightarrow> p) \<and>
     pr_origin_actor a = strip (case frame_origin_actor (sus_request w) of None \<Rightarrow> [] | Some p \<Rightarrow> p)"

definition created_for :: "sys_state \<Rightarrow> string \<Rightarrow> pending_approval \<Rightarrow> bool" where
  "created_for s i a \<longleftrightarrow> (\<exists>env w. (i, env, w) \<in> set (sys_created s) \<and> stands_for a w)"

text \<open>An answer an approver gave and the service accepted.\<close>

definition valid_answer :: "sys_state \<Rightarrow> operator_answer \<Rightarrow> bool" where
  "valid_answer s oa \<longleftrightarrow> created_for s (oa_id oa) (oa_approval oa) \<and>
     check_ok (service_check (oa_gates oa) (oa_approval oa) (oa_path oa) (oa_actor oa))"

definition answered_by :: "sys_state \<Rightarrow> string \<Rightarrow> approval_outcome \<Rightarrow> bool" where
  "answered_by s i oc \<longleftrightarrow> (out_state oc = Approved \<longrightarrow>
     (\<exists>oa \<in> set (sys_minted s). oa_id oa = i \<and> out_nonce oc = Some (oa_nonce oa) \<and>
        out_actor oc = Some (oa_actor oa) \<and> out_path oc = Some (oa_path oa)))"

definition ran_ok :: "sys_state \<Rightarrow> string \<times> approval_outcome \<times> exec_event \<Rightarrow> bool" where
  "ran_ok s x = (case x of (i, oc, ev) \<Rightarrow> out_state oc = Approved \<and> answered_by s i oc \<and>
     (\<exists>env w f secret. (i, env, w) \<in> set (sys_created s) \<and>
        ev = Dialed f (sus_server w) (rq_command (sus_request w)) secret))"

definition created_ok :: "sys_state \<Rightarrow> bool" where
  "created_ok s \<longleftrightarrow> distinct (map fst (sys_created s)) \<and>
     (\<forall>(i, env, w) \<in> set (sys_created s). \<exists>rq st st'. handle env rq st = (Waiting w, st'))"

definition records_ok :: "sys_state \<Rightarrow> bool" where
  "records_ok s \<longleftrightarrow> (\<forall>ps. xs_pending (sys_exec s) = Some ps \<longrightarrow> dict_ok (pend_records ps) \<and>
     (\<forall>i r. dict_get (pend_records ps) i = Some r \<longrightarrow>
        created_for s i (pend_approval r) \<and> answered_by s i (pend_outcome r)))"

definition answers_ok :: "sys_state \<Rightarrow> bool" where
  "answers_ok s \<longleftrightarrow> set (sys_inflight s) \<subseteq> set (sys_minted s) \<and> (\<forall>oa \<in> set (sys_minted s). valid_answer s oa)"

text \<open>The ids of the actions under way, each once.\<close>

definition under_way :: "sys_state \<Rightarrow> string list" where
  "under_way s = sys_waiting s @ map fst (sys_woken s) @ map fst (sys_ran s)"

definition flow_ok :: "sys_state \<Rightarrow> bool" where
  "flow_ok s \<longleftrightarrow> (\<forall>(i, oc) \<in> set (sys_woken s). answered_by s i oc) \<and> (\<forall>x \<in> set (sys_ran s). ran_ok s x) \<and>
     distinct (under_way s) \<and> set (under_way s) \<subseteq> fst ` set (sys_created s)"

definition sys_ok :: "sys_state \<Rightarrow> bool" where
  "sys_ok s \<longleftrightarrow> created_ok s \<and> records_ok s \<and> answers_ok s \<and> flow_ok s"

lemma sys_ok_record:
  "sys_ok s \<Longrightarrow> xs_pending (sys_exec s) = Some ps \<Longrightarrow> dict_get (pend_records ps) i = Some r \<Longrightarrow>
   created_for s i (pend_approval r) \<and> answered_by s i (pend_outcome r)"
  by (simp add: sys_ok_def records_ok_def)


section \<open>What a call leaves alone\<close>

lemma happens_stores [simp]:
  "xs_pending (happens ev st) = xs_pending st" "xs_tokens (happens ev st) = xs_tokens st"
  by (simp_all add: happens_def)

lemma record_stores: "exec_record env stage sv a st = (r, st') \<Longrightarrow> xs_pending st' = xs_pending st \<and> xs_tokens st' = xs_tokens st"
  by (erule record_cases) simp_all

lemma outcome_stores [simp]: "xs_pending (record_outcome env follows code why st) = xs_pending st"
  by (auto simp: record_outcome_def Let_def split: option.splits sum.splits)

lemma refuse_stores: "refuse_action env stage sv rq a why terminal st = (r, st') \<Longrightarrow> xs_pending st' = xs_pending st"
  by (auto simp: refuse_action_def split: prod.splits sum.splits dest: record_stores)

lemma open_secret_stores: "open_secret env sv rq res auth st = (r, st') \<Longrightarrow> xs_pending st' = xs_pending st"
  by (auto simp: open_secret_def credential_gate_def Let_def dest!: record_stores
      split: option.splits prod.splits sum.splits secret_read.splits if_splits)

lemma finish_run_stores: "finish_run env follows sv i r st = (out, st') \<Longrightarrow> xs_pending st' = xs_pending st"
  by (auto simp: finish_run_def Let_def split: prod.splits sum.splits option.splits if_splits)

lemma exec_run_stores: "exec_run env sv rq idle res follows auth st = (out, st') \<Longrightarrow> xs_pending st' = xs_pending st"
  by (auto simp: exec_run_def run_transport_def Let_def dest!: open_secret_stores finish_run_stores
      split: prod.splits sum.splits transport.splits)

lemma resume_stores: "resume env w oc now st = (out, st') \<Longrightarrow> xs_pending st' = xs_pending st"
  by (auto simp: resume_def Let_def split: option.splits if_splits prod.splits sum.splits
      dest!: record_stores refuse_stores exec_run_stores)

lemma suspend_stores:
  "suspend env sv rq r idle st = (out, st') \<Longrightarrow> \<nexists>w. out = Waiting w \<Longrightarrow> xs_pending st' = xs_pending st"
  by (auto simp: suspend_def Let_def split: if_splits sum.splits prod.splits dest: record_stores refuse_stores)

lemma handle_stores:
  assumes "handle env rq st = (out, st')" "\<nexists>w. out = Waiting w"
  shows "xs_pending st' = xs_pending st"
  using assms(1)
proof (cases rule: handle_cases)
  case (decided sv)
  then show ?thesis using assms(2)
    by (auto simp: decide_def split: option.splits if_splits prod.splits sum.splits
        dest!: record_stores exec_run_stores suspend_stores)
qed simp

lemma create_approval:
  "create_pending now now' fresh q timeout ps = Inr (a, ps') \<Longrightarrow>
   a = pending_request.extend q \<lparr>pa_id = fresh, pa_created_at = now, pa_expires_at = now + timeout\<rparr>"
  by (auto simp: create_pending_def Let_def split: if_splits)

lemma handle_suspends:
  assumes "handle env rq st = (Waiting w, st')"
  shows "\<exists>ps a ps' now now' timeout q. xs_pending st = Some ps \<and> xs_pending st' = Some ps' \<and> sus_id w = env_request_id env \<and>
    create_pending now now' (env_request_id env) q timeout ps = Inr (a, ps') \<and> stands_for a w"
  using assms
proof (cases rule: handle_cases)
  case (decided sv)
  from decide_waiting [OF this(4)] obtain r idle where "suspend env sv (as_decided rq) r idle st = (Waiting w, st')" by blast
  from suspend_waiting [OF this] obtain p ps a ps1 q where *:
    "w = \<lparr>sus_server = sv, sus_request = as_decided rq, sus_resolution = r, sus_idle = idle, sus_prompt = p,
       sus_session = strip (case rq_session (as_decided rq) of None \<Rightarrow> [] | Some x \<Rightarrow> x), sus_id = pa_id a\<rparr>"
    "xs_pending st = Some ps" "xs_pending st' = Some ps1"
    "create_pending (fst (env_monotonic env)) (snd (env_monotonic env)) (env_request_id env) q
       (of_int (approval_timeout_s (env_gates env AtSuspend))) ps = Inr (a, ps1)"
    "pr_digest q = prompt_digest p" "pr_session q = sus_session w" "pr_command q = rq_command (as_decided rq)"
    "pr_hosts q = prompt_hosts p"
    "pr_origin_path q = strip (case rq_origin_path (as_decided rq) of None \<Rightarrow> [] | Some x \<Rightarrow> x)"
    "pr_origin_actor q = strip (case frame_origin_actor (as_decided rq) of None \<Rightarrow> [] | Some x \<Rightarrow> x)"
    by auto
  have a: "a = pending_request.extend q \<lparr>pa_id = env_request_id env, pa_created_at = fst (env_monotonic env),
      pa_expires_at = fst (env_monotonic env) + of_int (approval_timeout_s (env_gates env AtSuspend))\<rparr>"
    by (rule create_approval [OF *(4)])
  have "stands_for a w \<and> sus_id w = env_request_id env"
    using *(5-) unfolding *(1) a by (simp add: stands_for_def pending_request.defs)
  with *(2-4) show ?thesis by blast
qed auto


section \<open>Preservation\<close>

lemma grows:
  assumes "set (sys_created s) \<subseteq> set (sys_created s')" "set (sys_minted s) \<subseteq> set (sys_minted s')"
  shows "created_for s i a \<Longrightarrow> created_for s' i a" "answered_by s i oc \<Longrightarrow> answered_by s' i oc"
    "valid_answer s oa \<Longrightarrow> valid_answer s' oa" "ran_ok s x \<Longrightarrow> ran_ok s' x"
proof -
  show c: "created_for s i a \<Longrightarrow> created_for s' i a" for i a using assms(1) by (auto simp: created_for_def)
  show a: "answered_by s i oc \<Longrightarrow> answered_by s' i oc" for i oc using assms(2) by (auto simp: answered_by_def)
  show "valid_answer s oa \<Longrightarrow> valid_answer s' oa" using c by (auto simp: valid_answer_def)
  show "ran_ok s x \<Longrightarrow> ran_ok s' x" using a assms(1) by (force simp: ran_ok_def split: prod.splits)
qed

text \<open>A change of the pending store that approves nothing.\<close>

definition approves_nothing :: "pending_store \<Rightarrow> pending_store \<Rightarrow> bool" where
  "approves_nothing ps ps' \<longleftrightarrow> (dict_ok (pend_records ps) \<longrightarrow> dict_ok (pend_records ps')) \<and>
     (\<forall>i r'. dict_get (pend_records ps') i = Some r' \<longrightarrow>
        (\<exists>r. dict_get (pend_records ps) i = Some r \<and> pend_approval r' = pend_approval r \<and>
           (pend_outcome r' = pend_outcome r \<or> out_state (pend_outcome r') \<noteq> Approved)))"

lemma sys_ok_pending:
  assumes "sys_ok s" "xs_pending (sys_exec s) = Some ps" "approves_nothing ps ps'"
  shows "sys_ok (set_pending ps' s)"
proof -
  note same = grows [of s "set_pending ps' s"]
  have "created_for (set_pending ps' s) i (pend_approval r') \<and> answered_by (set_pending ps' s) i (pend_outcome r')"
    if "dict_get (pend_records ps') i = Some r'" for i r'
  proof -
    from assms(3) that obtain r where r: "dict_get (pend_records ps) i = Some r" "pend_approval r' = pend_approval r"
      "pend_outcome r' = pend_outcome r \<or> out_state (pend_outcome r') \<noteq> Approved"
      by (auto simp: approves_nothing_def)
    from sys_ok_record [OF assms(1,2) r(1)] r(2,3) show ?thesis
      by (auto simp: created_for_def answered_by_def set_pending_def)
  qed
  moreover have "dict_ok (pend_records ps')"
    using assms by (auto simp: sys_ok_def records_ok_def approves_nothing_def)
  ultimately have "records_ok (set_pending ps' s)" by (simp add: records_ok_def set_pending_def)
  moreover have "created_ok (set_pending ps' s)" using assms(1) by (simp add: sys_ok_def created_ok_def set_pending_def)
  moreover have "answers_ok (set_pending ps' s)"
    using assms(1) same(3) by (auto simp: sys_ok_def answers_ok_def set_pending_def)
  moreover have "flow_ok (set_pending ps' s)"
    using assms(1) same(2,4) by (auto simp: sys_ok_def flow_ok_def under_way_def set_pending_def)
  ultimately show ?thesis by (simp add: sys_ok_def)
qed

lemma approves_nothing_refl [simp]: "approves_nothing ps ps"
  by (auto simp: approves_nothing_def)

lemma approves_nothing_outcome:
  assumes "dict_get (pend_records ps) i = Some r" "out_state oc \<noteq> Approved"
  shows "approves_nothing ps (set_outcome i r oc ps)"
  using assms by (auto simp: approves_nothing_def)

lemma approves_nothing_waiters [simp]: "approves_nothing ps (ps'\<lparr>waiters := n\<rparr>) \<longleftrightarrow> approves_nothing ps ps'"
  by (simp add: approves_nothing_def)

lemma deny_approves_nothing:
  "deny_service sha words g now i actor path why ps = (res, refusal, ps') \<Longrightarrow> approves_nothing ps ps'"
  by (auto simp: deny_service_def deny_pending_def Let_def intro!: approves_nothing_outcome
      split: option.splits prod.splits if_splits)

lemma enter_approves_nothing: "wait_enter i ps = Inr ps' \<Longrightarrow> approves_nothing ps ps'"
  by (auto simp: wait_enter_def split: if_splits)

lemma poll_approves_nothing: "wait_poll now i ps = Inr (oc, ps') \<Longrightarrow> approves_nothing ps ps'"
  by (auto simp: wait_poll_def Let_def intro!: approves_nothing_outcome split: option.splits if_splits)

lemma poll_outcome_answered:
  assumes "sys_ok s" "xs_pending (sys_exec s) = Some ps" "wait_poll now i ps = Inr (Some oc, ps')"
  shows "answered_by s i oc"
proof -
  from assms(3) obtain r where "dict_get (pend_records ps) i = Some r"
    "oc = pend_outcome r \<or> out_state oc \<noteq> Approved"
    by (auto simp: wait_poll_def Let_def split: option.splits if_splits)
  with sys_ok_record [OF assms(1,2)] show ?thesis by (auto simp: answered_by_def)
qed

text \<open>The pending record an action creates.\<close>

lemma suspends_keeps:
  assumes ok: "sys_ok s" and h: "handle env rq (sys_exec s) = (Waiting w, st')"
    and fresh: "env_request_id env \<notin> fst ` set (sys_created s)"
  shows "sys_ok (s\<lparr>sys_exec := st', sys_created := (sus_id w, env, w) # sys_created s,
      sys_waiting := sus_id w # sys_waiting s\<rparr>)" (is "sys_ok ?s")
proof -
  from handle_suspends [OF h] obtain ps a ps' now now' timeout q where
    c: "xs_pending (sys_exec s) = Some ps" "xs_pending st' = Some ps'" "sus_id w = env_request_id env"
    "create_pending now now' (env_request_id env) q timeout ps = Inr (a, ps')" "stands_for a w" by blast
  have d: "dict_ok (pend_records ps)" using ok c(1) by (simp add: sys_ok_def records_ok_def)
  note get = create_get [OF d c(4)]
  have new: "created_for ?s (sus_id w) a" using c(5) by (auto simp: created_for_def)
  have grow: "set (sys_created s) \<subseteq> set (sys_created ?s)" "set (sys_minted s) \<subseteq> set (sys_minted ?s)" by auto
  note old = grows [OF grow]
  have "created_for ?s i (pend_approval r) \<and> answered_by ?s i (pend_outcome r)"
    if g: "dict_get (pend_records ps') i = Some r" for i r
  proof (cases "i = sus_id w")
    case True
    with g get(1) c(3) have "r = \<lparr>pend_approval = a, pend_outcome = still_pending\<rparr>" by simp
    with new True show ?thesis by (simp add: answered_by_def still_pending_def)
  next
    case False
    with g get(1) c(3) have "dict_get (pend_records ps) i = Some r" by (auto split: option.splits if_splits)
    from sys_ok_record [OF ok c(1) this] old(1,2) show ?thesis by blast
  qed
  then have "records_ok ?s" using c(2) get(2) by (simp add: records_ok_def)
  moreover have "created_ok ?s" using ok fresh c(3) h by (auto simp: sys_ok_def created_ok_def)
  moreover have "answers_ok ?s" using ok old(3) by (auto simp: sys_ok_def answers_ok_def)
  moreover have "sus_id w \<notin> set (under_way s)" using ok fresh c(3) by (auto simp: sys_ok_def flow_ok_def)
  then have "flow_ok ?s" using ok old(2,4) by (auto simp: sys_ok_def flow_ok_def under_way_def)
  ultimately show ?thesis by (simp add: sys_ok_def)
qed

lemma mints_keeps:
  assumes ok: "sys_ok s" and p: "xs_pending (sys_exec s) = Some ps" and a: "get_pending i ps = Some a"
    and b: "approve_begin sha words g now now' fresh i actor path dig ps ts = Inr (Inr (t, ts'))"
    and oa: "oa = \<lparr>oa_id = i, oa_gates = g, oa_approval = a, oa_actor = actor, oa_path = path, oa_nonce = tok_nonce t\<rparr>"
  shows "sys_ok (s\<lparr>sys_exec := (sys_exec s)\<lparr>xs_tokens := Some ts'\<rparr>, sys_inflight := oa # sys_inflight s,
      sys_minted := oa # sys_minted s\<rparr>)" (is "sys_ok ?s")
proof -
  have grow: "set (sys_created s) \<subseteq> set (sys_created ?s)" "set (sys_minted s) \<subseteq> set (sys_minted ?s)" by auto
  note old = grows [OF grow]
  from a obtain r where "dict_get (pend_records ps) i = Some r" "pend_approval r = a"
    by (auto simp: get_pending_def)
  with sys_ok_record [OF ok p] have "created_for s i a" by blast
  moreover have "check_ok (service_check g a path actor)"
    using b a by (auto simp: approve_begin_def Let_def split: if_splits)
  ultimately have "valid_answer ?s oa" using old(1) by (simp add: valid_answer_def oa)
  then have "answers_ok ?s" using ok old(3) by (auto simp: sys_ok_def answers_ok_def)
  moreover have "records_ok ?s" using sys_ok_record [OF ok] ok old(1,2) by (auto simp: records_ok_def sys_ok_def)
  moreover have "created_ok ?s" "flow_ok ?s"
    using ok old(2,4) by (auto simp: sys_ok_def created_ok_def flow_ok_def under_way_def)
  ultimately show ?thesis by (simp add: sys_ok_def)
qed

lemma lands_keeps:
  assumes ok: "sys_ok s" and p: "xs_pending (sys_exec s) = Some ps" and oa: "oa \<in> set (sys_inflight s)"
    and f: "approve_finish now (oa_id oa) (oa_actor oa) (oa_path oa) (oa_nonce oa) (pr_digest (oa_approval oa)) ps = (res, ps')"
  shows "sys_ok ((set_pending ps' s)\<lparr>sys_inflight := remove1 oa (sys_inflight s)\<rparr>)" (is "sys_ok ?s")
proof -
  have grow: "set (sys_created s) \<subseteq> set (sys_created ?s)" "set (sys_minted s) \<subseteq> set (sys_minted ?s)"
    by (auto simp: set_pending_def)
  note old = grows [OF grow]
  have mem: "oa \<in> set (sys_minted ?s)" using ok oa by (auto simp: sys_ok_def answers_ok_def set_pending_def)
  have rec: "created_for ?s j (pend_approval r) \<and> answered_by ?s j (pend_outcome r)"
    if "dict_get (pend_records ps) j = Some r" for j r
    using sys_ok_record [OF ok p that] old(1,2) by blast
  obtain x ps1 where a: "approve_pending now (oa_id oa) (oa_actor oa) (oa_path oa) (oa_nonce oa)
      (pr_digest (oa_approval oa)) ps = (x, ps1)" by fastforce
  have "records_ok ?s"
  proof (cases x)
    case (Some y)
    with a f have "ps' = ps" by (auto simp: approve_finish_def dest: approve_Some)
    with rec ok p show ?thesis by (auto simp: records_ok_def set_pending_def sys_ok_def)
  next
    case None
    with a f have "ps' = ps1" by (simp add: approve_finish_def)
    moreover from a None obtain r where r: "dict_get (pend_records ps) (oa_id oa) = Some r"
      "ps1 = set_outcome (oa_id oa) r \<lparr>out_state = Approved, out_actor = Some (oa_actor oa), out_path = Some (oa_path oa),
         out_nonce = Some (oa_nonce oa), out_reason = NoneGiven\<rparr> ps"
      by (auto simp: approve_None)
    moreover have "answered_by ?s (oa_id oa) \<lparr>out_state = Approved, out_actor = Some (oa_actor oa),
        out_path = Some (oa_path oa), out_nonce = Some (oa_nonce oa), out_reason = NoneGiven\<rparr>"
      using mem by (auto simp: answered_by_def)
    ultimately show ?thesis using rec ok p by (auto simp: records_ok_def set_pending_def sys_ok_def)
  qed
  moreover have "created_ok ?s" "flow_ok ?s"
    using ok old(2,4) by (auto simp: sys_ok_def created_ok_def flow_ok_def under_way_def set_pending_def)
  moreover have "answers_ok ?s"
    using ok old(3) by (auto simp: sys_ok_def answers_ok_def set_pending_def dest: notin_set_remove1)
  ultimately show ?thesis by (simp add: sys_ok_def)
qed

lemma wakes_keeps:
  assumes ok: "sys_ok s" and p: "xs_pending (sys_exec s) = Some ps" and i: "i \<in> set (sys_waiting s)"
    and w: "wait_poll now i ps = Inr (Some oc, ps')"
  shows "sys_ok ((set_pending ps' s)\<lparr>sys_waiting := remove1 i (sys_waiting s), sys_woken := (i, oc) # sys_woken s\<rparr>)"
    (is "sys_ok ?s")
proof -
  have s': "sys_ok (set_pending ps' s)" by (rule sys_ok_pending [OF ok p poll_approves_nothing [OF w]])
  have grow: "set (sys_created (set_pending ps' s)) \<subseteq> set (sys_created ?s)"
    "set (sys_minted (set_pending ps' s)) \<subseteq> set (sys_minted ?s)" by auto
  note old = grows [OF grow]
  have "answered_by ?s i oc"
    using poll_outcome_answered [OF ok p w] by (simp add: answered_by_def set_pending_def)
  moreover have "distinct (i # remove1 i (sys_waiting s) @ map fst (sys_woken s) @ map fst (sys_ran s))"
    using ok i by (auto simp: sys_ok_def flow_ok_def under_way_def dest: notin_set_remove1)
  moreover have "set (under_way ?s) \<subseteq> set (under_way s)"
    using i by (auto simp: under_way_def set_pending_def dest: notin_set_remove1)
  ultimately have "flow_ok ?s"
    using s' old(2,4) ok by (auto simp: sys_ok_def flow_ok_def under_way_def set_pending_def)
  moreover have "created_ok ?s" "answers_ok ?s" "records_ok ?s"
    using s' old(1-3) by (auto simp: sys_ok_def created_ok_def answers_ok_def records_ok_def)
  ultimately show ?thesis by (simp add: sys_ok_def)
qed

lemma new_dials_resume:
  assumes "resume env w oc now st = (out, st')" "ev \<in> set (new_dials st st')"
  shows "new_dials st st' = [ev] \<and> out_state oc = Approved \<and>
    (\<exists>f secret. ev = Dialed f (sus_server w) (rq_command (sus_request w)) secret)"
  using resume_dialed [OF assms(1)] assms(2) by (auto simp: new_dials_def)

lemma fst_remove1: "fst ` set (remove1 a xs) \<subseteq> fst ` set xs"
  by (rule image_mono [OF set_remove1_subset])

lemma distinct_fst_remove1: "distinct (map fst xs) \<Longrightarrow> distinct (map fst (remove1 a xs))"
proof (induction xs)
  case (Cons x xs)
  have "fst x \<notin> fst ` set (remove1 a xs)" using Cons.prems fst_remove1 [of a xs] by auto
  then show ?case using Cons by simp
qed simp

lemma remove1_fst:
  assumes "distinct (map fst xs)" "(i, x) \<in> set xs"
  shows "i \<notin> fst ` set (remove1 (i, x) xs)" "i \<in> fst ` set xs"
proof -
  have d: "set (remove1 (i, x) xs) = set xs - {(i, x)}"
    using assms(1) by (simp add: distinct_map set_remove1_eq)
  show "i \<notin> fst ` set (remove1 (i, x) xs)"
  proof
    assume "i \<in> fst ` set (remove1 (i, x) xs)"
    then obtain z where z: "i = fst z" "z \<in> set xs - {(i, x)}" unfolding d by (rule imageE)
    then have "snd z \<noteq> x" "(i, snd z) \<in> set xs" by (cases z; auto)+
    with eq_key_imp_eq_value [OF assms(1,2)] show False by blast
  qed
  show "i \<in> fst ` set xs" using assms(2) by force
qed

lemma resumes_keeps:
  assumes ok: "sys_ok s" and i: "(i, oc) \<in> set (sys_woken s)" and c: "(i, env, w) \<in> set (sys_created s)"
    and r: "resume env w oc now (sys_exec s) = (out, st')"
  shows "sys_ok (s\<lparr>sys_exec := st', sys_woken := remove1 (i, oc) (sys_woken s),
      sys_ran := map (\<lambda>ev. (i, oc, ev)) (new_dials (sys_exec s) st') @ sys_ran s\<rparr>)" (is "sys_ok ?s")
proof -
  have grow: "set (sys_created s) \<subseteq> set (sys_created ?s)" "set (sys_minted s) \<subseteq> set (sys_minted ?s)" by auto
  note old = grows [OF grow]
  have oc: "answered_by ?s i oc" using ok i old(2) by (auto simp: sys_ok_def flow_ok_def)
  have ran: "ran_ok ?s (i, oc, ev)" if "ev \<in> set (new_dials (sys_exec s) st')" for ev
    using new_dials_resume [OF r that] oc c by (auto simp: ran_ok_def)
  have "new_dials (sys_exec s) st' = [] \<or> (\<exists>ev. new_dials (sys_exec s) st' = [ev])"
    using new_dials_resume [OF r] by (cases "new_dials (sys_exec s) st'") auto
  moreover have "distinct (map fst (sys_woken s))" using ok by (simp add: sys_ok_def flow_ok_def under_way_def)
  note rm = remove1_fst [OF this i] distinct_fst_remove1 [OF this, of "(i, oc)"]
    and sub = fst_remove1 [of "(i, oc)" "sys_woken s"] set_remove1_subset [of "(i, oc)" "sys_woken s"]
  have "distinct (sys_waiting s @ map fst (sys_woken s) @ map fst (sys_ran s))"
    using ok by (simp add: sys_ok_def flow_ok_def under_way_def)
  then have "distinct (sys_waiting s @ map fst (remove1 (i, oc) (sys_woken s)) @ i # map fst (sys_ran s))"
    using rm sub(1) unfolding distinct_append distinct.simps set_append set_simps set_map by blast
  ultimately have "distinct (under_way ?s)" by (auto simp: under_way_def)
  moreover have "set (under_way ?s) \<subseteq> set (under_way s)" using rm sub(1) by (auto simp: under_way_def)
  moreover have "answered_by ?s j q" if "(j, q) \<in> set (remove1 (i, oc) (sys_woken s))" for j q
    using ok old(2) sub(2) that unfolding sys_ok_def flow_ok_def by blast
  ultimately have "flow_ok ?s"
    using ok old(4) ran by (auto simp: sys_ok_def flow_ok_def)
  moreover have "records_ok ?s"
    using ok old(1,2) resume_stores [OF r] by (auto simp: sys_ok_def records_ok_def)
  moreover have "created_ok ?s" "answers_ok ?s" using ok old(3) by (auto simp: sys_ok_def created_ok_def answers_ok_def)
  ultimately show ?thesis by (simp add: sys_ok_def)
qed

lemma answers_keeps:
  assumes "sys_ok s" "handle env rq (sys_exec s) = (out, st')" "\<nexists>w. out = Waiting w"
  shows "sys_ok (s\<lparr>sys_exec := st'\<rparr>)"
proof -
  note old = grows [of s "s\<lparr>sys_exec := st'\<rparr>", simplified]
  show ?thesis
    using assms(1) old handle_stores [OF assms(2,3)]
    by (auto simp: sys_ok_def created_ok_def records_ok_def answers_ok_def flow_ok_def under_way_def)
qed

lemma loses_keeps:
  assumes "sys_ok s"
  shows "sys_ok (s\<lparr>sys_waiting := remove1 i (sys_waiting s)\<rparr>)" (is "sys_ok ?s")
proof -
  note old = grows [of s ?s, simplified]
  have "set (under_way ?s) \<subseteq> set (under_way s)" by (auto simp: under_way_def dest: notin_set_remove1)
  moreover have "distinct (under_way s) \<Longrightarrow> distinct (under_way ?s)"
    by (auto simp: under_way_def dest: notin_set_remove1)
  ultimately have "flow_ok ?s" using assms old by (auto simp: sys_ok_def flow_ok_def)
  moreover have "records_ok ?s" "created_ok ?s" "answers_ok ?s"
    using assms old by (auto simp: sys_ok_def created_ok_def records_ok_def answers_ok_def)
  ultimately show ?thesis by (simp add: sys_ok_def)
qed

lemma sys_step_keeps: "sys_step s s' \<Longrightarrow> sys_ok s \<Longrightarrow> sys_ok s'"
proof (induction rule: sys_step.induct)
  case (enters s ps i ps')
  then show ?case using sys_ok_pending enter_approves_nothing by blast
next
  case (denies s ps sha words g now i actor path why res refusal ps')
  then show ?case using sys_ok_pending deny_approves_nothing by blast
next
  case (sleeps s ps i now ps')
  then show ?case using sys_ok_pending poll_approves_nothing by blast
qed (blast intro: answers_keeps suspends_keeps mints_keeps lands_keeps wakes_keeps resumes_keeps loses_keeps)+

lemma sys_start_ok: "sys_start s \<Longrightarrow> sys_ok s"
  by (auto simp: sys_start_def sys_ok_def created_ok_def records_ok_def answers_ok_def flow_ok_def under_way_def
      new_pending_store_def)

interpretation executor_system: inductive_invariant sys_start sys_step sys_ok
  by unfold_locales (auto intro: sys_start_ok sys_step_keeps)


section \<open>A run to evaluate on\<close>

definition sample_begun :: sys_state where
  "sample_begun = \<lparr>sys_exec = sample_exec, sys_waiting = [], sys_woken = [], sys_inflight = [], sys_created = [],
     sys_minted = [], sys_ran = []\<rparr>"

definition sample_suspended :: sys_state where
  "sample_suspended = sample_begun\<lparr>sys_exec := snd sample_wait,
     sys_created := [(sus_id sample_sus, sample_env ''group'', sample_sus)], sys_waiting := [sus_id sample_sus]\<rparr>"

definition sample_pending :: pending_store where "sample_pending = the (xs_pending (snd sample_wait))"

definition sample_mint :: "(approval_token \<times> token_store) option" where
  "sample_mint = (case approve_begin (\<lambda>s. s) (\<lambda>_. []) allowing_gates 1 1 ''n'' ''q1'' ''bob'' ''webui''
       (prompt_digest (sus_prompt sample_sus)) sample_pending (the (xs_tokens (snd sample_wait))) of
     Inr (Inr p) \<Rightarrow> Some p | _ \<Rightarrow> None)"

definition sample_answer :: operator_answer where
  "sample_answer = \<lparr>oa_id = ''q1'', oa_gates = allowing_gates, oa_approval = the (get_pending ''q1'' sample_pending),
     oa_actor = ''bob'', oa_path = ''webui'', oa_nonce = tok_nonce (fst (the sample_mint))\<rparr>"

definition sample_minted :: sys_state where
  "sample_minted = sample_suspended\<lparr>sys_exec := (snd sample_wait)\<lparr>xs_tokens := Some (snd (the sample_mint))\<rparr>,
     sys_inflight := [sample_answer], sys_minted := [sample_answer]\<rparr>"

definition sample_landing :: "answer_result \<times> pending_store" where
  "sample_landing = approve_finish 2 ''q1'' ''bob'' ''webui'' (oa_nonce sample_answer) (pr_digest (oa_approval sample_answer))
     sample_pending"

definition sample_landed :: sys_state where
  "sample_landed = (set_pending (snd sample_landing) sample_minted)\<lparr>sys_inflight := []\<rparr>"

definition sample_poll :: "(approval_outcome \<times> pending_store) option" where
  "sample_poll = (case wait_poll 3 ''q1'' (snd sample_landing) of Inr (Some oc, ps) \<Rightarrow> Some (oc, ps) | _ \<Rightarrow> None)"

definition sample_woken :: sys_state where
  "sample_woken = (set_pending (snd (the sample_poll)) sample_landed)\<lparr>sys_waiting := [],
     sys_woken := [(''q1'', fst (the sample_poll))]\<rparr>"

definition sample_resume :: "exec_result \<times> exec_state" where
  "sample_resume = resume (sample_env ''group'') sample_sus (fst (the sample_poll)) 4 (sys_exec sample_woken)"

definition sample_final :: sys_state where
  "sample_final = sample_woken\<lparr>sys_exec := snd sample_resume, sys_woken := [],
     sys_ran := map (\<lambda>ev. (''q1'', fst (the sample_poll), ev)) (new_dials (sys_exec sample_woken) (snd sample_resume))\<rparr>"

lemma sample_facts:
  "sus_id sample_sus = ''q1''" "xs_pending (snd sample_wait) = Some sample_pending"
  "xs_tokens (snd sample_wait) = Some (the (xs_tokens (snd sample_wait)))"
  "get_pending ''q1'' sample_pending = Some (oa_approval sample_answer)"
  "sample_mint \<noteq> None"
proof -
  show "sus_id sample_sus = ''q1''" by code_simp
  have "xs_pending (snd sample_wait) \<noteq> None" "xs_tokens (snd sample_wait) \<noteq> None"
    "get_pending ''q1'' sample_pending \<noteq> None" by code_simp+
  then show "xs_pending (snd sample_wait) = Some sample_pending"
    "xs_tokens (snd sample_wait) = Some (the (xs_tokens (snd sample_wait)))"
    "get_pending ''q1'' sample_pending = Some (oa_approval sample_answer)"
    by (simp_all add: sample_pending_def sample_answer_def)
  show "sample_mint \<noteq> None" by code_simp
qed

lemma sample_polled: "\<exists>ps. sample_poll = Some (sample_approval, ps)"
proof -
  have "case sample_poll of None \<Rightarrow> False | Some (oc, ps) \<Rightarrow> out_state oc = Approved \<and> out_actor oc = Some ''bob'' \<and>
      out_path oc = Some ''webui'' \<and> out_nonce oc = Some ''n'' \<and> out_reason oc = NoneGiven" by code_simp
  then obtain oc ps where p: "sample_poll = Some (oc, ps)" and "out_state oc = Approved" "out_actor oc = Some ''bob''"
    "out_path oc = Some ''webui''" "out_nonce oc = Some ''n''" "out_reason oc = NoneGiven"
    by (auto split: option.splits)
  then have "oc = sample_approval" by (cases oc) (simp add: sample_approval_def)
  with p show ?thesis by blast
qed

lemma sample_dialed:
  "length (dialed (snd (resume (sample_env ''group'') sample_sus sample_approval 4
     (snd sample_wait\<lparr>xs_tokens := Some (snd (the sample_mint)), xs_pending := ps\<rparr>)))) = 1"
  "length (dialed (snd sample_wait)) = 0"
  by code_simp+

lemma sample_reachable: "reachable sys_start sys_step sample_final"
proof -
  have exec: "sys_exec sample_suspended = snd sample_wait" "sys_waiting sample_suspended = [''q1'']"
    "sys_created sample_suspended = [(''q1'', sample_env ''group'', sample_sus)]"
    by (simp_all add: sample_suspended_def sample_facts(1))
  have s0: "reachable sys_start sys_step sample_begun"
    by (rule reach_start) (simp add: sys_start_def sample_begun_def sample_exec_def)
  have "sys_step sample_begun (sample_begun\<lparr>sys_exec := snd sample_wait,
      sys_created := (sus_id sample_sus, sample_env ''group'', sample_sus) # sys_created sample_begun,
      sys_waiting := sus_id sample_sus # sys_waiting sample_begun\<rparr>)"
    by (rule suspends [where rq = sample_rq]) (simp_all add: sample_begun_def sample_waits)
  then have s1: "sys_step sample_begun sample_suspended" by (simp add: sample_suspended_def sample_begun_def)
  obtain t ts where m: "sample_mint = Some (t, ts)" using sample_facts(5) by force
  then have b: "approve_begin (\<lambda>s. s) (\<lambda>_. []) allowing_gates 1 1 ''n'' ''q1'' ''bob'' ''webui''
      (prompt_digest (sus_prompt sample_sus)) sample_pending (the (xs_tokens (snd sample_wait))) = Inr (Inr (t, ts))"
    by (simp add: sample_mint_def split: sum.splits)
  have "sys_step sample_suspended (sample_suspended\<lparr>sys_exec := (sys_exec sample_suspended)\<lparr>xs_tokens := Some ts\<rparr>,
      sys_inflight := sample_answer # sys_inflight sample_suspended,
      sys_minted := sample_answer # sys_minted sample_suspended\<rparr>)"
    by (rule mints [OF _ _ sample_facts(4) b]) (use sample_facts(3) in \<open>simp_all add: exec sample_facts(2) sample_answer_def m del: option.collapse\<close>)
  then have s2: "sys_step sample_suspended sample_minted"
    by (simp add: m sample_minted_def sample_suspended_def sample_begun_def)
  have "sys_step sample_minted ((set_pending (snd sample_landing) sample_minted)
      \<lparr>sys_inflight := remove1 sample_answer (sys_inflight sample_minted)\<rparr>)"
    by (rule lands [where ps = sample_pending and now = 2 and res = "fst sample_landing"])
       (simp_all add: sample_minted_def sample_facts(2) sample_landing_def, simp_all add: sample_answer_def)
  then have s3: "sys_step sample_minted sample_landed" by (simp add: sample_landed_def sample_minted_def set_pending_def)
  obtain oc ps where p: "sample_poll = Some (oc, ps)" using sample_polled by blast
  then have "wait_poll 3 ''q1'' (snd sample_landing) = Inr (Some oc, ps)"
    by (simp add: sample_poll_def split: sum.splits option.splits prod.splits)
  then have "sys_step sample_landed ((set_pending ps sample_landed)\<lparr>sys_waiting := remove1 ''q1'' (sys_waiting sample_landed),
      sys_woken := (''q1'', oc) # sys_woken sample_landed\<rparr>)"
    by (rule wakes [rotated 2]) (simp_all add: sample_landed_def set_pending_def sample_minted_def exec)
  then have s4: "sys_step sample_landed sample_woken"
    using exec(2) by (simp add: p sample_woken_def sample_landed_def sample_minted_def sample_suspended_def
        sample_begun_def set_pending_def)
  have "sys_step sample_woken (sample_woken\<lparr>sys_exec := snd sample_resume,
      sys_woken := remove1 (''q1'', oc) (sys_woken sample_woken),
      sys_ran := map (\<lambda>ev. (''q1'', oc, ev)) (new_dials (sys_exec sample_woken) (snd sample_resume)) @ sys_ran sample_woken\<rparr>)"
    by (rule resumes [where env = "sample_env ''group''" and w = sample_sus and now = 4 and out = "fst sample_resume"])
       (simp_all add: p sample_resume_def, simp_all add: sample_woken_def p sample_landed_def sample_minted_def set_pending_def exec)
  then have s5: "sys_step sample_woken sample_final"
    by (simp add: sample_final_def p, simp add: sample_woken_def p sample_landed_def sample_minted_def set_pending_def
        sample_suspended_def sample_begun_def)
  from reach_step [OF reach_step [OF reach_step [OF reach_step [OF reach_step [OF s0 s1] s2] s3] s4] s5]
  show ?thesis .
qed


section \<open>Properties\<close>

text \<open>C2. In every state the executor process can reach, under any interleaving of calls, answers, denials,
  timeouts and waits, each suspended action has reached its host at most once: no approval, however many
  operators answer and in whatever order, runs an action twice.\<close>

theorem suspended_action_runs_once:
  assumes "reachable sys_start sys_step s"
  shows "distinct (map fst (sys_ran s))"
  using executor_system.reachable_invar [OF assms] by (auto simp: sys_ok_def flow_ok_def under_way_def)

theorem suspended_action_runs_once_witness: "distinct (map fst (sys_ran sample_final))"
  by (rule suspended_action_runs_once [OF sample_reachable])

text \<open>C1. In every reachable state, each connection a suspended action made is for the command and the server it
  was suspended with, and a person answered it: an approver the gates list, on an authenticated path,
  independent of whoever asked, who answered the digest of the prompt that covers that command and the
  hosts that were resolved. The run carries the nonce, the name and the path of that answer.\<close>

theorem suspended_run_was_approved:
  assumes "reachable sys_start sys_step s" "(i, oc, ev) \<in> set (sys_ran s)"
  shows "\<exists>env w rq st st' oa f secret. handle env rq st = (Waiting w, st') \<and>
    ev = Dialed f (sus_server w) (rq_command (sus_request w)) secret \<and>
    oa \<in> set (sys_minted s) \<and> oa_id oa = i \<and> stands_for (oa_approval oa) w \<and>
    is_approver (oa_gates oa) (strip (oa_path oa)) (strip (oa_actor oa)) \<and>
    strip (oa_path oa) \<in> set (authenticated_paths (oa_gates oa)) \<and>
    answer_is_independent (oa_gates oa) (pr_origin_path (oa_approval oa)) (pr_origin_actor (oa_approval oa))
      (oa_path oa) (oa_actor oa) \<and>
    out_state oc = Approved \<and> out_nonce oc = Some (oa_nonce oa) \<and> out_actor oc = Some (oa_actor oa) \<and>
    out_path oc = Some (oa_path oa)"
proof -
  have ok: "sys_ok s" by (rule executor_system.reachable_invar [OF assms(1)])
  with assms(2) have "ran_ok s (i, oc, ev)" by (auto simp: sys_ok_def flow_ok_def)
  then obtain env w f secret oa where r: "out_state oc = Approved" "(i, env, w) \<in> set (sys_created s)"
    "ev = Dialed f (sus_server w) (rq_command (sus_request w)) secret" "oa \<in> set (sys_minted s)" "oa_id oa = i"
    "out_nonce oc = Some (oa_nonce oa)" "out_actor oc = Some (oa_actor oa)" "out_path oc = Some (oa_path oa)"
    by (auto simp: ran_ok_def answered_by_def)
  from ok r(4) have v: "created_for s i (oa_approval oa)"
    "check_ok (service_check (oa_gates oa) (oa_approval oa) (oa_path oa) (oa_actor oa))"
    using r(5) by (auto simp: sys_ok_def answers_ok_def valid_answer_def)
  from v(1) obtain env' w' where "(i, env', w') \<in> set (sys_created s)" "stands_for (oa_approval oa) w'"
    by (auto simp: created_for_def)
  moreover have "distinct (map fst (sys_created s))" using ok by (simp add: sys_ok_def created_ok_def)
  ultimately have "stands_for (oa_approval oa) w" using r(2) eq_key_imp_eq_value by fastforce
  moreover obtain rq st st' where "handle env rq st = (Waiting w, st')"
    using ok r(2) by (fastforce simp: sys_ok_def created_ok_def)
  ultimately show ?thesis using r v(2) unfolding service_check_def check_ok_iff by blast
qed

theorem suspended_run_was_approved_witness:
  "\<exists>x \<in> set (sys_ran sample_final). \<exists>env w rq st st' oa f secret. handle env rq st = (Waiting w, st') \<and>
    snd (snd x) = Dialed f (sus_server w) (rq_command (sus_request w)) secret \<and>
    oa \<in> set (sys_minted sample_final) \<and> oa_id oa = fst x \<and> stands_for (oa_approval oa) w"
proof -
  obtain ps where p: "sample_poll = Some (sample_approval, ps)" using sample_polled by blast
  have "sys_exec sample_woken = snd sample_wait\<lparr>xs_tokens := Some (snd (the sample_mint)), xs_pending := Some ps\<rparr>"
    by (simp add: sample_woken_def sample_landed_def sample_minted_def set_pending_def p)
  then have "length (new_dials (sys_exec sample_woken) (snd sample_resume)) = 1"
    using sample_dialed(1) [of "Some ps"] sample_dialed(2) by (simp add: new_dials_def sample_resume_def p)
  then have "sys_ran sample_final \<noteq> []" by (auto simp: sample_final_def)
  then have "hd (sys_ran sample_final) \<in> set (sys_ran sample_final)" by simp
  then obtain i oc ev where x: "(i, oc, ev) \<in> set (sys_ran sample_final)" by (metis prod_cases3)
  from suspended_run_was_approved [OF sample_reachable x] show ?thesis
    by (intro bexI [OF _ x]) (simp, blast)
qed

end
