(* ===== verification/Timeout.thy ===== *)
theory Timeout
  imports Prelude
begin

text \<open>
  The wait for one remote command: \<open>nanoinfra/servers/execution/timeout.py\<close>. A deadline moves with
  every chunk of output and never past an absolute ceiling. The event loop is a list of rounds: the
  clock at the top of the loop, the clock of each \<open>touch\<close> while the round waits, and what
  \<open>asyncio.wait_for\<close> brought (\<open>None\<close> when it timed out).
\<close>

definition POLL_INTERVAL_S :: seconds where "POLL_INTERVAL_S = 1"
definition ABSOLUTE_CEILING_S :: seconds where "ABSOLUTE_CEILING_S = 1800"

record idle_tracker =
  idle_timeout :: seconds
  absolute_ceiling :: seconds
  tracker_start :: seconds
  last_activity :: seconds

definition new_tracker :: "seconds \<Rightarrow> seconds \<Rightarrow> seconds \<Rightarrow> idle_tracker" where
  "new_tracker idle ceil now = \<lparr>idle_timeout = idle, absolute_ceiling = ceil, tracker_start = now, last_activity = now\<rparr>"

definition touch_tracker :: "seconds \<Rightarrow> idle_tracker \<Rightarrow> idle_tracker" where
  "touch_tracker now t = t\<lparr>last_activity := now\<rparr>"

definition remaining_s :: "seconds \<Rightarrow> idle_tracker \<Rightarrow> seconds" where
  "remaining_s now t =
     max 0 (min (idle_timeout t - (now - last_activity t)) (absolute_ceiling t - (now - tracker_start t)))"

definition tracker_expired :: "seconds \<Rightarrow> idle_tracker \<Rightarrow> bool" where
  "tracker_expired now t \<longleftrightarrow> remaining_s now t \<le> 0"

record 'r wait_round =
  round_now :: seconds
  round_touches :: "seconds list"
  round_result :: "'r option"

datatype 'r wait_end = WaitDone 'r | WaitTimedOut

text \<open>\<open>run_with_idle_timeout\<close>: \<open>None\<close> while the rounds given do not end it. The check comes before the
  result, so a result that is there when the deadline passes is discarded.\<close>

fun run_with_idle_timeout :: "idle_tracker \<Rightarrow> 'r wait_round list \<Rightarrow> 'r wait_end option" where
  "run_with_idle_timeout t [] = None"
| "run_with_idle_timeout t (w # ws) =
     (if remaining_s (round_now w) t \<le> 0 then Some WaitTimedOut
      else (case round_result w of
              Some r \<Rightarrow> Some (WaitDone r)
            | None \<Rightarrow> run_with_idle_timeout (foldl (\<lambda>t c. touch_tracker c t) t (round_touches w)) ws))"

text \<open>
  A clock: a wait that timed out took its timeout, \<open>min(remaining, poll)\<close>, and activity happens no
  earlier than the reading before it.
\<close>

fun clocked :: "seconds \<Rightarrow> idle_tracker \<Rightarrow> 'r wait_round list \<Rightarrow> bool" where
  "clocked poll t [] = True"
| "clocked poll t [w] = True"
| "clocked poll t (w # v # ws) =
     (let t' = foldl (\<lambda>t c. touch_tracker c t) t (round_touches w)
      in round_now w + min (remaining_s (round_now w) t) poll \<le> round_now v \<and>
         list_all (\<lambda>c. round_now w \<le> c) (round_touches w) \<and> clocked poll t' (v # ws))"


section \<open>Lemmas\<close>

lemma touches_keep:
  "tracker_start (foldl (\<lambda>t c. touch_tracker c t) t cs) = tracker_start t"
  "absolute_ceiling (foldl (\<lambda>t c. touch_tracker c t) t cs) = absolute_ceiling t"
  "idle_timeout (foldl (\<lambda>t c. touch_tracker c t) t cs) = idle_timeout t"
  "last_activity (foldl (\<lambda>t c. touch_tracker c t) t cs) = last (last_activity t # cs)"
  by (induction cs arbitrary: t) (auto simp: touch_tracker_def)

lemma remaining_pos:
  "\<not> remaining_s now t \<le> 0 \<longleftrightarrow>
     now < last_activity t + idle_timeout t \<and> now < tracker_start t + absolute_ceiling t"
  by (auto simp: remaining_s_def)

lemma clocked_tl: "clocked poll t (w # ws) \<Longrightarrow>
    clocked poll (foldl (\<lambda>t c. touch_tracker c t) t (round_touches w)) ws"
  by (cases ws) (auto simp: Let_def)

text \<open>Two rounds that do not end the wait move the clock on by \<open>step\<close>, or to the ceiling.\<close>

lemma two_rounds:
  assumes "clocked poll t (w # v # x # ws)" "0 < step" "step \<le> poll" "step \<le> idle_timeout t"
    and "\<not> remaining_s (round_now w) t \<le> 0"
    and "\<not> remaining_s (round_now v) (foldl (\<lambda>t c. touch_tracker c t) t (round_touches w)) \<le> 0"
  shows "min (round_now w + step) (tracker_start t + absolute_ceiling t) \<le> round_now x"
proof -
  define t' where "t' = foldl (\<lambda>t c. touch_tracker c t) t (round_touches w)"
  have t': "tracker_start t' = tracker_start t" "absolute_ceiling t' = absolute_ceiling t"
    "idle_timeout t' = idle_timeout t" "last_activity t' = last (last_activity t # round_touches w)"
    by (simp_all add: t'_def touches_keep)
  have clock: "round_now w + min (remaining_s (round_now w) t) poll \<le> round_now v"
    "round_now v + min (remaining_s (round_now v) t') poll \<le> round_now x"
    "list_all (\<lambda>c. round_now w \<le> c) (round_touches w)"
    using assms(1) by (simp_all add: Let_def t'_def)
  have pos: "0 < remaining_s (round_now w) t" "0 < remaining_s (round_now v) t'"
    using assms(5,6) by (simp_all add: t'_def)
  show ?thesis
  proof (cases "round_touches w = []")
    case True
    then have same: "last_activity t' = last_activity t" using t'(4) by simp
    then have "round_now v < last_activity t + idle_timeout t"
      "round_now v < tracker_start t + absolute_ceiling t"
      using assms(6) remaining_pos [of "round_now v" t'] t' by (auto simp: t'_def)
    with clock(1) pos(1) assms(3) have "round_now w + step \<le> round_now v"
      by (auto simp: remaining_s_def min_def max_def split: if_splits)
    with clock(2) pos(2) assms(2,3) show ?thesis by (auto simp: min_def split: if_splits)
  next
    case False
    then have "last_activity t' \<in> set (round_touches w)" using t'(4) by simp
    with clock(3) have c: "round_now w \<le> last_activity t'" by (auto simp: list_all_iff)
    have "round_now w \<le> round_now v" using clock(1) pos(1) assms(2,3) by (auto simp: min_def split: if_splits)
    with c clock(2) pos(2) assms(2-4) t' show ?thesis
      by (auto simp: remaining_s_def min_def max_def split: if_splits)
  qed
qed

lemma wait_ends_in:
  assumes "clocked poll t ws" "0 < step" "step \<le> poll" "step \<le> idle_timeout t"
    and "tracker_start t + absolute_ceiling t \<le> round_now (hd ws) + step * of_nat k" "2 * k < length ws"
  shows "run_with_idle_timeout t ws \<noteq> None"
  using assms
proof (induction k arbitrary: t ws)
  case 0
  then obtain w ws' where "ws = w # ws'" by (cases ws) auto
  with 0 show ?case using remaining_pos [of "round_now w" t] by auto
next
  case (Suc k)
  then obtain w v x ws' where ws: "ws = w # v # x # ws'"
    by (cases ws; cases "tl ws"; cases "tl (tl ws)") auto
  define t' where "t' = foldl (\<lambda>t c. touch_tracker c t) t (round_touches w)"
  define t'' where "t'' = foldl (\<lambda>t c. touch_tracker c t) t' (round_touches v)"
  show ?case
  proof (rule ccontr)
    assume none: "\<not> ?case"
    then have on: "\<not> remaining_s (round_now w) t \<le> 0" "\<not> remaining_s (round_now v) t' \<le> 0"
      "run_with_idle_timeout t'' (x # ws') = None"
      by (auto simp: ws t'_def t''_def split: if_splits option.splits)
    have on_by: "min (round_now w + step) (tracker_start t + absolute_ceiling t) \<le> round_now x"
      by (rule two_rounds [OF Suc.prems(1) [unfolded ws] Suc.prems(2-4) on(1)])
         (use on(2) in \<open>simp add: t'_def\<close>)
    have clk: "clocked poll t'' (x # ws')"
      unfolding t''_def t'_def by (rule clocked_tl [OF clocked_tl]) (use Suc.prems(1) ws in simp)
    have "0 \<le> step * rat_of_nat k" using Suc.prems(2) by simp
    moreover have "tracker_start t + absolute_ceiling t \<le> round_now w + (step + step * rat_of_nat k)"
      using Suc.prems(5) ws by (simp add: algebra_simps)
    ultimately have "tracker_start t + absolute_ceiling t \<le> round_now x + step * of_nat k"
      using on_by by linarith
    with clk have "run_with_idle_timeout t'' (x # ws') \<noteq> None"
      using Suc.prems ws by (intro Suc.IH) (auto simp: t''_def t'_def touches_keep)
    with on(3) show False by blast
  qed
qed


section \<open>Properties\<close>

text \<open>C38. A wait for a command ends: however much output it produces, a wait with a positive idle timeout
  is over after at most \<open>2 * k\<close> rounds of the loop past the first, for any \<open>k\<close> steps of the smaller of
  the idle timeout and the poll interval that reach the ceiling.\<close>

theorem command_wait_ends:
  assumes "clocked POLL_INTERVAL_S (new_tracker idle ceil start) ws" "0 < idle" "start \<le> round_now (hd ws)"
    and "ceil \<le> min idle POLL_INTERVAL_S * of_nat k" "2 * k < length ws"
  shows "\<exists>e. run_with_idle_timeout (new_tracker idle ceil start) ws = Some e"
proof -
  have "run_with_idle_timeout (new_tracker idle ceil start) ws \<noteq> None"
    by (rule wait_ends_in [OF assms(1), where step = "min idle POLL_INTERVAL_S" and k = k])
       (use assms in \<open>auto simp: new_tracker_def POLL_INTERVAL_S_def\<close>)
  then show ?thesis by blast
qed

theorem command_wait_ends_witness:
  "\<exists>e. run_with_idle_timeout (new_tracker 5 2 0)
     (map (\<lambda>n. \<lparr>round_now = n, round_touches = [n], round_result = (None :: unit option)\<rparr>) [0, 1, 2, 3, 4]) = Some e"
  by (rule command_wait_ends [where k = 2]) (simp_all add: POLL_INTERVAL_S_def new_tracker_def remaining_s_def touch_tracker_def)

text \<open>A result counts only from a round that began before the ceiling.\<close>

lemma result_in_time:
  "run_with_idle_timeout t ws = Some (WaitDone r) \<Longrightarrow>
   \<exists>w \<in> set ws. round_result w = Some r \<and> round_now w < tracker_start t + absolute_ceiling t"
  by (induction t ws rule: run_with_idle_timeout.induct)
     (auto simp: touches_keep remaining_pos split: if_splits option.splits)

end
