(* ===== verification/Hosts.thy ===== *)
theory Hosts
  imports Scope
begin

text \<open>
  The resolver of \<open>nanoinfra/servers/scope.py\<close>: the inventory a server names, the host pattern, and
  the named hosts with their scope. A Python set of names is a list here; where its order would show,
  the code sorts it. The machine is the argument \<open>scope_env\<close>: whether \<open>ansible-inventory\<close> is
  installed and what it answers, the files of a project, the YAML reader (\<open>yaml.safe_load\<close>) and
  \<open>urlparse(u).hostname\<close>. A YAML document is a graph, because an anchor may close a cycle: its
  values are nodes, reached through numbers.
\<close>

section \<open>Results\<close>

datatype scope_error =
    UnknownProviderId string
  | NoConfigField string
  | BaseUrlWithoutHost string
  | NoTargetField
  | NoInventoryAt string
  | UnreadableInventory
  | EmptyInventoryDirectory
  | NotYamlOrIni
  | AnsibleNoAnswer
  | AnsibleExited int
  | AnsibleNoJson
  | AnsibleShape string
  | NestedTooDeep
  | GroupNotMapping string
  | UnsupportedKey string string
  | UnreadableNames string string
  | UnbalancedRange string
  | NotRangeSyntax string
  | RangeTooWide string
  | UnsupportedSection string
  | EmptyTerm
  | UnsupportedPatternChar char
  | NoMatch string
  | TooManyHosts nat

text \<open>What ends a resolution: a \<open>ScopeResolutionError\<close>, or an exception of another type that escapes.\<close>

datatype scope_fault = ScopeError scope_error | Escapes py_exn

definition EXPANDER_ANSIBLE :: string where "EXPANDER_ANSIBLE = ''ansible-inventory''"
definition EXPANDER_PARSER :: string where "EXPANDER_PARSER = ''in-repo-parser''"
definition EXPANDER_CONFIG :: string where "EXPANDER_CONFIG = ''config''"
definition EXPANDER_ANSIBLE_CONFIG :: string where "EXPANDER_ANSIBLE_CONFIG = ''ansible-inventory-config''"
definition UNSUPPORTED_PATTERN_CHARS :: string where "UNSUPPORTED_PATTERN_CHARS = ''!&~:[]''"
definition GLOB_CHARS :: string where "GLOB_CHARS = ''*?''"
definition MAX_RANGE_HOSTS :: nat where "MAX_RANGE_HOSTS = 1024"
definition MAX_RESOLVED_HOSTS :: nat where "MAX_RESOLVED_HOSTS = 1024"
definition MAX_YAML_DEPTH :: nat where "MAX_YAML_DEPTH = 32"
definition UNGROUPED :: string where "UNGROUPED = ''ungrouped''"

text \<open>A step over each element that may fail.\<close>

fun each :: "('a \<Rightarrow> 's \<Rightarrow> 'e + 's) \<Rightarrow> 'a list \<Rightarrow> 's \<Rightarrow> 'e + 's" where
  "each f [] s = Inr s"
| "each f (x # xs) s = (case f x s of Inl e \<Rightarrow> Inl e | Inr s' \<Rightarrow> each f xs s')"

fun collect :: "('a \<Rightarrow> 'e + 'b list) \<Rightarrow> 'a list \<Rightarrow> 'e + 'b list" where
  "collect f [] = Inr []"
| "collect f (x # xs) = (case f x of Inl e \<Rightarrow> Inl e
     | Inr ys \<Rightarrow> (case collect f xs of Inl e \<Rightarrow> Inl e | Inr zs \<Rightarrow> Inr (ys @ zs)))"

lemma each_keeps:
  "each f xs s = Inr s' \<Longrightarrow> P s \<Longrightarrow> (\<And>x s s'. x \<in> set xs \<Longrightarrow> f x s = Inr s' \<Longrightarrow> P s \<Longrightarrow> P s') \<Longrightarrow> P s'"
proof (induction xs arbitrary: s)
  case (Cons x xs)
  from Cons.prems(1) obtain t where t: "f x s = Inr t" "each f xs t = Inr s'" by (auto split: sum.splits)
  have "P t" using Cons.prems(2) t(1) Cons.prems(3) [of x] by auto
  show ?case
  proof (rule Cons.IH [OF t(2) \<open>P t\<close>])
    fix y r r' assume "y \<in> set xs" "f y r = Inr r'" "P r"
    then show "P r'" using Cons.prems(3) [of y r r'] by simp
  qed
qed simp

lemma collect_cong [fundef_cong]:
  "xs = ys \<Longrightarrow> (\<And>x. x \<in> set ys \<Longrightarrow> f x = g x) \<Longrightarrow> collect f xs = collect g ys"
  by (induction ys arbitrary: xs) (auto split: sum.split)

lemma each_cong [fundef_cong]:
  "xs = ys \<Longrightarrow> s = t \<Longrightarrow> (\<And>x s. x \<in> set ys \<Longrightarrow> f x s = g x s) \<Longrightarrow> each f xs s = each g ys t"
  by (induction ys arbitrary: xs s t) (auto split: sum.split)


section \<open>The inventory\<close>

definition set_add :: "'a \<Rightarrow> 'a list \<Rightarrow> 'a list" where
  "set_add x xs = (if x \<in> set xs then xs else xs @ [x])"

lemma set_set_add [simp]: "set (set_add x xs) = insert x (set xs)"
  by (auto simp: set_add_def)

record inventory =
  inv_hosts :: "string list"
  inv_groups :: "(string, string list) dict"

record builder =
  b_hosts :: "string list"
  b_group_hosts :: "(string, string list) dict"
  b_children :: "(string, string list) dict"

definition new_builder :: builder where
  "new_builder = \<lparr>b_hosts = [], b_group_hosts = [], b_children = []\<rparr>"

definition names_at :: "(string, string list) dict \<Rightarrow> string \<Rightarrow> string list" where
  "names_at d k = (case dict_get d k of None \<Rightarrow> [] | Some xs \<Rightarrow> xs)"

definition ensure_group :: "string \<Rightarrow> builder \<Rightarrow> builder" where
  "ensure_group g b = b\<lparr>b_group_hosts := dict_setdefault g [] (b_group_hosts b),
     b_children := dict_setdefault g [] (b_children b)\<rparr>"

definition add_host :: "string \<Rightarrow> string \<Rightarrow> builder \<Rightarrow> builder" where
  "add_host g h b =
     (let b = ensure_group g b
      in b\<lparr>b_group_hosts := dict_set g (set_add h (names_at (b_group_hosts b) g)) (b_group_hosts b),
           b_hosts := set_add h (b_hosts b)\<rparr>)"

definition add_child :: "string \<Rightarrow> string \<Rightarrow> builder \<Rightarrow> builder" where
  "add_child g c b =
     (let b = ensure_group c (ensure_group g b)
      in b\<lparr>b_children := dict_set g (set_add c (names_at (b_children b) g)) (b_children b)\<rparr>)"

text \<open>
  \<open>_hosts_of\<close>: the recursion with its shared set of groups seen. The calls still to make are the list
  \<open>todo\<close>, in the order the recursion makes them.
\<close>

lemma names_at_outside: "g \<notin> set (dict_keys d) \<Longrightarrow> names_at d g = []"
  by (simp add: names_at_def dict_get_None_keys [symmetric])

function walk_groups :: "builder \<Rightarrow> string list \<Rightarrow> string list \<Rightarrow> string list \<Rightarrow> string list" where
  "walk_groups b [] seen hosts = hosts"
| "walk_groups b (g # todo) seen hosts =
     (if g \<in> set seen then walk_groups b todo seen hosts
      else walk_groups b (names_at (b_children b) g @ todo) (g # seen)
             (hosts @ names_at (b_group_hosts b) g))"
  by pat_completeness auto
termination
proof (relation "measures [\<lambda>(b, todo, seen, hosts). card (set (dict_keys (b_children b)) - set seen),
    \<lambda>(b, todo, seen, hosts). length todo]")
  fix b and g :: string and todo seen hosts :: "string list"
  assume new: "g \<notin> set seen"
  let ?K = "set (dict_keys (b_children b))"
  show "((b, names_at (b_children b) g @ todo, g # seen, hosts @ names_at (b_group_hosts b) g), b, g # todo, seen, hosts) \<in>
      measures [\<lambda>(b, todo, seen, hosts). card (set (dict_keys (b_children b)) - set seen),
        \<lambda>(b, todo, seen, hosts). length todo]"
  proof (cases "g \<in> ?K")
    case True
    then have "?K - set (g # seen) \<subset> ?K - set seen" using new by auto
    then have "card (?K - set (g # seen)) < card (?K - set seen)" by (rule psubset_card_mono [rotated]) simp
    then show ?thesis by simp
  next
    case False
    then have "?K - set (g # seen) = ?K - set seen" by auto
    with False show ?thesis by (simp add: names_at_outside)
  qed
qed simp_all

definition hosts_of :: "builder \<Rightarrow> string \<Rightarrow> string list" where
  "hosts_of b g = remdups (walk_groups b [g] [] [])"

definition build_inventory :: "builder \<Rightarrow> inventory" where
  "build_inventory b =
     \<lparr>inv_hosts = b_hosts b,
      inv_groups = dict_set SCOPE_ALL (b_hosts b) (map (\<lambda>g. (g, hosts_of b g)) (dict_keys (b_group_hosts b)))\<rparr>"


section \<open>Ranges\<close>

text \<open>\<open>_RANGE_RE.search\<close>: the first bracket that opens and closes with no bracket between.\<close>

definition is_bracket :: "char \<Rightarrow> bool" where
  "is_bracket c \<longleftrightarrow> c = CHR ''['' \<or> c = CHR '']''"

fun find_range :: "string \<Rightarrow> string \<Rightarrow> (string \<times> string \<times> string) option" where
  "find_range pre [] = None"
| "find_range pre (c # cs) =
     (let body = takeWhile (\<lambda>c. \<not> is_bracket c) cs; rest = dropWhile (\<lambda>c. \<not> is_bracket c) cs
      in if c = CHR ''['' \<and> rest \<noteq> [] \<and> hd rest = CHR '']'' then Some (pre, body, tl rest)
         else find_range (pre @ [c]) cs)"

text \<open>\<open>str.isdigit\<close> and \<open>str.isalpha\<close> for code points below 256: three superscripts are digits to the
  first and no numeral to \<open>int\<close>.\<close>

definition py_digit :: "char \<Rightarrow> bool" where
  "py_digit c \<longleftrightarrow> digit_char c \<or> (of_char c :: nat) \<in> {178, 179, 185}"

definition py_isdigit :: "string \<Rightarrow> bool" where
  "py_isdigit s \<longleftrightarrow> s \<noteq> [] \<and> list_all py_digit s"

definition py_alpha :: "char \<Rightarrow> bool" where
  "py_alpha c \<longleftrightarrow> (let n = (of_char c :: nat) in
     (65 \<le> n \<and> n \<le> 90) \<or> (97 \<le> n \<and> n \<le> 122) \<or> n = 170 \<or> n = 181 \<or> n = 186 \<or>
     (192 \<le> n \<and> n \<le> 214) \<or> (216 \<le> n \<and> n \<le> 246) \<or> 248 \<le> n)"

definition zfill :: "nat \<Rightarrow> string \<Rightarrow> string" where
  "zfill width s = replicate (width - length s) (CHR ''0'') @ s"

text \<open>\<open>range(a, b, step)\<close> for a positive step.\<close>

definition py_range :: "nat \<Rightarrow> nat \<Rightarrow> nat \<Rightarrow> nat list" where
  "py_range a b step = map (\<lambda>i. a + i * step) [0..<(b - a + step - 1) div step]"

definition range_values :: "string \<Rightarrow> scope_fault + string list" where
  "range_values body =
     (let parts = split_on (CHR '':'') body; err = Inl (ScopeError (NotRangeSyntax body))
      in if length parts \<notin> {2, 3} then err
         else case (if length parts = 3 then py_int (parts ! 2) else Some 1) of
           None \<Rightarrow> err
         | Some step \<Rightarrow>
             (if step < 1 then err
              else (let start = parts ! 0; stop = parts ! 1;
                        values =
                          (if py_isdigit start \<and> py_isdigit stop
                           then (case (py_int start, py_int stop) of
                                   (Some a, Some b) \<Rightarrow>
                                     Inr (map (\<lambda>n. zfill (if hd start = CHR ''0'' then length start else 0) (nat_str n))
                                       (py_range (nat a) (nat b + 1) (nat step)))
                                 | _ \<Rightarrow> Inl (Escapes ValueError))
                           else if length start = 1 \<and> length stop = 1 \<and> py_alpha (hd start) \<and> py_alpha (hd stop)
                           then Inr (map (\<lambda>n. [char_of n])
                                  (py_range (of_char (hd start)) (of_char (hd stop) + 1) (nat step)))
                           else err)
                    in case values of
                         Inl e \<Rightarrow> Inl e
                       | Inr vs \<Rightarrow> (if vs = [] then err
                                   else if length vs > MAX_RANGE_HOSTS then Inl (ScopeError (RangeTooWide body))
                                   else Inr vs))))"

definition brackets :: "string \<Rightarrow> nat" where
  "brackets s = length (filter is_bracket s)"

lemma brackets_simps [simp]: "brackets [] = 0" "brackets (c # s) = (if is_bracket c then 1 else 0) + brackets s"
  "brackets (s @ t) = brackets s + brackets t"
  by (simp_all add: brackets_def)

lemma find_range_Some:
  "find_range p s = Some (pre, body, suf) \<Longrightarrow> p @ s = pre @ CHR ''['' # body @ CHR '']'' # suf \<and> brackets body = 0"
proof (induction p s rule: find_range.induct)
  case (2 p c cs)
  let ?body = "takeWhile (\<lambda>c. \<not> is_bracket c) cs" and ?rest = "dropWhile (\<lambda>c. \<not> is_bracket c) cs"
  show ?case
  proof (cases "c = CHR ''['' \<and> ?rest \<noteq> [] \<and> hd ?rest = CHR '']''")
    case True
    with 2(2) have "pre = p" "body = ?body" "suf = tl ?rest" by (simp_all add: Let_def)
    moreover have "cs = ?body @ CHR '']'' # tl ?rest"
      using True by (metis list.collapse takeWhile_dropWhile_id)
    moreover have "brackets ?body = 0" by (auto simp: brackets_def filter_empty_conv dest: set_takeWhileD)
    ultimately show ?thesis using True by simp
  next
    case False
    with 2 show ?thesis by (auto simp: Let_def split: if_splits)
  qed
qed simp

lemma brackets_replicate [simp]: "\<not> is_bracket c \<Longrightarrow> brackets (replicate n c) = 0"
  by (simp add: brackets_def)

lemma decimal_all_digits: "list_all digit_char (nat_str n)"
proof (induction n rule: nat_str.induct)
  case (1 n)
  have d: "digit_char (char_of (48 + m))" if "m < 10" for m :: nat
    using that by (simp add: digit_char_def)
  show ?case
    using 1 d [of n] d [of "n mod 10"] by (subst nat_str.simps) simp
qed

lemma digits_no_bracket: "list_all digit_char s \<Longrightarrow> brackets s = 0"
  by (induction s) (auto simp: is_bracket_def digit_char_def Let_def)

lemma range_values_brackets:
  assumes "range_values body = Inr vs" "v \<in> set vs"
  shows "brackets v \<le> 1"
proof -
  have "brackets (zfill w (nat_str n)) = 0" for w n
    by (simp add: zfill_def digits_no_bracket decimal_all_digits is_bracket_def)
  moreover have "brackets [char_of (n::nat)] \<le> 1" for n by simp
  ultimately show ?thesis
    using assms by (auto simp: range_values_def Let_def simp del: brackets_simps(2) split: if_splits option.splits)
qed

function expand_entry :: "string \<Rightarrow> scope_fault + string list" where
  "expand_entry entry =
     (case find_range [] entry of
        None \<Rightarrow> (if list_ex is_bracket entry then Inl (ScopeError (UnbalancedRange entry)) else Inr [entry])
      | Some (pre, body, suf) \<Rightarrow>
          (case range_values body of
             Inl e \<Rightarrow> Inl e
           | Inr vs \<Rightarrow>
               (case collect (\<lambda>v. expand_entry (pre @ v @ suf)) vs of
                  Inl e \<Rightarrow> Inl e
                | Inr hosts \<Rightarrow> (if length hosts > MAX_RANGE_HOSTS then Inl (ScopeError (RangeTooWide entry))
                                else Inr hosts))))"
  by pat_completeness auto
termination
proof (relation "measure brackets")
  fix entry :: string and p pre q body suf vs v
  assume "find_range [] entry = Some p" "(pre, q) = p" "(body, suf) = q"
    "range_values body = Inr vs" "v \<in> set vs"
  then have "find_range [] entry = Some (pre, body, suf)" "range_values body = Inr vs" "v \<in> set vs" by auto
  with find_range_Some [OF this(1)] range_values_brackets [OF this(2,3)]
  show "(pre @ v @ suf, entry) \<in> measure brackets" by (simp add: is_bracket_def)
qed simp

declare expand_entry.simps [simp del]

section \<open>The in-repo parser\<close>

datatype yaml_node = YNull | YText string | YMap "(string \<times> nat) list" | YOther

datatype yaml_read = YamlError | YamlBroken | YamlDoc "nat \<Rightarrow> yaml_node" yaml_node

datatype group_mode = ModeHosts | ModeChildren | ModeVars

definition yaml_names :: "yaml_node \<Rightarrow> string \<Rightarrow> string \<Rightarrow> scope_fault + string list" where
  "yaml_names v key grp =
     (case v of
        YNull \<Rightarrow> Inr []
      | YText s \<Rightarrow> Inr [s]
      | YMap kvs \<Rightarrow> Inr (map fst kvs)
      | YOther \<Rightarrow> Inl (ScopeError (UnreadableNames key grp)))"

definition yaml_children :: "(nat \<Rightarrow> yaml_node) \<Rightarrow> yaml_node \<Rightarrow> string \<Rightarrow> scope_fault + (string \<times> yaml_node) list" where
  "yaml_children doc v grp =
     (case v of
        YMap kvs \<Rightarrow> Inr (map (\<lambda>(name, i). (name, doc i)) kvs)
      | _ \<Rightarrow> (case yaml_names v ''children'' grp of
                Inl e \<Rightarrow> Inl e
              | Inr names \<Rightarrow> Inr (map (\<lambda>name. (name, YNull)) names)))"

definition add_entries :: "string \<Rightarrow> string list \<Rightarrow> builder \<Rightarrow> scope_fault + builder" where
  "add_entries grp entries b =
     each (\<lambda>entry b. case expand_entry entry of Inl e \<Rightarrow> Inl e | Inr hosts \<Rightarrow> Inr (fold (add_host grp) hosts b)) entries b"

text \<open>\<open>_load_yaml_group\<close>; the mapping that wraps a whole document has its children given directly.\<close>

function load_yaml_group ::
  "(nat \<Rightarrow> yaml_node) \<Rightarrow> nat \<Rightarrow> string \<Rightarrow> yaml_node \<Rightarrow> builder \<Rightarrow> scope_fault + builder" where
  "load_yaml_group doc depth name body b =
     (if depth > MAX_YAML_DEPTH then Inl (ScopeError NestedTooDeep)
      else (case body of
         YNull \<Rightarrow> Inr (ensure_group name b)
       | YMap kvs \<Rightarrow>
           each (\<lambda>(key, i) b.
               if key = ''vars'' then Inr b
               else if key = ''hosts'' then
                 (case yaml_names (doc i) key name of
                    Inl e \<Rightarrow> Inl e
                  | Inr entries \<Rightarrow> add_entries name entries b)
               else if key = ''children'' then
                 (case yaml_children doc (doc i) name of
                    Inl e \<Rightarrow> Inl e
                  | Inr kids \<Rightarrow>
                      each (\<lambda>(kid, kid_body) b. load_yaml_group doc (Suc depth) kid kid_body (add_child name kid b)) kids b)
               else Inl (ScopeError (UnsupportedKey name key)))
             kvs (ensure_group name b)
       | _ \<Rightarrow> Inl (ScopeError (GroupNotMapping name))))"
  by pat_completeness auto
termination
  by (relation "measure (\<lambda>(doc, depth, _). Suc MAX_YAML_DEPTH - depth)") auto

declare load_yaml_group.simps [simp del]

definition load_yaml :: "(nat \<Rightarrow> yaml_node) \<Rightarrow> (string \<times> nat) list \<Rightarrow> builder \<Rightarrow> scope_fault + builder" where
  "load_yaml doc kvs b =
     each (\<lambda>(kid, i) b. load_yaml_group doc 1 kid (doc i) (add_child SCOPE_ALL kid b)) kvs (ensure_group SCOPE_ALL b)"

definition ini_header :: "string \<Rightarrow> string option" where
  "ini_header line =
     (let inner = butlast (tl line)
      in if 2 \<le> length line \<and> hd line = CHR ''['' \<and> last line = CHR '']'' \<and> inner \<noteq> [] \<and> CHR '']'' \<notin> set inner
         then Some (strip inner) else None)"

definition ini_section :: "string \<Rightarrow> scope_fault + (string \<times> group_mode)" where
  "ini_section name =
     (if CHR '':'' \<notin> set name then Inr (name, ModeHosts)
      else (let parts = split_on (CHR '':'') name; base = join_with '':'' (butlast parts)
            in if last parts = ''children'' then Inr (base, ModeChildren)
               else if last parts = ''vars'' then Inr (base, ModeVars)
               else Inl (ScopeError (UnsupportedSection name))))"

definition ini_line :: "string \<Rightarrow> string \<times> group_mode \<times> builder \<Rightarrow> scope_fault + (string \<times> group_mode \<times> builder)" where
  "ini_line raw s =
     (case s of (grp, mode, b) \<Rightarrow>
        (let line = strip raw
         in if line = [] \<or> hd line = CHR ''#'' \<or> hd line = CHR '';'' then Inr s
            else (case ini_header line of
               Some title \<Rightarrow>
                 (case ini_section title of
                    Inl e \<Rightarrow> Inl e
                  | Inr (grp', mode') \<Rightarrow> Inr (grp', mode', ensure_group grp' b))
             | None \<Rightarrow>
                 (let entry = takeWhile (\<lambda>c. \<not> is_space c) line
                  in case mode of
                       ModeVars \<Rightarrow> Inr s
                     | ModeChildren \<Rightarrow> Inr (grp, mode, add_child grp entry b)
                     | ModeHosts \<Rightarrow>
                         (case add_entries grp [entry] b of
                            Inl e \<Rightarrow> Inl e
                          | Inr b' \<Rightarrow> Inr (grp, mode, b'))))))"

definition load_ini :: "string \<Rightarrow> builder \<Rightarrow> scope_fault + builder" where
  "load_ini text b =
     (case each ini_line (splitlines text) (UNGROUPED, ModeHosts, ensure_group UNGROUPED b) of
        Inl e \<Rightarrow> Inl e
      | Inr (_, _, b') \<Rightarrow> Inr b')"

text \<open>\<open>_load_source\<close>: \<open>None\<close> is a text that cannot be read.\<close>

definition load_source :: "(string \<Rightarrow> yaml_read) \<Rightarrow> string option \<Rightarrow> builder \<Rightarrow> scope_fault + builder" where
  "load_source yaml text b =
     (case text of
        None \<Rightarrow> Inl (ScopeError UnreadableInventory)
      | Some t \<Rightarrow>
          (case yaml t of
             YamlBroken \<Rightarrow> Inl (ScopeError UnreadableInventory)
           | YamlDoc doc (YMap kvs) \<Rightarrow> load_yaml doc kvs b
           | _ \<Rightarrow> load_ini t b))"

section \<open>What \<open>ansible-inventory\<close> prints\<close>

datatype ansible_run = AnsibleSilent | AnsibleRan int "jval option"

definition meta_hosts :: "jval \<Rightarrow> scope_fault + string list" where
  "meta_hosts body =
     (case body of
        JObj kvs \<Rightarrow>
          (case jget kvs ''hostvars'' of
             JNull \<Rightarrow> Inr []
           | JObj vars \<Rightarrow> Inr (map fst vars)
           | _ \<Rightarrow> Inl (ScopeError (AnsibleShape ''hostvars'')))
      | _ \<Rightarrow> Inl (ScopeError (AnsibleShape ''_meta'')))"

definition json_names :: "jval \<Rightarrow> string \<Rightarrow> scope_fault + string list" where
  "json_names v key =
     (case v of
        JNull \<Rightarrow> Inr []
      | JList xs \<Rightarrow> collect (\<lambda>x. case x of JStr s \<Rightarrow> Inr [s] | _ \<Rightarrow> Inl (ScopeError (AnsibleShape key))) xs
      | _ \<Rightarrow> Inl (ScopeError (AnsibleShape key)))"

definition load_json_group :: "string \<Rightarrow> jval \<Rightarrow> builder \<Rightarrow> scope_fault + builder" where
  "load_json_group name body b =
     (case body of
        JNull \<Rightarrow> Inr (ensure_group name b)
      | JObj kvs \<Rightarrow>
          each (\<lambda>(key, v) b.
              if key = ''vars'' then Inr b
              else if key = ''hosts'' then
                (case json_names v key of Inl e \<Rightarrow> Inl e | Inr hosts \<Rightarrow> Inr (fold (add_host name) hosts b))
              else if key = ''children'' then
                (case json_names v key of Inl e \<Rightarrow> Inl e | Inr kids \<Rightarrow> Inr (fold (add_child name) kids b))
              else Inl (ScopeError (UnsupportedKey name key)))
            kvs (ensure_group name b)
      | _ \<Rightarrow> Inl (ScopeError (GroupNotMapping name)))"

definition inventory_from_json :: "jval option \<Rightarrow> scope_fault + inventory" where
  "inventory_from_json out =
     (case out of
        None \<Rightarrow> Inl (ScopeError AnsibleNoJson)
      | Some (JObj groups) \<Rightarrow>
          (case each (\<lambda>(name, body) b.
               if name = ''_meta'' then
                 (case meta_hosts body of
                    Inl e \<Rightarrow> Inl e
                  | Inr hosts \<Rightarrow> Inr (b\<lparr>b_hosts := fold set_add hosts (b_hosts b)\<rparr>))
               else load_json_group name body b) groups new_builder of
             Inl e \<Rightarrow> Inl e
           | Inr b \<Rightarrow> Inr (build_inventory b))
      | Some _ \<Rightarrow> Inl (ScopeError (AnsibleShape ''groups'')))"


section \<open>Which inventory is read\<close>

record dir_entry =
  de_name :: string
  de_file :: bool
  de_text :: "string option"

datatype inventory_path = InventoryFile "string option" | InventoryDir "dir_entry list option"

record scope_env =
  se_binary :: bool
  se_ansible :: "string option \<Rightarrow> ansible_run"
  se_path :: "string \<Rightarrow> inventory_path option"
  se_yaml :: "string \<Rightarrow> yaml_read"
  se_urlhost :: "string \<Rightarrow> py_exn + string option"

definition ansible_inventory :: "scope_env \<Rightarrow> string option \<Rightarrow> scope_fault + inventory" where
  "ansible_inventory env path =
     (case se_ansible env path of
        AnsibleSilent \<Rightarrow> Inl (ScopeError AnsibleNoAnswer)
      | AnsibleRan code out \<Rightarrow> (if code \<noteq> 0 then Inl (ScopeError (AnsibleExited code)) else inventory_from_json out))"

definition IGNORED_SUFFIXES :: "string list" where
  "IGNORED_SUFFIXES = [''.pyc'', ''.pyo'', ''.swp'', ''.bak'', ''.orig'', ''.retry'', ''.cfg'', ''.md'', ''.txt'', ''.rst'', ''.ini'']"

text \<open>\<open>Path.suffix\<close> of a name.\<close>

definition path_suffix :: "string \<Rightarrow> string" where
  "path_suffix name =
     (let parts = split_on (CHR ''.'') name; ext = last parts
      in if length parts = 1 \<or> ext = [] \<or> length name = length ext + 1 then [] else CHR ''.'' # ext)"

definition read_as_inventory :: "dir_entry \<Rightarrow> bool" where
  "read_as_inventory e \<longleftrightarrow> de_file e \<and> \<not> starts_with ''.'' (de_name e) \<and>
     (de_name e = [] \<or> last (de_name e) \<noteq> CHR ''~'') \<and> lower (path_suffix (de_name e)) \<notin> set IGNORED_SUFFIXES"

definition inventory_files :: "dir_entry list option \<Rightarrow> scope_fault + string option list" where
  "inventory_files entries =
     (case entries of
        None \<Rightarrow> Inl (ScopeError UnreadableInventory)
      | Some es \<Rightarrow>
          (let files = filter read_as_inventory (sort_key de_name es)
           in if files = [] then Inl (ScopeError EmptyInventoryDirectory) else Inr (map de_text files)))"

definition load_inventory :: "scope_env \<Rightarrow> inventory_path \<Rightarrow> scope_fault + inventory" where
  "load_inventory env path =
     (case (case path of InventoryFile text \<Rightarrow> Inr [text] | InventoryDir es \<Rightarrow> inventory_files es) of
        Inl e \<Rightarrow> Inl e
      | Inr sources \<Rightarrow>
          (case each (load_source (se_yaml env)) sources new_builder of
             Inl e \<Rightarrow> Inl e
           | Inr b \<Rightarrow> Inr (build_inventory b)))"

definition read_inventory :: "scope_env \<Rightarrow> string \<Rightarrow> inventory_path \<Rightarrow> scope_fault + (inventory \<times> string)" where
  "read_inventory env project path =
     (if se_binary env
      then map_sum id (\<lambda>i. (i, EXPANDER_ANSIBLE)) (ansible_inventory env (Some project))
      else map_sum id (\<lambda>i. (i, EXPANDER_PARSER)) (load_inventory env path))"

definition read_inventory_uncached :: "scope_env \<Rightarrow> string \<Rightarrow> scope_fault + (inventory \<times> string)" where
  "read_inventory_uncached env project =
     (case se_path env project of
        Some path \<Rightarrow> read_inventory env project path
      | None \<Rightarrow>
          (if \<not> se_binary env then Inl (ScopeError (NoInventoryAt project))
           else map_sum id (\<lambda>i. (i, EXPANDER_ANSIBLE_CONFIG)) (ansible_inventory env None)))"

text \<open>\<open>_read_inventory_for\<close> with the cache of one action; \<open>None\<close> is a call outside an action.\<close>

type_synonym read_cache = "(string, scope_error + (inventory \<times> string)) dict option"

definition read_inventory_for ::
  "scope_env \<Rightarrow> string \<Rightarrow> read_cache \<Rightarrow> (scope_fault + (inventory \<times> string)) \<times> read_cache" where
  "read_inventory_for env project cache =
     (case cache of
        None \<Rightarrow> (read_inventory_uncached env project, None)
      | Some c \<Rightarrow>
          (case dict_get c project of
             Some (Inl e) \<Rightarrow> (Inl (ScopeError e), cache)
           | Some (Inr a) \<Rightarrow> (Inr a, cache)
           | None \<Rightarrow>
               (case read_inventory_uncached env project of
                  Inl (ScopeError e) \<Rightarrow> (Inl (ScopeError e), Some (dict_set project (Inl e) c))
                | Inl (Escapes x) \<Rightarrow> (Inl (Escapes x), cache)
                | Inr a \<Rightarrow> (Inr a, Some (dict_set project (Inr a) c)))))"


section \<open>Patterns\<close>

text \<open>\<open>fnmatchcase\<close> for a pattern without brackets.\<close>

fun fnmatch :: "string \<Rightarrow> string \<Rightarrow> bool" where
  "fnmatch [] s = (s = [])"
| "fnmatch (p # ps) s =
     (if p = CHR ''*'' then fnmatch ps s \<or> (case s of [] \<Rightarrow> False | _ # cs \<Rightarrow> fnmatch (p # ps) cs)
      else (case s of [] \<Rightarrow> False | c # cs \<Rightarrow> (p = CHR ''?'' \<or> p = c) \<and> fnmatch ps cs))"

definition glob_hits :: "string \<Rightarrow> inventory \<Rightarrow> string list" where
  "glob_hits term iv =
     concat (map snd (filter (\<lambda>(name, _). fnmatch term name) (inv_groups iv))) @
     filter (fnmatch term) (inv_hosts iv)"

definition glob_match :: "string \<Rightarrow> inventory \<Rightarrow> scope_fault + string list" where
  "glob_match term iv = (if glob_hits term iv = [] then Inl (ScopeError (NoMatch term)) else Inr (glob_hits term iv))"

definition expand_term :: "string \<Rightarrow> inventory \<Rightarrow> scope_fault + (string list \<times> bool)" where
  "expand_term term iv =
     (if term = [] then Inl (ScopeError EmptyTerm)
      else (case List.find (\<lambda>c. c \<in> set term) UNSUPPORTED_PATTERN_CHARS of
         Some c \<Rightarrow> Inl (ScopeError (UnsupportedPatternChar c))
       | None \<Rightarrow>
           (if term = SCOPE_ALL \<or> term = ''*'' then Inr (inv_hosts iv, True)
            else if list_ex (\<lambda>c. c \<in> set term) GLOB_CHARS then map_sum id (\<lambda>hs. (hs, True)) (glob_match term iv)
            else (case dict_get (inv_groups iv) term of
                    Some hs \<Rightarrow> Inr (hs, False)
                  | None \<Rightarrow> (if term \<in> set (inv_hosts iv) then Inr ([term], False)
                            else Inl (ScopeError (NoMatch term)))))))"

definition expand_pattern :: "string \<Rightarrow> inventory \<Rightarrow> scope_fault + (string list \<times> bool)" where
  "expand_pattern pattern iv =
     (case each (\<lambda>part (hosts, unbounded).
            case expand_term (strip part) iv of
              Inl e \<Rightarrow> Inl e
            | Inr (hs, u) \<Rightarrow> Inr (fold set_add hs hosts, unbounded \<or> u))
          (split_on (CHR '','') pattern) ([], False) of
        Inl e \<Rightarrow> Inl e
      | Inr (hosts, unbounded) \<Rightarrow>
          (if hosts = [] then Inl (ScopeError (NoMatch pattern))
           else if length hosts > MAX_RESOLVED_HOSTS then Inl (ScopeError (TooManyHosts (length hosts)))
           else Inr (hosts, unbounded)))"


section \<open>The scope of a server\<close>

definition config_text :: "server \<Rightarrow> string \<Rightarrow> string" where
  "config_text sv k = (case dict_get (server_config sv) k of None \<Rightarrow> [] | Some v \<Rightarrow> v)"

definition single_host :: "server \<Rightarrow> string \<Rightarrow> scope_fault + scope_resolution" where
  "single_host sv k =
     (let v = strip (config_text sv k)
      in if v = [] then Inl (ScopeError (NoConfigField k))
         else Inr \<lparr>res_scope = SCOPE_HOST, res_hosts = [v], res_pattern = Some v, res_expander = EXPANDER_CONFIG\<rparr>)"

definition api_host :: "scope_env \<Rightarrow> server \<Rightarrow> scope_fault + scope_resolution" where
  "api_host env sv =
     (let url = strip (config_text sv ''baseUrl'')
      in case (if url = [] then Inr None else se_urlhost env url) of
           Inl x \<Rightarrow> Inl (Escapes x)
         | Inr host \<Rightarrow>
             (case host of
                Some h \<Rightarrow>
                  (if h = [] then Inl (ScopeError (BaseUrlWithoutHost url))
                   else Inr \<lparr>res_scope = SCOPE_HOST, res_hosts = [h], res_pattern = Some url, res_expander = EXPANDER_CONFIG\<rparr>)
              | None \<Rightarrow> Inl (ScopeError (BaseUrlWithoutHost url))))"

definition scope_for :: "string list \<Rightarrow> bool \<Rightarrow> string" where
  "scope_for hosts unbounded =
     (if unbounded then SCOPE_ALL else if length hosts > 1 then SCOPE_GROUP else SCOPE_HOST)"

definition ansible_pattern :: "server \<Rightarrow> string" where
  "ansible_pattern sv =
     strip (if config_text sv ''inventoryHost'' \<noteq> [] then config_text sv ''inventoryHost'' else config_text sv ''group'')"

definition project_path :: "server \<Rightarrow> string" where
  "project_path sv = (if config_text sv ''projectPath'' = [] then ''.'' else config_text sv ''projectPath'')"

definition resolve_ansible :: "scope_env \<Rightarrow> server \<Rightarrow> read_cache \<Rightarrow> (scope_fault + scope_resolution) \<times> read_cache" where
  "resolve_ansible env sv cache =
     (let pattern = ansible_pattern sv
      in if pattern = [] then (Inl (ScopeError NoTargetField), cache)
         else (case read_inventory_for env (project_path sv) cache of
            (Inl e, cache') \<Rightarrow> (Inl e, cache')
          | (Inr (iv, expander), cache') \<Rightarrow>
              (case expand_pattern pattern iv of
                 Inl e \<Rightarrow> (Inl e, cache')
               | Inr (hosts, unbounded) \<Rightarrow>
                   (Inr \<lparr>res_scope = scope_for hosts unbounded, res_hosts = sort hosts, res_pattern = Some pattern,
                         res_expander = expander\<rparr>, cache'))))"

definition resolve_scope :: "scope_env \<Rightarrow> server \<Rightarrow> read_cache \<Rightarrow> (scope_fault + scope_resolution) \<times> read_cache" where
  "resolve_scope env sv cache =
     (if provider_id sv = ''ssh'' then (single_host sv ''host'', cache)
      else if provider_id sv = ''ssm'' then (single_host sv ''instanceId'', cache)
      else if provider_id sv = ''api'' then (api_host env sv, cache)
      else if provider_id sv = ''ansible-runner'' then resolve_ansible env sv cache
      else (Inl (ScopeError (UnknownProviderId (provider_id sv))), cache))"

definition resolve_scope_label :: "scope_env \<Rightarrow> server \<Rightarrow> read_cache \<Rightarrow> (py_exn + string) \<times> read_cache" where
  "resolve_scope_label env sv cache =
     (case resolve_scope env sv cache of
        (Inl (ScopeError _), c) \<Rightarrow> (Inr UNRESOLVED, c)
      | (Inl (Escapes x), c) \<Rightarrow> (Inl x, c)
      | (Inr r, c) \<Rightarrow> (Inr (res_scope r), c))"

section \<open>Facts of the inventory\<close>

text \<open>The hosts of a group are its own and those of every group below it, however the chain of children
  turns back on itself.\<close>

definition child_rel :: "builder \<Rightarrow> (string \<times> string) set" where
  "child_rel b = {(g, c). c \<in> set (names_at (b_children b) g)}"

definition closure_hosts :: "builder \<Rightarrow> string set \<Rightarrow> string set" where
  "closure_hosts b gs = (\<Union>g \<in> (child_rel b)\<^sup>* `` gs. set (names_at (b_group_hosts b) g))"

text \<open>The walk visits what it has seen and what it reaches without passing a group it has seen.\<close>

lemma walk_sound:
  "set (walk_groups b todo seen hosts) \<subseteq> set hosts \<union> closure_hosts b (set todo)"
proof (induction b todo seen hosts rule: walk_groups.induct)
  case (2 b g todo seen hosts)
  have mono: "closure_hosts b (set todo) \<subseteq> closure_hosts b (set (g # todo))"
    by (auto simp: closure_hosts_def)
  show ?case
  proof (cases "g \<in> set seen")
    case True
    with 2(1) mono show ?thesis by auto
  next
    case False
    have "(child_rel b)\<^sup>* `` set (names_at (b_children b) g) \<subseteq> (child_rel b)\<^sup>* `` {g}"
      by (auto simp: child_rel_def intro: converse_rtrancl_into_rtrancl)
    then have "closure_hosts b (set (names_at (b_children b) g @ todo)) \<subseteq> closure_hosts b (set (g # todo))"
      by (auto simp: closure_hosts_def)
    moreover have "set (names_at (b_group_hosts b) g) \<subseteq> closure_hosts b (set (g # todo))"
      by (auto simp: closure_hosts_def)
    moreover have "set (walk_groups b (g # todo) seen hosts) \<subseteq>
        set (hosts @ names_at (b_group_hosts b) g) \<union> closure_hosts b (set (names_at (b_children b) g @ todo))"
      using 2(2) False by simp
    ultimately show ?thesis unfolding set_append by blast
  qed
qed simp

text \<open>Completeness: the groups seen keep their children seen or waiting.\<close>

lemma walk_complete:
  assumes "\<And>g. g \<in> set seen \<Longrightarrow> set (names_at (b_group_hosts b) g) \<subseteq> set hosts"
    and "\<And>g c. g \<in> set seen \<Longrightarrow> c \<in> set (names_at (b_children b) g) \<Longrightarrow> c \<in> set seen \<union> set todo"
  shows "set hosts \<union> closure_hosts b (set seen \<union> set todo) \<subseteq> set (walk_groups b todo seen hosts)"
  using assms
proof (induction b todo seen hosts rule: walk_groups.induct)
  case (1 b seen hosts)
  have "h \<in> set seen" if "(g, h) \<in> (child_rel b)\<^sup>*" "g \<in> set seen" for g h
    using that by (induction rule: rtrancl_induct) (use 1(2) in \<open>auto simp: child_rel_def\<close>)
  with 1(1) show ?case by (auto simp: closure_hosts_def)
next
  case (2 b g todo seen hosts)
  show ?case
  proof (cases "g \<in> set seen")
    case True
    then have *: "set seen \<union> set (g # todo) = set seen \<union> set todo" by auto
    have "set hosts \<union> closure_hosts b (set seen \<union> set todo) \<subseteq> set (walk_groups b todo seen hosts)"
      by (rule 2(1) [OF True 2(3)]) (use 2(4) * in blast)+
    with True show ?thesis unfolding * by simp
  next
    case False
    have "set (hosts @ names_at (b_group_hosts b) g) \<union>
        closure_hosts b (set (g # seen) \<union> set (names_at (b_children b) g @ todo))
        \<subseteq> set (walk_groups b (names_at (b_children b) g @ todo) (g # seen) (hosts @ names_at (b_group_hosts b) g))"
      by (rule 2(2) [OF False]) (use 2(3,4) in auto)
    moreover have "closure_hosts b (set seen \<union> set (g # todo)) \<subseteq>
        closure_hosts b (set (g # seen) \<union> set (names_at (b_children b) g @ todo))"
      by (auto simp: closure_hosts_def)
    ultimately show ?thesis using False by (simp, blast)
  qed
qed

lemma set_hosts_of: "set (hosts_of b g) = closure_hosts b {g}"
  using walk_sound [of b "[g]" "[]" "[]"] walk_complete [of "[]" b "[]" "[g]"] by (auto simp: hosts_of_def)

text \<open>Every host of a group is a host of the inventory.\<close>

definition hosts_known :: "builder \<Rightarrow> bool" where
  "hosts_known b \<longleftrightarrow> (\<forall>g. set (names_at (b_group_hosts b) g) \<subseteq> set (b_hosts b))"

lemma names_at_setdefault [simp]: "names_at (dict_setdefault g [] d) k = names_at d k"
  by (simp add: names_at_def)

lemma names_at_set [simp]: "names_at (dict_set g xs d) k = (if k = g then xs else names_at d k)"
  by (simp add: names_at_def)

lemma builder_simps [simp]:
  "names_at (b_group_hosts (ensure_group g b)) k = names_at (b_group_hosts b) k"
  "names_at (b_children (ensure_group g b)) k = names_at (b_children b) k"
  "b_hosts (ensure_group g b) = b_hosts b"
  "names_at (b_group_hosts (add_host g h b)) k =
     (if k = g then set_add h (names_at (b_group_hosts b) g) else names_at (b_group_hosts b) k)"
  "b_hosts (add_host g h b) = set_add h (b_hosts b)"
  "names_at (b_group_hosts (add_child g c b)) k = names_at (b_group_hosts b) k"
  "b_hosts (add_child g c b) = b_hosts b"
  by (simp_all add: ensure_group_def add_host_def add_child_def Let_def)

lemma set_fold_set_add [simp]: "set (fold set_add ys xs) = set xs \<union> set ys"
  by (induction ys arbitrary: xs) auto

lemma hosts_known_ops [keeps]:
  "hosts_known new_builder" "hosts_known b \<Longrightarrow> hosts_known (ensure_group g b)"
  "hosts_known b \<Longrightarrow> hosts_known (add_host g h b)" "hosts_known b \<Longrightarrow> hosts_known (add_child g c b)"
  "hosts_known b \<Longrightarrow> hosts_known (b\<lparr>b_hosts := fold set_add hosts (b_hosts b)\<rparr>)"
  by (auto simp: hosts_known_def new_builder_def names_at_def [of "[]"])

lemma fold_keeps: "P b \<Longrightarrow> (\<And>x b. P b \<Longrightarrow> P (f x b)) \<Longrightarrow> P (fold f xs b)"
  by (induction xs arbitrary: b) auto

lemma add_entries_known [keeps]: "add_entries g es b = Inr b' \<Longrightarrow> hosts_known b \<Longrightarrow> hosts_known b'"
  unfolding add_entries_def by (erule each_keeps) (auto split: sum.splits intro!: fold_keeps keeps)

lemma load_yaml_group_known [keeps]:
  "load_yaml_group doc depth name body b = Inr b' \<Longrightarrow> hosts_known b \<Longrightarrow> hosts_known b'"
proof (induction "Suc MAX_YAML_DEPTH - depth" arbitrary: depth name body b b' rule: less_induct)
  case less
  note load = less.prems(1) [unfolded load_yaml_group.simps [of doc depth name body b]]
  from load have deep: "depth \<le> MAX_YAML_DEPTH" by (auto split: if_splits)
  have start: "hosts_known (ensure_group name b)" using less.prems(2) by (rule keeps)
  have kids: "hosts_known b2"
    if "each (\<lambda>(kid, kid_body) b. load_yaml_group doc (Suc depth) kid kid_body (add_child name kid b)) ks b1 = Inr b2"
      "hosts_known b1" for ks b1 b2
    using that
  proof (rule each_keeps)
    fix x b3 b4
    assume "(case x of (kid, kid_body) \<Rightarrow> \<lambda>b. load_yaml_group doc (Suc depth) kid kid_body (add_child name kid b)) b3 = Inr b4"
      "hosts_known b3"
    then show "hosts_known b4"
      using less.hyps [of "Suc depth" _ _ "add_child name (fst x) b3" b4] deep hosts_known_ops(4) by (cases x) auto
  qed
  show ?case
  proof (cases body)
    case (YMap kvs)
    from load deep YMap show ?thesis
      by (simp split: if_splits) (erule each_keeps [where P = hosts_known], rule start, auto split: if_splits sum.splits prod.splits intro: kids keeps)
  qed (use load deep start in auto)
qed

lemma ini_line_known: "ini_line l (g, m, b) = Inr (g', m', b') \<Longrightarrow> hosts_known b \<Longrightarrow> hosts_known b'"
  by (auto simp: ini_line_def Let_def intro: keeps split: if_splits option.splits sum.splits prod.splits group_mode.splits)

lemma load_source_known [keeps]: "load_source yaml txt b = Inr b' \<Longrightarrow> hosts_known b \<Longrightarrow> hosts_known b'"
proof -
  assume load: "load_source yaml txt b = Inr b'" and b: "hosts_known b"
  have yaml: "hosts_known b2" if "load_yaml doc kvs b = Inr b2" for doc kvs b2
    using that b unfolding load_yaml_def
    by (elim each_keeps) (auto split: prod.splits intro: keeps)
  have "hosts_known b2" if "load_ini t b = Inr b2" for t b2
  proof -
    from that obtain g m where "each ini_line (splitlines t) (UNGROUPED, ModeHosts, ensure_group UNGROUPED b) = Inr (g, m, b2)"
      by (auto simp: load_ini_def split: sum.splits)
    then have "hosts_known (snd (snd (g, m, b2)))"
      by (rule each_keeps) (use b ini_line_known in \<open>auto intro: keeps\<close>)
    then show ?thesis by simp
  qed
  with yaml load show ?thesis
    by (auto simp: load_source_def split: option.splits yaml_read.splits yaml_node.splits)
qed

lemma load_json_group_known [keeps]: 
  assumes "load_json_group name body b = Inr b'" "hosts_known b"
  shows "hosts_known b'"
proof (cases body)
  case (JObj kvs)
  have hosts: "hosts_known (fold (add_host name) hs b)" "hosts_known (fold (add_child name) hs b)" if "hosts_known b" for hs b
    using that by (auto intro: fold_keeps keeps)
  from assms(1) show ?thesis unfolding load_json_group_def JObj jval.case
    by (rule each_keeps [where P = hosts_known]) (use assms(2) hosts in \<open>auto split: prod.splits if_splits sum.splits intro: keeps\<close>)
qed (use assms in \<open>auto simp: load_json_group_def intro: keeps\<close>)

definition inventory_ok :: "inventory \<Rightarrow> bool" where
  "inventory_ok iv \<longleftrightarrow> list_all (\<lambda>(g, hs). set hs \<subseteq> set (inv_hosts iv)) (inv_groups iv)"

lemma build_ok: "hosts_known b \<Longrightarrow> inventory_ok (build_inventory b)"
  by (force simp: inventory_ok_def build_inventory_def hosts_known_def list_all_iff set_hosts_of closure_hosts_def
      dest!: dict_set_values)

lemma read_inventory_ok: "read_inventory_uncached env p = Inr (iv, x) \<Longrightarrow> inventory_ok iv"
proof -
  assume read: "read_inventory_uncached env p = Inr (iv, x)"
  have json: "inventory_ok i" if "inventory_from_json out = Inr i" for out i
  proof -
    from that obtain groups b where "i = build_inventory b" and b: "each (\<lambda>(name, body) b.
        if name = ''_meta'' then
          (case meta_hosts body of Inl e \<Rightarrow> Inl e | Inr hosts \<Rightarrow> Inr (b\<lparr>b_hosts := fold set_add hosts (b_hosts b)\<rparr>))
        else load_json_group name body b) groups new_builder = Inr b"
      by (auto simp: inventory_from_json_def split: option.splits jval.splits sum.splits)
    moreover have "hosts_known b" using b
      by (rule each_keeps) (auto split: prod.splits if_splits sum.splits intro: keeps)
    ultimately show ?thesis by (simp add: build_ok)
  qed
  have "inventory_ok i" if "load_inventory env path = Inr i" for path i
  proof -
    from that obtain sources b where "i = build_inventory b"
      and b: "each (load_source (se_yaml env)) sources new_builder = Inr b"
      by (auto simp: load_inventory_def split: sum.splits)
    moreover have "hosts_known b" using b by (rule each_keeps) (auto intro: keeps)
    ultimately show ?thesis by (simp add: build_ok)
  qed
  with json read show ?thesis
    by (auto simp: read_inventory_uncached_def read_inventory_def ansible_inventory_def map_sum_def
        split: option.splits if_splits sum.splits ansible_run.splits)
qed

section \<open>Facts of patterns\<close>

text \<open>A pattern that also covers hosts added later: a term is \<open>all\<close> or holds a glob character.\<close>

definition open_term :: "string \<Rightarrow> bool" where
  "open_term term \<longleftrightarrow> term = SCOPE_ALL \<or> list_ex (\<lambda>c. c \<in> set term) GLOB_CHARS"

definition open_ended :: "string \<Rightarrow> bool" where
  "open_ended pattern \<longleftrightarrow> list_ex (\<lambda>part. open_term (strip part)) (split_on (CHR '','') pattern)"

lemma expand_term_open:
  "expand_term term iv = Inr (hs, u) \<Longrightarrow> u \<longleftrightarrow> open_term term"
  by (auto simp: expand_term_def open_term_def GLOB_CHARS_def map_sum_def split: if_splits option.splits sum.splits)

lemma expand_term_known:
  "expand_term term iv = Inr (hs, u) \<Longrightarrow> inventory_ok iv \<Longrightarrow> set hs \<subseteq> set (inv_hosts iv)"
  by (force simp: expand_term_def glob_match_def glob_hits_def inventory_ok_def list_all_iff map_sum_def
      dest!: dict_get_SomeD split: if_splits option.splits sum.splits)

lemma distinct_fold_set_add [simp]: "distinct xs \<Longrightarrow> distinct (fold set_add ys xs)"
  by (induction ys arbitrary: xs) (auto simp: set_add_def)

lemma expand_terms:
  assumes "each (\<lambda>part (hosts, unbounded). case expand_term (strip part) iv of
      Inl e \<Rightarrow> Inl e | Inr (hs, u) \<Rightarrow> Inr (fold set_add hs hosts, unbounded \<or> u)) parts (hosts, u0) = Inr (hosts', u')"
  shows "(u' \<longleftrightarrow> u0 \<or> list_ex (\<lambda>part. open_term (strip part)) parts) \<and> (distinct hosts \<longrightarrow> distinct hosts') \<and>
    (inventory_ok iv \<longrightarrow> set hosts \<subseteq> set (inv_hosts iv) \<longrightarrow> set hosts' \<subseteq> set (inv_hosts iv))"
  using assms
proof (induction parts arbitrary: hosts u0)
  case (Cons part parts)
  from Cons.prems obtain hs u where e: "expand_term (strip part) iv = Inr (hs, u)"
    and rest: "each (\<lambda>part (hosts, unbounded). case expand_term (strip part) iv of
      Inl e \<Rightarrow> Inl e | Inr (hs, u) \<Rightarrow> Inr (fold set_add hs hosts, unbounded \<or> u)) parts (fold set_add hs hosts, u0 \<or> u) =
      Inr (hosts', u')"
    by (auto split: sum.splits prod.splits)
  from Cons.IH [OF rest] expand_term_open [OF e] expand_term_known [OF e] show ?case by auto
qed simp

lemma expand_pattern_facts:
  assumes "expand_pattern pattern iv = Inr (hosts, unbounded)"
  shows "hosts \<noteq> []" "length hosts \<le> MAX_RESOLVED_HOSTS" "distinct hosts" "unbounded \<longleftrightarrow> open_ended pattern"
    "inventory_ok iv \<Longrightarrow> set hosts \<subseteq> set (inv_hosts iv)"
  using assms expand_terms [of iv "split_on (CHR '','') pattern" "[]" False hosts unbounded]
  by (auto simp: expand_pattern_def open_ended_def split: sum.splits if_splits)

lemma resolve_ansible_Inr:
  assumes "resolve_ansible env sv cache = (Inr r, c)"
  obtains iv x hosts unbounded where "read_inventory_for env (project_path sv) cache = (Inr (iv, x), c)"
    "expand_pattern (ansible_pattern sv) iv = Inr (hosts, unbounded)"
    "r = \<lparr>res_scope = scope_for hosts unbounded, res_hosts = sort hosts, res_pattern = Some (ansible_pattern sv),
       res_expander = x\<rparr>"
  using assms by (auto simp: resolve_ansible_def Let_def split: if_splits prod.splits sum.splits)

lemma single_resolution:
  assumes "resolve_scope env sv cache = (Inr r, c)" "provider_id sv \<noteq> ''ansible-runner''"
  shows "res_scope r = SCOPE_HOST \<and> (\<exists>h. res_hosts r = [h]) \<and> c = cache"
  using assms
  by (auto simp: resolve_scope_def single_host_def api_host_def Let_def split: if_splits sum.splits option.splits)

lemma read_again:
  assumes "read_inventory_for env p (Some c) = (Inr a, c')"
  shows "read_inventory_for env' p c' = (Inr a, c')"
proof -
  from assms obtain d where "c' = Some d" "dict_get d p = Some (Inr a)"
    by (auto simp: read_inventory_for_def split: option.splits sum.splits scope_fault.splits)
  then show ?thesis by (simp add: read_inventory_for_def)
qed


lemma resolution_facts:
  assumes "resolve_scope env sv cache = (Inr r, c)"
  shows "res_hosts r \<noteq> [] \<and> length (res_hosts r) \<le> 1024 \<and> sorted (res_hosts r) \<and> distinct (res_hosts r) \<and>
    res_scope r = (if provider_id sv = ''ansible-runner'' \<and> open_ended (ansible_pattern sv) then SCOPE_ALL
      else if length (res_hosts r) = 1 then SCOPE_HOST else SCOPE_GROUP)"
proof (cases "provider_id sv = ''ansible-runner''")
  case True
  with assms have "resolve_ansible env sv cache = (Inr r, c)" by (simp add: resolve_scope_def)
  then obtain iv x hosts unbounded where "expand_pattern (ansible_pattern sv) iv = Inr (hosts, unbounded)"
    "r = \<lparr>res_scope = scope_for hosts unbounded, res_hosts = sort hosts, res_pattern = Some (ansible_pattern sv),
       res_expander = x\<rparr>"
    by (rule resolve_ansible_Inr)
  note r = this(2) and facts = expand_pattern_facts(1-4) [OF this(1)]
  from facts(1) have "0 < length hosts" by simp
  then have n: "length hosts > 1 \<longleftrightarrow> length hosts \<noteq> 1" by linarith
  have "sort hosts \<noteq> []" using facts(1) by (metis set_empty2 set_sort)
  then show ?thesis
    using True facts(2-4) n by (cases "length hosts = 1") (simp_all add: r scope_for_def MAX_RESOLVED_HOSTS_def)
next
  case False
  with single_resolution [OF assms] show ?thesis by auto
qed


section \<open>A server to evaluate on\<close>

definition ansible_server :: "string \<Rightarrow> server" where
  "ansible_server grp = \<lparr>server_id = ''s'', server_name = ''w'', provider_id = ''ansible-runner'',
     server_config = [(''group'', grp)], secret_ref = None, server_tags = [], created_at = [], updated_at = [],
     notes_updated_at = None\<rparr>"

definition parser_env :: "string \<Rightarrow> scope_env" where
  "parser_env text = \<lparr>se_binary = False, se_ansible = (\<lambda>_. AnsibleSilent), se_path = (\<lambda>_. Some (InventoryFile (Some text))),
     se_yaml = (\<lambda>_. YamlError), se_urlhost = (\<lambda>_. Inr None)\<rparr>"

definition web_inventory :: string where "web_inventory = ''[web]'' @ [CHR 0x0A] @ ''w[01:02]''"

definition web_resolved :: "(scope_fault + scope_resolution) \<times> read_cache" where
  "web_resolved = resolve_scope (parser_env web_inventory) (ansible_server ''web'') (Some [])"

definition web_resolution :: scope_resolution where
  "web_resolution = \<lparr>res_scope = ''group'', res_hosts = [''w01'', ''w02''], res_pattern = Some ''web'', res_expander = EXPANDER_PARSER\<rparr>"

lemma web_resolves: "resolve_scope (parser_env web_inventory) (ansible_server ''web'') (Some []) = (Inr web_resolution, snd web_resolved)"
proof -
  have "fst web_resolved = Inr web_resolution" by code_simp
  then show ?thesis by (cases web_resolved) (simp add: web_resolved_def)
qed


section \<open>Properties\<close>

text \<open>C10. A group holds its own hosts and those of every group reachable through its children, and the
  walk returns on every inventory, a cycle of children included.\<close>

theorem group_holds_reachable_hosts:
  "set (hosts_of b g) = (\<Union>k \<in> (child_rel b)\<^sup>* `` {g}. set (names_at (b_group_hosts b) k))"
  by (simp add: set_hosts_of closure_hosts_def)

text \<open>C9. What a resolution says: at least one host and at most 1024, sorted and without duplicates; its scope is
  \<open>all\<close> exactly for an ansible pattern with an open term, and otherwise the number of hosts decides.\<close>

theorem resolved_scope_counts_hosts:
  assumes "resolve_scope env sv cache = (Inr r, c)"
  shows "res_hosts r \<noteq> [] \<and> length (res_hosts r) \<le> 1024 \<and> sorted (res_hosts r) \<and> distinct (res_hosts r) \<and>
    res_scope r = (if provider_id sv = ''ansible-runner'' \<and> open_ended (ansible_pattern sv) then SCOPE_ALL
      else if length (res_hosts r) = 1 then SCOPE_HOST else SCOPE_GROUP)"
  by (rule resolution_facts [OF assms])

theorem resolved_scope_counts_hosts_witness:
  "res_hosts web_resolution \<noteq> [] \<and> length (res_hosts web_resolution) \<le> 1024 \<and> sorted (res_hosts web_resolution) \<and>
    distinct (res_hosts web_resolution) \<and>
    res_scope web_resolution = (if provider_id (ansible_server ''web'') = ''ansible-runner'' \<and>
      open_ended (ansible_pattern (ansible_server ''web'')) then SCOPE_ALL
      else if length (res_hosts web_resolution) = 1 then SCOPE_HOST else SCOPE_GROUP)"
  by (rule resolved_scope_counts_hosts [OF web_resolves])

text \<open>No host is made up: the resolver names only hosts of the inventory it read, whichever expander read it.\<close>

theorem resolved_hosts_in_inventory:
  assumes "resolve_scope env sv None = (Inr r, c)" "provider_id sv = ''ansible-runner''"
  shows "\<exists>iv. read_inventory_uncached env (project_path sv) = Inr (iv, res_expander r) \<and>
    set (res_hosts r) \<subseteq> set (inv_hosts iv)"
proof -
  from assms have "resolve_ansible env sv None = (Inr r, c)" by (simp add: resolve_scope_def)
  then obtain iv x hosts unbounded where *: "read_inventory_for env (project_path sv) None = (Inr (iv, x), c)"
    "expand_pattern (ansible_pattern sv) iv = Inr (hosts, unbounded)"
    "r = \<lparr>res_scope = scope_for hosts unbounded, res_hosts = sort hosts, res_pattern = Some (ansible_pattern sv),
       res_expander = x\<rparr>"
    by (rule resolve_ansible_Inr)
  then have "read_inventory_uncached env (project_path sv) = Inr (iv, x)" by (simp add: read_inventory_for_def)
  with * expand_pattern_facts(5) [OF *(2)] read_inventory_ok show ?thesis by auto
qed

theorem resolved_hosts_in_inventory_witness:
  "\<exists>(r :: scope_resolution) iv. read_inventory_uncached (parser_env web_inventory) (project_path (ansible_server ''web'')) = Inr (iv, res_expander r) \<and>
    set (res_hosts r) \<subseteq> set (inv_hosts iv)"
proof -
  have "case resolve_scope (parser_env web_inventory) (ansible_server ''web'') None of (Inr r, c) \<Rightarrow> True | _ \<Rightarrow> False"
    by code_simp
  then obtain r c where "resolve_scope (parser_env web_inventory) (ansible_server ''web'') None = (Inr r, c)"
    by (auto split: prod.splits sum.splits)
  then have "\<exists>iv. read_inventory_uncached (parser_env web_inventory) (project_path (ansible_server ''web'')) =
      Inr (iv, res_expander r) \<and> set (res_hosts r) \<subseteq> set (inv_hosts iv)"
    by (rule resolved_hosts_in_inventory) (simp add: ansible_server_def)
  then show ?thesis by blast
qed

text \<open>One action sees one inventory: once a resolution succeeded inside an action, every later one in that
  action returns the same hosts, whatever happened to the files or to ansible in between. So the hosts
  the guard checked are the hosts the gate decides on and the prompt shows.\<close>

theorem action_sees_one_inventory:
  assumes "resolve_scope env sv (Some c) = (Inr r, c')" "provider_id sv = ''ansible-runner''"
  shows "resolve_scope env' sv c' = (Inr r, c')"
proof -
  from assms have "resolve_ansible env sv (Some c) = (Inr r, c')" by (simp add: resolve_scope_def)
  then obtain iv x hosts unbounded where *: "read_inventory_for env (project_path sv) (Some c) = (Inr (iv, x), c')"
    "expand_pattern (ansible_pattern sv) iv = Inr (hosts, unbounded)"
    "r = \<lparr>res_scope = scope_for hosts unbounded, res_hosts = sort hosts, res_pattern = Some (ansible_pattern sv),
       res_expander = x\<rparr>"
    by (rule resolve_ansible_Inr)
  moreover from assms have "ansible_pattern sv \<noteq> []"
    by (auto simp: resolve_scope_def resolve_ansible_def split: if_splits)
  ultimately show ?thesis
    using assms(2) read_again [OF *(1), of env'] by (simp add: resolve_scope_def resolve_ansible_def)
qed

theorem action_sees_one_inventory_witness:
  "resolve_scope (parser_env ''w9'') (ansible_server ''web'') (snd web_resolved) = (Inr web_resolution, snd web_resolved)"
  by (rule action_sees_one_inventory [OF web_resolves]) (simp add: ansible_server_def)

text \<open>The label of an observation record is documented never to raise. It raises: \<open>str.isdigit\<close> accepts the
  superscript two, \<open>int\<close> does not, and the \<open>ValueError\<close> is no \<open>ScopeResolutionError\<close>.\<close>

theorem scope_label_raises:
  "fst (resolve_scope_label (parser_env (''w['' @ [char_of (178::nat)] @ '':3]'')) (ansible_server ''all'') None) = Inl ValueError"
proof -
  have "isl (fst (resolve_scope_label (parser_env (''w['' @ [char_of (178::nat)] @ '':3]'')) (ansible_server ''all'') None)) \<and>
    projl (fst (resolve_scope_label (parser_env (''w['' @ [char_of (178::nat)] @ '':3]'')) (ansible_server ''all'') None)) = ValueError"
    by code_simp
  then show ?thesis by (metis sum.collapse(1))
qed

end
