(* ===== verification/NetGuard.thy ===== *)
theory NetGuard
  imports Inventory "HOL-Library.Word"
begin

unbundle bit_operations_syntax

text \<open>
  Which addresses code may connect to: \<open>nanoinfra/servers/network_guard.py\<close> for the targets of servers and
  \<open>nanoinfra/security/network.py\<close> for URLs. Addresses are machine words as Python's \<open>ipaddress\<close> keeps
  them, read from text the way that module reads them. The resolver (\<open>getaddrinfo\<close>) is a parameter, and
  so is \<open>urlparse\<close>. An answer of \<open>getaddrinfo\<close> is the list of address texts it names.
\<close>

section \<open>Addresses\<close>

datatype ip_addr = V4 "32 word" | V6 "128 word"

datatype ip_network = Net4 "32 word" nat | Net6 "128 word" nat

text \<open>\<open>address in network\<close>: the address under the netmask is the network; across families \<open>False\<close>.\<close>

definition netmask :: "nat \<Rightarrow> 'a::len word" where
  "netmask p = NOT (mask (LENGTH('a) - p))"

fun in_network :: "ip_addr \<Rightarrow> ip_network \<Rightarrow> bool" where
  "in_network (V4 a) (Net4 n p) = (a AND netmask p = n)"
| "in_network (V6 a) (Net6 n p) = (a AND netmask p = n)"
| "in_network _ _ = False"

text \<open>\<open>IPv6Address.ipv4_mapped\<close> and \<open>_normalize_addr\<close>, which the two modules share.\<close>

definition ipv4_mapped :: "128 word \<Rightarrow> 32 word option" where
  "ipv4_mapped a = (if drop_bit 32 a = 0xFFFF then Some (ucast a) else None)"

fun normalize_addr :: "ip_addr \<Rightarrow> ip_addr" where
  "normalize_addr (V6 a) = (case ipv4_mapped a of Some b \<Rightarrow> V4 b | None \<Rightarrow> V6 a)"
| "normalize_addr (V4 a) = V4 a"

text \<open>\<open>is_loopback\<close>; newer releases of Python answer for the mapped address too.\<close>

fun is_loopback :: "ip_addr \<Rightarrow> bool" where
  "is_loopback (V4 a) = in_network (V4 a) (Net4 0x7F000000 8)"
| "is_loopback (V6 a) = (a = 1)"


section \<open>Reading an address\<close>

text \<open>One octet of \<open>_parse_octet\<close>: at most three ASCII digits, no leading zero, at most 255.\<close>

definition parse_octet :: "string \<Rightarrow> nat option" where
  "parse_octet s =
     (if s = [] \<or> \<not> list_all digit_char s \<or> 3 < length s then None
      else if s \<noteq> ''0'' \<and> hd s = CHR ''0'' then None
      else if 255 < digits_value s then None else Some (digits_value s))"

definition bytes_word :: "nat list \<Rightarrow> 'a::len word" where
  "bytes_word ns = foldl (\<lambda>w n. push_bit 8 w OR of_nat n) 0 ns"

definition parse_ipv4 :: "string \<Rightarrow> 32 word option" where
  "parse_ipv4 s =
     (let octets = split_on (CHR ''.'') s
      in if CHR ''/'' \<in> set s \<or> length octets \<noteq> 4 \<or> list_ex (\<lambda>x. parse_octet x = None) octets then None
         else Some (bytes_word (map (\<lambda>x. the (parse_octet x)) octets)))"

definition hex_value :: "char \<Rightarrow> nat option" where
  "hex_value c = (let n = (of_char c :: nat) in
     if 48 \<le> n \<and> n \<le> 57 then Some (n - 48) else if 97 \<le> n \<and> n \<le> 102 then Some (n - 87)
     else if 65 \<le> n \<and> n \<le> 70 then Some (n - 55) else None)"

text \<open>\<open>_parse_hextet\<close>. The empty text has the hexadecimal characters \<open>int\<close> then refuses.\<close>

definition parse_hextet :: "string \<Rightarrow> 16 word option" where
  "parse_hextet s =
     (if s = [] \<or> list_ex (\<lambda>c. hex_value c = None) s \<or> 4 < length s then None
      else Some (foldl (\<lambda>w c. push_bit 4 w OR of_nat (the (hex_value c))) 0 s))"

definition hextets_word :: "16 word list \<Rightarrow> 128 word" where
  "hextets_word hs = foldl (\<lambda>w h. push_bit 16 w OR ucast h) 0 hs"

text \<open>The hextets of the text: an embedded IPv4 address counts as two.\<close>

definition ipv6_parts :: "string \<Rightarrow> string list \<Rightarrow> (string + 16 word) list option" where
  "ipv6_parts s parts =
     (if CHR ''.'' \<in> set (last parts)
      then (case parse_ipv4 (last parts) of
              None \<Rightarrow> None
            | Some a \<Rightarrow> Some (map Inl (butlast parts) @ [Inr (ucast (drop_bit 16 a)), Inr (ucast a)]))
      else Some (map Inl parts))"

fun part_value :: "string + 16 word \<Rightarrow> 16 word option" where
  "part_value (Inl s) = parse_hextet s"
| "part_value (Inr h) = Some h"

definition blank :: "string + 16 word \<Rightarrow> bool" where
  "blank x \<longleftrightarrow> x = Inl []"

definition part_values :: "(string + 16 word) list \<Rightarrow> 16 word list option" where
  "part_values xs = (if list_ex (\<lambda>x. part_value x = None) xs then None else Some (map (\<lambda>x. the (part_value x)) xs))"

text \<open>\<open>IPv6Address._ip_int_from_string\<close>\<close>

definition parse_ipv6_body :: "string \<Rightarrow> 128 word option" where
  "parse_ipv6_body s =
     (let raw = split_on (CHR '':'') s
      in if s = [] \<or> length raw < 3 then None
         else (case ipv6_parts s raw of
            None \<Rightarrow> None
          | Some parts \<Rightarrow>
              (let n = length parts; skips = filter (\<lambda>i. blank (parts ! i)) [1..<n - 1]
               in if 9 < n \<or> 1 < length skips then None
                  else (case skips of
                     i # _ \<Rightarrow>
                       (let hi = (if blank (parts ! 0) then i - 1 else i);
                            lo = (if blank (parts ! (n - 1)) then n - i - 2 else n - i - 1)
                        in if (blank (parts ! 0) \<and> hi \<noteq> 0) \<or> (blank (parts ! (n - 1)) \<and> lo \<noteq> 0) \<or> 8 < hi + lo + 1
                           then None
                           else (case (part_values (take hi parts), part_values (drop (n - lo) parts)) of
                                   (Some his, Some los) \<Rightarrow>
                                     Some (hextets_word (his @ replicate (8 - (hi + lo)) 0 @ los))
                                 | _ \<Rightarrow> None))
                   | [] \<Rightarrow>
                       (if n \<noteq> 8 \<or> blank (parts ! 0) \<or> blank (parts ! (n - 1)) then None
                        else map_option hextets_word (part_values parts))))))"

text \<open>A scope id follows the first percent sign, is not empty and holds no other.\<close>

definition parse_ipv6 :: "string \<Rightarrow> 128 word option" where
  "parse_ipv6 s =
     (let body = takeWhile (\<lambda>c. c \<noteq> CHR ''%'') s; rest = dropWhile (\<lambda>c. c \<noteq> CHR ''%'') s
      in if CHR ''/'' \<in> set s \<or> (rest \<noteq> [] \<and> (tl rest = [] \<or> CHR ''%'' \<in> set (tl rest))) then None
         else parse_ipv6_body body)"

text \<open>\<open>ipaddress.ip_address\<close>; \<open>None\<close> is its \<open>ValueError\<close>.\<close>

definition ip_address :: "string \<Rightarrow> ip_addr option" where
  "ip_address s = (case parse_ipv4 s of Some a \<Rightarrow> Some (V4 a) | None \<Rightarrow> map_option V6 (parse_ipv6 s))"


section \<open>Targets of servers\<close>

datatype dns_answer = DnsFails | DnsRaises py_exn | DnsNames "string list"

definition SERVER_BLOCKED :: "ip_network list" where
  "SERVER_BLOCKED = [Net4 0 8, Net4 0x7F000000 8, Net4 0xA9FE0000 16, Net6 0 128, Net6 1 128,
     Net6 0xFE800000000000000000000000000000 10]"

definition is_blocked :: "ip_addr \<Rightarrow> bool" where
  "is_blocked a \<longleftrightarrow> list_ex (in_network (normalize_addr a)) SERVER_BLOCKED"

datatype target_refusal = BlockedLiteral string | CannotResolveHost string | ResolvesToBlocked string ip_addr

text \<open>\<open>List.map_filter\<close> on the answers drops what is no address, as the loop does with \<open>continue\<close>.\<close>

definition validate_server_target :: "(string \<Rightarrow> dns_answer) \<Rightarrow> string \<Rightarrow> py_exn + target_refusal option" where
  "validate_server_target dns host =
     (case ip_address host of
        Some a \<Rightarrow> Inr (if is_blocked a then Some (BlockedLiteral host) else None)
      | None \<Rightarrow>
          (case dns host of
             DnsRaises x \<Rightarrow> Inl x
           | DnsFails \<Rightarrow> Inr (Some (CannotResolveHost host))
           | DnsNames names \<Rightarrow>
               Inr (map_option (ResolvesToBlocked host) (List.find is_blocked (List.map_filter ip_address names)))))"


section \<open>URLs\<close>

definition URL_BLOCKED :: "ip_network list" where
  "URL_BLOCKED = [Net4 0 8, Net4 0x0A000000 8, Net4 0x64400000 10, Net4 0x7F000000 8, Net4 0xA9FE0000 16,
     Net4 0xAC100000 12, Net4 0xC0A80000 16, Net6 0 128, Net6 1 128,
     Net6 0xFC000000000000000000000000000000 7, Net6 0xFE800000000000000000000000000000 10]"

text \<open>\<open>_is_private\<close> under the configured exceptions \<open>allowed\<close>.\<close>

definition is_private :: "ip_network list \<Rightarrow> ip_addr \<Rightarrow> bool" where
  "is_private allowed a \<longleftrightarrow>
     \<not> list_ex (in_network (normalize_addr a)) allowed \<and> list_ex (in_network (normalize_addr a)) URL_BLOCKED"

record url_parts =
  url_scheme :: string
  url_netloc :: string
  url_hostname :: "string option"

definition rstrip_dots :: "string \<Rightarrow> string" where
  "rstrip_dots s = rev (dropWhile (\<lambda>c. c = CHR ''.'') (rev s))"

definition ends_with :: "string \<Rightarrow> string \<Rightarrow> bool" where
  "ends_with s suffix \<longleftrightarrow> starts_with (rev suffix) (rev s)"

definition allowed_loopback_target :: "string \<Rightarrow> ip_addr list \<Rightarrow> bool" where
  "allowed_loopback_target hostname addrs \<longleftrightarrow>
     addrs \<noteq> [] \<and> list_all (\<lambda>a. is_loopback (normalize_addr a)) addrs \<and>
     (lower (rstrip_dots hostname) = ''localhost'' \<or>
      (case ip_address hostname of None \<Rightarrow> False | Some a \<Rightarrow> is_loopback a))"

datatype url_refusal =
    UrlUnparsed | SchemeNotHttp string | MissingDomain | MissingHostname | HostUnresolved string
  | LocalName string | PrivateLiteral ip_addr | ResolvesToPrivate string ip_addr

text \<open>\<open>dict.fromkeys\<close>: the first occurrence of each.\<close>

definition first_of_each :: "'a list \<Rightarrow> 'a list" where
  "first_of_each xs = rev (remdups (rev xs))"

definition resolve_url_target ::
  "ip_network list \<Rightarrow> (string \<Rightarrow> url_parts option) \<Rightarrow> (string \<Rightarrow> dns_answer) \<Rightarrow> string \<Rightarrow> bool \<Rightarrow> bool \<Rightarrow>
   py_exn + (url_refusal + ip_addr list)" where
  "resolve_url_target allowed parse dns url allow_loopback trust_remote_dns =
     (case parse url of
        None \<Rightarrow> Inr (Inl UrlUnparsed)
      | Some p \<Rightarrow>
          (if url_scheme p \<notin> {''http'', ''https''} then Inr (Inl (SchemeNotHttp (url_scheme p)))
           else if url_netloc p = [] then Inr (Inl MissingDomain)
           else (case url_hostname p of
              None \<Rightarrow> Inr (Inl MissingHostname)
            | Some [] \<Rightarrow> Inr (Inl MissingHostname)
            | Some hostname \<Rightarrow>
                (case dns hostname of
                   DnsRaises x \<Rightarrow> Inl x
                 | DnsFails \<Rightarrow>
                     (if \<not> trust_remote_dns then Inr (Inl (HostUnresolved hostname))
                      else (let name = lower (rstrip_dots hostname)
                            in if name = ''localhost'' \<or> ends_with name ''.localhost'' then Inr (Inl (LocalName hostname))
                               else (case ip_address name of
                                  None \<Rightarrow> Inr (Inr [])
                                | Some a \<Rightarrow> (if is_private allowed a then Inr (Inl (PrivateLiteral a))
                                            else Inr (Inr [normalize_addr a])))))
                 | DnsNames names \<Rightarrow>
                     (let addrs = List.map_filter ip_address names;
                          ok = Inr (Inr (first_of_each (map normalize_addr addrs)))
                      in if allow_loopback \<and> allowed_loopback_target hostname addrs then ok
                         else (case List.find (is_private allowed) addrs of
                                 Some a \<Rightarrow> Inr (Inl (ResolvesToPrivate hostname a))
                               | None \<Rightarrow> ok))))))"

text \<open>\<open>validate_resolved_url\<close>, after a redirect: what cannot be read or resolved passes.\<close>

definition validate_resolved_url ::
  "ip_network list \<Rightarrow> (string \<Rightarrow> url_parts option) \<Rightarrow> (string \<Rightarrow> dns_answer) \<Rightarrow> string \<Rightarrow> py_exn + url_refusal option" where
  "validate_resolved_url allowed parse dns url =
     (case Option.bind (parse url) url_hostname of
        None \<Rightarrow> Inr None
      | Some [] \<Rightarrow> Inr None
      | Some hostname \<Rightarrow>
          (case ip_address hostname of
             Some a \<Rightarrow> Inr (if is_private allowed a then Some (PrivateLiteral a) else None)
           | None \<Rightarrow>
               (case dns hostname of
                  DnsRaises x \<Rightarrow> Inl x
                | DnsFails \<Rightarrow> Inr None
                | DnsNames names \<Rightarrow>
                    Inr (map_option (ResolvesToPrivate hostname)
                      (List.find (is_private allowed) (List.map_filter ip_address names))))))"

text \<open>The resolver while a request runs (\<open>pin_resolved_url_dns\<close>): the pinned host has the addresses validated
  for it, every other host the later answer. Without addresses there is no pin.\<close>

definition pinned_lookup ::
  "(string \<Rightarrow> ip_addr list) \<Rightarrow> string \<Rightarrow> ip_addr list \<Rightarrow> string \<Rightarrow> ip_addr list" where
  "pinned_lookup later hostname ips host =
     (if hostname = [] \<or> ips = [] then later host
      else if lower (rstrip_dots host) \<noteq> lower (rstrip_dots hostname) then later host
      else ips)"

text \<open>One request of \<open>PinnedDNSAsyncTransport\<close>: refused, or the addresses its connection may use. \<open>later\<close> is what
  the resolver answers when the connection is made.\<close>

definition pinned_request ::
  "ip_network list \<Rightarrow> (string \<Rightarrow> url_parts option) \<Rightarrow> (string \<Rightarrow> dns_answer) \<Rightarrow> (string \<Rightarrow> ip_addr list) \<Rightarrow> bool \<Rightarrow> string \<Rightarrow>
   py_exn + (url_refusal + ip_addr list)" where
  "pinned_request allowed parse dns later allow_loopback url =
     (case resolve_url_target allowed parse dns url allow_loopback False of
        Inl x \<Rightarrow> Inl x
      | Inr (Inl r) \<Rightarrow> Inr (Inl r)
      | Inr (Inr ips) \<Rightarrow>
          (case Option.bind (parse url) url_hostname of
             None \<Rightarrow> Inr (Inr [])
           | Some h \<Rightarrow> Inr (Inr (pinned_lookup later h ips h))))"

section \<open>Networks as ranges\<close>

lemma masked_range:
  fixes a :: "'a::len word"
  assumes "k \<le> LENGTH('a)" "q * 2 ^ k < 2 ^ LENGTH('a)"
  shows "a AND NOT (mask k) = of_nat (q * 2 ^ k) \<longleftrightarrow> unat a div 2 ^ k = q"
proof -
  have "a AND NOT (mask k) = push_bit k (drop_bit k a)"
    by (rule bit_word_eqI) (auto simp: bit_simps)
  moreover have "unat (push_bit k (drop_bit k a)) = unat a div 2 ^ k * 2 ^ k"
  proof -
    have "unat a div 2 ^ k * 2 ^ k \<le> unat a" by simp
    also have "unat a < 2 ^ LENGTH('a)" by (rule unsigned_less)
    finally have "unat a div 2 ^ k * 2 ^ k < 2 ^ LENGTH('a)" .
    moreover have "unat (drop_bit k a) = unat a div 2 ^ k"
      using drop_bit_eq_div [of k "unat a"] unsigned_drop_bit_eq [of k a] by (simp add: unat_drop_bit_eq)
    ultimately show ?thesis
      using push_bit_eq_mult [of k "unat (drop_bit k a)"] unsigned_push_bit_eq [of k "drop_bit k a", where ?'a = nat]
      by (simp add: take_bit_eq_mod)
  qed
  moreover have "unat (of_nat (q * 2 ^ k) :: 'a word) = q * 2 ^ k"
    by (simp only: unsigned_of_nat take_bit_nat_eq_self [OF assms(2)] of_nat_id)
  ultimately show ?thesis by (metis mult_cancel2 power_not_zero word_unat_eq_iff zero_neq_numeral)
qed

text \<open>A network of prefix \<open>p\<close> whose first address is \<open>q\<close> blocks of its size.\<close>

lemma in_network4:
  assumes "p \<le> 32" "unat n = q * 2 ^ (32 - p)"
  shows "in_network (V4 a) (Net4 n p) \<longleftrightarrow> unat a div 2 ^ (32 - p) = q"
proof -
  have "n = of_nat (unat n)" by simp
  then have "n = of_nat (q * 2 ^ (32 - p))" unfolding assms(2) .
  moreover have "q * 2 ^ (32 - p) < 2 ^ LENGTH(32)" using assms(2) unsigned_less [of n, where ?'a = nat] by simp
  ultimately show ?thesis using masked_range [of "32 - p" q a] assms(1) by (simp add: netmask_def)
qed

lemma in_network6:
  assumes "p \<le> 128" "unat n = q * 2 ^ (128 - p)"
  shows "in_network (V6 a) (Net6 n p) \<longleftrightarrow> unat a div 2 ^ (128 - p) = q"
proof -
  have "n = of_nat (unat n)" by simp
  then have "n = of_nat (q * 2 ^ (128 - p))" unfolding assms(2) .
  moreover have "q * 2 ^ (128 - p) < 2 ^ LENGTH(128)" using assms(2) unsigned_less [of n, where ?'a = nat] by simp
  ultimately show ?thesis using masked_range [of "128 - p" q a] assms(1) by (simp add: netmask_def)
qed

lemma ipv4_mapped_iff: "ipv4_mapped a = Some b \<longleftrightarrow> unat a = 0xFFFF * 2 ^ 32 + unat b"
proof
  assume m: "ipv4_mapped a = Some b"
  then have "unat a div 2 ^ 32 = 0xFFFF" "b = ucast a"
    using unat_drop_bit_eq [of 32 a] by (auto simp: ipv4_mapped_def drop_bit_eq_div split: if_splits)
  moreover have "unat (ucast a :: 32 word) = unat a mod 2 ^ 32" by (simp add: unsigned_ucast_eq take_bit_eq_mod)
  ultimately show "unat a = 0xFFFF * 2 ^ 32 + unat b" by (metis div_mult_mod_eq)
next
  assume u: "unat a = 0xFFFF * 2 ^ 32 + unat b"
  have b: "unat b < 2 ^ 32" using unsigned_less [of b] by simp
  have "drop_bit 32 (unat a) = 0xFFFF" using u b by (simp add: drop_bit_eq_div)
  then have "drop_bit 32 a = 0xFFFF" unfolding word_eq_iff_unsigned [where ?'a = nat] by (simp add: unat_drop_bit_eq)
  moreover have "unat a mod 2 ^ 32 = unat b" unfolding u using b by (simp only: mod_mult_self3 mod_less)
  then have "unat (ucast a :: 32 word) = unat b" by (simp add: unsigned_ucast_eq take_bit_eq_mod)
  then have "(ucast a :: 32 word) = b" by (simp add: word_unat_eq_iff)
  ultimately show "ipv4_mapped a = Some b" by (simp add: ipv4_mapped_def)
qed

lemma in_blocked4:
  "in_network (V4 a) (Net4 0 8) \<longleftrightarrow> unat a div 2 ^ 24 = 0"
  "in_network (V4 a) (Net4 0x0A000000 8) \<longleftrightarrow> unat a div 2 ^ 24 = 10"
  "in_network (V4 a) (Net4 0x7F000000 8) \<longleftrightarrow> unat a div 2 ^ 24 = 127"
  "in_network (V4 a) (Net4 0x64400000 10) \<longleftrightarrow> unat a div 2 ^ 22 = 100 * 4 + 1"
  "in_network (V4 a) (Net4 0xAC100000 12) \<longleftrightarrow> unat a div 2 ^ 20 = 172 * 16 + 1"
  "in_network (V4 a) (Net4 0xA9FE0000 16) \<longleftrightarrow> unat a div 2 ^ 16 = 169 * 256 + 254"
  "in_network (V4 a) (Net4 0xC0A80000 16) \<longleftrightarrow> unat a div 2 ^ 16 = 192 * 256 + 168"
  by (subst in_network4; simp)+

lemma in_blocked6:
  "in_network (V6 a) (Net6 0 128) \<longleftrightarrow> unat a = 0"
  "in_network (V6 a) (Net6 1 128) \<longleftrightarrow> unat a = 1"
  "in_network (V6 a) (Net6 0xFC000000000000000000000000000000 7) \<longleftrightarrow> unat a div 2 ^ 121 = 0x7E"
  "in_network (V6 a) (Net6 0xFE800000000000000000000000000000 10) \<longleftrightarrow> unat a div 2 ^ 118 = 0x3FA"
  by (subst in_network6; simp)+

lemma in_other_family [simp]: "\<not> in_network (V4 a) (Net6 n p)" "\<not> in_network (V6 b) (Net4 m p)"
  by simp_all

lemma normalize_idem [simp]: "normalize_addr (normalize_addr a) = normalize_addr a"
  by (cases a) (auto split: option.split)

lemma private_normalize [simp]: "is_private allowed (normalize_addr a) = is_private allowed a"
  by (simp add: is_private_def)

lemma set_first_of_each [simp]: "set (first_of_each xs) = set xs"
  by (simp add: first_of_each_def)

lemma find_None_all: "List.find P xs = None \<longleftrightarrow> list_all (\<lambda>x. \<not> P x) xs"
  by (auto simp: find_None_iff list_all_iff)


section \<open>Properties\<close>

text \<open>The targets no server may have, by their numbers: the first octet 0 or 127 or the first two 169.254; in
  IPv6 the unspecified and the loopback address and \<open>fe80::/10\<close>; and an IPv6 address that maps an IPv4
  address exactly when that address is one of them, so no spelling of the metadata address passes.\<close>

theorem blocked_addresses:
  "(is_blocked (V4 a) \<longleftrightarrow> unat a div 2 ^ 24 \<in> {0, 127} \<or> unat a div 2 ^ 16 = 169 * 256 + 254) \<and>
   (is_blocked (V6 b) \<longleftrightarrow> (case ipv4_mapped b of Some c \<Rightarrow> is_blocked (V4 c)
     | None \<Rightarrow> unat b \<le> 1 \<or> unat b div 2 ^ 118 = 0x3FA)) \<and>
   (ipv4_mapped b = Some a \<longleftrightarrow> unat b = 0xFFFF * 2 ^ 32 + unat a)"
proof (intro conjI)
  show "is_blocked (V4 a) \<longleftrightarrow> unat a div 2 ^ 24 \<in> {0, 127} \<or> unat a div 2 ^ 16 = 169 * 256 + 254"
    by (simp add: is_blocked_def SERVER_BLOCKED_def in_blocked4 del: in_network.simps)
  show "is_blocked (V6 b) \<longleftrightarrow> (case ipv4_mapped b of Some c \<Rightarrow> is_blocked (V4 c)
      | None \<Rightarrow> unat b \<le> 1 \<or> unat b div 2 ^ 118 = 0x3FA)"
  proof (cases "ipv4_mapped b")
    case None
    then have "is_blocked (V6 b) \<longleftrightarrow> in_network (V6 b) (Net6 0 128) \<or> in_network (V6 b) (Net6 1 128) \<or>
        in_network (V6 b) (Net6 0xFE800000000000000000000000000000 10)"
      by (simp add: is_blocked_def SERVER_BLOCKED_def del: in_network.simps)
    also have "\<dots> \<longleftrightarrow> unat b = 0 \<or> unat b = 1 \<or> unat b div 2 ^ 118 = 0x3FA" unfolding in_blocked6 ..
    also have "\<dots> \<longleftrightarrow> unat b \<le> 1 \<or> unat b div 2 ^ 118 = 0x3FA" by linarith
    finally show ?thesis using None by simp
  qed (simp add: is_blocked_def)
  show "ipv4_mapped b = Some a \<longleftrightarrow> unat b = 0xFFFF * 2 ^ 32 + unat a" by (rule ipv4_mapped_iff)
qed

text \<open>What the URL guard refuses includes what the guard of servers refuses.\<close>

lemma url_guard_stricter: "is_blocked a \<Longrightarrow> is_private [] a"
  by (auto simp: is_blocked_def is_private_def SERVER_BLOCKED_def URL_BLOCKED_def simp del: in_network.simps)

text \<open>A server target is accepted exactly when it is an address that is not blocked, or a name that resolves
  and none of whose addresses is blocked.\<close>

theorem server_target_accepted_iff:
  "validate_server_target dns host = Inr None \<longleftrightarrow>
    (case ip_address host of
       Some a \<Rightarrow> \<not> is_blocked a
     | None \<Rightarrow> (case dns host of DnsNames names \<Rightarrow> list_all (\<lambda>a. \<not> is_blocked a) (List.map_filter ip_address names)
                               | _ \<Rightarrow> False))"
  by (auto simp: validate_server_target_def find_None_all split: option.split dns_answer.split)

text \<open>Against rebinding: a request through the pinned transport that is let through connects to addresses that
  were validated and are not private, whatever the resolver answers when the connection is made. The one
  exception is a lookup that returned no readable address; then nothing is pinned.\<close>

theorem pinned_request_public:
  assumes "pinned_request allowed parse dns later False url = Inr (Inr ips)"
  shows "\<exists>p host names. parse url = Some p \<and> url_hostname p = Some host \<and> dns host = DnsNames names \<and>
    (if List.map_filter ip_address names = [] then ips = later host
     else set ips = normalize_addr ` set (List.map_filter ip_address names) \<and>
       list_all (\<lambda>a. \<not> is_private allowed a) ips)"
proof -
  from assms obtain ok where r: "resolve_url_target allowed parse dns url False False = Inr (Inr ok)"
    and i: "ips = (case Option.bind (parse url) url_hostname of None \<Rightarrow> [] | Some h \<Rightarrow> pinned_lookup later h ok h)"
    by (auto simp: pinned_request_def split: sum.splits option.splits)
  from r obtain p host names where h: "parse url = Some p" "url_hostname p = Some host" "host \<noteq> []" "dns host = DnsNames names"
    "ok = first_of_each (map normalize_addr (List.map_filter ip_address names))"
    "List.find (is_private allowed) (List.map_filter ip_address names) = None"
    by (auto simp: resolve_url_target_def Let_def split: option.splits list.splits dns_answer.splits if_splits)
  from h i have ips: "ips = (if ok = [] then later host else ok)" by (simp add: pinned_lookup_def)
  have "ok = [] \<longleftrightarrow> List.map_filter ip_address names = []"
    by (metis h(5) list.map_disc_iff set_empty2 set_first_of_each)
  moreover have "set ok = normalize_addr ` set (List.map_filter ip_address names)" by (simp add: h(5))
  moreover from this h(6) have "list_all (\<lambda>a. \<not> is_private allowed a) ok"
    unfolding find_None_all list_all_iff by auto
  ultimately show ?thesis using h(1,2,4) ips by auto
qed

definition sample_parse :: "string \<Rightarrow> url_parts option" where
  "sample_parse u = Some \<lparr>url_scheme = ''https'', url_netloc = u, url_hostname = Some u\<rparr>"

definition sample_dns :: "string \<Rightarrow> dns_answer" where
  "sample_dns h = DnsNames [''8.8.8.8'']"

theorem pinned_request_public_witness:
  "\<exists>p host names. sample_parse ''x'' = Some p \<and> url_hostname p = Some host \<and> sample_dns host = DnsNames names \<and>
    (if List.map_filter ip_address names = [] then [V4 0x08080808] = [V4 0x7F000001]
     else set [V4 0x08080808] = normalize_addr ` set (List.map_filter ip_address names) \<and>
       list_all (\<lambda>a. \<not> is_private [] a) [V4 0x08080808])"
  by (rule pinned_request_public [where later = "\<lambda>_. [V4 0x7F000001]"]) code_simp

end
