(* ===== verification/Reach.thy ===== *)
theory Reach
  imports ActionTrace Hosts NetGuard
begin

text \<open>
  The executor on the real resolver and the real guard: \<open>env_scope\<close> is \<open>resolve_scope\<close> of
  \<open>servers/scope.py\<close> and \<open>env_check\<close> is \<open>validate_server_target\<close> of \<open>servers/network_guard.py\<close>.
  One action reads one inventory (\<open>action_sees_one_inventory\<close>), so one function of the server stands
  for all its resolutions. An exception the resolver of names raises ends the call; it counts as refused.
\<close>

definition resolver_scope :: "scope_env \<Rightarrow> (scope_fault \<Rightarrow> string) \<Rightarrow> server \<Rightarrow> string + scope_resolution" where
  "resolver_scope senv say sv = map_sum say id (fst (resolve_scope senv sv (Some [])))"

definition checked_target :: "(string \<Rightarrow> dns_answer) \<Rightarrow> (py_exn + target_refusal \<Rightarrow> string) \<Rightarrow> string \<Rightarrow> string option" where
  "checked_target dns text host =
     (case validate_server_target dns host of
        Inl x \<Rightarrow> Some (text (Inl x))
      | Inr None \<Rightarrow> None
      | Inr (Some r) \<Rightarrow> Some (text (Inr r)))"

definition on_network ::
  "exec_env \<Rightarrow> scope_env \<Rightarrow> (scope_fault \<Rightarrow> string) \<Rightarrow> (string \<Rightarrow> dns_answer) \<Rightarrow> (py_exn + target_refusal \<Rightarrow> string) \<Rightarrow> exec_env" where
  "on_network env senv say dns text = env\<lparr>env_scope := resolver_scope senv say, env_check := checked_target dns text\<rparr>"

text \<open>What the transport of a server connects to, as far as the code names it.\<close>

definition targets_of :: "exec_env \<Rightarrow> server \<Rightarrow> string list" where
  "targets_of env sv =
     (if provider_id sv = ''ssh'' then [config_text sv ''host'']
      else if provider_id sv = ''ansible-runner''
      then (case env_scope env sv of Inr r \<Rightarrow> res_hosts r | Inl _ \<Rightarrow> [config_text sv ''inventoryHost''])
      else if provider_id sv = ''api''
      then (case env_urlhost env (config_text sv ''baseUrl'') of Some h \<Rightarrow> [h] | None \<Rightarrow> [])
      else [])"

lemma given_Some: "given v = Some t \<longleftrightarrow> v = Some t \<and> t \<noteq> []"
  by (auto simp: given_def split: option.splits list.splits)

lemma guard_target_None: "guard_target env v = None \<longleftrightarrow> (\<exists>t. v = Some t \<and> t \<noteq> [] \<and> env_check env t = None)"
  by (cases "given v") (auto simp: guard_target_def given_Some, auto simp: given_def split: list.splits)

lemma guard_checks_targets:
  assumes "guard env sv = None"
  shows "list_all (\<lambda>h. env_check env h = None) (targets_of env sv)"
proof -
  consider "provider_id sv = ''ssh''" | "provider_id sv = ''api''" | (ansible) "provider_id sv = ''ansible-runner''"
    | "provider_id sv \<notin> {''ssh'', ''api'', ''ansible-runner''}" by blast
  then show ?thesis
  proof cases
    case ansible
    then have g: "guard env sv = (let target = dict_get (server_config sv) ''inventoryHost''
      in if given target = None \<and> given (dict_get (server_config sv) ''group'') = None then guard_target env target
         else (case env_scope env sv of
                 Inl e \<Rightarrow> (case given target of Some t \<Rightarrow> map_option Blocked (env_check env t) | None \<Rightarrow> Some (CannotResolve e))
               | Inr r \<Rightarrow> (case List.find (\<lambda>h. env_check env h \<noteq> None) (res_hosts r) of
                            None \<Rightarrow> None | Some h \<Rightarrow> map_option OneBlocked (env_check env h))))"
      by (simp add: guard_def Let_def)
    have some: "given (dict_get (server_config sv) ''inventoryHost'') \<noteq> None \<or> given (dict_get (server_config sv) ''group'') \<noteq> None"
    proof (rule ccontr)
      assume none: "\<not> ?thesis"
      then have "guard_target env (dict_get (server_config sv) ''inventoryHost'') = Some NoAddress"
        by (simp add: guard_target_def)
      with g none assms show False by (simp add: Let_def)
    qed
    show ?thesis
    proof (cases "env_scope env sv")
      case (Inl e)
      with g some assms have "\<exists>t. given (dict_get (server_config sv) ''inventoryHost'') = Some t \<and> env_check env t = None"
        by (auto simp: Let_def split: option.splits)
      with ansible Inl show ?thesis by (auto simp: targets_of_def given_Some config_text_def)
    next
      case (Inr r)
      with g some assms have "List.find (\<lambda>h. env_check env h \<noteq> None) (res_hosts r) = None"
        by (auto simp: Let_def find_Some_iff split: option.splits)
      with ansible Inr show ?thesis by (simp add: targets_of_def find_None_all)
    qed
  qed (use assms in \<open>auto simp: guard_def targets_of_def Let_def guard_target_None config_text_def split: option.splits\<close>)
qed

lemma checked_target_None: "checked_target dns text h = None \<longleftrightarrow> validate_server_target dns h = Inr None"
  by (auto simp: checked_target_def split: sum.split option.split)

lemma on_network_check [simp]: "env_check (on_network env senv say dns text) = checked_target dns text"
  by (simp add: on_network_def)


section \<open>Properties\<close>


definition ssh_server :: server where
  "ssh_server = ssm_server\<lparr>provider_id := ''ssh'', server_config := [(''host'', ''10.1.2.3'')]\<rparr>"

definition reach_env :: exec_env where
  "reach_env = on_network ((sample_env ''host'')\<lparr>env_servers := [(replicate 32 CHR ''a'', Some (to_dict ssh_server))]\<rparr>)
     (parser_env []) (\<lambda>_. []) (\<lambda>_. DnsFails) (\<lambda>_. [])"


end
