(* ===== verification/Grants.thy ===== *)
theory Grants
  imports Operator Prompt Policy
begin

text \<open>
  \<open>nanoinfra/gates/derived_grants.py\<close>: the standing grant one approval implies, derived from the payload
  the executor rendered, and its append to the configuration. Dates as text (\<open>strftime\<close>, \<open>isoformat\<close>)
  are the parameters \<open>day\<close> and \<open>stamp\<close>. The configuration file is read twice and written once; each read
  is a result, the write succeeds or raises.
\<close>

section \<open>The grant of an approval\<close>

definition HOUR :: microseconds where "HOUR = 3600 * 10 ^ 6"

text \<open>\<open>GRANT_EXPIRY_CHOICES\<close>: the outer option is the dictionary, the inner one its \<open>None\<close>.\<close>

definition GRANT_EXPIRY_CHOICES :: "(string, microseconds option) dict" where
  "GRANT_EXPIRY_CHOICES = [(''24h'', Some (24 * HOUR)), (''7d'', Some (7 * 24 * HOUR)), (''never'', None)]"

definition PERMANENT_CHOICE :: string where "PERMANENT_CHOICE = ''never''"

definition EXPIRY_WORDS :: "(string, string) dict" where
  "EXPIRY_WORDS = [(''24h'', ''24 hours''), (''7d'', ''7 days''), (PERMANENT_CHOICE, ''never'')]"

definition SLUG_MAX_CHARS :: nat where "SLUG_MAX_CHARS = 24"
definition APPROVAL_ID_CHARS :: nat where "APPROVAL_ID_CHARS = 6"

definition slug_char :: "char \<Rightarrow> bool" where
  "slug_char c \<longleftrightarrow> (let n = (of_char c :: nat) in (97 \<le> n \<and> n \<le> 122) \<or> (48 \<le> n \<and> n \<le> 57))"

text \<open>\<open>_SLUG_ALLOWED.sub("-", s)\<close>: every run of other characters becomes one hyphen.\<close>

lemma dropWhile_shorter [termination_simp]: "length (dropWhile P xs) < Suc (length xs)"
  by (simp add: length_dropWhile_le le_imp_less_Suc)

fun slug_sub :: "string \<Rightarrow> string" where
  "slug_sub [] = []"
| "slug_sub (c # cs) =
     (if slug_char c then c # slug_sub cs else CHR ''-'' # slug_sub (dropWhile (\<lambda>x. \<not> slug_char x) cs))"

definition strip_char :: "char \<Rightarrow> string \<Rightarrow> string" where
  "strip_char c s = rev (dropWhile (\<lambda>x. x = c) (rev (dropWhile (\<lambda>x. x = c) s)))"

definition first_token :: "string \<Rightarrow> string" where
  "first_token command = hd (split_on (CHR '' '') (strip (hd (split_on newline command))))"

definition derived_grant_id :: "(microseconds \<Rightarrow> string) \<Rightarrow> string \<Rightarrow> string \<Rightarrow> microseconds \<Rightarrow> string" where
  "derived_grant_id day command request now =
     (let slug = take SLUG_MAX_CHARS (strip_char (CHR ''-'') (slug_sub (lower (first_token command))));
          suffix = take APPROVAL_ID_CHARS request
      in if slug = [] then ''approval-'' @ day now @ ''-'' @ suffix
         else ''approval-'' @ day now @ ''-'' @ slug @ ''-'' @ suffix)"

definition derived_note ::
  "(microseconds \<Rightarrow> string) \<Rightarrow> (microseconds \<Rightarrow> string) \<Rightarrow> string \<Rightarrow> microseconds option \<Rightarrow> string \<Rightarrow> string \<Rightarrow>
   microseconds \<Rightarrow> string" where
  "derived_note day stamp expires expires_at actor request now =
     (let chosen = (case dict_get EXPIRY_WORDS expires of None \<Rightarrow> expires | Some w \<Rightarrow> w);
          till = (case expires_at of None \<Rightarrow> ''never expires'' | Some t \<Rightarrow> ''expires '' @ stamp t)
      in ''Added by approve and add on '' @ day now @ '': '' @ actor @ '' approved '' @ request @
         '' and chose '' @ chosen @ '', so this grant '' @ till @ ''.'')"

datatype grant_fault = UnknownDuration string | PermanentUnacknowledged | Undrawable prompt_error | DigestsDisagree

definition grant_from_approved_action ::
  "(string \<Rightarrow> string) \<Rightarrow> (microseconds \<Rightarrow> string) \<Rightarrow> (microseconds \<Rightarrow> string) \<Rightarrow> pending_shown \<Rightarrow> string \<Rightarrow> bool \<Rightarrow>
   string \<Rightarrow> microseconds \<Rightarrow> grant_fault + standing_grant" where
  "grant_from_approved_action sha day stamp view expires acknowledged actor now =
     (case dict_get GRANT_EXPIRY_CHOICES expires of
        None \<Rightarrow> Inl (UnknownDuration expires)
      | Some delta \<Rightarrow>
          (if expires = PERMANENT_CHOICE \<and> \<not> acknowledged then Inl PermanentUnacknowledged
           else (case action_from_rendered_prompt sha (shown_payload view) of
              Inl e \<Rightarrow> Inl (Undrawable e)
            | Inr action \<Rightarrow>
                (if prompt_digest action \<noteq> shown_digest view then Inl DigestsDisagree
                 else (let expires_at = map_option (\<lambda>d. now + d) delta
                       in Inr \<lparr>grant_id = Some (derived_grant_id day (prompt_command action) (shown_id view) now),
                            grant_contexts = [if shown_context view = CTX_INTERACTIVE then ''interactive'' else ''unattended''],
                            grant_hosts = prompt_hosts action, grant_commands = [prompt_command action],
                            grant_connectors = [], grant_operations = [], grant_expires = expires_at,
                            grant_note = Some (derived_note day stamp expires expires_at actor (shown_id view) now)\<rparr>)))))"


section \<open>Writing it\<close>

datatype grant_reason = NoGrantDerived | NotSavedBecause grant_fault | AlreadyCoveredBy string | SaveFailed

record grant_result =
  gr_ok :: bool
  gr_id :: "string option"
  gr_expires :: "microseconds option"
  gr_reason :: "grant_reason option"

definition covers_grant :: "standing_grant \<Rightarrow> standing_grant \<Rightarrow> bool" where
  "covers_grant existing g \<longleftrightarrow>
     sort (grant_commands existing) = sort (grant_commands g) \<and> sort (grant_hosts existing) = sort (grant_hosts g) \<and>
     sort (grant_contexts existing) = sort (grant_contexts g) \<and>
     (case grant_expires existing of
        None \<Rightarrow> True
      | Some t \<Rightarrow> (case grant_expires g of None \<Rightarrow> False | Some u \<Rightarrow> u \<le> t))"

text \<open>\<open>_already_covered\<close>: the id of the first grant that covers it. \<open>None\<close> is an unreadable configuration.\<close>

definition already_covered :: "gates_config option \<Rightarrow> standing_grant \<Rightarrow> string option" where
  "already_covered config g =
     (case config of
        None \<Rightarrow> None
      | Some c \<Rightarrow> (case List.find (\<lambda>x. covers_grant x g) (standing_grants c) of
                   None \<Rightarrow> None
                 | Some x \<Rightarrow> grant_id x))"

definition append_to_config :: "standing_grant \<Rightarrow> gates_config \<Rightarrow> gates_config" where
  "append_to_config g c = c\<lparr>standing_grants := standing_grants c @ [g]\<rparr>"

text \<open>What \<open>_record_grant\<close> passes to the audit store.\<close>

definition grant_record_args :: "pending_shown \<Rightarrow> standing_grant \<Rightarrow> string \<Rightarrow> string \<Rightarrow> audit_args" where
  "grant_record_args view g actor path =
     \<lparr>arg_decision = DECISION_GRANT_WRITTEN, arg_class = MUTATE_REMOTE, arg_context = shown_context view,
      arg_tool = Some ''execute_on_server'', arg_session = Some (shown_session view),
      arg_origin_path = Some (shown_origin_path view), arg_approval_path = Some path,
      arg_origin_actor = Some (shown_origin_actor view), arg_acting_agent = Some (shown_acting_agent view),
      arg_delegated_by = Some (shown_delegated_by view), arg_actor = Some actor, arg_scope = Some (shown_scope view),
      arg_hosts = shown_hosts view, arg_secret_ref = None,
      arg_command = (case grant_commands g of [] \<Rightarrow> None | c # _ \<Rightarrow> Some c), arg_command_digest = None,
      arg_reason = grant_note g, arg_grant = grant_id g, arg_approval = Some (shown_id view), arg_nonce = None,
      arg_exit_code = None, arg_duration = None, arg_follows = None\<rparr>"

text \<open>\<open>write_derived_grant\<close>: the result, the configuration it saved and the record it asks for.\<close>

definition write_derived_grant ::
  "(string \<Rightarrow> string) \<Rightarrow> (microseconds \<Rightarrow> string) \<Rightarrow> (microseconds \<Rightarrow> string) \<Rightarrow> pending_shown \<Rightarrow> string \<Rightarrow> bool \<Rightarrow>
   string \<Rightarrow> string \<Rightarrow> microseconds \<Rightarrow> gates_config option \<Rightarrow> gates_config option \<Rightarrow> bool \<Rightarrow>
   grant_result \<times> gates_config option \<times> audit_args option" where
  "write_derived_grant sha day stamp view expires acknowledged actor path now seen config save_ok =
     (case grant_from_approved_action sha day stamp view expires acknowledged actor now of
        Inl e \<Rightarrow>
          (\<lparr>gr_ok = False, gr_id = None, gr_expires = None,
            gr_reason = Some (if e \<in> {DigestsDisagree} \<union> range Undrawable then NoGrantDerived else NotSavedBecause e)\<rparr>,
           None, None)
      | Inr g \<Rightarrow>
          (case already_covered seen g of
             Some i \<Rightarrow> (\<lparr>gr_ok = True, gr_id = Some i, gr_expires = None, gr_reason = Some (AlreadyCoveredBy i)\<rparr>, None, None)
           | None \<Rightarrow>
               (case (if save_ok then config else None) of
                  None \<Rightarrow> (\<lparr>gr_ok = False, gr_id = grant_id g, gr_expires = grant_expires g, gr_reason = Some SaveFailed\<rparr>,
                           None, None)
                | Some c \<Rightarrow>
                    (\<lparr>gr_ok = True, gr_id = grant_id g, gr_expires = grant_expires g, gr_reason = None\<rparr>,
                     Some (append_to_config g c), Some (grant_record_args view g actor path)))))"

section \<open>Properties\<close>

lemma derived_grant_Inr:
  assumes "grant_from_approved_action sha day stamp view expires ack actor now = Inr d"
  obtains p delta where "action_from_rendered_prompt sha (shown_payload view) = Inr p" "prompt_digest p = shown_digest view"
    "dict_get GRANT_EXPIRY_CHOICES expires = Some delta" "grant_expires d = map_option (\<lambda>x. now + x) delta"
    "grant_commands d = [prompt_command p]" "grant_hosts d = prompt_hosts p" "\<not> is_connector_grant d"
    "grant_contexts d = [if shown_context view = CTX_INTERACTIVE then ''interactive'' else ''unattended'']"
    "grant_id d = Some (derived_grant_id day (prompt_command p) (shown_id view) now)"
  using assms
  by (auto simp: grant_from_approved_action_def Let_def is_connector_grant_def split: option.splits sum.splits if_splits)


definition sample_view :: pending_shown where
  "sample_view = \<lparr>shown_id = ''abcdef99'', shown_session = ''s'', shown_origin_path = ''chat'', shown_origin_actor = ''u'',
     shown_acting_agent = [], shown_delegated_by = [], shown_context = CTX_INTERACTIVE, shown_class = MUTATE_REMOTE,
     shown_scope = ''group'', shown_host_count = 2, shown_hosts = [''h1'', ''h2''],
     shown_payload = render_text ''ls'' [''h1'', ''h2''] ''sha256:ab'', shown_digest = ''sha256:ab'', shown_expires_in = 60\<rparr>"

definition sample_grant :: standing_grant where
  "sample_grant = projr (grant_from_approved_action (\<lambda>_. ''ab'') (\<lambda>_. ''2026-01-01'') (\<lambda>_. []) sample_view ''24h'' False ''bob'' 0)"

lemma sample_derived:
  "grant_from_approved_action (\<lambda>_. ''ab'') (\<lambda>_. ''2026-01-01'') (\<lambda>_. []) sample_view ''24h'' False ''bob'' 0 = Inr sample_grant"
  "\<exists>p. action_from_rendered_prompt (\<lambda>_. ''ab'') (shown_payload sample_view) = Inr p \<and> prompt_command p = ''ls''"
proof -
  have "\<not> isl (grant_from_approved_action (\<lambda>_. ''ab'') (\<lambda>_. ''2026-01-01'') (\<lambda>_. []) sample_view ''24h'' False ''bob'' 0)"
    by code_simp
  then show "grant_from_approved_action (\<lambda>_. ''ab'') (\<lambda>_. ''2026-01-01'') (\<lambda>_. []) sample_view ''24h'' False ''bob'' 0 = Inr sample_grant"
    by (simp add: sample_grant_def)
  have "case action_from_rendered_prompt (\<lambda>_. ''ab'') (shown_payload sample_view) of Inr p \<Rightarrow> prompt_command p = ''ls'' | _ \<Rightarrow> False"
    by code_simp
  then show "\<exists>p. action_from_rendered_prompt (\<lambda>_. ''ab'') (shown_payload sample_view) = Inr p \<and> prompt_command p = ''ls''"
    by (auto split: sum.splits)
qed


text \<open>A derived grant expires a day or a week after it was made, or never, and never only when that was acknowledged.\<close>

theorem derived_grant_expiry:
  assumes "grant_from_approved_action sha day stamp view expires ack actor made = Inr d"
  shows "(if expires = ''never'' then ack \<and> grant_expires d = None
     else grant_expires d = Some (made + (if expires = ''24h'' then 24 else 7 * 24) * 3600 * 10 ^ 6))"
  using assms
  by (auto simp: grant_from_approved_action_def GRANT_EXPIRY_CHOICES_def PERMANENT_CHOICE_def HOUR_def dict_get_def Let_def
      split: option.splits sum.splits if_splits)

theorem derived_grant_expiry_witness:
  "(if ''24h'' = ''never'' then False \<and> grant_expires sample_grant = None
     else grant_expires sample_grant = Some (0 + (if ''24h'' = ''24h'' then 24 else 7 * 24) * 3600 * 10 ^ 6))"
  by (rule derived_grant_expiry [OF sample_derived(1)])

lemma rstrip_word:
  assumes "w \<noteq> []" "\<not> list_ex is_space w"
  shows "\<exists>r s. rstrip (w @ x) = w @ r \<and> x = r @ s"
proof (induction x rule: rev_induct)
  case Nil
  have "rstrip w = w" using assms by (cases w rule: rev_cases) (auto simp: rstrip_def)
  then show ?case by simp
next
  case (snoc c x)
  show ?case
  proof (cases "is_space c")
    case True
    then have "rstrip (w @ x @ [c]) = rstrip (w @ x)" by (simp add: rstrip_def)
    with snoc show ?thesis by force
  next
    case False
    then have "rstrip (w @ x @ [c]) = w @ x @ [c]" by (simp add: rstrip_def)
    then show ?thesis by force
  qed
qed

lemma first_token_word:
  assumes "w \<noteq> []" "\<not> list_ex is_space w" "newline \<notin> set x"
  shows "first_token (w @ '' '' @ x) = w"
proof -
  have space: "is_space (CHR '' '')" "is_space newline" by (simp_all add: is_space_def newline_def)
  then have "newline \<notin> set (w @ '' '' @ x)" using assms(2,3) by (auto simp: list_ex_iff newline_def)
  moreover have "lstrip (w @ '' '' @ x) = w @ '' '' @ x" using assms(1,2) by (cases w) (auto simp: lstrip_def)
  moreover obtain r s where r: "rstrip (w @ '' '' @ x) = w @ r" "'' '' @ x = r @ s"
    using rstrip_word [OF assms(1,2), of "'' '' @ x"] by blast
  from r(2) have "r = [] \<or> hd r = CHR '' ''" by (cases r) auto
  moreover have "CHR '' '' \<notin> set w" using assms(2) space by (auto simp: list_ex_iff)
  ultimately show ?thesis
    using r(1) by (cases r) (auto simp: first_token_def strip_def split_on_none split_on_append)
qed

text \<open>The name of a grant goes to the audit log, so it may not depend on the arguments of the command, where
  secrets are: two commands with the same first word get the same name.\<close>

theorem grant_id_hides_arguments:
  assumes "w \<noteq> []" "\<not> list_ex is_space w" "newline \<notin> set rest" "newline \<notin> set rest'"
  shows "derived_grant_id day (w @ '' '' @ rest) i now = derived_grant_id day (w @ '' '' @ rest') i now"
  unfolding derived_grant_id_def first_token_word [OF assms(1-3)] first_token_word [OF assms(1,2,4)] ..

theorem grant_id_hides_arguments_witness:
  "derived_grant_id (\<lambda>_. ''d'') (''mysql'' @ '' '' @ ''-psecret'') ''i'' 0 = derived_grant_id (\<lambda>_. ''d'') (''mysql'' @ '' '' @ ''-V'') ''i'' 0"
  by (rule grant_id_hides_arguments) (simp_all add: is_space_def newline_def)

text \<open>A grant of a file that has no id covers as any other and is not seen to: the answer is \<open>None\<close>, so a
  second line is appended.\<close>

lemma nameless_grant_not_seen:
  assumes "list_all (\<lambda>x. grant_id x = None) (standing_grants c)"
  shows "already_covered (Some c) g = None"
proof (cases "List.find (\<lambda>x. covers_grant x g) (standing_grants c)")
  case (Some x)
  then have "x \<in> set (standing_grants c)" by (metis find_Some_iff nth_mem)
  with Some assms show ?thesis by (simp add: already_covered_def list_all_iff)
qed (simp add: already_covered_def)

text \<open>The write is an append or nothing: the operator's lines stay as they are, no second line is written for an
  action a named grant covers, and a record is asked for exactly when a line was added.\<close>

theorem grant_write_appends:
  "case write_derived_grant sha day stamp view expires ack actor path now seen config save_ok of (r, saved, rec) \<Rightarrow>
     (case saved of
        None \<Rightarrow> rec = None
      | Some c' \<Rightarrow> \<exists>c g. config = Some c \<and> save_ok \<and> gr_ok r \<and>
          grant_from_approved_action sha day stamp view expires ack actor now = Inr g \<and>
          already_covered seen g = None \<and> standing_grants c' = standing_grants c @ [g] \<and>
          c' = c\<lparr>standing_grants := standing_grants c'\<rparr> \<and> rec = Some (grant_record_args view g actor path))"
  by (auto simp: write_derived_grant_def append_to_config_def split: sum.split option.split)

end
