(* ===== verification/Wire.thy ===== *)
theory Wire
  imports Json "HOL-Library.Word"
begin

unbundle bit_operations_syntax

text \<open>
  The sockets between the agent and its helper processes: \<open>protocol.py\<close> of \<open>gates/executor\<close>,
  \<open>gates/fetcher\<close>, \<open>gates/connector_host\<close> and \<open>gates/mcp_host\<close>. Four modules, one framing and one strict
  decoder. A connection is the list of the non-empty chunks \<open>recv\<close> could return; the end of the list is the
  end of the stream. The text of a payload (\<open>json.dumps\<close>, \<open>json.loads\<close>) is outside; a payload is the
  object it parses to, or none. No field type is checked, so a field is a JSON value.
\<close>

type_synonym octet = "8 word"
type_synonym stream = "octet list list"

datatype wire_error =
    FrameTooLong nat | PeerAnnounced nat | PeerClosed nat nat
  | FrameNotJson | FrameNotObject | NoVersion | WrongVersion jval
  | NoOperation | UnknownOperation jval | NoKind | UnknownKind string
  | UnknownFields "string list" | MissingFields "string list"


section \<open>Frames\<close>

definition EXECUTOR_MAX_FRAME :: nat where "EXECUTOR_MAX_FRAME = 8 * 1024 * 1024"
definition FETCHER_MAX_FRAME :: nat where "FETCHER_MAX_FRAME = 32 * 1024 * 1024"
definition CONNECTOR_MAX_FRAME :: nat where "CONNECTOR_MAX_FRAME = 8 * 1024 * 1024"
definition MCP_MAX_FRAME :: nat where "MCP_MAX_FRAME = 32 * 1024 * 1024"

text \<open>\<open>struct.Struct(">I")\<close>: four octets, the most significant first.\<close>

definition pack_length :: "32 word \<Rightarrow> octet list" where
  "pack_length n = [ucast (drop_bit 24 n), ucast (drop_bit 16 n), ucast (drop_bit 8 n), ucast n]"

definition unpack_length :: "octet list \<Rightarrow> 32 word" where
  "unpack_length bs = foldl (\<lambda>n b. push_bit 8 n OR ucast b) 0 bs"

definition write_frame :: "nat \<Rightarrow> octet list \<Rightarrow> wire_error + octet list" where
  "write_frame cap payload =
     (if length payload > cap then Inl (FrameTooLong (length payload))
      else Inr (pack_length (of_nat (length payload)) @ payload))"

text \<open>\<open>recv(n)\<close> returns at least one octet and at most \<open>n\<close>, or none at the end of the stream.\<close>

definition recv :: "nat \<Rightarrow> stream \<Rightarrow> octet list \<times> stream" where
  "recv n s =
     (case s of
        [] \<Rightarrow> ([], [])
      | c # cs \<Rightarrow> (if length c \<le> n then (c, cs) else (take n c, drop n c # cs)))"

function read_chunks :: "nat \<Rightarrow> nat \<Rightarrow> octet list \<Rightarrow> stream \<Rightarrow> (wire_error + octet list) \<times> stream" where
  "read_chunks count remaining got s =
     (if remaining = 0 then (Inr got, s)
      else (case recv remaining s of
         ([], s') \<Rightarrow> (Inl (PeerClosed (count - remaining) count), s')
       | (b # bs, s') \<Rightarrow> read_chunks count (remaining - length (b # bs)) (got @ b # bs) s'))"
  by pat_completeness auto
termination
  by (relation "measure (\<lambda>(count, remaining, got, s). remaining)") auto

declare read_chunks.simps [simp del]

definition read_exactly :: "nat \<Rightarrow> stream \<Rightarrow> (wire_error + octet list) \<times> stream" where
  "read_exactly count s = read_chunks count count [] s"

definition read_frame :: "nat \<Rightarrow> stream \<Rightarrow> (wire_error + octet list) \<times> stream" where
  "read_frame cap s =
     (case read_exactly 4 s of
        (Inl e, s') \<Rightarrow> (Inl e, s')
      | (Inr header, s') \<Rightarrow>
          (let n = unat (unpack_length header)
           in if n > cap then (Inl (PeerAnnounced n), s') else read_exactly n s'))"


section \<open>Payloads\<close>

type_synonym fields = "(string \<times> jval) list"

definition pop :: "string \<Rightarrow> fields \<Rightarrow> fields" where
  "pop k data = filter (\<lambda>kv. fst kv \<noteq> k) data"

text \<open>\<open>version == n\<close> of Python: a float or a Boolean of the same value is equal.\<close>

fun equals_int :: "jval \<Rightarrow> int \<Rightarrow> bool" where
  "equals_int (JInt m) n = (m = n)"
| "equals_int (JFloat r) n = (r = of_int n)"
| "equals_int (JBool b) n = ((if b then 1 else 0) = n)"
| "equals_int _ n = False"

definition payload_object :: "jval option \<Rightarrow> wire_error + fields" where
  "payload_object p = (case p of None \<Rightarrow> Inl FrameNotJson | Some (JObj kvs) \<Rightarrow> Inr kvs | Some _ \<Rightarrow> Inl FrameNotObject)"

definition take_version :: "int \<Rightarrow> fields \<Rightarrow> wire_error + fields" where
  "take_version version data =
     (let v = jget data ''v''
      in if v = JNull then Inl NoVersion
         else if \<not> equals_int v version then Inl (WrongVersion v) else Inr (pop ''v'' data))"

text \<open>\<open>_build\<close>: the fields of a dataclass with the value the frame gives them; a field with a default may be
  absent where the module allows it.\<close>

definition build_fields :: "string list \<Rightarrow> string list \<Rightarrow> fields \<Rightarrow> wire_error + (string \<times> jval option) list" where
  "build_fields expected required data =
     (let unknown = filter (\<lambda>k. k \<notin> set expected) (map fst data);
          missing = filter (\<lambda>k. k \<notin> set (map fst data)) required
      in if unknown \<noteq> [] then Inl (UnknownFields (sort unknown))
         else if missing \<noteq> [] then Inl (MissingFields (sort missing))
         else Inr (map (\<lambda>f. (f, map_of data f)) expected))"

text \<open>A wire names its request kinds: the name, the fields, and those without which a frame is refused.\<close>

type_synonym kinds = "(string \<times> string list \<times> string list) list"

definition encode_as :: "int \<Rightarrow> string \<Rightarrow> string \<Rightarrow> fields \<Rightarrow> jval" where
  "encode_as version key name vs = JObj (vs @ [(''v'', JInt version), (key, JStr name)])"

definition encode_response :: "int \<Rightarrow> fields \<Rightarrow> jval" where
  "encode_response version vs = JObj (vs @ [(''v'', JInt version)])"

text \<open>\<open>decode_request\<close> of the helper processes: the version, the operation, the fields.\<close>

definition decode_op_request ::
  "int \<Rightarrow> kinds \<Rightarrow> jval option \<Rightarrow> wire_error + (string \<times> (string \<times> jval option) list)" where
  "decode_op_request version kinds p =
     (case payload_object p of
        Inl e \<Rightarrow> Inl e
      | Inr kvs \<Rightarrow>
          (case take_version version kvs of
             Inl e \<Rightarrow> Inl e
           | Inr data \<Rightarrow>
               (case jget data ''op'' of
                  JNull \<Rightarrow> Inl NoOperation
                | JStr name \<Rightarrow>
                    (case map_of kinds name of
                       None \<Rightarrow> Inl (UnknownOperation (JStr name))
                     | Some (expected, required) \<Rightarrow>
                         map_sum id (Pair name) (build_fields expected required (pop ''op'' data)))
                | v \<Rightarrow> Inl (UnknownOperation v))))"

definition decode_response :: "int \<Rightarrow> string list \<Rightarrow> string list \<Rightarrow> jval option \<Rightarrow> wire_error + (string \<times> jval option) list" where
  "decode_response version expected required p =
     (case payload_object p of
        Inl e \<Rightarrow> Inl e
      | Inr kvs \<Rightarrow> (case take_version version kvs of Inl e \<Rightarrow> Inl e | Inr data \<Rightarrow> build_fields expected required data))"

text \<open>\<open>decode_request\<close> of the executor: the kind first, and then the frame without it.\<close>

definition decode_kind_request ::
  "int \<Rightarrow> kinds \<Rightarrow> jval option \<Rightarrow> wire_error + (string \<times> (string \<times> jval option) list)" where
  "decode_kind_request version kinds p =
     (case payload_object p of
        Inl e \<Rightarrow> Inl e
      | Inr kvs \<Rightarrow>
          (case jget kvs ''kind'' of
             JStr (c # cs) \<Rightarrow>
               (case map_of kinds (c # cs) of
                  None \<Rightarrow> Inl (UnknownKind (c # cs))
                | Some (expected, required) \<Rightarrow>
                    (case take_version version (pop ''kind'' kvs) of
                       Inl e \<Rightarrow> Inl e
                     | Inr data \<Rightarrow> map_sum id (Pair (c # cs)) (build_fields expected required data)))
           | _ \<Rightarrow> Inl NoKind))"


section \<open>The four wires\<close>

definition EXECUTE_FIELDS :: "string list" where
  "EXECUTE_FIELDS = [''server_id_or_name'', ''command'', ''session_id'', ''execution_context'', ''preview_requested'',
     ''timeout_s'', ''token_nonce'', ''origin_path'', ''origin_actor'', ''acting_agent'', ''delegated_by'',
     ''inherited_capabilities'']"

definition CONNECTOR_FIELDS :: "string list" where
  "CONNECTOR_FIELDS = [''connector'', ''operation'', ''arguments_json'', ''session_id'', ''execution_context'',
     ''preview_requested'', ''token_nonce'', ''origin_path'', ''origin_actor'', ''acting_agent'', ''delegated_by'',
     ''inherited_capabilities'']"

definition SECRET_WRITE_FIELDS :: "string list" where
  "SECRET_WRITE_FIELDS = [''verb'', ''secret_id'', ''name'', ''secret_kind'', ''provider_id'', ''ciphertext_b64'',
     ''created_at'', ''updated_at'', ''origin_path'', ''origin_actor'']"

definition EXECUTOR_VERSION :: int where "EXECUTOR_VERSION = 7"

definition EXECUTOR_KINDS :: kinds where
  "EXECUTOR_KINDS = [(''execute'', EXECUTE_FIELDS, EXECUTE_FIELDS), (''connector'', CONNECTOR_FIELDS, CONNECTOR_FIELDS),
     (''secret_write'', SECRET_WRITE_FIELDS, SECRET_WRITE_FIELDS)]"

definition FETCHER_VERSION :: int where "FETCHER_VERSION = 1"

definition FETCH_FIELDS :: "string list" where "FETCH_FIELDS = [''url'', ''extract_mode'', ''max_chars'']"

definition SEARCH_FIELDS :: "string list" where
  "SEARCH_FIELDS = [''query'', ''count'', ''time_range'', ''auth_level'', ''query_rewrite'', ''freshness'']"

definition FETCHER_KINDS :: kinds where
  "FETCHER_KINDS = [(''fetch'', FETCH_FIELDS, FETCH_FIELDS), (''search'', SEARCH_FIELDS, SEARCH_FIELDS)]"

definition CONNECTOR_HOST_VERSION :: int where "CONNECTOR_HOST_VERSION = 1"

definition CALL_REQUIRED :: "string list" where
  "CALL_REQUIRED = [''request_id'', ''package'', ''operation'', ''method'', ''url'']"

definition CALL_FIELDS :: "string list" where
  "CALL_FIELDS = CALL_REQUIRED @ [''headers'', ''query'', ''body'', ''access_token'', ''timeout_s'']"

definition CONNECTOR_HOST_KINDS :: kinds where
  "CONNECTOR_HOST_KINDS = [(''call'', CALL_FIELDS, CALL_REQUIRED)]"

definition MCP_VERSION :: int where "MCP_VERSION = 1"

definition MCP_KINDS :: kinds where
  "MCP_KINDS = map (\<lambda>(op, fs). (op, fs, fs))
     [(''open'', [''request_id'', ''server_name'']), (''list_tools'', [''request_id'']), (''list_resources'', [''request_id'']),
      (''list_prompts'', [''request_id'']), (''call_tool'', [''request_id'', ''tool_name'', ''arguments'']),
      (''read_resource'', [''request_id'', ''uri'']), (''get_prompt'', [''request_id'', ''prompt_name'', ''arguments''])]"

definition EXECUTE_RESPONSE_FIELDS :: "string list" where
  "EXECUTE_RESPONSE_FIELDS = [''ok'', ''output'', ''exit_code'', ''error'', ''reason'', ''terminal'', ''preview_outcome'',
     ''preview_reason'', ''preview_grant_id'', ''preview_scope'', ''preview_hosts'', ''preview_command'',
     ''preview_credential_outcome'', ''preview_credential_reason'']"

definition FETCH_RESPONSE_FIELDS :: "string list" where
  "FETCH_RESPONSE_FIELDS = [''ok'', ''body'', ''blocks'', ''is_error'', ''error'']"

definition CONNECTOR_RESPONSE_FIELDS :: "string list" where
  "CONNECTOR_RESPONSE_FIELDS = [''request_id'', ''ok'', ''status'', ''payload'', ''error'', ''retryable'']"

definition MCP_RESPONSE_FIELDS :: "string list" where
  "MCP_RESPONSE_FIELDS = [''request_id'', ''ok'', ''result'', ''error'', ''error_data'']"

definition executor_decode_request :: "jval option \<Rightarrow> wire_error + (string \<times> (string \<times> jval option) list)" where
  "executor_decode_request = decode_kind_request EXECUTOR_VERSION EXECUTOR_KINDS"

definition executor_decode_response :: "jval option \<Rightarrow> wire_error + (string \<times> jval option) list" where
  "executor_decode_response = decode_response EXECUTOR_VERSION EXECUTE_RESPONSE_FIELDS EXECUTE_RESPONSE_FIELDS"

definition fetcher_decode_request :: "jval option \<Rightarrow> wire_error + (string \<times> (string \<times> jval option) list)" where
  "fetcher_decode_request = decode_op_request FETCHER_VERSION FETCHER_KINDS"

definition fetcher_decode_response :: "jval option \<Rightarrow> wire_error + (string \<times> jval option) list" where
  "fetcher_decode_response = decode_response FETCHER_VERSION FETCH_RESPONSE_FIELDS FETCH_RESPONSE_FIELDS"

definition connector_decode_request :: "jval option \<Rightarrow> wire_error + (string \<times> (string \<times> jval option) list)" where
  "connector_decode_request = decode_op_request CONNECTOR_HOST_VERSION CONNECTOR_HOST_KINDS"

definition connector_decode_response :: "jval option \<Rightarrow> wire_error + (string \<times> jval option) list" where
  "connector_decode_response = decode_response CONNECTOR_HOST_VERSION CONNECTOR_RESPONSE_FIELDS (butlast CONNECTOR_RESPONSE_FIELDS)"

definition mcp_decode_request :: "jval option \<Rightarrow> wire_error + (string \<times> (string \<times> jval option) list)" where
  "mcp_decode_request = decode_op_request MCP_VERSION MCP_KINDS"

definition mcp_decode_response :: "jval option \<Rightarrow> wire_error + (string \<times> jval option) list" where
  "mcp_decode_response = decode_response MCP_VERSION MCP_RESPONSE_FIELDS MCP_RESPONSE_FIELDS"


section \<open>Reading what was written\<close>

lemma unpack_pack [simp]: "unpack_length (pack_length n) = n"
proof (rule bit_word_eqI)
  fix i assume "i < LENGTH(32)"
  then have "i < 8 \<or> (8 \<le> i \<and> i < 16) \<or> (16 \<le> i \<and> i < 24) \<or> (24 \<le> i \<and> i < 32)" by auto
  then show "bit (unpack_length (pack_length n)) i = bit n i"
    by (auto simp: pack_length_def unpack_length_def bit_simps)
qed

lemma length_pack [simp]: "length (pack_length n) = 4"
  by (simp add: pack_length_def)

definition well_chunked :: "stream \<Rightarrow> bool" where
  "well_chunked s \<longleftrightarrow> [] \<notin> set s"

lemma recv_concat: "recv n s = (bs, s') \<Longrightarrow> concat s = bs @ concat s'"
  by (auto simp: recv_def split: list.splits if_splits)

lemma recv_facts:
  assumes "recv n s = (bs, s')" "well_chunked s" "0 < n"
  shows "well_chunked s'" "length bs \<le> n" "bs = [] \<longleftrightarrow> concat s = []"
  using assms by (auto simp: recv_def well_chunked_def split: list.splits if_splits)

lemma read_chunks_spec:
  "well_chunked s \<Longrightarrow> n \<le> count \<Longrightarrow>
   \<exists>s'. read_chunks count n got s =
     ((if n \<le> length (concat s) then Inr (got @ take n (concat s))
       else Inl (PeerClosed (count - n + length (concat s)) count)), s') \<and>
     well_chunked s' \<and> concat s' = drop n (concat s)"
proof (induction n arbitrary: got s rule: less_induct)
  case (less n)
  show ?case
  proof (cases "n = 0")
    case True
    with less.prems show ?thesis by (simp add: read_chunks.simps)
  next
    case False
    obtain bs s1 where r: "recv n s = (bs, s1)" by fastforce
    note facts = recv_concat [OF r] recv_facts [OF r less.prems(1)]
    show ?thesis
    proof (cases bs)
      case Nil
      with facts False have "length (concat s) = 0" "concat s1 = []" "well_chunked s1" "concat s = []" by auto
      with Nil r False less.prems(2) show ?thesis by (simp add: read_chunks.simps [of count n] del: concat_eq_Nil_conv)
    next
      case (Cons b bs')
      then have step: "read_chunks count n got s = read_chunks count (n - length bs) (got @ bs) s1"
        using False r by (simp add: read_chunks.simps [of count n got s])
      have len: "length bs \<le> n" "well_chunked s1" "0 < length bs" using facts False Cons by auto
      then have "n - length bs < n" "n - length bs \<le> count" using False less.prems(2) by auto
      from less.IH [OF this(1) len(2) this(2), of "got @ bs"] obtain s' where
        "read_chunks count (n - length bs) (got @ bs) s1 =
          ((if n - length bs \<le> length (concat s1) then Inr ((got @ bs) @ take (n - length bs) (concat s1))
            else Inl (PeerClosed (count - (n - length bs) + length (concat s1)) count)), s')"
        "well_chunked s'" "concat s' = drop (n - length bs) (concat s1)" by blast
      moreover have "length (concat s) = length bs + length (concat s1)" using facts(1) by simp
      ultimately show ?thesis using step len less.prems(2) by (auto simp: facts(1))
    qed
  qed
qed

lemma read_exactly_spec:
  assumes "well_chunked s"
  shows "\<exists>s'. read_exactly n s =
     ((if n \<le> length (concat s) then Inr (take n (concat s)) else Inl (PeerClosed (length (concat s)) n)), s') \<and>
     well_chunked s' \<and> concat s' = drop n (concat s)"
proof -
  from read_chunks_spec [OF assms order_refl, of n "[]"] obtain s' where "read_chunks n n [] s =
     ((if n \<le> length (concat s) then Inr ([] @ take n (concat s))
       else Inl (PeerClosed (n - n + length (concat s)) n)), s')" "well_chunked s'" "concat s' = drop n (concat s)" by blast
  then show ?thesis by (intro exI [of _ s']) (simp add: read_exactly_def)
qed

lemma read_frame_spec:
  assumes "well_chunked s" "4 \<le> length (concat s)" "n = unat (unpack_length (take 4 (concat s)))"
  shows "\<exists>s'. read_frame cap s =
     ((if n > cap then Inl (PeerAnnounced n)
       else if 4 + n \<le> length (concat s) then Inr (take n (drop 4 (concat s)))
       else Inl (PeerClosed (length (concat s) - 4) n)), s') \<and>
     well_chunked s' \<and> concat s' = drop (if n > cap then 4 else 4 + n) (concat s)"
proof -
  from read_exactly_spec [OF assms(1), of 4] assms(2) obtain s1 where
    s1: "read_exactly 4 s = (Inr (take 4 (concat s)), s1)" "well_chunked s1" "concat s1 = drop 4 (concat s)" by auto
  from read_exactly_spec [OF s1(2), of n] obtain s2 where
    s2: "read_exactly n s1 = ((if n \<le> length (concat s1) then Inr (take n (concat s1))
       else Inl (PeerClosed (length (concat s1)) n)), s2)" "well_chunked s2" "concat s2 = drop n (concat s1)" by blast
  show ?thesis
  proof (cases "n > cap")
    case True
    with s1 assms(3) show ?thesis by (intro exI [of _ s1]) (simp add: read_frame_def)
  next
    case False
    have "read_frame cap s = ((if 4 + n \<le> length (concat s) then Inr (take n (drop 4 (concat s)))
       else Inl (PeerClosed (length (concat s) - 4) n)), s2)"
      using s1 s2(1) False assms(2,3) by (auto simp: read_frame_def Let_def)
    with False s2(2,3) s1(3) show ?thesis by (intro exI [of _ s2]) (simp add: add.commute)
  qed
qed

lemma write_frame_Inr:
  assumes "write_frame cap payload = Inr bytes"
  shows "bytes = pack_length (of_nat (length payload)) @ payload" "length payload \<le> cap"
  using assms by (auto simp: write_frame_def split: if_splits)

text \<open>The caps of the four wires fit the length prefix.\<close>

lemma announced_length:
  assumes "length payload \<le> cap" "cap < 2 ^ 32"
  shows "unat (of_nat (length payload) :: 32 word) = length payload"
  using assms by (simp add: unat_of_nat)

lemma caps_fit:
  "EXECUTOR_MAX_FRAME < 2 ^ 32" "FETCHER_MAX_FRAME < 2 ^ 32" "CONNECTOR_MAX_FRAME < 2 ^ 32" "MCP_MAX_FRAME < 2 ^ 32"
  by (simp_all add: EXECUTOR_MAX_FRAME_def FETCHER_MAX_FRAME_def CONNECTOR_MAX_FRAME_def MCP_MAX_FRAME_def)

lemma read_written:
  assumes "write_frame cap payload = Inr bytes" "cap < 2 ^ 32" "well_chunked s" "concat s = bytes @ rest"
  shows "\<exists>s'. read_frame cap s = (Inr payload, s') \<and> well_chunked s' \<and> concat s' = rest"
proof -
  note b = write_frame_Inr [OF assms(1)]
  have n: "length payload = unat (unpack_length (take 4 (concat s)))"
    using assms(4) b announced_length [OF b(2) assms(2)] by simp
  from read_frame_spec [OF assms(3) _ n, of cap] assms(4) b show ?thesis by auto
qed


section \<open>Strict decoding\<close>

text \<open>A wire: a version, the envelope key that names the kind, the kinds, and a decoder that reads exactly the
  objects with that version, a known kind and its fields.\<close>

locale strict_wire =
  fixes version :: int and key :: string and kinds :: kinds
    and decode :: "jval option \<Rightarrow> wire_error + (string \<times> (string \<times> jval option) list)"
  assumes names_distinct: "distinct (map fst kinds)"
    and plain_fields: "(name, fs, req) \<in> set kinds \<Longrightarrow> distinct fs \<and> set req \<subseteq> set fs \<and> ''v'' \<notin> set fs \<and> key \<notin> set fs \<and> name \<noteq> []"
    and key_not_v: "key \<noteq> ''v''"
    and reads: "distinct (map fst kvs) \<Longrightarrow> decode (Some (JObj kvs)) = Inr (name, vs) \<longleftrightarrow>
       (\<exists>fs req v. map_of kvs key = Some (JStr name) \<and> name \<noteq> [] \<and> map_of kinds name = Some (fs, req) \<and>
          map_of kvs ''v'' = Some v \<and> equals_int v version \<and>
          set (map fst kvs) - {''v'', key} \<subseteq> set fs \<and> set req \<subseteq> set (map fst kvs) \<and> vs = map (\<lambda>f. (f, map_of kvs f)) fs)"
begin

lemma roundtrip:
  assumes "(name, fs, req) \<in> set kinds" "map fst vs = fs"
  shows "decode (Some (encode_as version key name vs)) = Inr (name, map (\<lambda>(f, v). (f, Some v)) vs)"
proof -
  note fs = plain_fields [OF assms(1)]
  let ?kvs = "vs @ [(''v'', JInt version), (key, JStr name)]"
  have d: "distinct (map fst ?kvs)" using fs assms(2) key_not_v by auto
  have look: "map_of ?kvs f = Some v" if "(f, v) \<in> set vs" for f v
    using that d by (intro map_of_is_SomeI) auto
  have "map_of kinds name = Some (fs, req)" using assms(1) names_distinct by (simp add: map_of_is_SomeI)
  moreover have "map_of ?kvs key = Some (JStr name)" "map_of ?kvs ''v'' = Some (JInt version)"
    using d by (auto intro!: map_of_is_SomeI simp del: map_of_append)
  moreover have "map (\<lambda>(f, v). (f, Some v)) vs = map (\<lambda>f. (f, map_of ?kvs f)) fs"
    unfolding assms(2) [symmetric] map_map
    by (rule map_cong) (auto simp: look simp del: map_of_append)
  ultimately show ?thesis
    unfolding encode_as_def reads [OF d] using fs assms(2) by force
qed

lemma accepted_keys:
  assumes "distinct (map fst kvs)" "decode (Some (JObj kvs)) = Inr (name, vs)"
  shows "\<exists>fs req. (name, fs, req) \<in> set kinds \<and> insert ''v'' (insert key (set req)) \<subseteq> set (map fst kvs) \<and>
    set (map fst kvs) \<subseteq> insert ''v'' (insert key (set fs)) \<and> map fst vs = fs"
proof -
  from assms(2) obtain fs req v where *: "map_of kvs key = Some (JStr name)" "map_of kinds name = Some (fs, req)"
    "map_of kvs ''v'' = Some v" "set (map fst kvs) - {''v'', key} \<subseteq> set fs" "set req \<subseteq> set (map fst kvs)"
    "vs = map (\<lambda>f. (f, map_of kvs f)) fs"
    unfolding reads [OF assms(1)] by blast
  have "''v'' \<in> set (map fst kvs)" "key \<in> set (map fst kvs)"
    using map_of_SomeD [OF *(1)] map_of_SomeD [OF *(3)] by force+
  with * map_of_SomeD [OF *(2)] show ?thesis by (intro exI [of _ fs] exI [of _ req]) (auto simp: comp_def)
qed

end

lemma keys_pop [simp]: "fst ` set (pop k data) = fst ` set data - {k}"
  by (auto simp: pop_def)

lemma map_of_pop [simp]: "map_of (pop k data) f = (if f = k then None else map_of data f)"
  by (induction data) (auto simp: pop_def)

lemma jget_pop [simp]: "jget (pop k data) f = (if f = k then JNull else jget data f)"
  by (simp add: jget_def)

lemma build_fields_Inr:
  "build_fields expected required data = Inr vs \<longleftrightarrow>
    fst ` set data \<subseteq> set expected \<and> set required \<subseteq> fst ` set data \<and> vs = map (\<lambda>f. (f, map_of data f)) expected"
  by (auto simp: build_fields_def Let_def filter_empty_conv)

lemma take_version_Inr:
  "take_version version data = Inr d \<longleftrightarrow> (\<exists>v. map_of data ''v'' = Some v \<and> equals_int v version) \<and> d = pop ''v'' data"
  by (auto simp: take_version_def jget_def Let_def split: option.splits)

lemma take_version_cases:
  obtains v where "map_of data ''v'' = Some v" "equals_int v version" "take_version version data = Inr (pop ''v'' data)"
  | e where "\<And>v. map_of data ''v'' = Some v \<Longrightarrow> \<not> equals_int v version" "take_version version data = Inl e"
proof (cases "\<exists>v. map_of data ''v'' = Some v \<and> equals_int v version")
  case True
  then show ?thesis using that(1) take_version_Inr [of version data "pop ''v'' data"] by blast
next
  case False
  then have "take_version version data \<noteq> Inr d" for d by (simp add: take_version_Inr)
  then show ?thesis using False that(2) by (cases "take_version version data") auto
qed

definition plain_kinds :: "string \<Rightarrow> kinds \<Rightarrow> bool" where
  "plain_kinds key kinds \<longleftrightarrow> list_all (\<lambda>(name, fs, req). distinct fs \<and> set req \<subseteq> set fs \<and> ''v'' \<notin> set fs \<and> key \<notin> set fs \<and> name \<noteq> []) kinds"

lemma plain_kindsD:
  "plain_kinds key kinds \<Longrightarrow> (name, fs, req) \<in> set kinds \<Longrightarrow>
   distinct fs \<and> set req \<subseteq> set fs \<and> ''v'' \<notin> set fs \<and> key \<notin> set fs \<and> name \<noteq> []"
  by (auto simp: plain_kinds_def list_all_iff)

text \<open>What a build reads of a frame without its envelope.\<close>

lemma build_without_envelope:
  assumes "''v'' \<notin> set fs" "key \<notin> set fs" "set req \<subseteq> set fs" "fst ` set data = fst ` set kvs - {''v'', key}"
    "\<And>f. f \<notin> {''v'', key} \<Longrightarrow> map_of data f = map_of kvs f"
  shows "build_fields fs req data = Inr vs \<longleftrightarrow>
    set (map fst kvs) - {''v'', key} \<subseteq> set fs \<and> set req \<subseteq> set (map fst kvs) \<and> vs = map (\<lambda>f. (f, map_of kvs f)) fs"
proof -
  have "map (\<lambda>f. (f, map_of data f)) fs = map (\<lambda>f. (f, map_of kvs f)) fs"
  proof (rule map_cong [OF refl])
    fix f assume "f \<in> set fs"
    with assms(1,2) have "f \<notin> {''v'', key}" by auto
    from assms(5) [OF this] show "(f, map_of data f) = (f, map_of kvs f)" by simp
  qed
  with assms show ?thesis unfolding build_fields_Inr by auto
qed

lemma map_sum_Pair [simp]: "map_sum id (Pair a) x = Inr (b, y) \<longleftrightarrow> a = b \<and> x = Inr y"
  by (cases x) auto

lemma decode_op_reads:
  assumes "plain_kinds ''op'' kinds"
  shows "decode_op_request version kinds (Some (JObj kvs)) = Inr (name, vs) \<longleftrightarrow>
    (\<exists>fs req v. map_of kvs ''op'' = Some (JStr name) \<and> name \<noteq> [] \<and> map_of kinds name = Some (fs, req) \<and>
       map_of kvs ''v'' = Some v \<and> equals_int v version \<and>
       set (map fst kvs) - {''v'', ''op''} \<subseteq> set fs \<and> set req \<subseteq> set (map fst kvs) \<and> vs = map (\<lambda>f. (f, map_of kvs f)) fs)"
proof -
  have "decode_op_request version kinds (Some (JObj kvs)) = Inr (name, vs) \<longleftrightarrow>
    (\<exists>fs req v. map_of kvs ''op'' = Some (JStr name) \<and> map_of kinds name = Some (fs, req) \<and>
       map_of kvs ''v'' = Some v \<and> equals_int v version \<and> build_fields fs req (pop ''op'' (pop ''v'' kvs)) = Inr vs)"
    by (rule take_version_cases [of kvs version])
       (auto simp: decode_op_request_def payload_object_def jget_def split: option.splits jval.splits)
  moreover have "build_fields fs req (pop ''op'' (pop ''v'' kvs)) = Inr vs \<longleftrightarrow> name \<noteq> [] \<and>
      set (map fst kvs) - {''v'', ''op''} \<subseteq> set fs \<and> set req \<subseteq> set (map fst kvs) \<and> vs = map (\<lambda>f. (f, map_of kvs f)) fs"
    if "map_of kinds name = Some (fs, req)" for fs req
  proof -
    note plain = plain_kindsD [OF assms map_of_SomeD [OF that]]
    then show ?thesis by (subst build_without_envelope [where kvs = kvs and key = "''op''"]) auto
  qed
  ultimately show ?thesis by blast
qed

lemma decode_kind_reads:
  assumes "plain_kinds ''kind'' kinds"
  shows "decode_kind_request version kinds (Some (JObj kvs)) = Inr (name, vs) \<longleftrightarrow>
    (\<exists>fs req v. map_of kvs ''kind'' = Some (JStr name) \<and> name \<noteq> [] \<and> map_of kinds name = Some (fs, req) \<and>
       map_of kvs ''v'' = Some v \<and> equals_int v version \<and>
       set (map fst kvs) - {''v'', ''kind''} \<subseteq> set fs \<and> set req \<subseteq> set (map fst kvs) \<and> vs = map (\<lambda>f. (f, map_of kvs f)) fs)"
proof -
  have "decode_kind_request version kinds (Some (JObj kvs)) = Inr (name, vs) \<longleftrightarrow>
    (\<exists>fs req v. map_of kvs ''kind'' = Some (JStr name) \<and> name \<noteq> [] \<and> map_of kinds name = Some (fs, req) \<and>
       map_of kvs ''v'' = Some v \<and> equals_int v version \<and> build_fields fs req (pop ''v'' (pop ''kind'' kvs)) = Inr vs)"
    by (rule take_version_cases [of "pop ''kind'' kvs" version])
       (auto simp: decode_kind_request_def payload_object_def jget_def split: option.splits jval.splits list.splits)
  moreover have "build_fields fs req (pop ''v'' (pop ''kind'' kvs)) = Inr vs \<longleftrightarrow>
      set (map fst kvs) - {''v'', ''kind''} \<subseteq> set fs \<and> set req \<subseteq> set (map fst kvs) \<and> vs = map (\<lambda>f. (f, map_of kvs f)) fs"
    if "map_of kinds name = Some (fs, req)" for fs req
  proof -
    note plain = plain_kindsD [OF assms map_of_SomeD [OF that]]
    then show ?thesis by (subst build_without_envelope [where kvs = kvs and key = "''kind''"]) auto
  qed
  ultimately show ?thesis by blast
qed

lemmas wire_defs = EXECUTOR_KINDS_def EXECUTE_FIELDS_def CONNECTOR_FIELDS_def SECRET_WRITE_FIELDS_def FETCHER_KINDS_def
  FETCH_FIELDS_def SEARCH_FIELDS_def CONNECTOR_HOST_KINDS_def CALL_FIELDS_def CALL_REQUIRED_def MCP_KINDS_def

lemma plain_wires:
  "plain_kinds ''kind'' EXECUTOR_KINDS" "plain_kinds ''op'' FETCHER_KINDS" "plain_kinds ''op'' CONNECTOR_HOST_KINDS"
  "plain_kinds ''op'' MCP_KINDS"
  by (simp_all add: plain_kinds_def wire_defs)

lemmas decoder_defs = executor_decode_request_def fetcher_decode_request_def connector_decode_request_def mcp_decode_request_def

interpretation executor_wire: strict_wire EXECUTOR_VERSION "''kind''" EXECUTOR_KINDS executor_decode_request
  by unfold_locales (simp add: EXECUTOR_KINDS_def, erule plain_kindsD [OF plain_wires(1)], simp,
    unfold decoder_defs, rule decode_kind_reads [OF plain_wires(1)])

interpretation fetcher_wire: strict_wire FETCHER_VERSION "''op''" FETCHER_KINDS fetcher_decode_request
  by unfold_locales (simp add: FETCHER_KINDS_def, erule plain_kindsD [OF plain_wires(2)], simp,
    unfold decoder_defs, rule decode_op_reads [OF plain_wires(2)])

interpretation connector_wire: strict_wire CONNECTOR_HOST_VERSION "''op''" CONNECTOR_HOST_KINDS connector_decode_request
  by unfold_locales (simp add: CONNECTOR_HOST_KINDS_def, erule plain_kindsD [OF plain_wires(3)], simp,
    unfold decoder_defs, rule decode_op_reads [OF plain_wires(3)])

interpretation mcp_wire: strict_wire MCP_VERSION "''op''" MCP_KINDS mcp_decode_request
  by unfold_locales (simp add: MCP_KINDS_def, erule plain_kindsD [OF plain_wires(4)], simp,
    unfold decoder_defs, rule decode_op_reads [OF plain_wires(4)])


section \<open>Properties\<close>

text \<open>A frame that was written is read back whole, whatever pieces the socket delivers it in, and what follows
  it on the stream is left for the next read.\<close>

theorem frame_roundtrip:
  assumes "write_frame EXECUTOR_MAX_FRAME payload = Inr bytes" "well_chunked s" "concat s = bytes @ rest"
  shows "\<exists>s'. read_frame EXECUTOR_MAX_FRAME s = (Inr payload, s') \<and> well_chunked s' \<and> concat s' = rest"
  by (rule read_written [OF assms(1) caps_fit(1) assms(2,3)])

theorem frame_roundtrip_witness:
  "\<exists>s'. read_frame EXECUTOR_MAX_FRAME [[0, 0], [0], [2, 65], [66, 67]] = (Inr [65, 66], s') \<and> well_chunked s' \<and> concat s' = [67]"
  by (rule frame_roundtrip [where bytes = "[0, 0, 0, 2, 65, 66]"])
     (simp_all add: write_frame_def EXECUTOR_MAX_FRAME_def pack_length_def well_chunked_def)

text \<open>What is not a whole frame is no frame: a peer that closes inside one, after the length or before it, gives an
  error and never a shorter payload.\<close>

theorem cut_frame_refused:
  assumes "write_frame EXECUTOR_MAX_FRAME payload = Inr bytes" "well_chunked s" "bytes = concat s @ lost" "lost \<noteq> []"
  shows "\<exists>got wanted s'. read_frame EXECUTOR_MAX_FRAME s = (Inl (PeerClosed got wanted), s') \<and> got < wanted"
proof (cases "4 \<le> length (concat s)")
  case True
  note b = write_frame_Inr [OF assms(1)]
  have "take 4 (concat s) = take 4 bytes" using True assms(3) by simp
  then have n: "length payload = unat (unpack_length (take 4 (concat s)))"
    using b announced_length [OF b(2) caps_fit(1)] by simp
  have "length (concat s) < 4 + length payload"
    using assms(3,4) b(1) by (metis add_less_cancel_left length_append length_greater_0_conv length_pack less_add_same_cancel1)
  with read_frame_spec [OF assms(2) True n, of EXECUTOR_MAX_FRAME] b(2) True show ?thesis by auto
next
  case False
  with read_exactly_spec [OF assms(2), of 4] show ?thesis by (auto simp: read_frame_def)
qed

theorem cut_frame_refused_witness:
  "\<exists>got wanted s'. read_frame EXECUTOR_MAX_FRAME [[0, 0], [0], [2, 65]] = (Inl (PeerClosed got wanted), s') \<and> got < wanted"
  by (rule cut_frame_refused [where payload = "[65, 66]" and bytes = "[0, 0, 0, 2, 65, 66]" and lost = "[66]"])
     (simp_all add: write_frame_def EXECUTOR_MAX_FRAME_def pack_length_def well_chunked_def)

text \<open>The executor reads at most eight megabytes for a frame: a longer announcement is refused with nothing of the payload
  read, and a payload that is returned has the length that was announced.\<close>

theorem frame_length_bounded:
  assumes "well_chunked s" "4 \<le> length (concat s)" "n = unat (unpack_length (take 4 (concat s)))"
  shows "case read_frame EXECUTOR_MAX_FRAME s of
      (Inr payload, s') \<Rightarrow> length payload = n \<and> n \<le> 8388608 \<and> concat s' = drop (4 + n) (concat s)
    | (Inl e, s') \<Rightarrow> if n > 8388608 then e = PeerAnnounced n \<and> concat s' = drop 4 (concat s) else \<exists>k. e = PeerClosed k n \<and> k < n"
proof -
  have "length (concat s) - 4 < n" if "\<not> 4 + n \<le> length (concat s)" using that assms(2) by linarith
  with read_frame_spec [OF assms, of EXECUTOR_MAX_FRAME] show ?thesis by (auto simp: EXECUTOR_MAX_FRAME_def)
qed

theorem frame_length_bounded_witness:
  "case read_frame EXECUTOR_MAX_FRAME [[0, 128, 0], [1, 7]] of
      (Inr payload, s') \<Rightarrow> length payload = 8388609 \<and> (8388609 :: nat) \<le> 8388608 \<and> concat s' = drop (4 + 8388609) (concat [[0, 128, 0], [1, 7]])
    | (Inl e, s') \<Rightarrow> if (8388609 :: nat) > 8388608 then e = PeerAnnounced 8388609 \<and> concat s' = drop 4 (concat [[0, 128, 0], [1, 7]])
        else \<exists>k. e = PeerClosed k 8388609 \<and> k < 8388609"
proof (rule frame_length_bounded)
  show "well_chunked [[0, 128, 0], [1, 7]]" by (simp add: well_chunked_def)
  show "4 \<le> length (concat [[0, 128, 0], [1, 7 :: octet]])" by simp
  show "8388609 = unat (unpack_length (take 4 (concat [[0, 128, 0], [1, 7]])))"
  proof -
    have "take 4 (concat [[0, 128, 0], [1, 7]]) = pack_length 8388609" by (simp add: pack_length_def)
    then show ?thesis by simp
  qed
qed

text \<open>A request of the agent reaches the executor as it was sent: every kind, with the value of every field.\<close>

theorem executor_request_roundtrip:
  assumes "(name, fs, req) \<in> set EXECUTOR_KINDS" "map fst vs = fs"
  shows "executor_decode_request (Some (encode_as EXECUTOR_VERSION ''kind'' name vs)) =
    Inr (name, map (\<lambda>(f, v). (f, Some v)) vs)"
  by (rule executor_wire.roundtrip [OF assms])

theorem executor_request_roundtrip_witness:
  "executor_decode_request
     (Some (encode_as EXECUTOR_VERSION ''kind'' ''execute'' (map (\<lambda>f. (f, JStr f)) EXECUTE_FIELDS))) =
   Inr (''execute'', map (\<lambda>(f, v). (f, Some v)) (map (\<lambda>f. (f, JStr f)) EXECUTE_FIELDS))"
  by (rule executor_request_roundtrip [where req = EXECUTE_FIELDS]) (simp_all add: EXECUTOR_KINDS_def comp_def)

text \<open>The requests to the other helper processes, likewise; of the connector host's call the optional fields too.\<close>

lemma helper_request_roundtrip:
  assumes "map fst vs = fs"
  shows "(name, fs, req) \<in> set FETCHER_KINDS \<Longrightarrow>
      fetcher_decode_request (Some (encode_as FETCHER_VERSION ''op'' name vs)) = Inr (name, map (\<lambda>(f, v). (f, Some v)) vs)"
    "(name, fs, req) \<in> set CONNECTOR_HOST_KINDS \<Longrightarrow>
      connector_decode_request (Some (encode_as CONNECTOR_HOST_VERSION ''op'' name vs)) = Inr (name, map (\<lambda>(f, v). (f, Some v)) vs)"
    "(name, fs, req) \<in> set MCP_KINDS \<Longrightarrow>
      mcp_decode_request (Some (encode_as MCP_VERSION ''op'' name vs)) = Inr (name, map (\<lambda>(f, v). (f, Some v)) vs)"
  using assms fetcher_wire.roundtrip connector_wire.roundtrip mcp_wire.roundtrip by blast+

text \<open>The executor tolerates nothing it does not know: a frame it accepts has exactly the fields of a known
  kind beside the envelope.\<close>

theorem executor_frame_exact:
  assumes "distinct (map fst kvs)" "executor_decode_request (Some (JObj kvs)) = Inr (name, vs)"
  shows "\<exists>fs. (name, fs, fs) \<in> set EXECUTOR_KINDS \<and> set (map fst kvs) = {''v'', ''kind''} \<union> set fs \<and> map fst vs = fs"
proof -
  from executor_wire.accepted_keys [OF assms] obtain fs req where *: "(name, fs, req) \<in> set EXECUTOR_KINDS"
    "insert ''v'' (insert ''kind'' (set req)) \<subseteq> set (map fst kvs)" "set (map fst kvs) \<subseteq> insert ''v'' (insert ''kind'' (set fs))"
    "map fst vs = fs" by blast
  moreover from *(1) have "req = fs" by (auto simp: EXECUTOR_KINDS_def)
  ultimately show ?thesis by (intro exI [of _ fs]) auto
qed

lemma op_accepted:
  assumes "distinct (map fst kvs)"
  shows "fetcher_decode_request (Some (JObj kvs)) = Inr x \<Longrightarrow> jget kvs ''op'' \<in> {JStr ''fetch'', JStr ''search''}"
    "connector_decode_request (Some (JObj kvs)) = Inr x \<Longrightarrow> jget kvs ''op'' = JStr ''call''"
    "mcp_decode_request (Some (JObj kvs)) = Inr x \<Longrightarrow> jget kvs ''op'' \<in> JStr ` {''open'', ''list_tools'', ''list_resources'',
       ''list_prompts'', ''call_tool'', ''read_resource'', ''get_prompt''}"
  by (cases x; auto simp: fetcher_wire.reads [OF assms] connector_wire.reads [OF assms] mcp_wire.reads [OF assms]
      jget_def FETCHER_KINDS_def CONNECTOR_HOST_KINDS_def MCP_KINDS_def split: if_splits)+

lemma executor_has_no_op:
  assumes "distinct (map fst kvs)" "executor_decode_request (Some (JObj kvs)) = Inr x"
  shows "jget kvs ''op'' = JNull"
proof -
  obtain name vs where x: "x = (name, vs)" by (cases x)
  from executor_wire.accepted_keys [OF assms [unfolded x]] obtain fs req where
    *: "(name, fs, req) \<in> set EXECUTOR_KINDS" "set (map fst kvs) \<subseteq> {''v'', ''kind''} \<union> set fs" by auto
  from *(1) have "''op'' \<notin> {''v'', ''kind''} \<union> set fs" by (auto simp: wire_defs)
  with *(2) have "map_of kvs ''op'' = None" by (auto simp: map_of_eq_None_iff)
  then show ?thesis by (simp add: jget_def)
qed

text \<open>No frame is a request on two of the four wires, so a frame sent to the wrong process is refused there.\<close>

theorem wires_disjoint:
  assumes "distinct (map fst kvs)"
  shows "length (filter (\<lambda>decode. \<not> isl (decode (Some (JObj kvs))))
    [executor_decode_request, fetcher_decode_request, connector_decode_request, mcp_decode_request]) \<le> 1"
  using executor_has_no_op [OF assms] op_accepted [OF assms]
  by (cases "executor_decode_request (Some (JObj kvs))"; cases "fetcher_decode_request (Some (JObj kvs))";
      cases "connector_decode_request (Some (JObj kvs))"; cases "mcp_decode_request (Some (JObj kvs))") force+

definition sample_frame :: fields where
  "sample_frame = map (\<lambda>f. (f, JStr f)) SECRET_WRITE_FIELDS @ [(''v'', JInt 7), (''kind'', JStr ''secret_write'')]"

theorem executor_frame_exact_witness:
  "\<exists>fs. (''secret_write'', fs, fs) \<in> set EXECUTOR_KINDS \<and> set (map fst sample_frame) = {''v'', ''kind''} \<union> set fs \<and>
    map fst (map (\<lambda>f. (f, Some (JStr f))) SECRET_WRITE_FIELDS) = fs"
proof (rule executor_frame_exact)
  show "distinct (map fst sample_frame)" by (simp add: sample_frame_def wire_defs)
  show "executor_decode_request (Some (JObj sample_frame)) =
      Inr (''secret_write'', map (\<lambda>f. (f, Some (JStr f))) SECRET_WRITE_FIELDS)"
    using executor_wire.roundtrip [of "''secret_write''" SECRET_WRITE_FIELDS SECRET_WRITE_FIELDS "map (\<lambda>f. (f, JStr f)) SECRET_WRITE_FIELDS"]
    by (simp add: encode_as_def sample_frame_def EXECUTOR_KINDS_def EXECUTOR_VERSION_def comp_def)
qed

theorem wires_disjoint_witness:
  "length (filter (\<lambda>decode. \<not> isl (decode (Some (JObj sample_frame))))
    [executor_decode_request, fetcher_decode_request, connector_decode_request, mcp_decode_request]) \<le> 1"
  by (rule wires_disjoint) (simp add: sample_frame_def wire_defs)

end
