(* ===== verification/Url.thy ===== *)
theory Url
  imports NetGuard
begin

text \<open>
  What the code reads of a URL with \<open>urllib.parse\<close>: \<open>urlsplit\<close> up to the network location, the host
  name of that location, and \<open>quote\<close> with no safe characters. The check of characters beyond ASCII in a
  network location is left out; a character is one octet, as everywhere in this development.
\<close>

section \<open>The parts of a URL\<close>

definition url_unsafe :: "char \<Rightarrow> bool" where
  "url_unsafe c \<longleftrightarrow> (of_char c :: nat) \<in> {9, 10, 13}"

definition ascii_alpha :: "char \<Rightarrow> bool" where
  "ascii_alpha c \<longleftrightarrow> (let n = (of_char c :: nat) in (65 \<le> n \<and> n \<le> 90) \<or> (97 \<le> n \<and> n \<le> 122))"

definition scheme_char :: "char \<Rightarrow> bool" where
  "scheme_char c \<longleftrightarrow> ascii_alpha c \<or> digit_char c \<or> c \<in> set ''+-.''"

text \<open>Leading control characters and blanks go, and tab, line feed and carriage return everywhere.\<close>

definition url_clean :: "string \<Rightarrow> string" where
  "url_clean url = filter (\<lambda>c. \<not> url_unsafe c) (dropWhile (\<lambda>c. (of_char c :: nat) \<le> 32) url)"

definition split_scheme :: "string \<Rightarrow> string \<times> string" where
  "split_scheme url =
     (let name = takeWhile (\<lambda>c. c \<noteq> CHR '':'') url
      in if name = url \<or> name = [] \<or> \<not> ascii_alpha (hd name) \<or> \<not> list_all scheme_char name then ([], url)
         else (lower name, drop (length name + 1) url))"

definition netloc_char :: "char \<Rightarrow> bool" where
  "netloc_char c \<longleftrightarrow> c \<notin> set ''/?#''"

definition url_netloc_of :: "string \<Rightarrow> string" where
  "url_netloc_of rest = (if starts_with ''//'' rest then takeWhile netloc_char (drop 2 rest) else [])"

text \<open>\<open>s.partition(c)[2]\<close> and \<open>s.rpartition(c)[2]\<close>\<close>

definition after_char :: "char \<Rightarrow> string \<Rightarrow> string" where
  "after_char c s = drop 1 (dropWhile (\<lambda>x. x \<noteq> c) s)"

definition before_char :: "char \<Rightarrow> string \<Rightarrow> string" where
  "before_char c s = takeWhile (\<lambda>x. x \<noteq> c) s"

definition after_last :: "char \<Rightarrow> string \<Rightarrow> string" where
  "after_last c s = rev (takeWhile (\<lambda>x. x \<noteq> c) (rev s))"

text \<open>\<open>_check_bracketed_host\<close>: an address of version 6, or the form kept for later versions.\<close>

definition bracketed_host_ok :: "string \<Rightarrow> bool" where
  "bracketed_host_ok host =
     (if starts_with ''v'' host
      then (let digits = before_char (CHR ''.'') (tl host); rest = after_char (CHR ''.'') host
            in digits \<noteq> [] \<and> list_all (\<lambda>c. hex_value c \<noteq> None) digits \<and> rest \<noteq> [] \<and> char_of (10 :: nat) \<notin> set rest)
      else (case ip_address host of Some (V6 _) \<Rightarrow> True | _ \<Rightarrow> False))"

definition netloc_ok :: "string \<Rightarrow> bool" where
  "netloc_ok n \<longleftrightarrow> (CHR ''['' \<in> set n \<longleftrightarrow> CHR '']'' \<in> set n) \<and>
     (CHR ''['' \<in> set n \<longrightarrow> bracketed_host_ok (before_char (CHR '']'') (after_char (CHR ''['') n)))"

text \<open>\<open>SplitResult.hostname\<close>; a zone after a percent sign keeps its case.\<close>

definition netloc_hostname :: "string \<Rightarrow> string option" where
  "netloc_hostname n =
     (let info = after_last (CHR ''@'') n;
          name = (if CHR ''['' \<in> set info then before_char (CHR '']'') (after_char (CHR ''['') info)
                  else before_char (CHR '':'') info)
      in if name = [] then None
         else Some (lower (before_char (CHR ''%'') name) @ dropWhile (\<lambda>x. x \<noteq> CHR ''%'') name))"

definition urlsplit :: "string \<Rightarrow> py_exn + url_parts" where
  "urlsplit url =
     (let (scheme, rest) = split_scheme (url_clean url); n = url_netloc_of rest
      in if \<not> netloc_ok n then Inl ValueError
         else Inr \<lparr>url_scheme = scheme, url_netloc = n, url_hostname = netloc_hostname n\<rparr>)"

text \<open>\<open>urlsplit(url).hostname or ""\<close>\<close>

definition url_host :: "string \<Rightarrow> py_exn + string" where
  "url_host url = map_sum id (\<lambda>p. case url_hostname p of None \<Rightarrow> [] | Some h \<Rightarrow> h) (urlsplit url)"

text \<open>\<open>quote(s, safe="")\<close> of octets.\<close>

definition unreserved :: "char \<Rightarrow> bool" where
  "unreserved c \<longleftrightarrow> ascii_alpha c \<or> digit_char c \<or> c \<in> set ''_.-~''"

definition hex_upper :: "nat \<Rightarrow> char" where
  "hex_upper n = ''0123456789ABCDEF'' ! n"

definition url_quote :: "string \<Rightarrow> string" where
  "url_quote s = concat (map (\<lambda>c. if unreserved c then [c]
     else (let n = (of_char c :: nat) in [CHR ''%'', hex_upper (n div 16), hex_upper (n mod 16)])) s)"


section \<open>Facts\<close>

lemma url_clean_https:
  "url_clean (''https://'' @ x) = ''https://'' @ filter (\<lambda>c. \<not> url_unsafe c) x"
  by (simp add: url_clean_def url_unsafe_def)

lemma split_scheme_https: "split_scheme (''https://'' @ x) = (''https'', ''//'' @ x)"
  by (simp add: split_scheme_def ascii_alpha_def scheme_char_def lower_def lower_char_def)

lemma urlsplit_https:
  "urlsplit (''https://'' @ x) =
    (let n = takeWhile netloc_char (filter (\<lambda>c. \<not> url_unsafe c) x)
     in if netloc_ok n then Inr \<lparr>url_scheme = ''https'', url_netloc = n, url_hostname = netloc_hostname n\<rparr> else Inl ValueError)"
  unfolding urlsplit_def url_clean_https split_scheme_https
  by (simp add: url_netloc_of_def starts_with_def Let_def)

lemma url_safe_slash [simp]: "\<not> url_unsafe (CHR ''/'')" "\<not> netloc_char (CHR ''/'')"
  by (simp_all add: url_unsafe_def netloc_char_def)

lemma takeWhile_stop:
  assumes "ys = [] \<or> \<not> P (hd ys)"
  shows "takeWhile P (xs @ ys) = takeWhile P xs"
proof -
  have "takeWhile P ys = []" using assms by (cases ys) auto
  then show ?thesis by (induction xs) auto
qed

text \<open>A path behind the slash does not move the host.\<close>

lemma netloc_with_path:
  assumes "starts_with ''/'' path"
  shows "takeWhile netloc_char (filter (\<lambda>c. \<not> url_unsafe c) (x @ path)) = takeWhile netloc_char (filter (\<lambda>c. \<not> url_unsafe c) x)"
proof -
  from assms obtain p where p: "path = CHR ''/'' # p" by (auto simp: starts_with_conv)
  show ?thesis unfolding p filter_append by (rule takeWhile_stop) simp
qed

lemma url_host_path:
  assumes "starts_with ''https://'' base" "starts_with ''/'' path"
  shows "url_host (base @ path) = url_host base"
proof -
  from assms(1) obtain x where x: "base = ''https://'' @ x" by (auto simp: starts_with_conv)
  show ?thesis unfolding url_host_def x append_assoc urlsplit_https netloc_with_path [OF assms(2)] ..
qed

definition quoted_char :: "char \<Rightarrow> bool" where
  "quoted_char c \<longleftrightarrow> unreserved c \<or> c = CHR ''%''"

lemma hex_upper_char: "n < 16 \<Longrightarrow> unreserved (hex_upper n)"
proof -
  assume "n < 16"
  then have "hex_upper n \<in> set ''0123456789ABCDEF''" unfolding hex_upper_def by (intro nth_mem) simp
  moreover have "list_all unreserved ''0123456789ABCDEF''"
    by (simp add: unreserved_def ascii_alpha_def digit_char_def)
  ultimately show ?thesis by (auto simp: list_all_iff)
qed

lemma url_quote_chars: "list_all quoted_char (url_quote s)"
proof -
  have "n div 16 < 16" "n mod 16 < 16" if "n < 256" for n :: nat using that by auto
  then have "unreserved (hex_upper ((of_char x :: nat) div 16))" "unreserved (hex_upper ((of_char x :: nat) mod 16))" for x
    using hex_upper_char nat_of_char_less_256 [of x] by auto
  then show ?thesis by (auto simp: url_quote_def quoted_char_def list_all_iff Let_def split: if_splits)
qed

lemma url_quote_no_reserved: "c \<in> set ''/?#{}&=@:'' \<Longrightarrow> c \<notin> set (url_quote s)"
proof -
  have "list_all (\<lambda>c. \<not> quoted_char c) ''/?#{}&=@:''"
    by (simp add: quoted_char_def unreserved_def ascii_alpha_def digit_char_def)
  then show "c \<in> set ''/?#{}&=@:'' \<Longrightarrow> c \<notin> set (url_quote s)" using url_quote_chars [of s] by (auto simp: list_all_iff)
qed

end
