(* ===== verification/Connectors.thy ===== *)
theory Connectors
  imports Url Json Config
begin

text \<open>
  What a connector declares and what a deployment lets it do: the contracts of
  \<open>nanoinfra/connectors/contracts.py\<close>, the operations a deployment exposes (\<open>registry.py\<close>), the credential
  rules (\<open>credentials.py\<close>), the configuration (\<open>config/connectors.py\<close>) and the activation
  (\<open>setup.py\<close>). A refusal is a constructor; a plugin whose \<open>__post_init__\<close> raises is no plugin.
\<close>

section \<open>Contracts\<close>

text \<open>A JSON Schema fragment as a manifest writes it, with the keys \<open>validate_json_schema_value\<close> reads.\<close>

datatype schema = Schema
  (sch_type: "string option") (sch_nullable: bool) (sch_enum: "jval list option")
  (sch_minimum: "rat option") (sch_maximum: "rat option")
  (sch_min_length: "nat option") (sch_max_length: "nat option")
  (sch_properties: "(string \<times> schema) list") (sch_required: "string list") (sch_additional: "additional option")
  (sch_min_items: "nat option") (sch_max_items: "nat option") (sch_items: "schema option")
and additional = Anything | Nothing | Each schema

record connector_op =
  cop_name :: string
  cop_class :: string
  cop_method :: string
  cop_path :: string
  cop_returns :: "string list"
  cop_collection :: string
  cop_parameters :: "schema option"
  cop_read_via_post :: bool

definition lower_ascii :: "char \<Rightarrow> bool" where
  "lower_ascii c \<longleftrightarrow> (let n = (of_char c :: nat) in 97 \<le> n \<and> n \<le> 122)"

definition op_name_ok :: "string \<Rightarrow> bool" where
  "op_name_ok s = (case s of [] \<Rightarrow> False
     | c # cs \<Rightarrow> lower_ascii c \<and> list_all (\<lambda>x. lower_ascii x \<or> digit_char x \<or> x = CHR ''_'') cs)"

definition connector_name_ok :: "string \<Rightarrow> bool" where
  "connector_name_ok s = (case s of [] \<Rightarrow> False
     | c # cs \<Rightarrow> lower_ascii c \<and> list_all (\<lambda>x. lower_ascii x \<or> digit_char x \<or> x = CHR ''-'') cs)"

datatype contract_fault =
    BadName string | UnknownClass string string | PathNotRooted string | ReadThatWrites string string
  | PointlessFlag string | NotHttps string | NoOperations string | DeclaredTwice "string list"
  | MentionUnlisted string string | MentionWrites string string

definition is_read :: "connector_op \<Rightarrow> bool" where
  "is_read op \<longleftrightarrow> starts_with ''read'' (cop_class op)"

text \<open>\<open>ConnectorOperation.__post_init__\<close>\<close>

definition check_operation :: "connector_op \<Rightarrow> contract_fault option" where
  "check_operation op =
     (if \<not> op_name_ok (cop_name op) then Some (BadName (cop_name op))
      else if cop_class op \<notin> set CAPABILITY_CLASSES then Some (UnknownClass (cop_name op) (cop_class op))
      else if \<not> starts_with ''/'' (cop_path op) then Some (PathNotRooted (cop_name op))
      else if is_read op \<and> cop_method op \<noteq> ''GET'' \<and> \<not> cop_read_via_post op
      then Some (ReadThatWrites (cop_name op) (cop_method op))
      else if cop_read_via_post op \<and> \<not> (is_read op \<and> cop_method op = ''POST'') then Some (PointlessFlag (cop_name op))
      else None)"

record credential_spec =
  spec_kind :: string
  spec_scopes :: "(string, string list) dict"
  spec_token_url :: string
  spec_hosts :: "string list"

definition scopes_for :: "credential_spec \<Rightarrow> string \<Rightarrow> string list" where
  "scopes_for spec cls = (case dict_get (spec_scopes spec) cls of None \<Rightarrow> [] | Some s \<Rightarrow> s)"

text \<open>The fields of the setup are here with their defaults, the mentions with their listing operation.\<close>

record plugin =
  plg_name :: string
  plg_base :: string
  plg_ops :: "connector_op list"
  plg_credential :: credential_spec
  plg_fields :: "(string, jval) dict"
  plg_mentions :: "(string \<times> string) list"

definition plugin_operation :: "plugin \<Rightarrow> string \<Rightarrow> connector_op option" where
  "plugin_operation p name = List.find (\<lambda>op. cop_name op = name) (plg_ops p)"

definition check_mention :: "plugin \<Rightarrow> string \<times> string \<Rightarrow> contract_fault option" where
  "check_mention p m =
     (case m of (kind, listing) \<Rightarrow>
        (case plugin_operation p listing of
           None \<Rightarrow> Some (MentionUnlisted kind listing)
         | Some op \<Rightarrow> if is_read op then None else Some (MentionWrites kind listing)))"

definition check_plugin :: "plugin \<Rightarrow> contract_fault option" where
  "check_plugin p =
     (let names = map cop_name (plg_ops p); twice = filter (\<lambda>n. 1 < count_list names n) names
      in if \<not> connector_name_ok (plg_name p) then Some (BadName (plg_name p))
         else if \<not> starts_with ''https://'' (plg_base p) then Some (NotHttps (plg_name p))
         else if plg_ops p = [] then Some (NoOperations (plg_name p))
         else if twice \<noteq> [] then Some (DeclaredTwice (sorted_set twice))
         else (case List.find (\<lambda>m. check_mention p m \<noteq> None) (plg_mentions p) of
                 None \<Rightarrow> None | Some m \<Rightarrow> check_mention p m))"

text \<open>A plugin that could be constructed, with operations that could be.\<close>

definition plugin_ok :: "plugin \<Rightarrow> bool" where
  "plugin_ok p \<longleftrightarrow> check_plugin p = None \<and> list_all (\<lambda>op. check_operation op = None) (plg_ops p)"

definition plugin_classes :: "plugin \<Rightarrow> string list" where
  "plugin_classes p = first_of_each (map cop_class (plg_ops p))"

definition tool_name :: "plugin \<Rightarrow> connector_op \<Rightarrow> string" where
  "tool_name p op = map (\<lambda>c. if c = CHR ''-'' then CHR ''_'' else c) (plg_name p) @ ''_'' @ cop_name op"


section \<open>The operations of a deployment\<close>

definition enabled_operations :: "plugin \<Rightarrow> string list option \<Rightarrow> connector_op list" where
  "enabled_operations p allowed =
     (case allowed of None \<Rightarrow> plg_ops p | Some names \<Rightarrow> filter (\<lambda>op. cop_name op \<in> set names) (plg_ops p))"

definition capped_operations :: "connector_op list \<Rightarrow> string option \<Rightarrow> connector_op list" where
  "capped_operations ops max_class = (if max_class = Some ''read'' then filter is_read ops else ops)"

text \<open>\<open>discover_connectors\<close>: the packages of the workspace under their own name, then the bundled ones, each under
  the name of its directory, which win.\<close>

definition discover_connectors :: "(string \<times> plugin option) list \<Rightarrow> plugin list \<Rightarrow> (string, plugin) dict" where
  "discover_connectors bundled workspace =
     foldl (\<lambda>found (package, loaded). case loaded of
              None \<Rightarrow> found
            | Some p \<Rightarrow> if plg_name p = map (\<lambda>c. if c = CHR ''_'' then CHR ''-'' else c) package
                        then dict_set (plg_name p) p found else found)
       (foldl (\<lambda>found p. dict_set (plg_name p) p found) [] workspace) bundled"


section \<open>Credentials\<close>

record connector_credential =
  crd_name :: string
  crd_client_id :: string
  crd_secret_ref :: string
  crd_token_url :: string
  crd_scopes :: "string list"
  crd_client_secret_ref :: string
  crd_hosts :: "string list"

datatype credential_fault =
    NoCredential string | UnknownCredential string string | IncompleteCredential string
  | NotGranted string "string list" | NoUrlHost string | HostNotAllowed string string | ContradictsItself string
  | UnknownOperations string "string list" | NothingToCall string
  | NotInstalled string

definition permits_host :: "string list \<Rightarrow> string \<Rightarrow> bool" where
  "permits_host allowed host \<longleftrightarrow> allowed = [] \<or> lower host \<in> set (map lower allowed)"

fun hosts_of_urls :: "string list \<Rightarrow> py_exn + string list" where
  "hosts_of_urls [] = Inr []"
| "hosts_of_urls (u # us) =
     (case url_host u of
        Inl x \<Rightarrow> Inl x
      | Inr h \<Rightarrow> (case hosts_of_urls us of Inl x \<Rightarrow> Inl x | Inr hs \<Rightarrow> Inr (h # hs)))"

definition has_scheme_mark :: "string \<Rightarrow> bool" where
  "has_scheme_mark s \<longleftrightarrow> list_ex (\<lambda>i. starts_with ''://'' (drop i s)) [0..<length s]"

definition declared_urls :: "plugin \<Rightarrow> string list" where
  "declared_urls p = plg_base p # filter has_scheme_mark (map cop_path (plg_ops p))"

definition check_connector_hosts :: "plugin \<Rightarrow> connector_credential \<Rightarrow> py_exn + credential_fault option" where
  "check_connector_hosts p cred =
     (case hosts_of_urls (declared_urls p) of
        Inl x \<Rightarrow> Inl x
      | Inr found \<Rightarrow>
          (let hosts = sorted_set found;
               refused = (\<lambda>h. h = [] \<or> \<not> permits_host (crd_hosts cred) h);
               manifest = map lower (spec_hosts (plg_credential p))
           in Inr (case List.find refused hosts of
                     Some h \<Rightarrow> Some (if h = [] then NoUrlHost (plg_name p) else HostNotAllowed (plg_name p) h)
                   | None \<Rightarrow>
                       if manifest \<noteq> [] \<and> \<not> set (map lower hosts) \<subseteq> set manifest then Some (ContradictsItself (plg_name p))
                       else None)))"

definition scope_subset :: "string list \<Rightarrow> connector_credential \<Rightarrow> credential_fault + string list" where
  "scope_subset declared cred =
     (let missing = filter (\<lambda>s. s \<notin> set (crd_scopes cred)) declared
      in if missing \<noteq> [] then Inl (NotGranted (crd_name cred) (sort missing)) else Inr declared)"

text \<open>The first class of the plugin the credential cannot serve.\<close>

fun first_fault :: "('a \<Rightarrow> 'e + 'b) \<Rightarrow> 'a list \<Rightarrow> 'e option" where
  "first_fault f [] = None"
| "first_fault f (x # xs) = (case f x of Inl e \<Rightarrow> Some e | Inr _ \<Rightarrow> first_fault f xs)"

definition check_connector_scopes :: "plugin \<Rightarrow> connector_credential \<Rightarrow> credential_fault option" where
  "check_connector_scopes p cred =
     (if spec_kind (plg_credential p) = ''none'' then None
      else first_fault (\<lambda>cls. scope_subset (scopes_for (plg_credential p) cls) cred) (plugin_classes p))"


section \<open>Activation\<close>

record credential_config =
  ccf_client_id :: string
  ccf_secret_ref :: string
  ccf_client_secret_ref :: string
  ccf_token_url :: string
  ccf_scopes :: "string list"
  ccf_hosts :: "string list"

record connector_config =
  con_credential :: string
  con_enabled :: "string list option"
  con_max_class :: "string option"
  con_settings :: "(string, string) dict"

record connector_runtime =
  rt_credentials :: "(string, credential_config) dict"
  rt_connectors :: "(string, connector_config) dict"
  rt_active :: "string list"

record active_connector =
  act_plugin :: plugin
  act_operations :: "connector_op list"
  act_credential :: connector_credential
  act_defaults :: "(string, jval) dict"

definition credential_for :: "string \<Rightarrow> connector_runtime \<Rightarrow> plugin \<Rightarrow> credential_fault + connector_credential" where
  "credential_for name cfg p =
     (let ref = (case dict_get (rt_connectors cfg) name of None \<Rightarrow> [] | Some c \<Rightarrow> con_credential c);
          spec = plg_credential p
      in if ref = [] then
           (if spec_kind spec = ''none''
            then Inr \<lparr>crd_name = [], crd_client_id = [], crd_secret_ref = [], crd_token_url = [], crd_scopes = [],
                      crd_client_secret_ref = [], crd_hosts = []\<rparr>
            else Inl (NoCredential name))
         else (case dict_get (rt_credentials cfg) ref of
             None \<Rightarrow> Inl (UnknownCredential name ref)
           | Some c \<Rightarrow>
               (if ccf_client_id c = [] \<or> ccf_secret_ref c = [] then Inl (IncompleteCredential ref)
                else Inr \<lparr>crd_name = ref, crd_client_id = ccf_client_id c, crd_secret_ref = ccf_secret_ref c,
                          crd_token_url = (if ccf_token_url c = [] then spec_token_url spec else ccf_token_url c),
                          crd_scopes = ccf_scopes c, crd_client_secret_ref = ccf_client_secret_ref c,
                          crd_hosts = (if ccf_hosts c = [] then spec_hosts spec else ccf_hosts c)\<rparr>)))"

definition operations_for :: "string \<Rightarrow> connector_runtime \<Rightarrow> plugin \<Rightarrow> credential_fault + connector_op list" where
  "operations_for name cfg p =
     (let conf = dict_get (rt_connectors cfg) name;
          wanted = Option.bind conf con_enabled;
          known = map cop_name (plg_ops p);
          unknown = (case wanted of None \<Rightarrow> [] | Some w \<Rightarrow> sorted_set (filter (\<lambda>n. n \<notin> set known) w));
          capped = capped_operations (enabled_operations p wanted) (Option.bind conf con_max_class)
      in if unknown \<noteq> [] then Inl (UnknownOperations name unknown)
         else if capped = [] then Inl (NothingToCall name)
         else Inr capped)"

text \<open>The defaults of the manifest under the settings of the operator.\<close>

definition defaults_for :: "plugin \<Rightarrow> (string, string) dict \<Rightarrow> (string, jval) dict" where
  "defaults_for p settings =
     foldl (\<lambda>d (k, v). dict_set k (JStr v) d)
       (filter (\<lambda>(k, v). v \<notin> {JNull, JStr []}) (plg_fields p)) settings"

definition activate :: "string \<Rightarrow> connector_runtime \<Rightarrow> plugin \<Rightarrow> py_exn + (credential_fault + active_connector)" where
  "activate name cfg p =
     (case credential_for name cfg p of
        Inl e \<Rightarrow> Inr (Inl e)
      | Inr cred \<Rightarrow>
          (case operations_for name cfg p of
             Inl e \<Rightarrow> Inr (Inl e)
           | Inr ops \<Rightarrow>
               (let offered = p\<lparr>plg_ops := ops, plg_mentions := []\<rparr>
                in case check_connector_scopes offered cred of
                     Some e \<Rightarrow> Inr (Inl e)
                   | None \<Rightarrow>
                       (case check_connector_hosts offered cred of
                          Inl x \<Rightarrow> Inl x
                        | Inr (Some e) \<Rightarrow> Inr (Inl e)
                        | Inr None \<Rightarrow>
                            Inr (Inr \<lparr>act_plugin = p, act_operations = ops, act_credential = cred,
                                      act_defaults = defaults_for p (case dict_get (rt_connectors cfg) name of
                                                                       None \<Rightarrow> [] | Some c \<Rightarrow> con_settings c)\<rparr>)))))"

text \<open>\<open>resolve_active\<close>: the connectors that activate, and the others with the reason. Only a
  \<open>CredentialError\<close> is caught on the way.\<close>

fun resolve_names ::
  "(string, plugin) dict \<Rightarrow> connector_runtime \<Rightarrow> string list \<Rightarrow>
   py_exn + (active_connector list \<times> (string \<times> credential_fault) list)" where
  "resolve_names installed cfg [] = Inr ([], [])"
| "resolve_names installed cfg (name # names) =
     (case (case dict_get installed name of
              None \<Rightarrow> Inr (Inl (NotInstalled name))
            | Some p \<Rightarrow> activate name cfg p) of
        Inl x \<Rightarrow> Inl x
      | Inr here \<Rightarrow>
          (case resolve_names installed cfg names of
             Inl x \<Rightarrow> Inl x
           | Inr (active, problems) \<Rightarrow>
               (case here of
                  Inl e \<Rightarrow> Inr (active, (name, e) # problems)
                | Inr a \<Rightarrow> Inr (a # active, problems))))"

definition resolve_active ::
  "(string, plugin) dict \<Rightarrow> connector_runtime \<Rightarrow> py_exn + (active_connector list \<times> (string \<times> credential_fault) list)" where
  "resolve_active installed cfg = resolve_names installed cfg (rt_active cfg)"

section \<open>What activation gives\<close>

lemma resolve_names_active:
  "resolve_names installed cfg names = Inr (active, problems) \<Longrightarrow> a \<in> set active \<Longrightarrow>
   \<exists>name p. name \<in> set names \<and> dict_get installed name = Some p \<and> activate name cfg p = Inr (Inr a)"
  by (induction names arbitrary: active problems) (fastforce split: option.splits sum.splits)+

lemma activate_facts:
  assumes "activate name cfg p = Inr (Inr a)"
  shows "credential_for name cfg p = Inr (act_credential a)" "operations_for name cfg p = Inr (act_operations a)"
    "act_plugin a = p" "check_connector_scopes (p\<lparr>plg_ops := act_operations a, plg_mentions := []\<rparr>) (act_credential a) = None"
    "check_connector_hosts (p\<lparr>plg_ops := act_operations a, plg_mentions := []\<rparr>) (act_credential a) = Inr None"
  using assms by (auto simp: activate_def Let_def split: sum.splits option.splits)

lemma operations_for_facts:
  assumes "operations_for name cfg p = Inr ops"
  shows "ops \<noteq> []" "set ops \<subseteq> set (plg_ops p)"
    "Option.bind (dict_get (rt_connectors cfg) name) con_enabled = Some w \<Longrightarrow> set (map cop_name ops) \<subseteq> set w"
    "Option.bind (dict_get (rt_connectors cfg) name) con_max_class = Some ''read'' \<Longrightarrow> list_all is_read ops"
  using assms
  by (auto simp: operations_for_def Let_def capped_operations_def enabled_operations_def list_all_iff
      split: if_splits option.splits)

lemma active_from:
  assumes "resolve_active installed cfg = Inr (active, problems)" "a \<in> set active"
  obtains name where "name \<in> set (rt_active cfg)" "dict_get installed name = Some (act_plugin a)"
    "activate name cfg (act_plugin a) = Inr (Inr a)"
proof -
  from resolve_names_active [OF assms [unfolded resolve_active_def]] obtain name p
    where *: "name \<in> set (rt_active cfg)" "dict_get installed name = Some p" "activate name cfg p = Inr (Inr a)" by blast
  moreover from activate_facts(3) [OF *(3)] have "act_plugin a = p" .
  ultimately show ?thesis using that by blast
qed

lemma first_fault_None: "first_fault f xs = None \<longleftrightarrow> (\<forall>x \<in> set xs. \<exists>y. f x = Inr y)"
  by (induction xs) (auto split: sum.splits)

lemma scope_subset_Inr: "scope_subset declared cred = Inr s \<longleftrightarrow> set declared \<subseteq> set (crd_scopes cred) \<and> s = declared"
  by (auto simp: scope_subset_def Let_def filter_empty_conv)

lemma read_method:
  assumes "check_operation op = None" "is_read op"
  shows "cop_method op = ''GET'' \<or> cop_method op = ''POST'' \<and> cop_read_via_post op"
proof (rule ccontr)
  assume "\<not> ?thesis"
  then have "check_operation op \<noteq> None"
    unfolding check_operation_def using assms(2) by (cases "cop_read_via_post op") (simp_all split: if_split)
  with assms(1) show False by simp
qed

lemma hosts_of_urls_Inr:
  "hosts_of_urls us = Inr hs \<Longrightarrow> u \<in> set us \<Longrightarrow> \<exists>h \<in> set hs. url_host u = Inr h"
  by (induction us arbitrary: hs) (auto split: sum.splits)

lemma check_hosts_base:
  assumes "check_connector_hosts p cred = Inr None"
  shows "\<exists>h. url_host (plg_base p) = Inr h \<and> h \<noteq> [] \<and> permits_host (crd_hosts cred) h \<and>
    (spec_hosts (plg_credential p) \<noteq> [] \<longrightarrow> lower h \<in> set (map lower (spec_hosts (plg_credential p))))"
proof -
  from assms obtain found where f: "hosts_of_urls (declared_urls p) = Inr found"
    "list_all (\<lambda>h. h \<noteq> [] \<and> permits_host (crd_hosts cred) h) found"
    "map lower (spec_hosts (plg_credential p)) = [] \<or> set (map lower found) \<subseteq> set (map lower (spec_hosts (plg_credential p)))"
    by (auto simp: check_connector_hosts_def Let_def find_None_all list_all_iff split: sum.splits option.splits if_splits)
  have "plg_base p \<in> set (declared_urls p)" by (simp add: declared_urls_def)
  from hosts_of_urls_Inr [OF f(1) this] obtain h where "h \<in> set found" "url_host (plg_base p) = Inr h" by blast
  with f(2,3) show ?thesis by (intro exI [of _ h]) (auto simp: list_all_iff)
qed


section \<open>Properties\<close>

text \<open>No connector activates that its credential cannot serve: for every operation it offers, the scopes of the
  class are granted, so the request for a token never asks for more and never fails for want of one.\<close>

theorem active_connector_served:
  assumes "resolve_active installed cfg = Inr (active, problems)" "a \<in> set active" "op \<in> set (act_operations a)"
    and "spec_kind (plg_credential (act_plugin a)) \<noteq> ''none''"
  shows "let scopes = scopes_for (plg_credential (act_plugin a)) (cop_class op)
    in scope_subset scopes (act_credential a) = Inr scopes \<and> set scopes \<subseteq> set (crd_scopes (act_credential a))"
proof -
  from assms(1,2) obtain name where a: "activate name cfg (act_plugin a) = Inr (Inr a)" by (rule active_from)
  let ?p = "(act_plugin a)\<lparr>plg_ops := act_operations a, plg_mentions := []\<rparr>"
  have "cop_class op \<in> set (plugin_classes ?p)" using assms(3) by (simp add: plugin_classes_def)
  with activate_facts(4) [OF a] assms(4) show ?thesis
    by (auto simp: check_connector_scopes_def first_fault_None scope_subset_Inr Let_def)
qed

text \<open>The configuration binds: an active connector was asked for, is installed, offers only operations its manifest
  declares and the configuration names, at least one, and under a ceiling of read only reads, which are GET
  requests or declared to read by POST.\<close>

theorem active_connector_bound:
  assumes "resolve_active installed cfg = Inr (active, problems)" "a \<in> set active" "plugin_ok (act_plugin a)"
  shows "\<exists>name \<in> set (rt_active cfg). dict_get installed name = Some (act_plugin a) \<and> act_operations a \<noteq> [] \<and>
    set (act_operations a) \<subseteq> set (plg_ops (act_plugin a)) \<and>
    (case Option.bind (dict_get (rt_connectors cfg) name) con_enabled of
       None \<Rightarrow> True | Some w \<Rightarrow> set (map cop_name (act_operations a)) \<subseteq> set w) \<and>
    (Option.bind (dict_get (rt_connectors cfg) name) con_max_class = Some ''read'' \<longrightarrow>
       list_all (\<lambda>op. is_read op \<and> (cop_method op = ''GET'' \<or> cop_method op = ''POST'' \<and> cop_read_via_post op)) (act_operations a))"
proof -
  from assms(1,2) obtain name where n: "name \<in> set (rt_active cfg)" "dict_get installed name = Some (act_plugin a)"
    "activate name cfg (act_plugin a) = Inr (Inr a)" by (rule active_from)
  note ops = operations_for_facts [OF activate_facts(2) [OF n(3)]]
  from assms(3) have "list_all (\<lambda>op. check_operation op = None) (act_operations a)"
    using ops(2) by (auto simp: plugin_ok_def list_all_iff)
  then have "list_all (\<lambda>op. is_read op \<and> (cop_method op = ''GET'' \<or> cop_method op = ''POST'' \<and> cop_read_via_post op)) (act_operations a)"
    if "list_all is_read (act_operations a)"
    using that read_method unfolding list_all_iff by blast
  with n(1,2) ops show ?thesis by (intro bexI [of _ name] conjI impI) (simp_all split: option.split)
qed

end
