(* ===== verification/Engine.thy ===== *)
theory Engine
  imports Connectors
begin

text \<open>
  One operation of a connector: the check of its arguments (\<open>Schema.validate_json_schema_value\<close> of
  \<open>agent/tools/base.py\<close>), the request it becomes, its projection and the call
  (\<open>connectors/engine.py\<close>), and the token the call carries
  (\<open>gates/executor/connector_credentials.py\<close>). The HTTP client, the secret store and the clock are arguments;
  the text \<open>str()\<close> gives for a value is \<open>repr\<close>. Sentences are constructors.
\<close>

section \<open>Arguments against a schema\<close>

fun num_of :: "jval \<Rightarrow> rat option" where
  "num_of (JInt n) = Some (of_int n)"
| "num_of (JFloat r) = Some r"
| "num_of (JBool b) = Some (if b then 1 else 0)"
| "num_of _ = None"

text \<open>\<open>==\<close> of Python on JSON values: numbers and Booleans by value, objects whatever the order.\<close>

lemma size_pair_mem [termination_simp]: "(k, v) \<in> set kvs \<Longrightarrow> size v < Suc (size_list (size_prod (\<lambda>_. 0) size) kvs)"
  by (induction kvs) auto

fun py_eq :: "jval \<Rightarrow> jval \<Rightarrow> bool" where
  "py_eq (JList xs) (JList ys) = list_all2 py_eq xs ys"
| "py_eq (JObj a) (JObj b) =
     (length a = length b \<and>
      list_all (\<lambda>(k, v). case map_of b k of None \<Rightarrow> False | Some w \<Rightarrow> py_eq v w) a)"
| "py_eq a b = (case (num_of a, num_of b) of (Some m, Some n) \<Rightarrow> m = n | _ \<Rightarrow> a = b)"

datatype schema_issue =
    WrongType string | NotInEnum | BelowMinimum | AboveMaximum | TooShort | TooLongText
  | MissingRequired | Unexpected | TooFewItems | TooManyItems

fun has_type :: "string \<Rightarrow> jval \<Rightarrow> bool" where
  "has_type t (JStr _) = (t = ''string'')"
| "has_type t (JInt _) = (t = ''integer'' \<or> t = ''number'')"
| "has_type t (JFloat _) = (t = ''number'')"
| "has_type t (JBool _) = (t = ''boolean'')"
| "has_type t (JList _) = (t = ''array'')"
| "has_type t (JObj _) = (t = ''object'')"
| "has_type t JNull = False"

definition JSON_TYPES :: "string list" where
  "JSON_TYPES = [''string'', ''integer'', ''number'', ''boolean'', ''array'', ''object'']"

definition subpath :: "string \<Rightarrow> string \<Rightarrow> string" where
  "subpath path key = (if path = [] then key else path @ ''.'' @ key)"

definition item_path :: "string \<Rightarrow> nat \<Rightarrow> string" where
  "item_path path i = path @ ''['' @ nat_str i @ '']''"

definition above :: "rat option \<Rightarrow> jval \<Rightarrow> bool" where
  "above bound v = (case (bound, num_of v) of (Some m, Some n) \<Rightarrow> n < m | _ \<Rightarrow> False)"

definition below :: "rat option \<Rightarrow> jval \<Rightarrow> bool" where
  "below bound v = (case (bound, num_of v) of (Some m, Some n) \<Rightarrow> m < n | _ \<Rightarrow> False)"

definition fewer :: "nat \<Rightarrow> nat option \<Rightarrow> bool" where
  "fewer n bound = (case bound of None \<Rightarrow> False | Some m \<Rightarrow> n < m)"

definition beyond :: "nat \<Rightarrow> nat option \<Rightarrow> bool" where
  "beyond n bound = (case bound of None \<Rightarrow> False | Some m \<Rightarrow> m < n)"

text \<open>The errors that do not look inside the value.\<close>

definition own_issues :: "jval \<Rightarrow> schema \<Rightarrow> schema_issue list" where
  "own_issues v s =
     (case sch_enum s of None \<Rightarrow> [] | Some vs \<Rightarrow> if list_ex (py_eq v) vs then [] else [NotInEnum]) @
     (if sch_type s \<in> {Some ''integer'', Some ''number''}
      then (if above (sch_minimum s) v then [BelowMinimum] else []) @ (if below (sch_maximum s) v then [AboveMaximum] else [])
      else []) @
     (case v of
        JStr t \<Rightarrow> if sch_type s = Some ''string''
          then (if fewer (length t) (sch_min_length s) then [TooShort] else []) @
               (if beyond (length t) (sch_max_length s) then [TooLongText] else []) else []
      | _ \<Rightarrow> [])"

lemma size_enumerate_mem [termination_simp]: "(i, v) \<in> set (enumerate n xs) \<Longrightarrow> size v < Suc (size_list size xs)"
  by (induction xs arbitrary: n) (auto simp: less_Suc_eq intro: trans_less_add2 less_SucI)

text \<open>A type name that is not one of the six is not checked.\<close>

definition wrong_type :: "jval \<Rightarrow> schema \<Rightarrow> string option" where
  "wrong_type v s = (case sch_type s of
     Some t \<Rightarrow> if t \<in> set JSON_TYPES \<and> \<not> has_type t v then Some t else None
   | None \<Rightarrow> None)"

text \<open>A value that may be null, then its type, then everything else; \<open>path\<close> names it in a message.\<close>

fun validate_value :: "jval \<Rightarrow> schema \<Rightarrow> string \<Rightarrow> (string \<times> schema_issue) list" where
  "validate_value v s path =
     (if sch_nullable s \<and> v = JNull then []
      else if wrong_type v s \<noteq> None then [(path, WrongType (the (wrong_type v s)))]
      else map (Pair path) (own_issues v s) @
     (case v of
        JObj kvs \<Rightarrow>
          (if sch_type s = Some ''object''
           then map (\<lambda>k. (subpath path k, MissingRequired)) (filter (\<lambda>k. k \<notin> fst ` set kvs) (sch_required s)) @
                concat (map (\<lambda>(k, w).
                    (case map_of (sch_properties s) k of
                       Some t \<Rightarrow> validate_value w t (subpath path k)
                     | None \<Rightarrow> (case sch_additional s of
                         Some Nothing \<Rightarrow> [(subpath path k, Unexpected)]
                       | Some (Each t) \<Rightarrow> validate_value w t (subpath path k)
                       | _ \<Rightarrow> []))) kvs)
           else [])
      | JList xs \<Rightarrow>
          (if sch_type s = Some ''array''
           then (if fewer (length xs) (sch_min_items s) then [(path, TooFewItems)] else []) @
                (if beyond (length xs) (sch_max_items s) then [(path, TooManyItems)] else []) @
                (case sch_items s of
                   None \<Rightarrow> []
                 | Some t \<Rightarrow> concat (map (\<lambda>(i, w). validate_value w t (item_path path i)) (enumerate 0 xs)))
           else [])
      | _ \<Rightarrow> []))"

datatype argument_fault = ArgsNotJson | ArgsNotObject | ArgsMismatch string "(string \<times> schema_issue) list"

text \<open>The schema of an operation, closed to undeclared keys unless it says otherwise.\<close>

definition op_schema :: "connector_op \<Rightarrow> schema" where
  "op_schema op =
     (case cop_parameters op of
        None \<Rightarrow> Schema (Some ''object'') False None None None None None [] [] (Some Nothing) None None None
      | Some (Schema t nul en mi ma mil mal ps req add mii mai it) \<Rightarrow>
          Schema t nul en mi ma mil mal ps req (case add of None \<Rightarrow> Some Nothing | Some a \<Rightarrow> Some a) mii mai it)"

text \<open>\<open>_validate_arguments\<close>; \<open>parsed\<close> is what \<open>json.loads\<close> made of the text, or none.\<close>

definition validate_arguments :: "connector_op \<Rightarrow> jval option \<Rightarrow> argument_fault + (string, jval) dict" where
  "validate_arguments op parsed =
     (case parsed of
        None \<Rightarrow> Inl ArgsNotJson
      | Some (JObj arguments) \<Rightarrow>
          (case validate_value (JObj arguments) (op_schema op) [] of
             [] \<Rightarrow> Inr arguments
           | issues \<Rightarrow> Inl (ArgsMismatch (cop_name op) issues))
      | Some _ \<Rightarrow> Inl ArgsNotObject)"


section \<open>The request\<close>

datatype call_fault =
    UnclosedPlaceholder string | NoPlaceholderValue string string | UrlRefused string url_refusal
  | BodyTooLarge nat | BodyNotJson | RefusedAfterRefresh | ScopeRefused string | Unavailable string int | Rejected string int

fun retryable :: "call_fault \<Rightarrow> bool" where
  "retryable (Unavailable _ _) = True"
| "retryable _ = False"

fun reauthorize :: "call_fault \<Rightarrow> bool" where
  "reauthorize RefusedAfterRefresh = True"
| "reauthorize (ScopeRefused _) = True"
| "reauthorize _ = False"

record prepared =
  prp_method :: string
  prp_url :: string
  prp_params :: "(string, jval) dict"
  prp_body :: "(string, jval) dict option"

lemma length_after_char [termination_simp]: "c \<in> set s \<Longrightarrow> length (after_char c s) < length s"
  by (induction s) (auto simp: after_char_def less_Suc_eq_le dest: le_SucI)

lemma length_after_le: "length (after_char c s) \<le> length s"
  by (simp add: after_char_def) (meson diff_le_self le_trans length_dropWhile_le)

lemma length_placeholder [termination_simp]:
  "CHR ''{'' \<in> set s \<Longrightarrow> length (after_char (CHR ''}'') (after_char (CHR ''{'') s)) < length s"
  using length_after_char length_after_le le_less_trans by blast

function placeholders :: "string \<Rightarrow> string list option" where
  "placeholders s =
     (if CHR ''{'' \<notin> set s then Some []
      else (let tail = after_char (CHR ''{'') s
            in if CHR ''}'' \<notin> set tail then None
               else map_option ((#) (before_char (CHR ''}'') tail)) (placeholders (after_char (CHR ''}'') tail))))"
  by pat_completeness auto
termination
  by (relation "measure length") (auto simp: length_placeholder)

declare placeholders.simps [simp del]

text \<open>\<open>s.replace(old, new)\<close>, from the left and without overlap; \<open>old\<close> is never empty here.\<close>

function replace_all :: "string \<Rightarrow> string \<Rightarrow> string \<Rightarrow> string" where
  "replace_all old new s =
     (if s = [] \<or> old = [] then s
      else if starts_with old s then new @ replace_all old new (drop (length old) s)
      else hd s # replace_all old new (tl s))"
  by pat_completeness auto
termination
  by (relation "measure (\<lambda>(old, new, s). length s)") auto

declare replace_all.simps [simp del]

fun fill_path ::
  "(jval \<Rightarrow> string) \<Rightarrow> string \<Rightarrow> string list \<Rightarrow> string \<Rightarrow> (string, jval) dict \<Rightarrow>
   call_fault + string \<times> (string, jval) dict" where
  "fill_path repr tool [] path supplied = Inr (path, supplied)"
| "fill_path repr tool (n # ns) path supplied =
     (case dict_get supplied n of
        None \<Rightarrow> Inl (NoPlaceholderValue tool n)
      | Some v \<Rightarrow>
          (if v \<in> {JNull, JStr []} then Inl (NoPlaceholderValue tool n)
           else fill_path repr tool ns
             (replace_all (''{'' @ n @ ''}'') (url_quote (str_of repr v)) path) (dict_del n supplied)))"

definition rstrip_slash :: "string \<Rightarrow> string" where
  "rstrip_slash s = rev (dropWhile (\<lambda>c. c = CHR ''/'') (rev s))"

text \<open>What the guard of URLs reads: the allowed networks, the parser and the resolver.\<close>

record url_env =
  ue_allowed :: "ip_network list"
  ue_parse :: "string \<Rightarrow> url_parts option"
  ue_dns :: "string \<Rightarrow> dns_answer"

definition validate_url :: "url_env \<Rightarrow> string \<Rightarrow> py_exn + url_refusal option" where
  "validate_url ue url =
     (case resolve_url_target (ue_allowed ue) (ue_parse ue) (ue_dns ue) url False False of
        Inl x \<Rightarrow> Inl x
      | Inr (Inl r) \<Rightarrow> Inr (Some r)
      | Inr (Inr _) \<Rightarrow> Inr None)"

definition merge :: "(string, jval) dict \<Rightarrow> (string, jval) dict \<Rightarrow> (string, jval) dict" where
  "merge defaults arguments = foldl (\<lambda>d (k, v). dict_set k v d) defaults arguments"

definition prepare ::
  "(jval \<Rightarrow> string) \<Rightarrow> url_env \<Rightarrow> plugin \<Rightarrow> connector_op \<Rightarrow> (string, jval) dict \<Rightarrow> (string, jval) dict \<Rightarrow>
   py_exn + (call_fault + prepared)" where
  "prepare repr ue p op arguments defaults =
     (case placeholders (cop_path op) of
        None \<Rightarrow> Inr (Inl (UnclosedPlaceholder (cop_path op)))
      | Some names \<Rightarrow>
          (case fill_path repr (tool_name p op) names (cop_path op) (merge defaults arguments) of
             Inl e \<Rightarrow> Inr (Inl e)
           | Inr (path, supplied) \<Rightarrow>
               (let url = rstrip_slash (plg_base p) @ path
                in case validate_url ue url of
                     Inl x \<Rightarrow> Inl x
                   | Inr (Some r) \<Rightarrow> Inr (Inl (UrlRefused (plg_name p) r))
                   | Inr None \<Rightarrow>
                       Inr (Inr (if cop_method op = ''GET''
                                 then \<lparr>prp_method = cop_method op, prp_url = url, prp_params = supplied, prp_body = None\<rparr>
                                 else \<lparr>prp_method = cop_method op, prp_url = url, prp_params = [], prp_body = Some supplied\<rparr>)))))"


section \<open>The projection\<close>

lemma size_map_of [termination_simp]: "map_of kvs k = Some v \<Longrightarrow> size v < Suc (size_list (size_prod (\<lambda>_. 0) size) kvs)"
  by (induction kvs) (auto split: if_splits)

function pluck :: "jval \<Rightarrow> string list \<Rightarrow> jval option" where
  "pluck payload [] = Some payload"
| "pluck (JList xs) (k # ks) =
     (let items = concat (map (\<lambda>x. case pluck x (k # ks) of None \<Rightarrow> [] | Some v \<Rightarrow> [v]) xs)
      in if items = [] then None else Some (JList items))"
| "pluck (JObj kvs) (k # ks) = (case map_of kvs k of None \<Rightarrow> None | Some v \<Rightarrow> pluck v ks)"
| "pluck JNull (k # ks) = None"
| "pluck (JBool b) (k # ks) = None"
| "pluck (JInt n) (k # ks) = None"
| "pluck (JFloat r) (k # ks) = None"
| "pluck (JStr s) (k # ks) = None"
  by pat_completeness auto
termination
  by (relation "measure (\<lambda>(v, ks). size v)") (auto simp: less_Suc_eq_le size_list_estimation' dest: size_map_of)

fun graft :: "(string, jval) dict \<Rightarrow> string list \<Rightarrow> jval \<Rightarrow> (string, jval) dict" where
  "graft t [] v = t"
| "graft t [k] v = dict_set k v t"
| "graft t (k # l # ks) v =
     (case v of
        JList xs \<Rightarrow> dict_set k (JList (map (\<lambda>x. JObj [(last (l # ks), x)]) xs)) t
      | _ \<Rightarrow>
          (case dict_get t k of
             None \<Rightarrow> dict_set k (JObj (graft [] (l # ks) v)) t
           | Some (JObj nested) \<Rightarrow> dict_set k (JObj (graft nested (l # ks) v)) t
           | Some _ \<Rightarrow> t))"

definition project_path :: "(string \<times> jval) list \<Rightarrow> (string, jval) dict \<Rightarrow> string \<Rightarrow> (string, jval) dict" where
  "project_path kvs projected path =
     (let parts = split_on (CHR ''.'') path
      in case pluck (JObj kvs) parts of None \<Rightarrow> projected | Some v \<Rightarrow> graft projected parts v)"

definition project_fields :: "(string \<times> jval) list \<Rightarrow> string list \<Rightarrow> (string, jval) dict" where
  "project_fields kvs returns = foldl (project_path kvs) [] returns"

definition project_one :: "jval \<Rightarrow> string list \<Rightarrow> jval" where
  "project_one payload returns =
     (case payload of JObj kvs \<Rightarrow> if returns = [] then payload else JObj (project_fields kvs returns) | _ \<Rightarrow> payload)"

fun scalar :: "jval \<Rightarrow> bool" where
  "scalar (JObj _) = False"
| "scalar (JList _) = False"
| "scalar _ = True"

definition project :: "jval \<Rightarrow> connector_op \<Rightarrow> jval" where
  "project payload op =
     (if cop_returns op = [] then payload
      else (case payload of
              JObj envelope \<Rightarrow>
                (case (cop_collection op, map_of envelope (cop_collection op)) of
                   (c # cs, Some (JList items)) \<Rightarrow>
                     JObj (filter (\<lambda>(k, v). k \<noteq> cop_collection op \<and> scalar v) envelope @
                           [(cop_collection op, JList (map (\<lambda>x. project_one x (cop_returns op)) items))])
                 | _ \<Rightarrow> project_one payload (cop_returns op))
            | _ \<Rightarrow> project_one payload (cop_returns op)))"

section \<open>The token of a class\<close>

definition EXPIRY_MARGIN_S :: rat where "EXPIRY_MARGIN_S = 60"
definition DEFAULT_LIFETIME_S :: rat where "DEFAULT_LIFETIME_S = 3600"

record cached_token =
  tok_value :: string
  tok_expiry :: rat

definition usable_token :: "cached_token \<Rightarrow> rat \<Rightarrow> bool" where
  "usable_token t now \<longleftrightarrow> tok_value t \<noteq> [] \<and> now < tok_expiry t - EXPIRY_MARGIN_S"

datatype secret_answer = StoreRefuses | NoValue | Value string

text \<open>The form of one exchange, and what the endpoint answers.\<close>

record token_form =
  frm_refresh_token :: string
  frm_client_id :: string
  frm_client_secret :: "string option"
  frm_scope :: "string option"

datatype token_answer = ExchangeRaises | ExchangeStatus int | ExchangeNotJson | ExchangeBody "(string \<times> jval) list"

datatype token_fault =
    NoSecretRef string | StoreWouldNotAnswer string | NoSecretValue string
  | TokenUrlRefused url_refusal | ExchangeFailed int | ExchangeUnreadable | NoAccessToken
  | ScopeFault credential_fault

record token_env =
  te_url :: url_env
  te_secret :: "string \<Rightarrow> secret_answer"
  te_answer :: "token_form \<Rightarrow> token_answer"
  te_now :: rat
  te_minted :: rat

record token_source =
  src_credential :: connector_credential
  src_spec :: credential_spec
  src_cache :: "(string \<times> string, cached_token) dict"

definition read_secret :: "token_env \<Rightarrow> string \<Rightarrow> token_fault + string" where
  "read_secret te ref =
     (if ref = [] then Inl (NoSecretRef ref)
      else (case te_secret te ref of
              StoreRefuses \<Rightarrow> Inl (StoreWouldNotAnswer ref)
            | NoValue \<Rightarrow> Inl (NoSecretValue ref)
            | Value v \<Rightarrow> if v = [] then Inl (NoSecretValue ref) else Inr v))"

definition token_form_of :: "token_source \<Rightarrow> token_env \<Rightarrow> string list \<Rightarrow> token_fault + token_form" where
  "token_form_of src te scopes =
     (let cred = src_credential src
      in case read_secret te (crd_secret_ref cred) of
           Inl e \<Rightarrow> Inl e
         | Inr refresh \<Rightarrow>
             (let form = \<lparr>frm_refresh_token = refresh, frm_client_id = crd_client_id cred, frm_client_secret = None,
                          frm_scope = (if scopes = [] then None else Some (join_with '' '' scopes))\<rparr>
              in if crd_client_secret_ref cred = [] then Inr form
                 else map_sum id (\<lambda>s. form\<lparr>frm_client_secret := Some s\<rparr>) (read_secret te (crd_client_secret_ref cred))))"

text \<open>\<open>_exchange\<close>; an exception of the client or of the resolver is not a \<open>CredentialError\<close>.\<close>

definition exchange :: "token_source \<Rightarrow> token_env \<Rightarrow> string list \<Rightarrow> py_exn + (token_fault + cached_token)" where
  "exchange src te scopes =
     (let url = (if crd_token_url (src_credential src) = [] then spec_token_url (src_spec src)
                 else crd_token_url (src_credential src))
      in case validate_url (te_url te) url of
           Inl x \<Rightarrow> Inl x
         | Inr (Some r) \<Rightarrow> Inr (Inl (TokenUrlRefused r))
         | Inr None \<Rightarrow>
             (case token_form_of src te scopes of
                Inl e \<Rightarrow> Inr (Inl e)
              | Inr form \<Rightarrow>
                  (case te_answer te form of
                     ExchangeRaises \<Rightarrow> Inl OSError
                   | ExchangeStatus s \<Rightarrow> Inr (Inl (ExchangeFailed s))
                   | ExchangeNotJson \<Rightarrow> Inr (Inl ExchangeUnreadable)
                   | ExchangeBody payload \<Rightarrow>
                       (case jget payload ''access_token'' of
                          JStr (c # cs) \<Rightarrow>
                            Inr (Inr \<lparr>tok_value = c # cs,
                                      tok_expiry = te_minted te +
                                        (case num_of (jget payload ''expires_in'') of Some s \<Rightarrow> s | None \<Rightarrow> DEFAULT_LIFETIME_S)\<rparr>)
                        | _ \<Rightarrow> Inr (Inl NoAccessToken)))))"

definition access_token ::
  "token_env \<Rightarrow> string \<Rightarrow> string \<Rightarrow> bool \<Rightarrow> token_source \<Rightarrow> (py_exn + (token_fault + string)) \<times> token_source" where
  "access_token te connector cls force_refresh src =
     (let fresh = (case scope_subset (scopes_for (src_spec src) cls) (src_credential src) of
            Inl e \<Rightarrow> (Inr (Inl (ScopeFault e)), src)
          | Inr scopes \<Rightarrow>
              (case exchange src te scopes of
                 Inl x \<Rightarrow> (Inl x, src)
               | Inr (Inl e) \<Rightarrow> (Inr (Inl e), src)
               | Inr (Inr t) \<Rightarrow> (Inr (Inr (tok_value t)), src\<lparr>src_cache := dict_set (connector, cls) t (src_cache src)\<rparr>)))
      in case dict_get (src_cache src) (connector, cls) of
           Some t \<Rightarrow> if \<not> force_refresh \<and> usable_token t (te_now te) then (Inr (Inr (tok_value t)), src) else fresh
         | None \<Rightarrow> fresh)"

definition token_source_for :: "active_connector \<Rightarrow> token_source" where
  "token_source_for a = \<lparr>src_credential = act_credential a, src_spec = plg_credential (act_plugin a), src_cache = []\<rparr>"


section \<open>The call\<close>

definition MAX_RESPONSE_BYTES :: nat where "MAX_RESPONSE_BYTES = 2 * 1024 * 1024"

record api_response =
  api_status :: int
  api_length :: nat
  api_json :: "jval option"

text \<open>One request on the wire with its token; an empty token sends no header.\<close>

record sent =
  snt_request :: prepared
  snt_token :: string

text \<open>The API answers the first and the second request of a call.\<close>

record call_env =
  ce_repr :: "jval \<Rightarrow> string"
  ce_url :: url_env
  ce_token :: token_env
  ce_refresh :: token_env
  ce_api :: "nat \<Rightarrow> sent \<Rightarrow> py_exn + api_response"

definition decode_body :: "api_response \<Rightarrow> call_fault + jval" where
  "decode_body r =
     (if api_length r > MAX_RESPONSE_BYTES then Inl (BodyTooLarge (api_length r))
      else if api_length r = 0 then Inr (JObj [])
      else (case api_json r of None \<Rightarrow> Inl BodyNotJson | Some v \<Rightarrow> Inr v))"

definition api_error_message :: "jval \<Rightarrow> string option" where
  "api_error_message payload =
     (case payload of
        JObj kvs \<Rightarrow>
          (case jget kvs ''error'' of
             JObj e \<Rightarrow> (case jget e ''message'' of JStr (c # cs) \<Rightarrow> Some (c # cs) | _ \<Rightarrow> None)
           | JStr (c # cs) \<Rightarrow> Some (c # cs)
           | _ \<Rightarrow> None)
      | _ \<Rightarrow> None)"

text \<open>The message of the API, or nothing beside the status.\<close>

definition said :: "jval \<Rightarrow> string" where
  "said payload = (case api_error_message payload of Some m \<Rightarrow> m | None \<Rightarrow> [])"

definition judge_response :: "connector_op \<Rightarrow> api_response \<Rightarrow> call_fault + jval" where
  "judge_response op r =
     (case decode_body r of
        Inl e \<Rightarrow> Inl e
      | Inr payload \<Rightarrow>
          (if api_status r = 401 then Inl RefusedAfterRefresh
           else if api_status r = 403 then Inl (ScopeRefused (said payload))
           else if api_status r = 429 \<or> api_status r \<ge> 500 then Inl (Unavailable (said payload) (api_status r))
           else if api_status r \<ge> 400 then Inl (Rejected (said payload) (api_status r))
           else Inr (project payload op)))"

datatype call_end = CallRaised py_exn | CallFault call_fault | TokenFault token_fault | Returned jval

definition ended :: "call_fault + jval \<Rightarrow> call_end" where
  "ended r = (case r of Inl e \<Rightarrow> CallFault e | Inr v \<Rightarrow> Returned v)"

definition send_once :: "call_env \<Rightarrow> connector_op \<Rightarrow> nat \<Rightarrow> sent \<Rightarrow> call_end" where
  "send_once ce op n s = (case ce_api ce n s of Inl x \<Rightarrow> CallRaised x | Inr r \<Rightarrow> ended (judge_response op r))"

text \<open>\<open>call\<close>: its end, what was sent, and the token source after it.\<close>

definition connector_call ::
  "call_env \<Rightarrow> plugin \<Rightarrow> connector_op \<Rightarrow> (string, jval) dict \<Rightarrow> (string, jval) dict \<Rightarrow> token_source \<Rightarrow>
   call_end \<times> sent list \<times> token_source" where
  "connector_call ce p op arguments defaults src =
     (case prepare (ce_repr ce) (ce_url ce) p op arguments defaults of
        Inl x \<Rightarrow> (CallRaised x, [], src)
      | Inr (Inl e) \<Rightarrow> (CallFault e, [], src)
      | Inr (Inr request) \<Rightarrow>
          (case (if spec_kind (plg_credential p) = ''none'' then (Inr (Inr []), src)
                 else access_token (ce_token ce) (plg_name p) (cop_class op) False src) of
             (Inl x, src1) \<Rightarrow> (CallRaised x, [], src1)
           | (Inr (Inl e), src1) \<Rightarrow> (TokenFault e, [], src1)
           | (Inr (Inr token), src1) \<Rightarrow>
               (let first = \<lparr>snt_request = request, snt_token = token\<rparr>
                in case ce_api ce 0 first of
                     Inl x \<Rightarrow> (CallRaised x, [first], src1)
                   | Inr r \<Rightarrow>
                       (if api_status r = 401 \<and> token \<noteq> []
                        then (case access_token (ce_refresh ce) (plg_name p) (cop_class op) True src1 of
                                (Inl x, src2) \<Rightarrow> (CallRaised x, [first], src2)
                              | (Inr (Inl e), src2) \<Rightarrow> (TokenFault e, [first], src2)
                              | (Inr (Inr token2), src2) \<Rightarrow>
                                  (let second = \<lparr>snt_request = request, snt_token = token2\<rparr>
                                   in (send_once ce op 1 second, [first, second], src2)))
                        else (ended (judge_response op r), [first], src1)))))"

section \<open>Where a request goes\<close>

lemma replace_keeps_head:
  assumes "starts_with ''/'' s"
  shows "starts_with ''/'' (replace_all (''{'' @ n @ ''}'') new s)"
proof -
  from assms obtain r where "s = CHR ''/'' # r" by (auto simp: starts_with_conv)
  then have "replace_all (''{'' @ n @ ''}'') new s = CHR ''/'' # replace_all (''{'' @ n @ ''}'') new r"
    by (subst replace_all.simps) (auto simp: starts_with_def)
  then show ?thesis by (simp add: starts_with_def)
qed

lemma fill_path_rooted:
  "fill_path repr tool ns path supplied = Inr (path', supplied') \<Longrightarrow> starts_with ''/'' path \<Longrightarrow> starts_with ''/'' path'"
  by (induction ns arbitrary: path supplied) (auto split: option.splits if_splits intro: replace_keeps_head [simplified])

lemma rstrip_slash_split: "\<exists>k. s = rstrip_slash s @ replicate k (CHR ''/'')"
proof -
  have "rev s = takeWhile (\<lambda>c. c = CHR ''/'') (rev s) @ dropWhile (\<lambda>c. c = CHR ''/'') (rev s)" by simp
  moreover have "takeWhile (\<lambda>c. c = CHR ''/'') xs = replicate (length (takeWhile (\<lambda>c. c = CHR ''/'') xs)) (CHR ''/'')" for xs
    by (induction xs) auto
  ultimately have "s = rev (dropWhile (\<lambda>c. c = CHR ''/'') (rev s)) @
      rev (replicate (length (takeWhile (\<lambda>c. c = CHR ''/'') (rev s))) (CHR ''/''))"
    by (metis rev_append rev_rev_ident)
  then show ?thesis unfolding rstrip_slash_def by (metis rev_replicate)
qed

lemma url_host_slashes: "url_host (''https://'' @ replicate k (CHR ''/'')) = Inr []"
proof -
  have "takeWhile netloc_char (filter (\<lambda>c. \<not> url_unsafe c) (replicate k (CHR ''/''))) = []" by (cases k) auto
  then show ?thesis
    by (simp add: url_host_def urlsplit_https netloc_ok_def netloc_hostname_def after_last_def before_char_def Let_def
        del: append_Cons)
qed

lemma base_https:
  assumes "starts_with ''https://'' base" "url_host base = Inr h" "h \<noteq> []"
  shows "starts_with ''https://'' (rstrip_slash base)"
proof -
  obtain k where k: "base = rstrip_slash base @ replicate k (CHR ''/'')" using rstrip_slash_split by blast
  obtain x where x: "base = ''https://'' @ x" using assms(1) by (auto simp: starts_with_conv)
  show ?thesis
  proof (cases "8 \<le> length (rstrip_slash base)")
    case True
    have "take 8 base = take 8 (rstrip_slash base)" using True by (subst k) simp
    moreover have "take 8 base = ''https://''" by (simp add: x)
    ultimately show ?thesis unfolding starts_with_conv by (metis append_take_drop_id)
  next
    case False
    have "length base = length (rstrip_slash base) + k" by (subst k) simp
    with False have "drop 8 base = replicate (k - (8 - length (rstrip_slash base))) (CHR ''/'')"
      by (subst k) (simp add: not_le)
    then have "base = ''https://'' @ replicate (k - (8 - length (rstrip_slash base))) (CHR ''/'')" by (simp add: x)
    with url_host_slashes assms(2,3) show ?thesis by (metis old.sum.inject(2))
  qed
qed

lemma url_host_joined:
  assumes "starts_with ''https://'' base" "url_host base = Inr h" "h \<noteq> []" "starts_with ''/'' path"
  shows "url_host (rstrip_slash base @ path) = Inr h"
proof -
  obtain k where k: "base = rstrip_slash base @ replicate k (CHR ''/'')" using rstrip_slash_split by blast
  have pre: "starts_with ''https://'' (rstrip_slash base)" by (rule base_https [OF assms(1-3)])
  have "url_host (rstrip_slash base @ path) = url_host (rstrip_slash base)" by (rule url_host_path [OF pre assms(4)])
  also have "\<dots> = url_host base"
  proof (cases k)
    case 0
    with k show ?thesis by simp
  next
    case (Suc m)
    then have "starts_with ''/'' (replicate k (CHR ''/''))" by (simp add: starts_with_def)
    from url_host_path [OF pre this] k show ?thesis by simp
  qed
  finally show ?thesis using assms(2) by simp
qed

lemma prepare_same:
  assumes "prepare repr ue p op arguments defaults = Inr (Inr r)" "prepare repr ue' p op arguments defaults = Inr (Inr r')"
  shows "r' = r"
  using assms by (auto simp: prepare_def Let_def split: option.splits sum.splits if_splits)

lemma prepare_Inr:
  assumes "prepare repr ue p op arguments defaults = Inr (Inr r)"
  obtains names path supplied where "placeholders (cop_path op) = Some names"
    "fill_path repr (tool_name p op) names (cop_path op) (merge defaults arguments) = Inr (path, supplied)"
    "prp_url r = rstrip_slash (plg_base p) @ path" "validate_url ue (prp_url r) = Inr None" "prp_method r = cop_method op"
    "(prp_params r, prp_body r) = (if cop_method op = ''GET'' then (supplied, None) else ([], Some supplied))"
  using assms by (fastforce simp: prepare_def Let_def split: option.splits sum.splits if_splits)

text \<open>C14. A token goes only where the configuration lets it: the host of every request of an active connector is one
  the credential permits, whatever the arguments of the call, and the guard of URLs accepted the address.\<close>

theorem request_host_allowed:
  assumes "resolve_active installed cfg = Inr (active, problems)" "a \<in> set active" "plugin_ok (act_plugin a)"
    and "op \<in> set (act_operations a)"
    and "prepare repr ue (act_plugin a) op arguments (act_defaults a) = Inr (Inr r)"
  shows "\<exists>h. url_host (prp_url r) = Inr h \<and> h \<noteq> [] \<and> permits_host (crd_hosts (act_credential a)) h \<and>
    validate_url ue (prp_url r) = Inr None"
proof -
  from assms(1,2) obtain name where a: "activate name cfg (act_plugin a) = Inr (Inr a)" by (rule active_from)
  from check_hosts_base [OF activate_facts(5) [OF a]] obtain h
    where h: "url_host (plg_base (act_plugin a)) = Inr h" "h \<noteq> []" "permits_host (crd_hosts (act_credential a)) h" by auto
  have op: "check_operation op = None"
    using operations_for_facts(2) [OF activate_facts(2) [OF a]] assms(3,4) by (auto simp: plugin_ok_def list_all_iff)
  then have root: "starts_with ''/'' (cop_path op)" by (auto simp: check_operation_def split: if_splits)
  have https: "starts_with ''https://'' (plg_base (act_plugin a))"
    using assms(3) by (auto simp: plugin_ok_def check_plugin_def Let_def split: if_splits)
  from assms(5) obtain names path supplied where p:
    "fill_path repr (tool_name (act_plugin a) op) names (cop_path op) (merge (act_defaults a) arguments) = Inr (path, supplied)"
    "prp_url r = rstrip_slash (plg_base (act_plugin a)) @ path" "validate_url ue (prp_url r) = Inr None"
    by (rule prepare_Inr)
  from url_host_joined [OF https h(1,2) fill_path_rooted [OF p(1) root]] p(2,3) h(2,3) show ?thesis by auto
qed

lemma replace_counts:
  assumes "c \<notin> set new"
  shows "count_list (replace_all old new s) c \<le> count_list s c"
proof (induction "length s" arbitrary: s rule: less_induct)
  case less
  show ?case
  proof (cases "s = [] \<or> old = []")
    case True
    then show ?thesis by (auto simp: replace_all.simps)
  next
    case False
    show ?thesis
    proof (cases "starts_with old s")
      case True
      then obtain r where r: "s = old @ r" by (auto simp: starts_with_conv)
      with False have "count_list (replace_all old new r) c \<le> count_list r c" by (intro less) simp
      moreover have "count_list new c = 0" using assms by (simp add: count_list_0_iff)
      moreover have "replace_all old new s = new @ replace_all old new r"
        by (subst replace_all.simps) (use False True r in auto)
      ultimately show ?thesis using r by simp
    next
      case no: False
      from False obtain x xs where x: "s = x # xs" by (cases s) auto
      have "count_list (replace_all old new xs) c \<le> count_list xs c" using x by (intro less) simp
      moreover have "replace_all old new s = x # replace_all old new xs"
        by (subst replace_all.simps) (use no False x in auto)
      ultimately show ?thesis using x by simp
    qed
  qed
qed

lemma replace_chars: "set (replace_all old new s) \<subseteq> set s \<union> set new"
proof
  fix c assume "c \<in> set (replace_all old new s)"
  then have "0 < count_list (replace_all old new s) c" by (metis count_list_0_iff gr0I)
  then show "c \<in> set s \<union> set new"
    using replace_counts [of c new old s] count_list_0_iff [of s c] by fastforce
qed

lemma fill_path_chars:
  "fill_path repr tool ns path supplied = Inr (path', supplied') \<Longrightarrow>
   set path' \<subseteq> set path \<union> {c. quoted_char c} \<and>
   (c \<in> set ''/?#'' \<longrightarrow> count_list path' c \<le> count_list path c)"
proof (induction ns arbitrary: path supplied)
  case (Cons n ns)
  then obtain v where v: "dict_get supplied n = Some v"
    and rec: "fill_path repr tool ns (replace_all (''{'' @ n @ ''}'') (url_quote (str_of repr v)) path) (dict_del n supplied) =
      Inr (path', supplied')"
    by (auto split: option.splits if_splits)
  let ?path = "replace_all (''{'' @ n @ ''}'') (url_quote (str_of repr v)) path"
  have "set ?path \<subseteq> set path \<union> {c. quoted_char c}"
    using replace_chars url_quote_chars [of "str_of repr v"] by (fastforce simp: list_all_iff)
  moreover have "count_list ?path c \<le> count_list path c" if "c \<in> set ''/?#''"
    using that by (intro replace_counts url_quote_no_reserved) auto
  ultimately show ?case using Cons.IH [OF rec] by fastforce
qed simp

text \<open>The values of a call stay values: what fills a placeholder adds no slash, no question mark and no hash to
  the path, and only letters, digits and the marks of percent encoding beside what the manifest wrote.\<close>

theorem path_values_quoted:
  assumes "prepare repr ue p op arguments defaults = Inr (Inr r)"
  shows "\<exists>path. prp_url r = rstrip_slash (plg_base p) @ path \<and> set path \<subseteq> set (cop_path op) \<union> {c. quoted_char c} \<and>
    count_list path (CHR ''/'') \<le> count_list (cop_path op) (CHR ''/'') \<and>
    count_list path (CHR ''?'') \<le> count_list (cop_path op) (CHR ''?'') \<and>
    count_list path (CHR ''#'') \<le> count_list (cop_path op) (CHR ''#'')"
proof -
  from assms obtain names path supplied where f:
    "fill_path repr (tool_name p op) names (cop_path op) (merge defaults arguments) = Inr (path, supplied)"
    "prp_url r = rstrip_slash (plg_base p) @ path" by (rule prepare_Inr)
  with fill_path_chars [OF f(1)] show ?thesis by (intro exI [of _ path]) auto
qed

text \<open>A dot is not quoted, so the value \<open>..\<close> is a path segment of its own, which clients resolve: a value can leave
  the route the manifest wrote.\<close>

theorem dot_segment_survives:
  "fill_path repr tool [''id''] ''/calendars/{id}/events'' [(''id'', JStr ''..'')] = Inr (''/calendars/../events'', [])"
  by code_simp

text \<open>A path that names a placeholder twice can never be filled.\<close>

theorem placeholder_twice_refused:
  "\<exists>e. fill_path repr tool (ns @ n # ms @ n # ls) path supplied = Inl e"
proof -
  have gone: "\<exists>e. fill_path repr tool (ms @ n # ls) path s = Inl e" if "dict_get s n = None" for ms path s
    using that by (induction ms arbitrary: path s) (auto simp: dict_simps split: option.split)
  show ?thesis
  proof (induction ns arbitrary: path supplied)
    case Nil
    show ?case
    proof (cases "dict_get supplied n")
      case (Some v)
      have "dict_get (dict_del n supplied) n = None" by (simp add: dict_simps)
      from gone [OF this] Some show ?thesis by auto
    qed simp
  qed (auto split: option.split)
qed


section \<open>Tokens and calls\<close>

text \<open>A token of the cache was minted for the scopes of its class.\<close>

definition minted_for :: "token_source \<Rightarrow> string \<Rightarrow> cached_token \<Rightarrow> bool" where
  "minted_for src cls t \<longleftrightarrow> (\<exists>te scopes. scope_subset (scopes_for (src_spec src) cls) (src_credential src) = Inr scopes \<and>
     exchange src te scopes = Inr (Inr t))"

definition cache_ok :: "connector_credential \<Rightarrow> credential_spec \<Rightarrow> token_source \<Rightarrow> bool" where
  "cache_ok cred spec src \<longleftrightarrow> src_credential src = cred \<and> src_spec src = spec \<and>
     (\<forall>connector cls t. dict_get (src_cache src) (connector, cls) = Some t \<longrightarrow> minted_for src cls t)"

type_synonym token_ask = "token_env \<times> string \<times> string \<times> bool"

definition token_step :: "token_source \<Rightarrow> token_ask \<Rightarrow> token_source" where
  "token_step src x = (case x of (te, connector, cls, force_refresh) \<Rightarrow> snd (access_token te connector cls force_refresh src))"

lemma token_form_cache [simp]: "token_form_of (src\<lparr>src_cache := c\<rparr>) = token_form_of src"
  by (intro ext) (simp add: token_form_of_def Let_def)

lemma exchange_cache [simp]: "exchange (src\<lparr>src_cache := c\<rparr>) = exchange src"
  by (intro ext) (simp add: exchange_def cong del: sum.case_cong_weak option.case_cong_weak)

lemma minted_cache [simp]: "minted_for (src\<lparr>src_cache := c\<rparr>) = minted_for src"
  by (intro ext) (simp add: minted_for_def)

lemma access_token_cases:
  assumes "access_token te connector cls force_refresh src = (res, src')"
  obtains (cached) t where "dict_get (src_cache src) (connector, cls) = Some t" "usable_token t (te_now te)" "\<not> force_refresh"
      "res = Inr (Inr (tok_value t))" "src' = src"
    | (fresh) scopes t where "scope_subset (scopes_for (src_spec src) cls) (src_credential src) = Inr scopes"
      "exchange src te scopes = Inr (Inr t)" "res = Inr (Inr (tok_value t))"
      "src' = src\<lparr>src_cache := dict_set (connector, cls) t (src_cache src)\<rparr>"
    | (failed) "\<nexists>v. res = Inr (Inr v)" "src' = src"
  using assms by (fastforce simp: access_token_def Let_def split: option.splits sum.splits if_splits)

lemma access_token_keeps:
  assumes "cache_ok cred spec src" "access_token te connector cls force_refresh src = (res, src')"
  shows "cache_ok cred spec src'"
  using assms(2)
proof (cases rule: access_token_cases)
  case (fresh scopes t)
  then have "minted_for src cls t" by (auto simp: minted_for_def)
  with fresh assms(1) show ?thesis by (auto simp: cache_ok_def dict_simps)
qed (use assms(1) in auto)

interpretation token_cache: op_machine token_step "\<lambda>_ _. True" "cache_ok cred spec" for cred spec
proof
  fix src x assume "cache_ok cred spec src"
  then show "cache_ok cred spec (token_step src x)"
    using access_token_keeps by (cases x) (auto simp: token_step_def intro: access_token_keeps prod.collapse [symmetric])
qed

lemma exchange_form:
  assumes "exchange src te scopes = Inr (Inr t)"
  shows "\<exists>form. token_form_of src te scopes = Inr form \<and> frm_scope form = (if scopes = [] then None else Some (join_with '' '' scopes))"
proof -
  from assms obtain form where "token_form_of src te scopes = Inr form"
    by (auto simp: exchange_def Let_def split: sum.splits option.splits)
  then show ?thesis
    by (intro exI [of _ form]) (auto simp: token_form_of_def Let_def map_sum_def split: sum.splits if_splits)
qed


lemma call_sends:
  assumes "connector_call ce p op arguments defaults src = (e, sends, src')"
  shows "sends = [] \<or> (\<exists>r token. prepare (ce_repr ce) (ce_url ce) p op arguments defaults = Inr (Inr r) \<and>
    (sends = [\<lparr>snt_request = r, snt_token = token\<rparr>] \<or>
     (\<exists>token2 answer. sends = [\<lparr>snt_request = r, snt_token = token\<rparr>, \<lparr>snt_request = r, snt_token = token2\<rparr>] \<and>
        token \<noteq> [] \<and> ce_api ce 0 \<lparr>snt_request = r, snt_token = token\<rparr> = Inr answer \<and> api_status answer = 401)))"
  using assms unfolding connector_call_def
  by (cases "prepare (ce_repr ce) (ce_url ce) p op arguments defaults")
     (auto simp: Let_def split: sum.splits prod.splits if_splits)

text \<open>A write is not repeated: a call sends the one request its arguments make, at most twice, and a second time only
  after the first was refused with 401, with a token of a forced exchange.\<close>

theorem call_sends_once:
  assumes "connector_call ce p op arguments defaults src = (e, sends, src')"
  shows "sends = [] \<or> (\<exists>r token. prepare (ce_repr ce) (ce_url ce) p op arguments defaults = Inr (Inr r) \<and>
    (sends = [\<lparr>snt_request = r, snt_token = token\<rparr>] \<or>
     (\<exists>token2 answer. sends = [\<lparr>snt_request = r, snt_token = token\<rparr>, \<lparr>snt_request = r, snt_token = token2\<rparr>] \<and>
        token \<noteq> [] \<and> ce_api ce 0 \<lparr>snt_request = r, snt_token = token\<rparr> = Inr answer \<and> api_status answer = 401)))"
  by (rule call_sends [OF assms])

text \<open>The body is read before the status: an error page that is not JSON, which is how a proxy answers 503, is
  reported as unreadable and not as retryable, whatever its status.\<close>

theorem error_page_not_retryable:
  assumes "api_length r \<noteq> 0" "api_length r \<le> MAX_RESPONSE_BYTES" "api_json r = None"
  shows "judge_response op r = Inl BodyNotJson \<and> \<not> retryable BodyNotJson \<and> \<not> reauthorize BodyNotJson"
  using assms by (simp add: judge_response_def decode_body_def)

definition sample_op :: connector_op where
  "sample_op = \<lparr>cop_name = ''list_events'', cop_class = READ, cop_method = ''GET'', cop_path = ''/calendars/{id}/events'',
     cop_returns = [''id''], cop_collection = ''items'', cop_parameters = None, cop_read_via_post = False\<rparr>"

theorem error_page_not_retryable_witness:
  "judge_response sample_op \<lparr>api_status = 503, api_length = 20, api_json = None\<rparr> = Inl BodyNotJson \<and>
   \<not> retryable BodyNotJson \<and> \<not> reauthorize BodyNotJson"
  by (rule error_page_not_retryable) (simp_all add: MAX_RESPONSE_BYTES_def)

lemma graft_sets: "graft t (k # ks) v = t \<or> (\<exists>w. graft t (k # ks) v = dict_set k w t)"
  by (cases ks; cases v) (auto split: option.split jval.split)

lemma graft_keys: "fst ` set (graft t (k # ks) v) \<subseteq> insert k (fst ` set t)"
proof -
  have "fst ` set (dict_set k w t) \<subseteq> insert k (fst ` set t)" for w
    using dict_set_values by fastforce
  then show ?thesis using graft_sets [of t k ks v] by (metis subset_insertI)
qed

definition declared_keys :: "string list \<Rightarrow> string set" where
  "declared_keys returns = (\<lambda>r. hd (split_on (CHR ''.'') r)) ` set returns"

lemma project_path_keys: "fst ` set (project_path kvs acc r) \<subseteq> insert (hd (split_on (CHR ''.'') r)) (fst ` set acc)"
proof -
  obtain k ks where k: "split_on (CHR ''.'') r = k # ks" by (cases "split_on (CHR ''.'') r") auto
  show ?thesis using graft_keys [of acc k ks] by (auto simp: project_path_def k split: option.split)
qed

lemma project_fields_keys: "fst ` set (project_fields kvs returns) \<subseteq> declared_keys returns"
proof -
  have "fst ` set (foldl (project_path kvs) acc rs) \<subseteq> fst ` set acc \<union> declared_keys rs" for acc rs
  proof (induction rs arbitrary: acc)
    case (Cons r rs)
    from Cons.IH [of "project_path kvs acc r"] project_path_keys [of kvs acc r] show ?case
      unfolding declared_keys_def foldl_Cons list.set image_insert by blast
  qed simp
  from this [of "[]"] show ?thesis by (simp add: project_fields_def)
qed

text \<open>The projection bounds what a response carries: of an object only keys the operation declared; of a listing
  the scalars of the envelope, the list under its name, and in each object of it declared keys.\<close>

theorem projection_declared:
  assumes "cop_returns op \<noteq> []"
  shows "case project (JObj kvs) op of
      JObj kvs' \<Rightarrow> fst ` set kvs' \<subseteq> declared_keys (cop_returns op) \<or>
        (\<exists>kept items. kvs' = kept @ [(cop_collection op, JList items)] \<and>
           list_all (\<lambda>(k, v). scalar v) kept \<and>
           list_all (\<lambda>x. case x of JObj ys \<Rightarrow> fst ` set ys \<subseteq> declared_keys (cop_returns op) | _ \<Rightarrow> True) items)
    | _ \<Rightarrow> False"
proof (cases "\<exists>c cs items. cop_collection op = c # cs \<and> map_of kvs (cop_collection op) = Some (JList items)")
  case True
  then obtain items where "project (JObj kvs) op = JObj (filter (\<lambda>(k, v). k \<noteq> cop_collection op \<and> scalar v) kvs @
      [(cop_collection op, JList (map (\<lambda>x. project_one x (cop_returns op)) items))])"
    using assms by (auto simp: project_def)
  moreover have "list_all (\<lambda>(k, v). scalar v) (filter (\<lambda>(k, v). k \<noteq> cop_collection op \<and> scalar v) kvs)"
    by (auto simp: list_all_iff)
  moreover have "case project_one x (cop_returns op) of
      JObj ys \<Rightarrow> fst ` set ys \<subseteq> declared_keys (cop_returns op) | _ \<Rightarrow> True" for x
    using assms project_fields_keys by (cases x) (simp_all add: project_one_def)
  ultimately show ?thesis by (simp add: list_all_iff)
next
  case False
  then have "project (JObj kvs) op = project_one (JObj kvs) (cop_returns op)"
    using assms by (auto simp: project_def split: list.split option.split jval.split)
  then show ?thesis using assms project_fields_keys [of kvs "cop_returns op"] by (simp add: project_one_def)
qed

text \<open>Two declared fields of one list do not both survive: the second replaces the list the first put there.\<close>

theorem second_list_field_wins:
  "project_fields [(''attendees'', JList [JObj [(''email'', JStr ''a@b''), (''status'', JStr ''yes'')]])]
     [''attendees.email'', ''attendees.status''] = [(''attendees'', JList [JObj [(''status'', JStr ''yes'')]])]"
  by code_simp

end
