(* ===== verification/ConnectorRun.thy ===== *)
theory ConnectorRun
  imports Engine Executor Log
begin

text \<open>
  \<open>ConnectorActionRunner\<close> of \<open>gates/executor/connector_action.py\<close>: one connector request of the agent, from
  the frame to the answer, with the gate in front of it. As in the executor, a request that waits for a
  human stops at its wait (\<open>Waits\<close>) and \<open>resume_connector\<close> is what follows. The state holds the three
  stores, the token sources of the process and a trace of what left it; an environment holds what one
  request reads. The packages installed, the configuration and the confined host are in the environment.
\<close>

section \<open>Requests and answers\<close>

text \<open>\<open>crq_arguments\<close> is what \<open>json.loads\<close> makes of the arguments, or none.\<close>

record connector_request = delegated_frame +
  crq_connector :: string
  crq_operation :: string
  crq_arguments :: "jval option"
  crq_session :: "string option"
  crq_context :: string
  crq_preview :: bool
  crq_nonce :: "string option"
  crq_origin_path :: "string option"

definition crq_delegation :: "connector_request \<Rightarrow> delegation" where
  "crq_delegation r = delegation_of (delegated_frame.truncate r)"

datatype runner_reason =
    NonceCarried
  | DidNotActivate string credential_fault
  | NotActive string
  | NotOffered string string
  | BadArguments argument_fault
  | NotPrepared call_fault
  | GateSaid reason
  | PreviewOnly
  | NoApprovalPath
  | NoSessionNamed
  | NobodyApproves approval_reason
  | NotRendered prompt_error
  | WaitsOn "string option" int
  | CallDenied outcome_reason
  | CallExpired outcome_reason
  | CallTokenRefused "token_refusal option"
  | CallApprovedBy "string option" "string option" "string option"
  | CredentialFailed string token_fault
  | CallFailed call_fault
  | HostUnreachable string
  | HostRefused "string option"
  | RanAs string
  | RanInHost string

datatype runner_output = NoText | ActionText string | Payload jval

record runner_response =
  rr_ok :: bool
  rr_output :: runner_output
  rr_exit :: "int option"
  rr_reason :: runner_reason
  rr_terminal :: bool
  rr_preview :: "decision option"

definition refusal :: "runner_reason \<Rightarrow> bool \<Rightarrow> runner_response" where
  "refusal why terminal = \<lparr>rr_ok = False, rr_output = NoText, rr_exit = None, rr_reason = why, rr_terminal = terminal,
     rr_preview = None\<rparr>"


section \<open>Environment and state\<close>

text \<open>The frame the confined host gets, and its answer.\<close>

record host_call =
  hc_package :: string
  hc_operation :: string
  hc_method :: string
  hc_url :: string
  hc_query :: "(string \<times> string) list"
  hc_body :: "(string, jval) dict option"
  hc_token :: string

datatype host_answer = HostDown | HostSaid bool "jval option" "string option" bool

record runner_env =
  re_float :: "rat \<Rightarrow> string"
  re_sha :: "string \<Rightarrow> string"
  re_words :: "runner_reason \<Rightarrow> string"
  re_gates :: "exec_stage \<Rightarrow> gates_config"
  re_now :: "exec_stage \<Rightarrow> microseconds"
  re_disk :: "exec_stage \<Rightarrow> disk"
  re_bundled :: "(string \<times> plugin option) list"
  re_runtime :: connector_runtime
  re_marketplace :: "string \<Rightarrow> bool"
  re_call :: call_env
  re_host :: "host_call \<Rightarrow> host_answer"
  re_monotonic :: "seconds \<times> seconds"
  re_request_id :: string

datatype runner_event = CallRecorded audit_entry | Sent string sent | Forwarded host_call

record runner_state =
  rn_audit :: "audit_store option"
  rn_pending :: "pending_store option"
  rn_tokens :: "token_store option"
  rn_sources :: "(string, token_source) dict"
  rn_trace :: "runner_event list"

record connector_action =
  cna_entry :: active_connector
  cna_op :: connector_op
  cna_arguments :: "(string, jval) dict"
  cna_text :: string
  cna_host :: string

record connector_suspension =
  csu_request :: connector_request
  csu_action :: connector_action
  csu_session :: string
  csu_prompt :: approval_prompt
  csu_id :: string

datatype runner_result = Replied runner_response | Threw py_exn | Waits connector_suspension


section \<open>What will be sent\<close>

text \<open>\<open>sort_keys=True\<close>\<close>

lemma size_sort_mem [termination_simp]: "(k, v) \<in> set kvs \<Longrightarrow> size v < Suc (size_list (size_prod (\<lambda>_. 0) size) kvs)"
  by (induction kvs) auto

fun sort_keys :: "jval \<Rightarrow> jval" where
  "sort_keys (JList xs) = JList (map sort_keys xs)"
| "sort_keys (JObj kvs) = JObj (sort_key fst (map (\<lambda>(k, v). (k, sort_keys v)) kvs))"
| "sort_keys v = v"

text \<open>\<open>_render_action\<close>: the bytes an approver reads.\<close>

definition render_action :: "(rat \<Rightarrow> string) \<Rightarrow> (jval \<Rightarrow> string) \<Rightarrow> prepared \<Rightarrow> string" where
  "render_action flt repr r =
     prp_method r @ '' '' @ prp_url r @
     (if prp_params r = [] then []
      else ''?'' @ join_with ''&'' (map (\<lambda>(k, v). k @ ''='' @ str_of repr v) (sort_key fst (prp_params r)))) @
     (case prp_body r of
        Some (kv # kvs) \<Rightarrow> newline # dumps flt (sort_keys (JObj (kv # kvs)))
      | _ \<Rightarrow> [])"


section \<open>Records\<close>

definition connector_record_args ::
  "runner_env \<Rightarrow> connector_request \<Rightarrow> connector_action \<Rightarrow> string \<Rightarrow> runner_reason \<Rightarrow> audit_args" where
  "connector_record_args env rq a decision why =
     (no_args decision (cop_class (cna_op a)) (crq_context rq))
       \<lparr>arg_session := crq_session rq, arg_tool := Some (tool_name (act_plugin (cna_entry a)) (cna_op a)),
        arg_scope := Some ''host'', arg_hosts := [cna_host a],
        arg_secret_ref := Some (crd_name (act_credential (cna_entry a))), arg_command := Some (cna_text a),
        arg_reason := given (Some (re_words env why)), arg_origin_path := crq_origin_path rq,
        arg_origin_actor := frame_origin_actor rq, arg_acting_agent := frame_acting_agent rq,
        arg_delegated_by := frame_delegated_by rq\<rparr>"

text \<open>A record that cannot be written is logged and the call goes on; what fails is an \<open>OSError\<close>.\<close>

definition record_call :: "runner_env \<Rightarrow> exec_stage \<Rightarrow> audit_args \<Rightarrow> runner_state \<Rightarrow> runner_state" where
  "record_call env stage a st =
     (case rn_audit st of
        None \<Rightarrow> st
      | Some store \<Rightarrow>
          (let d = re_disk env stage
           in case audit_record (re_sha env) (dsk_current d) (dsk_after d) (dsk_write_ok d) (dsk_unlink_ok d)
                     (dsk_ts d) (dsk_id d) a store of
                Inl (_, store') \<Rightarrow> st\<lparr>rn_audit := Some store'\<rparr>
              | Inr (e, store') \<Rightarrow> st\<lparr>rn_audit := Some store', rn_trace := rn_trace st @ [CallRecorded e]\<rparr>))"


section \<open>Running\<close>

definition source_of :: "active_connector \<Rightarrow> runner_state \<Rightarrow> token_source" where
  "source_of a st = (case dict_get (rn_sources st) (plg_name (act_plugin a)) of Some s \<Rightarrow> s | None \<Rightarrow> token_source_for a)"

definition keep_source :: "active_connector \<Rightarrow> token_source \<Rightarrow> runner_state \<Rightarrow> runner_state" where
  "keep_source a src st = st\<lparr>rn_sources := dict_set (plg_name (act_plugin a)) src (rn_sources st)\<rparr>"

definition run_in_host :: "runner_env \<Rightarrow> connector_action \<Rightarrow> runner_state \<Rightarrow> runner_result \<times> runner_state" where
  "run_in_host env a st =
     (let entry = cna_entry a; p = act_plugin entry; op = cna_op a; ce = re_call env
      in case prepare (ce_repr ce) (ce_url ce) p op (cna_arguments a) (act_defaults entry) of
           Inl x \<Rightarrow> (Threw x, st)
         | Inr (Inl e) \<Rightarrow> (Replied (refusal (NotPrepared e) True), st)
         | Inr (Inr r) \<Rightarrow>
             (case access_token (ce_token ce) (plg_name p) (cop_class op) False (source_of entry st) of
                (Inl x, src) \<Rightarrow> (Threw x, keep_source entry src st)
              | (Inr (Inl e), src) \<Rightarrow> (Replied (refusal (CredentialFailed (plg_name p) e) False), keep_source entry src st)
              | (Inr (Inr token), src) \<Rightarrow>
                  (let c = \<lparr>hc_package = plg_name p, hc_operation = cop_name op, hc_method = prp_method r, hc_url = prp_url r,
                            hc_query = map (\<lambda>(k, v). (k, str_of (ce_repr ce) v)) (prp_params r), hc_body = prp_body r,
                            hc_token = token\<rparr>;
                       st' = (keep_source entry src st)\<lparr>rn_trace := rn_trace st @ [Forwarded c]\<rparr>
                   in case re_host env c of
                        HostDown \<Rightarrow> (Replied (refusal (HostUnreachable (plg_name p)) False), st')
                      | HostSaid ok payload err retry \<Rightarrow>
                          (if \<not> ok then (Replied (refusal (HostRefused err) (\<not> retry)), st')
                           else (Replied \<lparr>rr_ok = True, rr_output = Payload (case payload of None \<Rightarrow> JNull | Some v \<Rightarrow> v),
                                          rr_exit = Some 0, rr_reason = RanInHost (cop_class op), rr_terminal = True,
                                          rr_preview = None\<rparr>, st')))))"

definition run_call :: "runner_env \<Rightarrow> connector_action \<Rightarrow> runner_state \<Rightarrow> runner_result \<times> runner_state" where
  "run_call env a st =
     (let entry = cna_entry a; p = act_plugin entry; op = cna_op a
      in if re_marketplace env (plg_name p) then run_in_host env a st
         else (case connector_call (re_call env) p op (cna_arguments a) (act_defaults entry) (source_of entry st) of
                 (end_of_call, sends, src) \<Rightarrow>
                   (let st' = (keep_source entry src st)\<lparr>rn_trace := rn_trace st @ map (Sent (plg_name p)) sends\<rparr>
                    in case end_of_call of
                         CallRaised x \<Rightarrow> (Threw x, st')
                       | TokenFault e \<Rightarrow> (Replied (refusal (CredentialFailed (plg_name p) e) False), st')
                       | CallFault e \<Rightarrow> (Replied (refusal (CallFailed e) (\<not> retryable e)), st')
                       | Returned v \<Rightarrow>
                           (Replied \<lparr>rr_ok = True, rr_output = Payload v, rr_exit = Some 0, rr_reason = RanAs (cop_class op),
                                     rr_terminal = True, rr_preview = None\<rparr>, st'))))"

section \<open>Deciding\<close>

text \<open>\<open>_resolve\<close>: the active connector and its operation. The packages are the bundled ones: no workspace is passed on.\<close>

definition resolve_call :: "runner_env \<Rightarrow> string \<Rightarrow> string \<Rightarrow> py_exn + (runner_reason + active_connector \<times> connector_op)" where
  "resolve_call env connector operation =
     (case resolve_active (discover_connectors (re_bundled env) []) (re_runtime env) of
        Inl x \<Rightarrow> Inl x
      | Inr (active, problems) \<Rightarrow>
          (case List.find (\<lambda>a. plg_name (act_plugin a) = connector) (rev active) of
             None \<Rightarrow>
               Inr (Inl (case map_of problems (connector) of
                           Some e \<Rightarrow> DidNotActivate (connector) e
                         | None \<Rightarrow> NotActive (connector)))
           | Some entry \<Rightarrow>
               (case List.find (\<lambda>op. cop_name op = operation) (act_operations entry) of
                  None \<Rightarrow> Inr (Inl (NotOffered (plg_name (act_plugin entry)) (operation)))
                | Some op \<Rightarrow> Inr (Inr (entry, op)))))"

definition gate_call :: "runner_env \<Rightarrow> connector_request \<Rightarrow> connector_action \<Rightarrow> decision" where
  "gate_call env rq a =
     evaluate_connector (re_gates env AtGate) (re_now env AtGate) (cop_class (cna_op a)) (crq_context rq)
       (plg_name (act_plugin (cna_entry a))) (cop_name (cna_op a)) (Some (crq_delegation rq))"

definition suspend_call :: "runner_env \<Rightarrow> connector_request \<Rightarrow> connector_action \<Rightarrow> runner_state \<Rightarrow> runner_result \<times> runner_state" where
  "suspend_call env rq a st =
     (let g = re_gates env AtSuspend;
          session = strip (case crq_session rq of None \<Rightarrow> [] | Some s \<Rightarrow> s);
          origin = (case crq_origin_path rq of None \<Rightarrow> [] | Some p \<Rightarrow> p);
          who = (case frame_origin_actor rq of None \<Rightarrow> [] | Some w \<Rightarrow> w);
          feasible = approval_feasible g origin who
      in case (rn_pending st, rn_tokens st) of
           (Some ps, Some _) \<Rightarrow>
             (if session = [] then (Replied (refusal NoSessionNamed True), st)
              else if \<not> feasible_ok feasible then (Replied (refusal (NobodyApproves (feasible_reason feasible)) False), st)
              else (case render_approval_prompt_for_hosts (re_sha env) (cna_text a) [cna_host a] of
                      Inl e \<Rightarrow> (Replied (refusal (NotRendered e) False), st)
                    | Inr p \<Rightarrow>
                        (let st1 = record_call env AtSuspend
                               (connector_record_args env rq a DECISION_APPROVE (WaitsOn (crq_origin_path rq) (approval_timeout_s g))) st;
                             q = \<lparr>pr_session = session, pr_origin_path = strip origin, pr_context = crq_context rq,
                                  pr_class = cop_class (cna_op a), pr_scope = ''host'', pr_hosts = [cna_host a],
                                  pr_command = cna_text a, pr_payload = prompt_text p, pr_digest = prompt_digest p,
                                  pr_origin_actor = strip who, pr_acting_agent = acting_agent (crq_delegation rq),
                                  pr_delegated_by = delegated_by (crq_delegation rq)\<rparr>
                         in case create_pending (fst (re_monotonic env)) (snd (re_monotonic env)) (re_request_id env) q
                                  (of_int (approval_timeout_s g)) ps of
                              Inl x \<Rightarrow> (Threw x, st1)
                            | Inr (pa, ps') \<Rightarrow>
                                (Waits \<lparr>csu_request = rq, csu_action = a, csu_session = session, csu_prompt = p, csu_id = pa_id pa\<rparr>,
                                 st1\<lparr>rn_pending := Some ps'\<rparr>))))
         | _ \<Rightarrow> (Replied (refusal NoApprovalPath False), st))"

text \<open>\<open>_suspend\<close> from the outcome of its wait on, and \<open>_run\<close> when it gives no refusal.\<close>

definition resume_connector ::
  "runner_env \<Rightarrow> connector_suspension \<Rightarrow> approval_outcome \<Rightarrow> seconds \<Rightarrow> runner_state \<Rightarrow> runner_result \<times> runner_state" where
  "resume_connector env s oc now st =
     (let rq = csu_request s; a = csu_action s;
          answered_by = (\<lambda>x. x\<lparr>arg_actor := out_actor oc, arg_approval_path := out_path oc\<rparr>)
      in if out_state oc = Denied
         then (Replied (refusal (CallDenied (out_reason oc)) True),
               record_call env AtResume (answered_by (connector_record_args env rq a DECISION_DENIED (CallDenied (out_reason oc)))) st)
         else (case (if out_state oc = Approved then out_nonce oc else None) of
                 None \<Rightarrow>
                   (Replied (refusal (CallExpired (out_reason oc)) True),
                    record_call env AtResume (connector_record_args env rq a DECISION_EXPIRED (CallExpired (out_reason oc))) st)
               | Some n \<Rightarrow>
                   (case rn_tokens st of
                      None \<Rightarrow> (Threw TypeError, st)
                    | Some ts \<Rightarrow>
                        (let (v, ts') = consume_token now n (csu_session s) (prompt_digest (csu_prompt s)) ts;
                             st1 = st\<lparr>rn_tokens := Some ts'\<rparr>
                         in if \<not> ver_ok v
                            then (Replied (refusal (CallTokenRefused (ver_refusal v)) True),
                                  record_call env AtResume
                                    (answered_by (connector_record_args env rq a DECISION_DENIED (CallTokenRefused (ver_refusal v)))) st1)
                            else run_call env a
                                   (record_call env AtResume
                                      ((answered_by (connector_record_args env rq a DECISION_ALLOW
                                          (CallApprovedBy (out_actor oc) (out_path oc) (crq_origin_path rq))))
                                         \<lparr>arg_approval := Some (csu_id s)\<rparr>) st1)))))"

definition decide_call :: "runner_env \<Rightarrow> connector_request \<Rightarrow> connector_action \<Rightarrow> runner_state \<Rightarrow> runner_result \<times> runner_state" where
  "decide_call env rq a st =
     (let d = gate_call env rq a
      in if crq_preview rq
         then (Replied \<lparr>rr_ok = True, rr_output = ActionText (cna_text a), rr_exit = None, rr_reason = PreviewOnly,
                        rr_terminal = True, rr_preview = Some d\<rparr>, st)
         else (case outcome d of
                 Approve \<Rightarrow> suspend_call env rq a st
               | Deny \<Rightarrow>
                   (Replied (refusal (GateSaid (reason d)) True),
                    record_call env AtGate (connector_record_args env rq a DECISION_DENIED (GateSaid (reason d))) st)
               | Allow \<Rightarrow>
                   run_call env a
                     (record_call env AtGate
                        ((connector_record_args env rq a DECISION_ALLOW (GateSaid (reason d)))\<lparr>arg_grant := matched_grant d\<rparr>) st)))"

definition call_as_decided :: "connector_request \<Rightarrow> connector_request" where
  "call_as_decided rq = rq\<lparr>crq_context := effective_execution_context (crq_delegation rq) (crq_context rq)\<rparr>"

definition handle_call :: "runner_env \<Rightarrow> connector_request \<Rightarrow> runner_state \<Rightarrow> runner_result \<times> runner_state" where
  "handle_call env rq st =
     (if given (crq_nonce rq) \<noteq> None then (Replied (refusal NonceCarried True), st)
      else (let rq = call_as_decided rq; ce = re_call env
            in case resolve_call env (crq_connector rq) (crq_operation rq) of
                 Inl x \<Rightarrow> (Threw x, st)
               | Inr (Inl why) \<Rightarrow> (Replied (refusal why False), st)
               | Inr (Inr (entry, op)) \<Rightarrow>
                   (case validate_arguments op (crq_arguments rq) of
                      Inl e \<Rightarrow> (Replied (refusal (BadArguments e) True), st)
                    | Inr arguments \<Rightarrow>
                        (case prepare (ce_repr ce) (ce_url ce) (act_plugin entry) op arguments (act_defaults entry) of
                           Inl x \<Rightarrow> (Threw x, st)
                         | Inr (Inl e) \<Rightarrow> (Replied (refusal (NotPrepared e) True), st)
                         | Inr (Inr r) \<Rightarrow>
                             (case url_host (prp_url r) of
                                Inl x \<Rightarrow> (Threw x, st)
                              | Inr host \<Rightarrow>
                                  decide_call env rq
                                    \<lparr>cna_entry = entry, cna_op = op, cna_arguments = arguments,
                                     cna_text = render_action (re_float env) (ce_repr ce) r, cna_host = host\<rparr> st)))))"

section \<open>What leaves the process\<close>

fun is_send :: "runner_event \<Rightarrow> bool" where
  "is_send (CallRecorded _) = False"
| "is_send _ = True"

text \<open>An event that sends the request the arguments of the action make.\<close>

definition sends_action :: "runner_env \<Rightarrow> connector_action \<Rightarrow> prepared \<Rightarrow> runner_event \<Rightarrow> bool" where
  "sends_action env a r ev \<longleftrightarrow>
     (let name = plg_name (act_plugin (cna_entry a))
      in case ev of
           Sent n s \<Rightarrow> \<not> re_marketplace env name \<and> n = name \<and> snt_request s = r
         | Forwarded c \<Rightarrow> re_marketplace env name \<and> hc_package c = name \<and> hc_operation c = cop_name (cna_op a) \<and>
             hc_method c = prp_method r \<and> hc_url c = prp_url r \<and> hc_body c = prp_body r
         | CallRecorded _ \<Rightarrow> False)"

definition prepared_for :: "runner_env \<Rightarrow> connector_action \<Rightarrow> prepared \<Rightarrow> bool" where
  "prepared_for env a r \<longleftrightarrow> prepare (ce_repr (re_call env)) (ce_url (re_call env)) (act_plugin (cna_entry a)) (cna_op a)
     (cna_arguments a) (act_defaults (cna_entry a)) = Inr (Inr r)"

lemma record_call_facts:
  "rn_sources (record_call env stage x st) = rn_sources st" "rn_tokens (record_call env stage x st) = rn_tokens st"
  "rn_pending (record_call env stage x st) = rn_pending st"
  "filter is_send (rn_trace (record_call env stage x st)) = filter is_send (rn_trace st)"
  by (auto simp: record_call_def Let_def split: option.splits sum.splits)

lemma keep_source_simps [simp]:
  "rn_trace (keep_source a src st) = rn_trace st" "rn_tokens (keep_source a src st) = rn_tokens st"
  by (simp_all add: keep_source_def)

lemma run_in_host_trace:
  assumes "run_in_host env a st = (res, st')" "re_marketplace env (plg_name (act_plugin (cna_entry a)))"
  shows "\<exists>evs. rn_trace st' = rn_trace st @ evs \<and> (\<forall>ev \<in> set evs. \<exists>r. prepared_for env a r \<and> sends_action env a r ev)"
  using assms
  by (auto simp: run_in_host_def Let_def prepared_for_def sends_action_def split: sum.splits prod.splits host_answer.splits if_splits)

lemma run_call_trace:
  assumes "run_call env a st = (res, st')"
  shows "\<exists>evs. rn_trace st' = rn_trace st @ evs \<and> (\<forall>ev \<in> set evs. \<exists>r. prepared_for env a r \<and> sends_action env a r ev)"
proof (cases "re_marketplace env (plg_name (act_plugin (cna_entry a)))")
  case True
  with assms have "run_in_host env a st = (res, st')" by (simp add: run_call_def)
  from run_in_host_trace [OF this True] show ?thesis .
next
  case False
  obtain e sends src where c: "connector_call (re_call env) (act_plugin (cna_entry a)) (cna_op a) (cna_arguments a)
      (act_defaults (cna_entry a)) (source_of (cna_entry a) st) = (e, sends, src)" by (metis prod_cases3)
  have trace: "rn_trace st' = rn_trace st @ map (Sent (plg_name (act_plugin (cna_entry a)))) sends"
    using assms False c by (auto simp: run_call_def Let_def split: call_end.splits)
  have "\<exists>r. prepared_for env a r \<and> snt_request s = r" if "s \<in> set sends" for s
    using call_sends [OF c] that by (auto simp: prepared_for_def)
  with trace False show ?thesis by (auto simp: sends_action_def)
qed

lemma run_call_sends:
  assumes "run_call env a st = (res, st')" "filter is_send (rn_trace st') \<noteq> filter is_send (rn_trace st)"
  obtains r evs where "prepared_for env a r" "filter is_send (rn_trace st') = filter is_send (rn_trace st) @ evs"
    "list_all (sends_action env a r) evs"
proof -
  from run_call_trace [OF assms(1)] obtain evs where evs: "rn_trace st' = rn_trace st @ evs"
    "\<forall>ev \<in> set evs. \<exists>r. prepared_for env a r \<and> sends_action env a r ev" by blast
  with assms(2) have "evs \<noteq> []" by auto
  then obtain ev r where "ev \<in> set evs" "prepared_for env a r" using evs(2) by (metis list.set_intros(1) neq_Nil_conv)
  moreover have "sends_action env a r x" if "x \<in> set evs" for x
    using evs(2) that \<open>prepared_for env a r\<close> by (fastforce simp: prepared_for_def)
  ultimately show ?thesis using evs(1) that [of r "filter is_send evs"] by (auto simp: list_all_iff)
qed

lemma call_as_decided_simps [simp]:
  "crq_connector (call_as_decided rq) = crq_connector rq" "crq_operation (call_as_decided rq) = crq_operation rq"
  "crq_arguments (call_as_decided rq) = crq_arguments rq" "crq_preview (call_as_decided rq) = crq_preview rq"
  by (simp_all add: call_as_decided_def)

fun turned_down :: "runner_result \<Rightarrow> bool" where
  "turned_down (Replied rsp) = (rr_preview rsp = None)"
| "turned_down (Threw x) = True"
| "turned_down (Waits s) = False"

lemma refusal_preview [simp]: "rr_preview (refusal why terminal) = None"
  by (simp add: refusal_def)

lemma handle_call_cases:
  assumes "handle_call env rq st = (res, st')"
  obtains (turned_away) "st' = st" "turned_down res"
  | (decided) entry op arguments r host where "given (crq_nonce rq) = None"
      "resolve_call env (crq_connector rq) (crq_operation rq) = Inr (Inr (entry, op))"
      "validate_arguments op (crq_arguments rq) = Inr arguments"
      "prepare (ce_repr (re_call env)) (ce_url (re_call env)) (act_plugin entry) op arguments (act_defaults entry) = Inr (Inr r)"
      "url_host (prp_url r) = Inr host"
      "decide_call env (call_as_decided rq) \<lparr>cna_entry = entry, cna_op = op, cna_arguments = arguments,
         cna_text = render_action (re_float env) (ce_repr (re_call env)) r, cna_host = host\<rparr> st = (res, st')"
  using assms that unfolding handle_call_def Let_def
  by (cases "given (crq_nonce rq)"; cases "resolve_call env (crq_connector rq) (crq_operation rq)") (auto split: sum.splits)

lemma handle_call_decided:
  assumes "given (crq_nonce rq) = None" "resolve_call env (crq_connector rq) (crq_operation rq) = Inr (Inr (entry, op))"
    "validate_arguments op (crq_arguments rq) = Inr arguments"
    "prepare (ce_repr (re_call env)) (ce_url (re_call env)) (act_plugin entry) op arguments (act_defaults entry) = Inr (Inr r)"
    "url_host (prp_url r) = Inr host"
  shows "handle_call env rq st = decide_call env (call_as_decided rq) \<lparr>cna_entry = entry, cna_op = op, cna_arguments = arguments,
         cna_text = render_action (re_float env) (ce_repr (re_call env)) r, cna_host = host\<rparr> st"
  using assms by (simp add: handle_call_def Let_def)

lemma suspend_call_quiet:
  assumes "suspend_call env rq a st = (res, st')"
  shows "filter is_send (rn_trace st') = filter is_send (rn_trace st)"
    "res = Waits s \<Longrightarrow> csu_request s = rq \<and> csu_action s = a \<and>
       render_approval_prompt_for_hosts (re_sha env) (cna_text a) [cna_host a] = Inr (csu_prompt s)"
  using assms by (auto simp: suspend_call_def Let_def record_call_facts split: option.splits sum.splits if_splits)

lemma decide_call_sends:
  assumes "decide_call env rq a st = (res, st')" "filter is_send (rn_trace st') \<noteq> filter is_send (rn_trace st)"
  shows "\<not> crq_preview rq" "outcome (gate_call env rq a) = Allow"
    "\<exists>r evs. prepared_for env a r \<and> filter is_send (rn_trace st') = filter is_send (rn_trace st) @ evs \<and> list_all (sends_action env a r) evs"
proof -
  show p: "\<not> crq_preview rq" using assms by (auto simp: decide_call_def Let_def)
  show ok: "outcome (gate_call env rq a) = Allow"
    using assms p by (cases "outcome (gate_call env rq a)") (auto simp: decide_call_def Let_def record_call_facts dest: suspend_call_quiet)
  from assms(1) p ok have "run_call env a (record_call env AtGate ((connector_record_args env rq a DECISION_ALLOW
      (GateSaid (reason (gate_call env rq a))))\<lparr>arg_grant := matched_grant (gate_call env rq a)\<rparr>) st) = (res, st')"
    by (simp add: decide_call_def Let_def)
  from run_call_sends [OF this] assms(2)
  show "\<exists>r evs. prepared_for env a r \<and> filter is_send (rn_trace st') = filter is_send (rn_trace st) @ evs \<and> list_all (sends_action env a r) evs"
    unfolding record_call_facts by metis
qed

lemma decide_call_waits:
  assumes "decide_call env rq a st = (Waits s, st')"
  shows "suspend_call env rq a st = (Waits s, st')" "outcome (gate_call env rq a) = Approve" "\<not> crq_preview rq"
proof -
  have no: "run_call env a s1 \<noteq> (Waits s, s2)" for s1 s2
    by (auto simp: run_call_def run_in_host_def Let_def
        split: prod.splits sum.splits host_answer.splits call_end.splits if_splits)
  show "\<not> crq_preview rq" using assms by (auto simp: decide_call_def Let_def)
  with assms no show "suspend_call env rq a st = (Waits s, st')" "outcome (gate_call env rq a) = Approve"
    by (auto simp: decide_call_def Let_def split: outcome.splits)
qed


section \<open>Properties\<close>



text \<open>A preview sends nothing, records nothing and shows what the gate answers the same call: the call itself
  runs exactly when the preview says allow and waits only when it says approve.\<close>

theorem connector_preview_faithful:
  assumes "handle_call env (rq\<lparr>crq_preview := True\<rparr>) st = (Replied rsp, st')" "rr_preview rsp = Some d"
    and "handle_call env (rq\<lparr>crq_preview := False\<rparr>) st = (res, st2)"
  shows "st' = st \<and>
    (filter is_send (rn_trace st2) \<noteq> filter is_send (rn_trace st) \<longrightarrow> outcome d = Allow) \<and>
    ((\<exists>s. res = Waits s) \<longrightarrow> outcome d = Approve) \<and>
    (outcome d = Deny \<longrightarrow> res = Replied (refusal (GateSaid (reason d)) True))"
  using assms(1)
proof (cases rule: handle_call_cases)
  case turned_away
  with assms(2) show ?thesis by simp
next
  case (decided entry op arguments r host)
  let ?a = "\<lparr>cna_entry = entry, cna_op = op, cna_arguments = arguments,
     cna_text = render_action (re_float env) (ce_repr (re_call env)) r, cna_host = host\<rparr>"
  let ?rq = "call_as_decided (rq\<lparr>crq_preview := False\<rparr>)"
  have gate: "gate_call env (call_as_decided (rq\<lparr>crq_preview := True\<rparr>)) ?a = gate_call env ?rq ?a"
    by (simp add: gate_call_def call_as_decided_def crq_delegation_def delegation_of_def delegated_frame.defs)
  from decided(6) assms(2) have d: "st' = st" "d = gate_call env ?rq ?a"
    by (auto simp: decide_call_def Let_def gate)
  have run: "decide_call env ?rq ?a st = (res, st2)"
    using handle_call_decided [of "rq\<lparr>crq_preview := False\<rparr>" env entry op arguments r host st] decided(1-5) assms(3) by simp
  have "outcome d = Deny \<longrightarrow> res = Replied (refusal (GateSaid (reason d)) True)"
    using run by (auto simp: decide_call_def Let_def d(2))
  with d decide_call_sends(2) [OF run] decide_call_waits(2) run show ?thesis by blast
qed

lemma discover_bundled:
  assumes "dict_get (discover_connectors bundled []) name = Some p"
  shows "plg_name p = name \<and> (\<exists>package. (package, Some p) \<in> set bundled)"
proof -
  let ?add = "\<lambda>found (package, loaded). case loaded of None \<Rightarrow> found
     | Some p \<Rightarrow> if plg_name p = map (\<lambda>c. if c = CHR ''_'' then CHR ''-'' else c) package
                 then dict_set (plg_name p) p found else found"
  have "dict_get (foldl ?add found bs) name = Some p \<Longrightarrow>
      dict_get found name = Some p \<or> plg_name p = name \<and> (\<exists>package. (package, Some p) \<in> set bs)" for found bs
  proof (induction bs arbitrary: found)
    case (Cons b bs)
    then show ?case by (cases b) (fastforce simp: dict_simps split: option.splits if_splits)
  qed simp
  from this [of "[]" bundled] assms show ?thesis by (simp add: discover_connectors_def)
qed

lemma find_mem: "List.find P xs = Some x \<Longrightarrow> x \<in> set xs \<and> P x"
  by (metis find_Some_iff nth_mem)

lemma resolve_call_bundled:
  assumes "resolve_call env connector operation = Inr (Inr (entry, op))"
  shows "plg_name (act_plugin entry) = connector \<and> op \<in> set (act_operations entry) \<and>
    (\<exists>package. (package, Some (act_plugin entry)) \<in> set (re_bundled env))"
proof -
  from assms obtain active problems where r: "resolve_active (discover_connectors (re_bundled env) []) (re_runtime env) = Inr (active, problems)"
    "List.find (\<lambda>a. plg_name (act_plugin a) = connector) (rev active) = Some entry"
    "List.find (\<lambda>op. cop_name op = operation) (act_operations entry) = Some op"
    by (auto simp: resolve_call_def split: sum.splits option.splits)
  from find_mem [OF r(2)] find_mem [OF r(3)] have "entry \<in> set active" "plg_name (act_plugin entry) = connector" "op \<in> set (act_operations entry)"
    by auto
  moreover from active_from [OF r(1) this(1)] discover_bundled
  have "\<exists>package. (package, Some (act_plugin entry)) \<in> set (re_bundled env)" by metis
  ultimately show ?thesis by simp
qed

text \<open>The confined host is never asked to run a package the deployment installed from the marketplace: what it
  is sent is an operation of a bundled package, under whose name a marketplace package is also installed.\<close>

theorem forwarded_call_is_bundled:
  assumes "handle_call env rq st = (res, st')" "Forwarded c \<in> set (rn_trace st')" "Forwarded c \<notin> set (rn_trace st)"
  shows "\<exists>package p. (package, Some p) \<in> set (re_bundled env) \<and> plg_name p = hc_package c \<and> re_marketplace env (hc_package c)"
proof -
  from assms(2,3) have "Forwarded c \<in> set (filter is_send (rn_trace st'))" "Forwarded c \<notin> set (filter is_send (rn_trace st))"
    by auto
  then have ne: "filter is_send (rn_trace st') \<noteq> filter is_send (rn_trace st)" by metis
  show ?thesis
    using assms(1)
  proof (cases rule: handle_call_cases)
    case (decided entry op arguments r host)
    from decide_call_sends(3) [OF decided(6) ne] obtain r' evs where evs:
      "filter is_send (rn_trace st') = filter is_send (rn_trace st) @ evs"
      "list_all (sends_action env \<lparr>cna_entry = entry, cna_op = op, cna_arguments = arguments,
         cna_text = render_action (re_float env) (ce_repr (re_call env)) r, cna_host = host\<rparr> r') evs" by blast
    from assms(2,3) have "Forwarded c \<in> set (filter is_send (rn_trace st'))" "Forwarded c \<notin> set (filter is_send (rn_trace st))"
      by auto
    with evs have "re_marketplace env (hc_package c)" "hc_package c = plg_name (act_plugin entry)"
      by (auto simp: list_all_iff sends_action_def Let_def)
    with resolve_call_bundled [OF decided(2)] show ?thesis by auto
  qed (use ne in simp)
qed

text \<open>Two different requests can have one rendering: a value with an ampersand reads like two parameters, so an
  approver cannot tell them apart.\<close>

theorem rendering_ambiguous:
  "let r = \<lparr>prp_method = ''GET'', prp_url = u, prp_params = [(''a'', JStr ''1&b=2'')], prp_body = None\<rparr>;
       r' = \<lparr>prp_method = ''GET'', prp_url = u, prp_params = [(''a'', JStr ''1''), (''b'', JStr ''2'')], prp_body = None\<rparr>
   in r \<noteq> r' \<and> render_action flt repr r = render_action flt repr r'"
  by (simp add: render_action_def Let_def)

section \<open>A deployment to evaluate on\<close>

definition cal_spec :: credential_spec where
  "cal_spec = \<lparr>spec_kind = ''oauth2'', spec_scopes = [(READ, [''r'']), (MUTATE_REMOTE, [''w''])], spec_token_url = ''t'', spec_hosts = []\<rparr>"

definition create_op :: connector_op where
  "create_op = \<lparr>cop_name = ''create'', cop_class = MUTATE_REMOTE, cop_method = ''POST'', cop_path = ''/events'',
     cop_returns = [], cop_collection = [],
     cop_parameters = Some (Schema (Some ''object'') False None None None None None
       [(''summary'', Schema (Some ''string'') False None None None None None [] [] None None None None)] [''summary''] None None None None),
     cop_read_via_post = False\<rparr>"

definition list_op :: connector_op where
  "list_op = sample_op\<lparr>cop_parameters := Some (Schema (Some ''object'') False None None None None None
       [(''id'', Schema (Some ''string'') False None None None None None [] [] None None None None)] [''id''] None None None None)\<rparr>"

definition cal_plugin :: plugin where
  "cal_plugin = \<lparr>plg_name = ''cal'', plg_base = ''https://api.example'', plg_ops = [list_op, create_op],
     plg_credential = cal_spec, plg_fields = [], plg_mentions = []\<rparr>"

definition cal_runtime :: connector_runtime where
  "cal_runtime = \<lparr>rt_credentials = [(''g'', \<lparr>ccf_client_id = ''id'', ccf_secret_ref = ''ref'', ccf_client_secret_ref = [],
       ccf_token_url = [], ccf_scopes = [''r'', ''w''], ccf_hosts = [''api.example'']\<rparr>)],
     rt_connectors = [(''cal'', \<lparr>con_credential = ''g'', con_enabled = None, con_max_class = None, con_settings = []\<rparr>)],
     rt_active = [''cal'']\<rparr>"

definition open_urls :: url_env where
  "open_urls = \<lparr>ue_allowed = [], ue_parse = (\<lambda>u. Some \<lparr>url_scheme = ''https'', url_netloc = ''n'', url_hostname = Some ''n''\<rparr>),
     ue_dns = (\<lambda>_. DnsNames [])\<rparr>"

definition cal_tokens :: token_env where
  "cal_tokens = \<lparr>te_url = open_urls, te_secret = (\<lambda>_. Value ''refresh''),
     te_answer = (\<lambda>f. ExchangeBody [(''access_token'', JStr ''tok'')]), te_now = 0, te_minted = 0\<rparr>"

definition cal_call :: call_env where
  "cal_call = \<lparr>ce_repr = (\<lambda>_. []), ce_url = open_urls, ce_token = cal_tokens, ce_refresh = cal_tokens,
     ce_api = (\<lambda>_ _. Inr \<lparr>api_status = 200, api_length = 2, api_json = Some (JObj [])\<rparr>)\<rparr>"

definition cal_gates :: gates_config where
  "cal_gates = default_gates\<lparr>approvers := [\<lparr>approver_channel = ''webui'', approver_sender = ''bob''\<rparr>],
     unattended := default_unattended\<lparr>mutate_remote := \<lparr>pol_host = ''approve'', pol_group = ''deny'', pol_all = ''deny''\<rparr>\<rparr>\<rparr>"

definition cal_env :: runner_env where
  "cal_env = \<lparr>re_float = (\<lambda>_. []), re_sha = (\<lambda>_. ''d''), re_words = (\<lambda>_. ''why''), re_gates = (\<lambda>_. cal_gates), re_now = (\<lambda>_. 0),
     re_disk = (\<lambda>_. \<lparr>dsk_current = Some (1, 2), dsk_after = Some (1, 2), dsk_write_ok = True, dsk_unlink_ok = (\<lambda>_. True),
       dsk_ts = 5, dsk_id = ''r1''\<rparr>), re_bundled = [(''cal'', Some cal_plugin)], re_runtime = cal_runtime,
     re_marketplace = (\<lambda>_. False), re_call = cal_call, re_host = (\<lambda>_. HostDown), re_monotonic = (0, 0), re_request_id = ''q1''\<rparr>"

definition cal_request :: "string \<Rightarrow> string \<Rightarrow> (string \<times> jval) list \<Rightarrow> connector_request" where
  "cal_request context operation arguments =
     \<lparr>frame_origin_actor = Some ''u'', frame_acting_agent = None, frame_delegated_by = None, frame_inherited = Some [],
      crq_connector = ''cal'', crq_operation = operation, crq_arguments = Some (JObj arguments), crq_session = Some ''s'',
      crq_context = context, crq_preview = False, crq_nonce = None, crq_origin_path = Some ''chat''\<rparr>"

definition cal_state :: runner_state where
  "cal_state = \<lparr>rn_audit = None,
     rn_pending = Some new_pending_store, rn_tokens = Some \<lparr>store_ttl = 120, token_records = []\<rparr>, rn_sources = [], rn_trace = []\<rparr>"

definition cal_approval :: approval_outcome where
  "cal_approval = \<lparr>out_state = Approved, out_actor = Some ''bob'', out_path = Some ''webui'', out_nonce = Some ''n'', out_reason = NoneGiven\<rparr>"

definition cal_approved :: "string \<Rightarrow> runner_state \<Rightarrow> runner_state" where
  "cal_approved digest st = st\<lparr>rn_tokens := (case issue_token 0 0 ''n''
       \<lparr>req_session = ''s'', req_actor = ''bob'', req_origin_path = ''chat'', req_approval_path = ''webui'',
        req_digest = digest, req_class = MUTATE_REMOTE, req_scope = ''host'', req_ttl = None\<rparr>
       \<lparr>store_ttl = 120, token_records = []\<rparr> of Inr (_, ts) \<Rightarrow> Some ts | Inl _ \<Rightarrow> None)\<rparr>"

definition cal_create :: connector_request where
  "cal_create = cal_request ''unattended'' ''create'' [(''summary'', JStr ''x'')]"

definition sends_of :: "runner_state \<Rightarrow> runner_event list" where
  "sends_of st = filter is_send (rn_trace st)"


definition cal_action :: connector_action where
  "cal_action = \<lparr>cna_entry = \<lparr>act_plugin = cal_plugin, act_operations = [list_op, create_op],
       act_credential = \<lparr>crd_name = ''g'', crd_client_id = ''id'', crd_secret_ref = ''ref'', crd_token_url = ''t'',
         crd_scopes = [''r'', ''w''], crd_client_secret_ref = [], crd_hosts = [''api.example'']\<rparr>, act_defaults = []\<rparr>,
     cna_op = create_op, cna_arguments = [(''summary'', JStr ''x'')],
     cna_text = render_action (\<lambda>_. []) (\<lambda>_. [])
       \<lparr>prp_method = ''POST'', prp_url = ''https://api.example/events'', prp_params = [], prp_body = Some [(''summary'', JStr ''x'')]\<rparr>,
     cna_host = ''api.example''\<rparr>"

lemma cal_waits:
  "case handle_call cal_env cal_create cal_state of
     (Waits s, st1) \<Rightarrow> csu_action s = cal_action \<and> csu_session s = ''s'' \<and> prompt_digest (csu_prompt s) = ''sha256:d''
   | _ \<Rightarrow> False"
  by code_simp

lemma cal_token:
  "case rn_tokens (cal_approved ''sha256:d'' cal_state) of Some ts \<Rightarrow> ver_ok (fst (consume_token 1 ''n'' ''s'' ''sha256:d'' ts)) | None \<Rightarrow> False"
  by code_simp

lemma cal_prepared:
  "prepare (\<lambda>_. []) open_urls cal_plugin create_op [(''summary'', JStr ''x'')] [] =
     Inr (Inr \<lparr>prp_method = ''POST'', prp_url = ''https://api.example/events'', prp_params = [], prp_body = Some [(''summary'', JStr ''x'')]\<rparr>)"
  by code_simp

lemma cal_token_source:
  "fst (access_token cal_tokens ''cal'' MUTATE_REMOTE False (token_source_for (cna_entry cal_action))) = Inr (Inr ''tok'')"
  by code_simp

lemma cal_sends:
  "fst (snd (connector_call cal_call cal_plugin create_op [(''summary'', JStr ''x'')] [] (token_source_for (cna_entry cal_action)))) \<noteq> []"
proof -
  have "ce_repr cal_call = (\<lambda>_. [])" "ce_url cal_call = open_urls" "ce_token cal_call = cal_tokens"
    "spec_kind (plg_credential cal_plugin) \<noteq> ''none''" "plg_name cal_plugin = ''cal''" "cop_class create_op = MUTATE_REMOTE"
    by (simp_all add: cal_call_def cal_plugin_def cal_spec_def create_op_def)
  moreover obtain src where "access_token cal_tokens ''cal'' MUTATE_REMOTE False (token_source_for (cna_entry cal_action)) = (Inr (Inr ''tok''), src)"
    using cal_token_source by (metis fst_conv surj_pair)
  ultimately show ?thesis
    by (simp add: connector_call_def cal_prepared Let_def)
       (simp add: cal_call_def)
qed

lemma cal_env_simps:
  "re_call (cal_env\<lparr>re_marketplace := m\<rparr>) = cal_call" "re_call cal_env = cal_call" "ce_repr cal_call = (\<lambda>_. [])"
  "ce_url cal_call = open_urls" "ce_token cal_call = cal_tokens" "plg_name cal_plugin = ''cal''"
  "plg_credential cal_plugin = cal_spec" "spec_kind cal_spec \<noteq> ''none''" "re_float (cal_env\<lparr>re_marketplace := m\<rparr>) = (\<lambda>_. [])"
  "re_float cal_env = (\<lambda>_. [])" "re_marketplace cal_env = (\<lambda>_. False)" "rn_sources cal_state = []" "rn_trace cal_state = []"
  by (simp_all add: cal_env_def cal_call_def cal_plugin_def cal_spec_def cal_state_def)

lemma cal_waiting:
  obtains s st1 where "handle_call cal_env cal_create cal_state = (Waits s, st1)" "csu_action s = cal_action"
    "csu_session s = ''s''" "prompt_digest (csu_prompt s) = ''sha256:d''"
  using cal_waits by (auto split: prod.splits runner_result.splits)

lemma cal_run:
  assumes "rn_sources st = []"
  shows "filter is_send (rn_trace (snd (run_call cal_env cal_action st))) \<noteq> filter is_send (rn_trace st)"
proof -
  obtain e sends src where c: "connector_call cal_call cal_plugin create_op [(''summary'', JStr ''x'')] []
      (token_source_for (cna_entry cal_action)) = (e, sends, src)" by (metis prod_cases3)
  with cal_sends obtain x xs where "sends = x # xs" by (cases sends) auto
  moreover have "source_of (cna_entry cal_action) st = token_source_for (cna_entry cal_action)"
    by (simp add: source_of_def assms)
  moreover have "act_plugin (cna_entry cal_action) = cal_plugin" "cna_op cal_action = create_op"
    "cna_arguments cal_action = [(''summary'', JStr ''x'')]" "act_defaults (cna_entry cal_action) = []"
    by (simp_all add: cal_action_def)
  ultimately show ?thesis using c by (simp add: run_call_def Let_def cal_env_simps split: call_end.splits)
qed


lemma cal_resumes:
  assumes "rn_tokens st = Some ts" "consume_token 1 ''n'' (csu_session s) (prompt_digest (csu_prompt s)) ts = (v, ts')" "ver_ok v"
  shows "\<exists>x. resume_connector env s cal_approval 1 st = run_call env (csu_action s) (record_call env AtResume x (st\<lparr>rn_tokens := Some ts'\<rparr>))"
  using assms by (auto simp: resume_connector_def cal_approval_def Let_def)


definition cal_list :: "connector_request" where
  "cal_list = cal_request CTX_INTERACTIVE ''list_events'' [(''id'', JStr ''p'')]"

definition cal_read :: connector_action where
  "cal_read = cal_action\<lparr>cna_op := list_op, cna_arguments := [(''id'', JStr ''p'')],
     cna_text := ''GET https://api.example/calendars/p/events''\<rparr>"

lemma cal_resolved: "resolve_call cal_env ''cal'' ''list_events'' = Inr (Inr (cna_entry cal_action, list_op))"
  by code_simp

lemma cal_validated: "validate_arguments list_op (Some (JObj [(''id'', JStr ''p'')])) = Inr [(''id'', JStr ''p'')]"
  by code_simp

lemma cal_prepared_read:
  "prepare (\<lambda>_. []) open_urls cal_plugin list_op [(''id'', JStr ''p'')] [] =
     Inr (Inr \<lparr>prp_method = ''GET'', prp_url = ''https://api.example/calendars/p/events'', prp_params = [], prp_body = None\<rparr>)"
  by code_simp

lemma cal_host: "url_host ''https://api.example/calendars/p/events'' = Inr ''api.example''"
  by code_simp

lemma cal_gate: "outcome (gate_call cal_env (call_as_decided cal_list) cal_read) = Allow"
  by code_simp

lemma cal_read_token:
  "fst (access_token cal_tokens ''cal'' READ False (token_source_for (cna_entry cal_action))) = Inr (Inr ''tok'')"
  by code_simp

lemma cal_rendered:
  "render_action (\<lambda>_. []) (\<lambda>_. []) \<lparr>prp_method = ''GET'', prp_url = ''https://api.example/calendars/p/events'', prp_params = [], prp_body = None\<rparr> =
     ''GET https://api.example/calendars/p/events''"
  by (simp add: render_action_def)

lemma cal_decided:
  "handle_call (cal_env\<lparr>re_marketplace := m\<rparr>) (cal_list\<lparr>crq_preview := v\<rparr>) st =
     decide_call (cal_env\<lparr>re_marketplace := m\<rparr>) (call_as_decided (cal_list\<lparr>crq_preview := v\<rparr>)) cal_read st"
proof -
  let ?rq = "cal_list\<lparr>crq_preview := v\<rparr>"
  let ?r = "\<lparr>prp_method = ''GET'', prp_url = ''https://api.example/calendars/p/events'', prp_params = [], prp_body = None\<rparr>"
  have m: "resolve_call (cal_env\<lparr>re_marketplace := m\<rparr>) = resolve_call cal_env" by (simp add: resolve_call_def fun_eq_iff)
  have rq: "given (crq_nonce ?rq) = None" "crq_connector ?rq = ''cal''" "crq_operation ?rq = ''list_events''"
    "crq_arguments ?rq = Some (JObj [(''id'', JStr ''p'')])"
    by (simp_all add: cal_list_def cal_request_def given_def)
  have e: "act_plugin (cna_entry cal_action) = cal_plugin" "act_defaults (cna_entry cal_action) = []"
    by (simp_all add: cal_action_def)
  have a: "\<lparr>cna_entry = cna_entry cal_action, cna_op = list_op, cna_arguments = [(''id'', JStr ''p'')],
      cna_text = ''GET https://api.example/calendars/p/events'', cna_host = ''api.example''\<rparr> = cal_read"
    by (simp add: cal_read_def cal_action_def)
  have "prp_url ?r = ''https://api.example/calendars/p/events''" by (rule prepared.select_convs)
  with cal_host have h: "url_host (prp_url ?r) = Inr ''api.example''" by metis
  show ?thesis
    using handle_call_decided [of ?rq "cal_env\<lparr>re_marketplace := m\<rparr>" "cna_entry cal_action" list_op "[(''id'', JStr ''p'')]" ?r "''api.example''" st, OF rq(1)]
    unfolding m rq e cal_env_simps cal_rendered a h by (simp only: cal_resolved cal_validated cal_prepared_read simp_thms)
qed

lemma cal_sent:
  assumes "rn_sources st = []"
  shows "\<exists>s e. run_call cal_env cal_read st = (e, s) \<and> filter is_send (rn_trace s) \<noteq> filter is_send (rn_trace st)"
    "\<exists>s e c. run_call (cal_env\<lparr>re_marketplace := \<lambda>_. True\<rparr>) cal_read st = (e, s) \<and> rn_trace s = rn_trace st @ [Forwarded c]"
proof -
  obtain src where src: "access_token cal_tokens ''cal'' READ False (token_source_for (cna_entry cal_action)) = (Inr (Inr ''tok''), src)"
    using cal_read_token by (metis fst_conv surj_pair)
  have entry: "source_of (cna_entry cal_action) st = token_source_for (cna_entry cal_action)" by (simp add: source_of_def assms)
  have facts: "act_plugin (cna_entry cal_action) = cal_plugin" "act_defaults (cna_entry cal_action) = []"
    "cop_class list_op = READ" "cna_entry cal_read = cna_entry cal_action" "cna_op cal_read = list_op"
    "cna_arguments cal_read = [(''id'', JStr ''p'')]"
    by (simp_all add: cal_action_def cal_read_def list_op_def sample_op_def)
  obtain e s where r: "run_call cal_env cal_read st = (e, s)" by fastforce
  from r src entry show "\<exists>s e. run_call cal_env cal_read st = (e, s) \<and> filter is_send (rn_trace s) \<noteq> filter is_send (rn_trace st)"
    by (simp add: run_call_def Let_def connector_call_def facts cal_env_simps cal_prepared_read)
       (auto simp: cal_call_def split: call_end.splits if_splits)
  from src entry show "\<exists>s e c. run_call (cal_env\<lparr>re_marketplace := \<lambda>_. True\<rparr>) cal_read st = (e, s) \<and> rn_trace s = rn_trace st @ [Forwarded c]"
    by (simp add: run_call_def run_in_host_def Let_def facts cal_env_simps cal_prepared_read) (simp add: cal_env_def)
qed

lemma cal_env_update: "cal_env\<lparr>re_marketplace := \<lambda>_. False\<rparr> = cal_env"
  by (simp add: cal_env_def)

lemma cal_gate_host: "gate_call (cal_env\<lparr>re_marketplace := m\<rparr>) = gate_call cal_env"
  by (simp add: gate_call_def fun_eq_iff)

lemma cal_list_update: "cal_list\<lparr>crq_preview := False\<rparr> = cal_list"
  by (simp add: cal_list_def cal_request_def)

lemma cal_handled:
  "\<exists>x. handle_call (cal_env\<lparr>re_marketplace := m\<rparr>) cal_list cal_state =
     run_call (cal_env\<lparr>re_marketplace := m\<rparr>) cal_read (record_call (cal_env\<lparr>re_marketplace := m\<rparr>) AtGate x cal_state)"
proof -
  have "crq_preview cal_list = False" by (simp add: cal_list_def cal_request_def)
  then show ?thesis
    using cal_decided [of m False cal_state] cal_gate
    by (auto simp: cal_list_update decide_call_def Let_def cal_gate_host)
qed

lemma cal_recorded: "rn_sources (record_call env stage x cal_state) = []"
  by (simp add: record_call_facts cal_env_simps)


theorem connector_preview_faithful_witness:
  "\<exists>rsp d res st2. handle_call cal_env (cal_list\<lparr>crq_preview := True\<rparr>) cal_state = (Replied rsp, cal_state) \<and>
     rr_preview rsp = Some d \<and> handle_call cal_env cal_list cal_state = (res, st2) \<and> outcome d = Allow \<and>
     filter is_send (rn_trace st2) \<noteq> []"
proof -
  obtain rsp where p: "handle_call cal_env (cal_list\<lparr>crq_preview := True\<rparr>) cal_state = (Replied rsp, cal_state)"
    "rr_preview rsp = Some (gate_call cal_env (call_as_decided (cal_list\<lparr>crq_preview := True\<rparr>)) cal_read)"
    using cal_decided [of "\<lambda>_. False" True cal_state] by (auto simp: cal_env_update decide_call_def Let_def)
  obtain res st2 where r: "handle_call cal_env (cal_list\<lparr>crq_preview := False\<rparr>) cal_state = (res, st2)" by fastforce
  obtain x where x: "handle_call cal_env cal_list cal_state = run_call cal_env cal_read (record_call cal_env AtGate x cal_state)"
    using cal_handled [of "\<lambda>_. False"] by (auto simp: cal_env_update)
  with r cal_sent(1) [OF cal_recorded [of cal_env AtGate x]] have s: "filter is_send (rn_trace st2) \<noteq> filter is_send (rn_trace cal_state)"
    by (auto simp: record_call_facts cal_list_update)
  from connector_preview_faithful [OF p r] s p r show ?thesis by (auto simp: cal_env_simps cal_list_update)
qed

theorem forwarded_call_is_bundled_witness:
  "\<exists>c res st package p. handle_call (cal_env\<lparr>re_marketplace := \<lambda>_. True\<rparr>) cal_list cal_state = (res, st) \<and>
     Forwarded c \<in> set (rn_trace st) \<and> (package, Some p) \<in> set (re_bundled cal_env) \<and> plg_name p = hc_package c"
proof -
  obtain x where x: "handle_call (cal_env\<lparr>re_marketplace := \<lambda>_. True\<rparr>) cal_list cal_state =
      run_call (cal_env\<lparr>re_marketplace := \<lambda>_. True\<rparr>) cal_read (record_call (cal_env\<lparr>re_marketplace := \<lambda>_. True\<rparr>) AtGate x cal_state)"
    using cal_handled [of "\<lambda>_. True"] by blast
  from cal_sent(2) [OF cal_recorded [of "cal_env\<lparr>re_marketplace := \<lambda>_. True\<rparr>" AtGate x]] obtain s e c where
    "run_call (cal_env\<lparr>re_marketplace := \<lambda>_. True\<rparr>) cal_read (record_call (cal_env\<lparr>re_marketplace := \<lambda>_. True\<rparr>) AtGate x cal_state) = (e, s)"
    "Forwarded c \<in> set (rn_trace s)" by fastforce
  with x have "handle_call (cal_env\<lparr>re_marketplace := \<lambda>_. True\<rparr>) cal_list cal_state = (e, s)" "Forwarded c \<in> set (rn_trace s)"
    "Forwarded c \<notin> set (rn_trace cal_state)" by (simp_all add: cal_env_simps)
  from this forwarded_call_is_bundled [OF this] show ?thesis by auto
qed

text \<open>An unattended connector request waits for a human where the configured decision is approve: unlike a command,
  which the executor refuses there.\<close>

theorem unattended_waits:
  "\<exists>s st. handle_call cal_env cal_create cal_state = (Waits s, st) \<and> crq_context (csu_request s) = ''unattended''"
proof -
  have "case handle_call cal_env cal_create cal_state of (Waits s, _) \<Rightarrow> crq_context (csu_request s) = ''unattended'' | _ \<Rightarrow> False" by code_simp
  then show ?thesis by (auto split: prod.splits runner_result.splits)
qed


lemma cal_activates:
  "\<exists>problems. resolve_active (discover_connectors [(''cal'', Some cal_plugin)] []) cal_runtime = Inr ([cna_entry cal_action], problems)"
proof -
  have "case resolve_active (discover_connectors [(''cal'', Some cal_plugin)] []) cal_runtime of
      Inr (active, problems) \<Rightarrow> active = [cna_entry cal_action] | Inl _ \<Rightarrow> False" by code_simp
  then show ?thesis by (auto split: sum.splits)
qed

theorem request_host_allowed_witness:
  "\<exists>h. url_host ''https://api.example/events'' = Inr h \<and> h \<noteq> [] \<and> permits_host [''api.example''] h"
proof -
  let ?r = "\<lparr>prp_method = ''POST'', prp_url = ''https://api.example/events'', prp_params = [], prp_body = Some [(''summary'', JStr ''x'')]\<rparr>"
  obtain problems where a: "resolve_active (discover_connectors [(''cal'', Some cal_plugin)] []) cal_runtime = Inr ([cna_entry cal_action], problems)"
    using cal_activates by blast
  have f: "act_plugin (cna_entry cal_action) = cal_plugin" "act_defaults (cna_entry cal_action) = []"
    "create_op \<in> set (act_operations (cna_entry cal_action))" "crd_hosts (act_credential (cna_entry cal_action)) = [''api.example'']"
    by (simp_all add: cal_action_def)
  have p: "plugin_ok cal_plugin" by code_simp
  have "\<exists>h. url_host (prp_url ?r) = Inr h \<and> h \<noteq> [] \<and> permits_host (crd_hosts (act_credential (cna_entry cal_action))) h \<and>
      validate_url open_urls (prp_url ?r) = Inr None"
    by (rule request_host_allowed [OF a _ _ f(3), where repr = "\<lambda>_. []" and arguments = "[(''summary'', JStr ''x'')]"])
       (simp_all add: f p cal_prepared)
  then show ?thesis by (auto simp: f(4))
qed


end
