(* ===== verification/Packages.thy ===== *)
theory Packages
  imports Engine
begin

text \<open>
  Packages from the marketplace: the parser of \<open>connector.json\<close> and its loader
  (\<open>nanoinfra/connectors/package.py\<close>), the scan of the workspace (\<open>registry.py\<close>) and the confined process
  that makes their calls (\<open>gates/connector_host/server.py\<close>). A \<open>ConnectorPackageError\<close> is \<open>Refuses\<close>,
  every other exception is \<open>Escapes\<close>; the sentence of a refusal is a constructor. How a JSON object is read as a
  schema is the parameter \<open>sch\<close>: the parser stores the object unread.
\<close>

section \<open>Reading a declaration\<close>

datatype package_fault =
    NotObject string | UnknownKeys string "string list" | NeedsText string string | NotStrings string
  | BadCredentialKind | BadScopeClass string | NamesNoHosts | BadOperationClass string string
  | BadOperation string contract_fault | FieldsNotList | TooManyFields nat | BadFieldKind string | BadDefault string
  | MentionsNotList | TooManyMentions nat | WrongSchema string | WrongName string string | HasDependencies "string list"
  | NoOperationsList | TooManyOperations nat | BaseOutsideHosts string | BadPlugin contract_fault | WrongType
  | Unreadable | NoPackageFile | PackageTooLarge nat | HoldsCode string | PackageNotJson

datatype package_error = Escapes py_exn | Refuses package_fault

definition PACKAGE_FILE :: string where "PACKAGE_FILE = ''connector.json''"
definition PACKAGE_SCHEMA :: string where
  "PACKAGE_SCHEMA = ''https://nanoinfra.org/schemas/connector/1.0.0/connector.schema.json''"
definition FORBIDDEN_SUFFIXES :: "string list" where
  "FORBIDDEN_SUFFIXES = [''.py'', ''.pyc'', ''.pyo'', ''.pth'', ''.so'', ''.dylib'', ''.dll'']"
definition MAX_PACKAGE_BYTES :: nat where "MAX_PACKAGE_BYTES = 256 * 1024"
definition MAX_OPERATIONS :: nat where "MAX_OPERATIONS = 64"
definition MAX_SETUP_FIELDS :: nat where "MAX_SETUP_FIELDS = 16"
definition MAX_MENTIONS :: nat where "MAX_MENTIONS = 8"

definition TOP_LEVEL_KEYS :: "string list" where
  "TOP_LEVEL_KEYS = [''$schema'', ''name'', ''displayName'', ''description'', ''baseUrl'', ''credential'', ''setup'',
     ''operations'', ''mentions'', ''dependencies'', ''skill'']"
definition CREDENTIAL_KEYS :: "string list" where
  "CREDENTIAL_KEYS = [''kind'', ''tokenUrl'', ''scopes'', ''allowedHosts'']"
definition OPERATION_KEYS :: "string list" where
  "OPERATION_KEYS = [''name'', ''class'', ''method'', ''path'', ''summary'', ''returns'', ''collection'', ''parameters'']"
definition SETUP_KEYS :: "string list" where "SETUP_KEYS = [''fields'', ''officialUrl'']"
definition SETUP_FIELD_KEYS :: "string list" where
  "SETUP_FIELD_KEYS = [''name'', ''kind'', ''required'', ''default'']"
definition MENTION_KEYS :: "string list" where
  "MENTION_KEYS = [''kind'', ''operation'', ''idField'', ''labelField'', ''detailFields'', ''argument'']"

text \<open>The next step of a computation, unless the last one raised.\<close>

definition and_then :: "'e + 'a \<Rightarrow> ('a \<Rightarrow> 'e + 'b) \<Rightarrow> 'e + 'b" where
  "and_then x f = (case x of Inl e \<Rightarrow> Inl e | Inr a \<Rightarrow> f a)"

fun each_indexed :: "(nat \<Rightarrow> 'a \<Rightarrow> 'e + 'b) \<Rightarrow> nat \<Rightarrow> 'a list \<Rightarrow> 'e + 'b list" where
  "each_indexed f i [] = Inr []"
| "each_indexed f i (x # xs) = and_then (f i x) (\<lambda>y. and_then (each_indexed f (Suc i) xs) (\<lambda>ys. Inr (y # ys)))"

lemma and_then_simps [simp]: "and_then (Inl e) f = Inl e" "and_then (Inr a) f = f a"
  by (simp_all add: and_then_def)

lemma and_then_Inr: "and_then x f = Inr b \<longleftrightarrow> (\<exists>a. x = Inr a \<and> f a = Inr b)"
  by (cases x) auto

lemma each_indexed_Inr:
  "each_indexed f i xs = Inr ys \<Longrightarrow> length ys = length xs \<and> (\<forall>y \<in> set ys. \<exists>j x. f j x = Inr y)"
  by (induction xs arbitrary: i ys) (auto simp: and_then_Inr, blast)

definition refuse :: "package_fault \<Rightarrow> package_error + 'a" where "refuse e = Inl (Refuses e)"

definition object_of :: "jval \<Rightarrow> string \<Rightarrow> package_error + (string \<times> jval) list" where
  "object_of v place = (case v of JObj kvs \<Rightarrow> Inr kvs | _ \<Rightarrow> refuse (NotObject place))"

definition known_keys :: "(string \<times> jval) list \<Rightarrow> string list \<Rightarrow> string \<Rightarrow> package_error + unit" where
  "known_keys kvs allowed place =
     (let unknown = sorted_set (filter (\<lambda>k. k \<notin> set allowed) (map fst kvs))
      in if unknown = [] then Inr () else refuse (UnknownKeys place unknown))"

text \<open>\<open>_object\<close> and \<open>_known_keys\<close>, as every block begins.\<close>

definition block_of :: "jval \<Rightarrow> string list \<Rightarrow> string \<Rightarrow> package_error + (string \<times> jval) list" where
  "block_of v allowed place = and_then (object_of v place) (\<lambda>kvs. and_then (known_keys kvs allowed place) (\<lambda>_. Inr kvs))"

definition text_of :: "(string \<times> jval) list \<Rightarrow> string \<Rightarrow> string \<Rightarrow> bool \<Rightarrow> package_error + string" where
  "text_of kvs key place required =
     (case jget kvs key of
        JStr s \<Rightarrow> if strip s = [] then refuse (NeedsText place key) else Inr (strip s)
      | JNull \<Rightarrow> if required then refuse (NeedsText place key) else Inr []
      | _ \<Rightarrow> refuse (NeedsText place key))"

fun plain_text :: "jval \<Rightarrow> bool" where
  "plain_text (JStr s) = (strip s \<noteq> [])"
| "plain_text _ = False"

fun stripped :: "jval \<Rightarrow> string" where
  "stripped (JStr s) = strip s"
| "stripped _ = []"

definition string_tuple :: "jval \<Rightarrow> string \<Rightarrow> package_error + string list" where
  "string_tuple v place =
     (case v of
        JNull \<Rightarrow> Inr []
      | JList xs \<Rightarrow> if list_all plain_text xs then Inr (map stripped xs) else refuse (NotStrings place)
      | _ \<Rightarrow> refuse (NotStrings place))"


section \<open>The blocks\<close>

text \<open>A list or an object in a test of membership of a set raises a \<open>TypeError\<close>.\<close>

fun hashable :: "jval \<Rightarrow> bool" where
  "hashable (JList _) = False"
| "hashable (JObj _) = False"
| "hashable _ = True"

fun is_one_of :: "string list \<Rightarrow> jval \<Rightarrow> bool" where
  "is_one_of names (JStr s) = (s \<in> set names)"
| "is_one_of names _ = False"

definition get_or :: "(string \<times> jval) list \<Rightarrow> string \<Rightarrow> jval \<Rightarrow> jval" where
  "get_or kvs k d = (case map_of kvs k of None \<Rightarrow> d | Some v \<Rightarrow> v)"

definition no_credential :: credential_spec where
  "no_credential = \<lparr>spec_kind = ''none'', spec_scopes = [], spec_token_url = [], spec_hosts = []\<rparr>"

definition scope_block :: "nat \<Rightarrow> string \<times> jval \<Rightarrow> package_error + (string \<times> string list)" where
  "scope_block i kv = (case kv of (cls, v) \<Rightarrow>
     if cls \<notin> set CAPABILITY_CLASSES then refuse (BadScopeClass cls)
     else and_then (string_tuple v (''credential.scopes.'' @ cls)) (\<lambda>s. Inr (cls, s)))"

definition parse_credential :: "jval \<Rightarrow> package_error + credential_spec" where
  "parse_credential v =
     (if v = JNull then Inr no_credential
      else and_then (block_of v CREDENTIAL_KEYS ''credential'') (\<lambda>block.
        (let kind = get_or block ''kind'' (JStr ''none'')
         in if \<not> hashable kind then Inl (Escapes TypeError)
            else if \<not> is_one_of [''oauth2'', ''api_key'', ''none''] kind then refuse BadCredentialKind
            else and_then (if truthy (jget block ''scopes'') then object_of (jget block ''scopes'') ''credential.scopes'' else Inr [])
              (\<lambda>raw. and_then (each_indexed scope_block 0 raw) (\<lambda>scopes.
                and_then (string_tuple (jget block ''allowedHosts'') ''credential.allowedHosts'') (\<lambda>hosts.
                  if kind \<noteq> JStr ''none'' \<and> hosts = [] then refuse NamesNoHosts
                  else and_then (text_of block ''tokenUrl'' ''credential'' False) (\<lambda>url.
                    Inr \<lparr>spec_kind = (case kind of JStr k \<Rightarrow> k | _ \<Rightarrow> []), spec_scopes = scopes, spec_token_url = url,
                         spec_hosts = hosts\<rparr>)))))))"

definition upper_char :: "char \<Rightarrow> char" where
  "upper_char c = (if lower_ascii c then char_of (of_char c - 32 :: nat) else c)"

definition parse_operation :: "((string \<times> jval) list \<Rightarrow> schema) \<Rightarrow> nat \<Rightarrow> jval \<Rightarrow> package_error + connector_op" where
  "parse_operation sch i v =
     (let place = ''operations['' @ nat_str i @ '']''
      in and_then (block_of v OPERATION_KEYS place) (\<lambda>block.
         and_then (text_of block ''class'' place True) (\<lambda>cls.
           if cls \<notin> set CAPABILITY_CLASSES then refuse (BadOperationClass place cls)
           else and_then (case jget block ''parameters'' of JNull \<Rightarrow> Inr [] | v \<Rightarrow> object_of v (place @ ''.parameters'')) (\<lambda>params.
             and_then (text_of block ''name'' place True) (\<lambda>name.
             and_then (text_of block ''method'' place True) (\<lambda>meth.
             and_then (text_of block ''path'' place True) (\<lambda>path.
             and_then (text_of block ''summary'' place False) (\<lambda>_.
             and_then (string_tuple (jget block ''returns'') (place @ ''.returns'')) (\<lambda>returns.
             and_then (text_of block ''collection'' place False) (\<lambda>collection.
               (let op = \<lparr>cop_name = name, cop_class = cls, cop_method = map upper_char meth, cop_path = path,
                          cop_returns = returns, cop_collection = collection,
                          cop_parameters = (if params = [] then None else Some (sch params)), cop_read_via_post = False\<rparr>
                in case check_operation op of None \<Rightarrow> Inr op | Some e \<Rightarrow> refuse (BadOperation place e))))))))))))"

fun plain_default :: "jval \<Rightarrow> bool" where
  "plain_default (JFloat _) = False"
| "plain_default v = (hashable v)"

definition parse_field :: "nat \<Rightarrow> jval \<Rightarrow> package_error + (string \<times> jval)" where
  "parse_field i v =
     (let place = ''setup.fields['' @ nat_str i @ '']''
      in and_then (block_of v SETUP_FIELD_KEYS place) (\<lambda>block.
         and_then (text_of block ''name'' place True) (\<lambda>name.
           (let kind = get_or block ''kind'' (JStr ''string''); default = jget block ''default''
            in if \<not> hashable kind then refuse WrongType
               else if \<not> is_one_of [''string'', ''bool'', ''int''] kind then refuse (BadFieldKind place)
               else if \<not> plain_default default then refuse (BadDefault place)
               else Inr (name, default)))))"

definition parse_setup :: "jval \<Rightarrow> package_error + (string, jval) dict" where
  "parse_setup v =
     (if v = JNull then Inr []
      else and_then (block_of v SETUP_KEYS ''setup'') (\<lambda>block.
        and_then (case (if truthy (jget block ''fields'') then jget block ''fields'' else JList []) of
            JList xs \<Rightarrow> if MAX_SETUP_FIELDS < length xs then refuse (TooManyFields (length xs)) else each_indexed parse_field 0 xs
          | _ \<Rightarrow> refuse FieldsNotList) (\<lambda>fields.
        and_then (text_of block ''officialUrl'' ''setup'' False) (\<lambda>_.
          Inr (foldl (\<lambda>d (k, v). dict_set k v d) [] fields)))))"

definition parse_mention :: "nat \<Rightarrow> jval \<Rightarrow> package_error + (string \<times> string)" where
  "parse_mention i v =
     (let place = ''mentions['' @ nat_str i @ '']''
      in and_then (block_of v MENTION_KEYS place) (\<lambda>block.
         and_then (text_of block ''kind'' place True) (\<lambda>kind.
         and_then (text_of block ''operation'' place True) (\<lambda>listing.
         and_then (text_of block ''idField'' place False) (\<lambda>_.
         and_then (text_of block ''labelField'' place False) (\<lambda>_.
         and_then (string_tuple (jget block ''detailFields'') (place @ ''.detailFields'')) (\<lambda>_.
         and_then (text_of block ''argument'' place False) (\<lambda>_.
           if op_name_ok kind then Inr (kind, listing) else refuse (BadPlugin (BadName kind))))))))))"

definition parse_mentions :: "jval \<Rightarrow> package_error + (string \<times> string) list" where
  "parse_mentions v =
     (case v of
        JNull \<Rightarrow> Inr []
      | JList xs \<Rightarrow> if MAX_MENTIONS < length xs then refuse (TooManyMentions (length xs)) else each_indexed parse_mention 0 xs
      | _ \<Rightarrow> refuse MentionsNotList)"

text \<open>\<open>parse_connector_package\<close>\<close>

definition parse_operations :: "((string \<times> jval) list \<Rightarrow> schema) \<Rightarrow> jval \<Rightarrow> package_error + connector_op list" where
  "parse_operations sch v =
     (case v of
        JList (x # xs) \<Rightarrow>
          if MAX_OPERATIONS < length (x # xs) then refuse (TooManyOperations (length (x # xs)))
          else each_indexed (parse_operation sch) 0 (x # xs)
      | _ \<Rightarrow> refuse NoOperationsList)"

definition parse_connector_package ::
  "((string \<times> jval) list \<Rightarrow> schema) \<Rightarrow> string \<Rightarrow> jval \<Rightarrow> package_error + plugin" where
  "parse_connector_package sch expected payload =
     and_then (block_of payload TOP_LEVEL_KEYS PACKAGE_FILE) (\<lambda>block.
     and_then (text_of block ''$schema'' PACKAGE_FILE True) (\<lambda>schema.
       if schema \<noteq> PACKAGE_SCHEMA then refuse (WrongSchema schema)
       else and_then (text_of block ''name'' PACKAGE_FILE True) (\<lambda>name.
         if expected \<noteq> [] \<and> name \<noteq> expected then refuse (WrongName name expected)
         else and_then (string_tuple (jget block ''dependencies'') ''dependencies'') (\<lambda>dependencies.
           if dependencies \<noteq> [] then refuse (HasDependencies dependencies)
           else and_then (parse_operations sch (jget block ''operations'')) (\<lambda>operations.
             and_then (parse_credential (jget block ''credential'')) (\<lambda>credential.
             and_then (text_of block ''baseUrl'' PACKAGE_FILE True) (\<lambda>base.
             and_then (map_sum Escapes id (url_host base)) (\<lambda>host.
               if spec_hosts credential \<noteq> [] \<and> \<not> permits_host (spec_hosts credential) host then refuse (BaseOutsideHosts host)
               else and_then (text_of block ''displayName'' PACKAGE_FILE False) (\<lambda>_.
                 and_then (parse_setup (jget block ''setup'')) (\<lambda>fields.
                 and_then (text_of block ''skill'' PACKAGE_FILE False) (\<lambda>_.
                 and_then (text_of block ''description'' PACKAGE_FILE False) (\<lambda>_.
                 and_then (parse_mentions (jget block ''mentions'')) (\<lambda>mentions.
                   (let p = \<lparr>plg_name = name, plg_base = base, plg_ops = operations, plg_credential = credential,
                             plg_fields = fields, plg_mentions = mentions\<rparr>
                    in case check_plugin p of None \<Rightarrow> Inr p | Some e \<Rightarrow> refuse (BadPlugin e)))))))))))))))"


section \<open>Loading from disk\<close>

text \<open>A directory as the loader meets it: \<open>NoStat\<close> where the file system answers with an \<open>OSError\<close>; the text of the
  file is its size and what \<open>json.loads\<close> makes of it, or none. \<open>pd_files\<close> are the names of the files below the
  directory, or none where they cannot be listed.\<close>

datatype package_file = NoStat | NoFile | FileText nat "jval option"

record package_dir =
  pd_name :: string
  pd_file :: package_file
  pd_files :: "string list option"

text \<open>\<open>PurePath.suffix\<close>\<close>

definition suffix_of_name :: "string \<Rightarrow> string" where
  "suffix_of_name name =
     (let ext = takeWhile (\<lambda>c. c \<noteq> CHR ''.'') (rev name); n = length name - length ext
      in if 1 < n \<and> ext \<noteq> [] then CHR ''.'' # rev ext else [])"

definition refuse_executable_files :: "package_dir \<Rightarrow> package_error + unit" where
  "refuse_executable_files d =
     (case pd_files d of
        None \<Rightarrow> refuse Unreadable
      | Some names \<Rightarrow>
          (case List.find (\<lambda>n. lower (suffix_of_name n) \<in> set FORBIDDEN_SUFFIXES) names of
             None \<Rightarrow> Inr () | Some n \<Rightarrow> refuse (HoldsCode n)))"

definition load_package :: "((string \<times> jval) list \<Rightarrow> schema) \<Rightarrow> package_dir \<Rightarrow> string \<Rightarrow> package_error + plugin" where
  "load_package sch d expected =
     (case pd_file d of
        NoStat \<Rightarrow> refuse Unreadable
      | NoFile \<Rightarrow> refuse NoPackageFile
      | FileText len parsed \<Rightarrow>
          (if MAX_PACKAGE_BYTES < len then refuse (PackageTooLarge len)
           else and_then (refuse_executable_files d) (\<lambda>_.
             (case parsed of
                None \<Rightarrow> refuse PackageNotJson
              | Some v \<Rightarrow> parse_connector_package sch (if expected = [] then pd_name d else expected) v))))"

text \<open>\<open>_workspace_connectors\<close>: the directories in order; a refused one is skipped.\<close>

fun workspace_connectors :: "((string \<times> jval) list \<Rightarrow> schema) \<Rightarrow> package_dir list \<Rightarrow> py_exn + plugin list" where
  "workspace_connectors sch [] = Inr []"
| "workspace_connectors sch (d # ds) =
     (case load_package sch d (pd_name d) of
        Inl (Escapes x) \<Rightarrow> Inl x
      | Inl (Refuses _) \<Rightarrow> workspace_connectors sch ds
      | Inr p \<Rightarrow> map_sum id ((#) p) (workspace_connectors sch ds))"


section \<open>The confined host\<close>

record host_request =
  hq_id :: int
  hq_package :: string
  hq_operation :: string
  hq_method :: string
  hq_url :: string
  hq_headers :: "(string, string) dict"
  hq_query :: "(string, string) dict"
  hq_body :: "(string, jval) dict option"
  hq_token :: string
  hq_timeout :: rat

datatype host_error =
    NotLoadable string package_fault | NoSuchOperation string string | MethodDiffers string string | HostDiffers string string
  | RequestFailed | ApiAnswered int | AnswerNotJson

record host_response =
  hs_id :: int
  hs_ok :: bool
  hs_status :: "int option"
  hs_payload :: "jval option"
  hs_error :: "host_error option"
  hs_retryable :: bool

text \<open>What the host puts on the wire, and what comes back.\<close>

record host_call_out =
  ho_method :: string
  ho_url :: string
  ho_query :: "(string, string) dict"
  ho_body :: "(string, jval) dict option"
  ho_headers :: "(string, string) dict"
  ho_timeout :: rat

datatype api_answer = HttpFails | ApiSays int "jval option"

definition MAX_TIMEOUT_S :: rat where "MAX_TIMEOUT_S = 60"

definition host_refusal :: "host_request \<Rightarrow> host_error \<Rightarrow> host_response" where
  "host_refusal q why = \<lparr>hs_id = hq_id q, hs_ok = False, hs_status = None, hs_payload = None, hs_error = Some why,
     hs_retryable = False\<rparr>"

text \<open>\<open>self._root / request.package\<close>: an absolute name replaces the root.\<close>

definition package_path :: "string \<Rightarrow> string \<Rightarrow> string" where
  "package_path dir name = (if starts_with ''/'' name then name else dir @ ''/'' @ name)"

definition same_host :: "string \<Rightarrow> string \<Rightarrow> py_exn + bool" where
  "same_host url base =
     (case url_host url of
        Inl x \<Rightarrow> Inl x
      | Inr host \<Rightarrow> (case url_host base of
          Inl x \<Rightarrow> Inl x
        | Inr declared \<Rightarrow> Inr (starts_with ''https://'' url \<and> host = declared)))"

text \<open>The checks of \<open>ConnectorHost.handle\<close>, and the call they let through.\<close>

definition host_checks ::
  "((string \<times> jval) list \<Rightarrow> schema) \<Rightarrow> (string \<Rightarrow> package_dir) \<Rightarrow> string \<Rightarrow> host_request \<Rightarrow>
   py_exn + (host_error + connector_op)" where
  "host_checks sch disk dir q =
     (case load_package sch (disk (package_path dir (hq_package q))) [] of
        Inl (Escapes x) \<Rightarrow> Inl x
      | Inl (Refuses e) \<Rightarrow> Inr (Inl (NotLoadable (hq_package q) e))
      | Inr p \<Rightarrow>
          (case plugin_operation p (hq_operation q) of
             None \<Rightarrow> Inr (Inl (NoSuchOperation (hq_package q) (hq_operation q)))
           | Some op \<Rightarrow>
               (if map upper_char (cop_method op) \<noteq> map upper_char (hq_method q)
                then Inr (Inl (MethodDiffers (cop_method op) (hq_method q)))
                else (case same_host (hq_url q) (plg_base p) of
                        Inl x \<Rightarrow> Inl x
                      | Inr same \<Rightarrow> Inr (if same then Inr op else Inl (HostDiffers (hq_url q) (plg_base p)))))))"

definition host_sends :: "host_request \<Rightarrow> host_call_out" where
  "host_sends q = \<lparr>ho_method = map upper_char (hq_method q), ho_url = hq_url q, ho_query = hq_query q, ho_body = hq_body q,
     ho_headers = (if hq_token q = [] then hq_headers q
                   else dict_set ''Authorization'' (''Bearer '' @ hq_token q) (hq_headers q)),
     ho_timeout = min (max 1 (hq_timeout q)) MAX_TIMEOUT_S\<rparr>"

definition host_answers :: "host_request \<Rightarrow> connector_op \<Rightarrow> api_answer \<Rightarrow> host_response" where
  "host_answers q op a =
     (case a of
        HttpFails \<Rightarrow> (host_refusal q RequestFailed)\<lparr>hs_retryable := True\<rparr>
      | ApiSays status body \<Rightarrow>
          (if 400 \<le> status
           then (host_refusal q (ApiAnswered status))\<lparr>hs_status := Some status, hs_retryable := status = 429 \<or> 500 \<le> status\<rparr>
           else (case body of
                   None \<Rightarrow> host_refusal q AnswerNotJson
                 | Some v \<Rightarrow> \<lparr>hs_id = hq_id q, hs_ok = True, hs_status = Some status, hs_payload = Some (project v op),
                              hs_error = None, hs_retryable = False\<rparr>)))"

definition host_handle ::
  "((string \<times> jval) list \<Rightarrow> schema) \<Rightarrow> (string \<Rightarrow> package_dir) \<Rightarrow> string \<Rightarrow> (host_call_out \<Rightarrow> api_answer) \<Rightarrow> host_request \<Rightarrow>
   py_exn + (host_response \<times> host_call_out option)" where
  "host_handle sch disk dir api q =
     (case host_checks sch disk dir q of
        Inl x \<Rightarrow> Inl x
      | Inr (Inl why) \<Rightarrow> Inr (host_refusal q why, None)
      | Inr (Inr op) \<Rightarrow> Inr (host_answers q op (api (host_sends q)), Some (host_sends q)))"


section \<open>What the parser admits\<close>

lemma refuse_Inr [simp]: "refuse e \<noteq> Inr x"
  by (simp add: refuse_def)

lemma parse_operation_Inr:
  assumes "parse_operation sch i v = Inr op"
  shows "check_operation op = None \<and> \<not> cop_read_via_post op \<and> cop_class op \<in> set CAPABILITY_CLASSES"
  using assms by (auto simp: parse_operation_def Let_def and_then_Inr split: if_splits option.splits)

lemma parse_operations_Inr:
  assumes "parse_operations sch v = Inr ops"
  shows "ops \<noteq> []" "length ops \<le> MAX_OPERATIONS" "\<forall>op \<in> set ops. check_operation op = None \<and> \<not> cop_read_via_post op"
proof -
  from assms obtain xs where xs: "each_indexed (parse_operation sch) 0 xs = Inr ops" "xs \<noteq> []" "length xs \<le> MAX_OPERATIONS"
    by (auto simp: parse_operations_def simp del: each_indexed.simps split: jval.splits list.splits if_splits)
  from each_indexed_Inr [OF xs(1)] xs(2,3)
  show "ops \<noteq> []" "length ops \<le> MAX_OPERATIONS" "\<forall>op \<in> set ops. check_operation op = None \<and> \<not> cop_read_via_post op"
    by (auto dest: parse_operation_Inr)
qed

lemma scope_blocks_Inr:
  assumes "each_indexed scope_block i raw = Inr scopes"
  shows "fst ` set scopes \<subseteq> set CAPABILITY_CLASSES"
proof -
  have "fst y \<in> set CAPABILITY_CLASSES" if "scope_block j x = Inr y" for j x y
    using that by (cases x) (auto simp: scope_block_def and_then_Inr split: if_splits)
  with each_indexed_Inr [OF assms] show ?thesis by blast
qed

lemma parse_credential_Inr:
  assumes "parse_credential v = Inr c"
  shows "spec_kind c \<noteq> ''none'' \<longrightarrow> spec_hosts c \<noteq> []" "fst ` set (spec_scopes c) \<subseteq> set CAPABILITY_CLASSES"
proof -
  have "c = no_credential \<or>
      ((spec_kind c \<noteq> ''none'' \<longrightarrow> spec_hosts c \<noteq> []) \<and> (\<exists>raw. each_indexed scope_block 0 raw = Inr (spec_scopes c)))"
    using assms unfolding parse_credential_def Let_def and_then_Inr
    by (auto simp: and_then_Inr simp del: each_indexed.simps split: if_splits jval.splits elim: is_one_of.elims)
  then show "spec_kind c \<noteq> ''none'' \<longrightarrow> spec_hosts c \<noteq> []" "fst ` set (spec_scopes c) \<subseteq> set CAPABILITY_CLASSES"
    by (auto simp: no_credential_def dest: scope_blocks_Inr split: jval.splits)
qed

lemma parsed_package:
  assumes "parse_connector_package sch expected v = Inr p"
  shows "plugin_ok p \<and> (expected = [] \<or> plg_name p = expected) \<and> length (plg_ops p) \<le> MAX_OPERATIONS \<and>
    (\<forall>op \<in> set (plg_ops p). \<not> cop_read_via_post op) \<and>
    (\<exists>h. url_host (plg_base p) = Inr h \<and> (spec_hosts (plg_credential p) \<noteq> [] \<longrightarrow> permits_host (spec_hosts (plg_credential p)) h)) \<and>
    (spec_kind (plg_credential p) \<noteq> ''none'' \<longrightarrow> spec_hosts (plg_credential p) \<noteq> []) \<and>
    fst ` set (spec_scopes (plg_credential p)) \<subseteq> set CAPABILITY_CLASSES"
proof -
  from assms obtain ops cred host v1 v2 where
    p: "parse_operations sch v1 = Inr (plg_ops p)" "parse_credential v2 = Inr (plg_credential p)" "url_host (plg_base p) = Inr host"
      "spec_hosts (plg_credential p) = [] \<or> permits_host (spec_hosts (plg_credential p)) host" "check_plugin p = None"
      "expected = [] \<or> plg_name p = expected"
    unfolding parse_connector_package_def and_then_Inr Let_def
    by (auto simp: and_then_Inr map_sum_def split: if_splits option.splits sum.splits)
  from parse_operations_Inr [OF p(1)] parse_credential_Inr [OF p(2)] p(3-6) show ?thesis
    by (auto simp: plugin_ok_def list_all_iff)
qed


lemma distinct_counts: "filter (\<lambda>n. 1 < count_list ns n) ns = [] \<Longrightarrow> distinct ns"
proof (induction ns)
  case (Cons n ns)
  from Cons.prems have c: "\<not> 1 < count_list (n # ns) m" if "m \<in> set (n # ns)" for m
    using that unfolding filter_empty_conv by blast
  have "count_list ns n = 0" using c [of n] by simp
  then have "n \<notin> set ns" by (simp add: count_list_0_iff)
  moreover have "\<not> 1 < count_list ns m" if "m \<in> set ns" for m using c [of m] that by (simp split: if_splits)
  then have "filter (\<lambda>m. 1 < count_list ns m) ns = []" unfolding filter_empty_conv by blast
  ultimately show ?case using Cons.IH by simp
qed simp

lemma find_distinct: "distinct (map f xs) \<Longrightarrow> x \<in> set xs \<Longrightarrow> List.find (\<lambda>y. f y = f x) xs = Some x"
  by (induction xs) (auto simp: image_iff)

lemma named_operation:
  assumes "check_plugin p = None" "op \<in> set (plg_ops p)"
  shows "plugin_operation p (cop_name op) = Some op"
proof -
  from assms(1) have "distinct (map cop_name (plg_ops p))"
    by (auto simp: check_plugin_def Let_def intro!: distinct_counts split: if_splits)
  from find_distinct [OF this assms(2)] show ?thesis by (simp add: plugin_operation_def)
qed

section \<open>Properties\<close>

text \<open>A package is checked before it is trusted: whatever \<open>connector.json\<close> the loader accepts fulfils the contract of
  a bundled manifest, carries the name of its directory, ships no importable file, declares at most 64 operations,
  none of which reads through a writing method, holds a token only with the hosts it may address, and its base
  address is one of them.\<close>

theorem package_admitted:
  assumes "load_package sch d expected = Inr p"
  shows "plugin_ok p \<and> (if expected = [] then pd_name d = [] \<or> plg_name p = pd_name d else plg_name p = expected) \<and>
    (\<exists>len v names. pd_file d = FileText len v \<and> len \<le> MAX_PACKAGE_BYTES \<and> pd_files d = Some names \<and>
      (\<forall>n \<in> set names. lower (suffix_of_name n) \<notin> set FORBIDDEN_SUFFIXES)) \<and>
    length (plg_ops p) \<le> MAX_OPERATIONS \<and> (\<forall>op \<in> set (plg_ops p). is_read op \<longrightarrow> cop_method op = ''GET'') \<and>
    (spec_kind (plg_credential p) \<noteq> ''none'' \<longrightarrow> spec_hosts (plg_credential p) \<noteq> [] \<and>
      (\<exists>h. url_host (plg_base p) = Inr h \<and> permits_host (spec_hosts (plg_credential p)) h))"
proof -
  let ?name = "if expected = [] then pd_name d else expected"
  from assms obtain len v names where f: "pd_file d = FileText len (Some v)" "len \<le> MAX_PACKAGE_BYTES" "pd_files d = Some names"
    "\<forall>n \<in> set names. lower (suffix_of_name n) \<notin> set FORBIDDEN_SUFFIXES" and p: "parse_connector_package sch ?name v = Inr p"
    by (auto simp: load_package_def refuse_executable_files_def and_then_Inr find_None_iff
        split: package_file.splits if_splits option.splits)
  from parsed_package [OF p] have a: "plugin_ok p" "?name = [] \<or> plg_name p = ?name" "length (plg_ops p) \<le> MAX_OPERATIONS"
    "\<forall>op \<in> set (plg_ops p). \<not> cop_read_via_post op"
    "\<exists>h. url_host (plg_base p) = Inr h \<and> (spec_hosts (plg_credential p) \<noteq> [] \<longrightarrow> permits_host (spec_hosts (plg_credential p)) h)"
    "spec_kind (plg_credential p) \<noteq> ''none'' \<longrightarrow> spec_hosts (plg_credential p) \<noteq> []" by simp_all
  from a(1) have "\<forall>op \<in> set (plg_ops p). check_operation op = None" by (simp add: plugin_ok_def list_all_iff)
  with a(4) have "\<forall>op \<in> set (plg_ops p). is_read op \<longrightarrow> cop_method op = ''GET''"
    by (auto simp: check_operation_def split: if_splits)
  moreover from a(2) have "if expected = [] then pd_name d = [] \<or> plg_name p = pd_name d else plg_name p = expected" by auto
  moreover from f have "\<exists>len v names. pd_file d = FileText len v \<and> len \<le> MAX_PACKAGE_BYTES \<and> pd_files d = Some names \<and>
      (\<forall>n \<in> set names. lower (suffix_of_name n) \<notin> set FORBIDDEN_SUFFIXES)" by auto
  ultimately show ?thesis using a(1,3,5,6) by blast
qed

text \<open>C19. The confined host makes no request but a declared one: the package is loaded again, the operation is one of
  its own with the method it declares, the address is an https one on the host of the package, the deadline is at
  most a minute, and what crosses back is the projection the package declares.\<close>

theorem host_calls_declared:
  assumes "host_handle sch disk dir api q = Inr (rsp, Some out)"
  shows "\<exists>p op h. load_package sch (disk (package_path dir (hq_package q))) [] = Inr p \<and> plugin_ok p \<and> op \<in> set (plg_ops p) \<and>
    cop_name op = hq_operation q \<and> ho_method out = map upper_char (cop_method op) \<and>
    ho_url out = hq_url q \<and> starts_with ''https://'' (ho_url out) \<and> url_host (ho_url out) = Inr h \<and> url_host (plg_base p) = Inr h \<and>
    1 \<le> ho_timeout out \<and> ho_timeout out \<le> MAX_TIMEOUT_S \<and>
    (hs_ok rsp \<longrightarrow> (\<exists>status v. api out = ApiSays status (Some v) \<and> status < 400 \<and> hs_payload rsp = Some (project v op)))"
proof -
  from assms obtain op where c: "host_checks sch disk dir q = Inr (Inr op)" and o: "out = host_sends q"
    and r: "rsp = host_answers q op (api (host_sends q))"
    by (auto simp: host_handle_def split: sum.splits)
  from c obtain p h where p: "load_package sch (disk (package_path dir (hq_package q))) [] = Inr p"
    "plugin_operation p (hq_operation q) = Some op" "map upper_char (cop_method op) = map upper_char (hq_method q)"
    "starts_with ''https://'' (hq_url q)" "url_host (hq_url q) = Inr h" "url_host (plg_base p) = Inr h"
    by (auto simp: host_checks_def same_host_def split: sum.splits option.splits package_error.splits if_splits)
  have "op \<in> set (plg_ops p)" "cop_name op = hq_operation q"
    using p(2) by (auto simp: plugin_operation_def find_Some_iff)
  moreover from p(1) have "plugin_ok p"
    by (auto simp: load_package_def and_then_Inr split: package_file.splits if_splits option.splits dest: parsed_package)
  moreover have "1 \<le> ho_timeout out" "ho_timeout out \<le> MAX_TIMEOUT_S" by (simp_all add: o host_sends_def MAX_TIMEOUT_S_def)
  moreover have "hs_ok rsp \<longrightarrow> (\<exists>status v. api out = ApiSays status (Some v) \<and> status < 400 \<and> hs_payload rsp = Some (project v op))"
    by (auto simp: r o host_answers_def host_refusal_def split: api_answer.splits option.splits if_splits)
  ultimately show ?thesis using p by (auto simp: o host_sends_def intro!: exI [of _ p])
qed

text \<open>What the executor forwards the host accepts: the request the arguments of an operation make passes every check of
  the host, as long as both read the same package and its base address names a host.\<close>

theorem forwarded_request_accepted:
  assumes "load_package sch (disk (package_path dir (hq_package q))) [] = Inr p" "op \<in> set (plg_ops p)"
    and "prepare repr ue p op arguments defaults = Inr (Inr r)" "url_host (plg_base p) = Inr h" "h \<noteq> []"
    and "hq_operation q = cop_name op" "hq_method q = prp_method r" "hq_url q = prp_url r"
  shows "host_checks sch disk dir q = Inr (Inr op)"
proof -
  from assms(1) have ok: "plugin_ok p"
    by (auto simp: load_package_def and_then_Inr split: package_file.splits if_splits option.splits dest: parsed_package)
  from assms(3) obtain names path supplied where r: "placeholders (cop_path op) = Some names"
    "fill_path repr (tool_name p op) names (cop_path op) (merge defaults arguments) = Inr (path, supplied)"
    "prp_url r = rstrip_slash (plg_base p) @ path" "prp_method r = cop_method op"
    by (rule prepare_Inr)
  from ok assms(2) have o: "check_operation op = None" "check_plugin p = None" by (auto simp: plugin_ok_def list_all_iff)
  from o(1) have "starts_with ''/'' (cop_path op)" by (auto simp: check_operation_def split: if_splits)
  with fill_path_rooted [OF r(2)] have path: "starts_with ''/'' path" by simp
  from o(2) have base: "starts_with ''https://'' (plg_base p)" by (auto simp: check_plugin_def Let_def split: if_splits)
  have "url_host (prp_url r) = Inr h" unfolding r(3) by (rule url_host_joined [OF base assms(4,5) path])
  moreover have "starts_with ''https://'' (prp_url r)"
    using base_https [OF base assms(4,5)] by (auto simp: r(3) starts_with_conv)
  moreover have "plugin_operation p (cop_name op) = Some op" by (rule named_operation [OF o(2) assms(2)])
  ultimately show ?thesis
    using assms(1,4,6-8) by (simp add: host_checks_def same_host_def r(4))
qed

definition bracket_json :: jval where
  "bracket_json = JObj [(''$schema'', JStr PACKAGE_SCHEMA), (''name'', JStr ''x''),
     (''operations'', JList [JObj [(''name'', JStr ''a''), (''class'', JStr ''read''), (''method'', JStr ''GET''), (''path'', JStr ''/a'')]]),
     (''baseUrl'', JStr ''https://['')]"

definition bracket_package :: package_dir where
  "bracket_package = \<lparr>pd_name = ''x'', pd_file = FileText 200 (Some bracket_json), pd_files = Some [''connector.json'']\<rparr>"

lemma bracket_escapes: "load_package sch bracket_package (pd_name bracket_package) = Inl (Escapes ValueError)"
proof -
  have "parse_connector_package sch ''x'' bracket_json = Inl (Escapes ValueError)" by code_simp
  then show ?thesis
    by (simp add: load_package_def bracket_package_def MAX_PACKAGE_BYTES_def refuse_executable_files_def suffix_of_name_def
        FORBIDDEN_SUFFIXES_def Let_def lower_def lower_char_def)
qed

text \<open>One package can stop them all: the scan of the workspace raises as soon as one package raises what is no refusal,
  whatever the others are, and a base address with an open bracket does that.\<close>

theorem one_package_stops_discovery:
  "\<exists>d. \<forall>before after. (\<forall>x \<in> set before. \<forall>e. load_package sch x (pd_name x) \<noteq> Inl (Escapes e)) \<longrightarrow>
     workspace_connectors sch (before @ d # after) = Inl ValueError"
proof (intro exI allI impI)
  fix before after assume ok: "\<forall>x \<in> set before. \<forall>e. load_package sch x (pd_name x) \<noteq> Inl (Escapes e)"
  then show "workspace_connectors sch (before @ bracket_package # after) = Inl ValueError"
    by (induction before) (auto simp: bracket_escapes split: sum.splits package_error.splits)
qed


section \<open>A package to evaluate on\<close>

definition notes_json :: jval where
  "notes_json = JObj [(''$schema'', JStr PACKAGE_SCHEMA), (''name'', JStr ''notes''),
     (''operations'', JList [JObj [(''name'', JStr ''list''), (''class'', JStr ''read''), (''method'', JStr ''get''), (''path'', JStr ''/notes'')]]),
     (''credential'', JObj [(''kind'', JStr ''oauth2''), (''scopes'', JObj [(''read'', JList [JStr ''r''])]),
        (''allowedHosts'', JList [JStr ''api.example''])]),
     (''baseUrl'', JStr ''https://api.example'')]"

definition list_notes :: connector_op where
  "list_notes = \<lparr>cop_name = ''list'', cop_class = ''read'', cop_method = ''GET'', cop_path = ''/notes'', cop_returns = [],
     cop_collection = [], cop_parameters = None, cop_read_via_post = False\<rparr>"

definition notes_plugin :: plugin where
  "notes_plugin = \<lparr>plg_name = ''notes'', plg_base = ''https://api.example'', plg_ops = [list_notes],
     plg_credential = \<lparr>spec_kind = ''oauth2'', spec_scopes = [(''read'', [''r''])], spec_token_url = [], spec_hosts = [''api.example'']\<rparr>,
     plg_fields = [], plg_mentions = []\<rparr>"

definition notes_dir :: package_dir where
  "notes_dir = \<lparr>pd_name = ''notes'', pd_file = FileText 300 (Some notes_json), pd_files = Some [''connector.json'']\<rparr>"

definition any_schema :: "(string \<times> jval) list \<Rightarrow> schema" where
  "any_schema kvs = Schema None False None None None None None [] [] None None None None"

lemma notes_loaded: "load_package any_schema notes_dir [] = Inr notes_plugin"
proof -
  have "parse_connector_package any_schema ''notes'' notes_json = Inr notes_plugin" by code_simp
  then show ?thesis
    by (simp add: load_package_def notes_dir_def MAX_PACKAGE_BYTES_def refuse_executable_files_def suffix_of_name_def
        FORBIDDEN_SUFFIXES_def Let_def lower_def lower_char_def)
qed

theorem package_admitted_witness:
  "plugin_ok notes_plugin \<and> spec_hosts (plg_credential notes_plugin) \<noteq> []"
  using package_admitted [OF notes_loaded] by (auto simp: notes_plugin_def)

definition notes_request :: host_request where
  "notes_request = \<lparr>hq_id = 1, hq_package = ''notes'', hq_operation = ''list'', hq_method = ''GET'', hq_url = ''https://api.example/notes'',
     hq_headers = [], hq_query = [], hq_body = None, hq_token = ''tok'', hq_timeout = 30\<rparr>"

definition quiet_urls :: url_env where
  "quiet_urls = \<lparr>ue_allowed = [], ue_parse = (\<lambda>u. Some \<lparr>url_scheme = ''https'', url_netloc = ''n'', url_hostname = Some ''n''\<rparr>),
     ue_dns = (\<lambda>_. DnsNames [])\<rparr>"

lemma notes_prepared:
  "prepare (\<lambda>_. []) quiet_urls notes_plugin list_notes [] [] =
     Inr (Inr \<lparr>prp_method = ''GET'', prp_url = ''https://api.example/notes'', prp_params = [], prp_body = None\<rparr>)"
  by code_simp

lemma notes_hosts: "url_host ''https://api.example'' = Inr ''api.example''"
  by code_simp

theorem forwarded_request_accepted_witness:
  "host_checks any_schema (\<lambda>_. notes_dir) ''/c'' notes_request = Inr (Inr list_notes)"
proof (rule forwarded_request_accepted [OF notes_loaded, where h = "''api.example''"])
  show "prepare (\<lambda>_. []) quiet_urls notes_plugin list_notes [] [] =
     Inr (Inr \<lparr>prp_method = ''GET'', prp_url = ''https://api.example/notes'', prp_params = [], prp_body = None\<rparr>)"
    by (rule notes_prepared)
qed (simp_all add: notes_plugin_def list_notes_def notes_request_def notes_hosts)

lemma notes_checked: "host_checks any_schema (\<lambda>_. notes_dir) ''/c'' notes_request = Inr (Inr list_notes)"
proof -
  have "plugin_operation notes_plugin ''list'' = Some list_notes" "plg_base notes_plugin = ''https://api.example''"
    by (simp_all add: plugin_operation_def notes_plugin_def list_notes_def)
  moreover have "url_host ''https://api.example/notes'' = Inr ''api.example''" by code_simp
  ultimately show ?thesis
    by (simp add: host_checks_def notes_loaded same_host_def notes_hosts notes_request_def list_notes_def starts_with_def)
qed

theorem host_calls_declared_witness:
  "\<exists>rsp out. host_handle any_schema (\<lambda>_. notes_dir) ''/c'' (\<lambda>_. ApiSays 200 (Some (JObj []))) notes_request = Inr (rsp, Some out) \<and>
     hs_ok rsp \<and> starts_with ''https://'' (ho_url out) \<and> hs_payload rsp = Some (project (JObj []) list_notes)"
proof -
  obtain rsp out where r: "host_handle any_schema (\<lambda>_. notes_dir) ''/c'' (\<lambda>_. ApiSays 200 (Some (JObj []))) notes_request = Inr (rsp, Some out)"
    by (simp add: host_handle_def notes_checked)
  have "hs_ok rsp" "hs_payload rsp = Some (project (JObj []) list_notes)"
    using r by (auto simp: host_handle_def notes_checked host_answers_def)
  with host_calls_declared [OF r] r show ?thesis by blast
qed

end
