(* ===== verification/Scrub.thy ===== *)
theory Scrub
  imports Engine "HOL-Library.Sublist"
begin

text \<open>
  One text and the secrets of the workspace: the sentinels and the two placeholders of
  \<open>nanoinfra/agent/redaction.py\<close>, the executor's answers to a scrub request (\<open>gates/executor/scrub.py\<close>) and the
  client that asks in batches (\<open>gates/executor/scrub_client.py\<close>). The store is what the executor reads of it:
  whether a key is configured, the names, and for each the plaintext where it can be decrypted.
\<close>

section \<open>Sentinels\<close>

definition MIN_REDACTABLE_SECRET_CHARS :: nat where "MIN_REDACTABLE_SECRET_CHARS = 8"
definition MAX_PLACEHOLDER_NAME_CHARS :: nat where "MAX_PLACEHOLDER_NAME_CHARS = 64"
definition MAX_MARKER_REASON_CHARS :: nat where "MAX_MARKER_REASON_CHARS = 240"
definition UNKNOWN_SECRET_NAME :: string where "UNKNOWN_SECRET_NAME = ''unknown''"

record sentinel =
  sen_name :: string
  sen_value :: string

definition lf :: char where "lf = char_of (10 :: nat)"
definition cr :: char where "cr = char_of (13 :: nat)"
definition tab :: char where "tab = char_of (9 :: nat)"

text \<open>\<open>str.translate(_NAME_FORBIDDEN)\<close>\<close>

definition strip_forbidden :: "string \<Rightarrow> string" where
  "strip_forbidden s = map (\<lambda>c. if c \<in> {lf, cr, tab} then CHR '' '' else c) (filter (\<lambda>c. c \<noteq> CHR ''['' \<and> c \<noteq> CHR '']'') s)"

definition placeholder_name :: "string \<Rightarrow> string" where
  "placeholder_name name =
     (let cleaned = take MAX_PLACEHOLDER_NAME_CHARS (strip (strip_forbidden name))
      in if cleaned = [] then UNKNOWN_SECRET_NAME else cleaned)"

definition secret_words :: "string \<Rightarrow> string" where
  "secret_words name = ''redacted secret: '' @ placeholder_name name"

definition secret_placeholder :: "string \<Rightarrow> string" where
  "secret_placeholder name = ''['' @ secret_words name @ '']''"

definition value_variants :: "string \<Rightarrow> string list" where
  "value_variants v =
     (let unix = replace_all [cr, lf] [lf] v; dos = replace_all [lf] [cr, lf] v;
          vs = (if unix = v then [v] else [v, unix])
      in if dos \<in> set vs then vs else vs @ [dos])"

definition usable_sentinels :: "sentinel list \<Rightarrow> sentinel list" where
  "usable_sentinels ss =
     sort_key (\<lambda>s. - int (length (sen_value s))) (filter (\<lambda>s. MIN_REDACTABLE_SECRET_CHARS \<le> length (sen_value s)) ss)"

text \<open>One sentinel: every variant of its value, one after the other.\<close>

definition redact_sentinel :: "string \<Rightarrow> sentinel \<Rightarrow> string" where
  "redact_sentinel text s = foldl (\<lambda>t v. replace_all v (secret_placeholder (sen_name s)) t) text (value_variants (sen_value s))"

definition redact_text :: "sentinel list \<Rightarrow> string \<Rightarrow> string" where
  "redact_text ss text = foldl redact_sentinel text (usable_sentinels ss)"

definition matched_secret_names :: "sentinel list \<Rightarrow> string \<Rightarrow> string list" where
  "matched_secret_names ss text =
     first_of_each (map (\<lambda>s. placeholder_name (sen_name s))
       (filter (\<lambda>s. list_ex (\<lambda>v. sublist v text) (value_variants (sen_value s))) (usable_sentinels ss)))"

definition credential_reference :: "sentinel list \<Rightarrow> string \<Rightarrow> string" where
  "credential_reference ss text =
     (let names = matched_secret_names ss text
      in ''[redacted credential.access result: secret='' @
         (if names = [] then UNKNOWN_SECRET_NAME else join_with '', '' names) @ '']'')"

definition scrub_one_text :: "sentinel list \<Rightarrow> string \<Rightarrow> string option \<Rightarrow> string" where
  "scrub_one_text ss text cls = (if cls = Some CREDENTIAL_ACCESS then credential_reference ss text else redact_text ss text)"


section \<open>The executor\<close>

text \<open>\<open>sst_secrets\<close> is none where the store cannot be read; a plaintext is none where the secret does not decrypt.\<close>

record secret_view =
  sst_configured :: bool
  sst_secrets :: "(string \<times> string option) list option"

definition workspace_sentinels :: "secret_view \<Rightarrow> sentinel list option" where
  "workspace_sentinels st =
     (if \<not> sst_configured st then Some []
      else map_option (\<lambda>secrets. usable_sentinels (List.map_filter (\<lambda>(name, plain).
             (case plain of Some (c # cs) \<Rightarrow> Some \<lparr>sen_name = name, sen_value = c # cs\<rparr> | _ \<Rightarrow> None)) secrets))
           (sst_secrets st))"

record scrub_request =
  scr_text :: string
  scr_class :: string

datatype scrub_answer = Scrubbed string | StoreFailed
datatype batch_answer = AllScrubbed "string list" | BatchStoreFailed

definition wire_class :: "string \<Rightarrow> string option" where
  "wire_class c = (if c = [] then None else Some c)"

definition answer_scrub :: "secret_view \<Rightarrow> scrub_request \<Rightarrow> scrub_answer" where
  "answer_scrub st q =
     (case workspace_sentinels st of
        None \<Rightarrow> StoreFailed
      | Some ss \<Rightarrow> Scrubbed (scrub_one_text ss (scr_text q) (wire_class (scr_class q))))"

definition answer_scrub_batch :: "secret_view \<Rightarrow> scrub_request list \<Rightarrow> batch_answer" where
  "answer_scrub_batch st qs =
     (case workspace_sentinels st of
        None \<Rightarrow> BatchStoreFailed
      | Some ss \<Rightarrow> AllScrubbed (map (\<lambda>q. scrub_one_text ss (scr_text q) (wire_class (scr_class q))) qs))"


section \<open>The client\<close>

text \<open>\<open>split_scrub_batch\<close>: \<open>cost\<close> is the length of an item as JSON, with its separator.\<close>

definition SCRUB_BUDGET :: nat where "SCRUB_BUDGET = 8 * 1024 * 1024 - 1024"

fun split_from :: "(scrub_request \<Rightarrow> nat) \<Rightarrow> nat \<Rightarrow> scrub_request list \<Rightarrow> nat \<Rightarrow> scrub_request list \<Rightarrow> scrub_request list list" where
  "split_from cost budget batch used [] = (if batch = [] then [] else [batch])"
| "split_from cost budget batch used (item # items) =
     (if batch \<noteq> [] \<and> budget < used + cost item then batch # split_from cost budget [item] (cost item) items
      else split_from cost budget (batch @ [item]) (used + cost item) items)"

definition split_scrub_batch :: "(scrub_request \<Rightarrow> nat) \<Rightarrow> nat \<Rightarrow> scrub_request list \<Rightarrow> scrub_request list list" where
  "split_scrub_batch cost budget items = split_from cost budget [] 0 items"

text \<open>What one exchange on the socket yields is the function \<open>peer\<close>, its left side the text of the error.\<close>

type_synonym query = "string \<times> string option"

definition on_wire :: "query \<Rightarrow> scrub_request" where
  "on_wire q = \<lparr>scr_text = fst q, scr_class = (case snd q of None \<Rightarrow> [] | Some c \<Rightarrow> c)\<rparr>"

definition client_scrub :: "(scrub_request \<Rightarrow> string + scrub_answer) \<Rightarrow> query \<Rightarrow> string + string" where
  "client_scrub peer q =
     (case peer (on_wire q) of
        Inl e \<Rightarrow> Inl e
      | Inr StoreFailed \<Rightarrow> Inl ''The executor refused the scrub''
      | Inr (Scrubbed t) \<Rightarrow> Inr t)"

definition one_batch :: "(scrub_request list \<Rightarrow> string + batch_answer) \<Rightarrow> scrub_request list \<Rightarrow> string + string list" where
  "one_batch peer qs =
     (case peer qs of
        Inl e \<Rightarrow> Inl e
      | Inr BatchStoreFailed \<Rightarrow> Inl ''The executor refused the scrub''
      | Inr (AllScrubbed ts) \<Rightarrow> if length ts \<noteq> length qs then Inl ''another number of texts'' else Inr ts)"

fun batches :: "(scrub_request list \<Rightarrow> string + batch_answer) \<Rightarrow> scrub_request list list \<Rightarrow> string + string list" where
  "batches peer [] = Inr []"
| "batches peer (b # bs) =
     (case one_batch peer b of
        Inl e \<Rightarrow> Inl e
      | Inr ts \<Rightarrow> map_sum id ((@) ts) (batches peer bs))"

definition client_scrub_many ::
  "(scrub_request \<Rightarrow> nat) \<Rightarrow> (scrub_request list \<Rightarrow> string + batch_answer) \<Rightarrow> query list \<Rightarrow> string + string list" where
  "client_scrub_many cost peer qs =
     (if qs = [] then Inr []
      else (case batches peer (split_scrub_batch cost SCRUB_BUDGET (map on_wire qs)) of
              Inl e \<Rightarrow> Inl e
            | Inr answers \<Rightarrow> if length answers \<noteq> length qs then Inl ''another number of texts'' else Inr answers))"


section \<open>What a replacement leaves\<close>

text \<open>The parts of a text around the matches of \<open>old\<close>, as \<open>replace\<close> finds them.\<close>

function parts_around :: "string \<Rightarrow> string \<Rightarrow> string list" where
  "parts_around old s =
     (if s = [] \<or> old = [] then [s]
      else if starts_with old s then [] # parts_around old (drop (length old) s)
      else (case parts_around old (tl s) of [] \<Rightarrow> [[hd s]] | p # ps \<Rightarrow> (hd s # p) # ps))"
  by pat_completeness auto
termination
  by (relation "measure (\<lambda>(old, s). length s)") auto

declare parts_around.simps [simp del]

lemma parts_nonempty: "parts_around old s \<noteq> []"
  by (subst parts_around.simps) (auto split: list.splits)

lemma replace_joins: "replace_all old new s = join_with new (parts_around old s)"
proof (induction old s rule: parts_around.induct)
  case (1 old s)
  consider "s = [] \<or> old = []" | "s \<noteq> []" "old \<noteq> []" "starts_with old s" | "s \<noteq> []" "old \<noteq> []" "\<not> starts_with old s" by blast
  then show ?case
  proof cases
    case 1
    then show ?thesis by (subst replace_all.simps, subst parts_around.simps) auto
  next
    case 2
    obtain p ps where p: "parts_around old (drop (length old) s) = p # ps" using parts_nonempty by (cases "parts_around old (drop (length old) s)") auto
    show ?thesis using 2 1 p by (subst replace_all.simps, subst parts_around.simps) auto
  next
    case 3
    obtain p ps where p: "parts_around old (tl s) = p # ps" using parts_nonempty by (cases "parts_around old (tl s)") auto
    have "replace_all old new (tl s) = join_with new (p # ps)" using 3 1(2) p by simp
    then show ?thesis using 3 p by (subst replace_all.simps, subst parts_around.simps) (cases ps; auto)
  qed
qed


lemma first_part_prefix: "parts_around old s = p # ps \<Longrightarrow> prefix p s"
proof (induction old s arbitrary: p ps rule: parts_around.induct)
  case (1 old s)
  show ?case
  proof (cases "s = [] \<or> old = [] \<or> starts_with old s")
    case True
    with 1(3) show ?thesis by (subst (asm) parts_around.simps) (auto split: if_splits)
  next
    case False
    then obtain q qs where q: "parts_around old (tl s) = q # qs" using parts_nonempty by (cases "parts_around old (tl s)") auto
    with False 1(2) have "prefix q (tl s)" by simp
    with False q 1(3) show ?thesis by (subst (asm) parts_around.simps) (cases s; auto)
  qed
qed

lemma starts_with_prefix: "starts_with p s \<longleftrightarrow> prefix p s"
  by (auto simp: starts_with_conv prefix_def)

lemma parts_of_text: "p \<in> set (parts_around old s) \<Longrightarrow> sublist p s \<and> (old \<noteq> [] \<longrightarrow> \<not> sublist old p)"
proof (induction old s arbitrary: p rule: parts_around.induct)
  case (1 old s)
  consider "s = [] \<or> old = []" | "s \<noteq> []" "old \<noteq> []" "starts_with old s" | "s \<noteq> []" "old \<noteq> []" "\<not> starts_with old s" by blast
  then show ?case
  proof cases
    case 1
    with 1(1) "1.prems" show ?thesis by (subst (asm) parts_around.simps) auto
  next
    case 2
    with "1.prems" have "p = [] \<or> p \<in> set (parts_around old (drop (length old) s))"
      by (subst (asm) parts_around.simps) auto
    with 2 "1.IH"(1) show ?thesis by (auto intro: sublist_order.order_trans [OF _ sublist_drop])
  next
    case 3
    obtain q qs where q: "parts_around old (tl s) = q # qs" using parts_nonempty by (cases "parts_around old (tl s)") auto
    have IH: "sublist x (tl s) \<and> \<not> sublist old x" if "x \<in> set (q # qs)" for x using "1.IH"(2) [of x] 3 q that by simp
    from "1.prems" 3 q have "p = hd s # q \<or> p \<in> set qs" by (subst (asm) parts_around.simps) auto
    then show ?thesis
    proof
      assume p: "p = hd s # q"
      have pre: "prefix p s" using first_part_prefix [OF q] 3(1) p by (cases s) auto
      have "\<not> prefix old p" using 3(3) pre by (auto simp: starts_with_prefix intro: prefix_order.order_trans)
      with IH [of q] p pre show ?thesis by (auto simp: sublist_Cons_right intro: prefix_imp_sublist)
    next
      assume "p \<in> set qs"
      with IH [of p] 3(1) show ?thesis by (cases s) (auto simp: sublist_Cons_right)
    qed
  qed
qed

lemma sublist_around:
  assumes "sublist w (x @ c # y)" "c \<notin> set w"
  shows "sublist w x \<or> sublist w y"
proof -
  from assms(1) consider "sublist w x" | "sublist w (c # y)" | w1 w2 where "w = w1 @ w2" "suffix w1 x" "prefix w2 (c # y)"
    by (auto simp: sublist_append)
  then show ?thesis
  proof cases
    case 2
    with assms(2) show ?thesis by (cases w) (auto simp: sublist_Cons_right)
  next
    case (3 w1 w2)
    with assms(2) have "w2 = []" by (cases w2) auto
    with 3 show ?thesis by (auto intro: suffix_imp_sublist)
  qed simp
qed

lemma sublist_joined:
  assumes "sublist w (join_with (CHR ''['' # m @ '']'') ps)" "CHR ''['' \<notin> set w" "CHR '']'' \<notin> set w" "w \<noteq> []"
  shows "(\<exists>p \<in> set ps. sublist w p) \<or> sublist w m"
  using assms(1)
proof (induction ps rule: induct_list012)
  case (3 p q ps)
  then have "sublist w (p @ CHR ''['' # (m @ CHR '']'' # join_with (CHR ''['' # m @ '']'') (q # ps)))" by simp
  from sublist_around [OF this assms(2)] have "sublist w p \<or> sublist w (m @ CHR '']'' # join_with (CHR ''['' # m @ '']'') (q # ps))" .
  with sublist_around [OF _ assms(3)] have "sublist w p \<or> sublist w m \<or> sublist w (join_with (CHR ''['' # m @ '']'') (q # ps))" by blast
  with 3(2) show ?case by auto
qed (use assms(4) in auto)

lemma replaced_once:
  assumes "CHR ''['' \<notin> set w" "CHR '']'' \<notin> set w" "w \<noteq> []" "\<not> sublist w (secret_words n)"
    and "\<not> sublist w s \<or> w = old"
  shows "\<not> sublist w (replace_all old (secret_placeholder n) s)"
proof
  assume "sublist w (replace_all old (secret_placeholder n) s)"
  then have "sublist w (join_with (CHR ''['' # secret_words n @ '']'') (parts_around old s))"
    by (simp add: replace_joins secret_placeholder_def)
  from sublist_joined [OF this assms(1-3)] assms(4) obtain p where "p \<in> set (parts_around old s)" "sublist w p" by blast
  with parts_of_text assms(3,5) show False by (blast intro: sublist_order.order_trans)
qed

lemma replaced_all:
  assumes "CHR ''['' \<notin> set w" "CHR '']'' \<notin> set w" "w \<noteq> []" "\<forall>(v, n) \<in> set vs. \<not> sublist w (secret_words n)"
    and "\<not> sublist w s \<or> w \<in> fst ` set vs"
  shows "\<not> sublist w (foldl (\<lambda>t (v, n). replace_all v (secret_placeholder n) t) s vs)"
  using assms(4,5)
proof (induction vs arbitrary: s)
  case (Cons x vs)
  obtain v n where x: "x = (v, n)" by fastforce
  show ?case
  proof (cases "sublist w s \<and> w \<noteq> v")
    case True
    then have "w \<in> fst ` set vs" using Cons.prems(2) x by auto
    with Cons.IH [of "replace_all v (secret_placeholder n) s"] Cons.prems(1) x show ?thesis by simp
  next
    case False
    then have "\<not> sublist w (replace_all v (secret_placeholder n) s)"
      using replaced_once [OF assms(1-3)] Cons.prems(1) x by auto
    with Cons.IH [of "replace_all v (secret_placeholder n) s"] Cons.prems(1) x show ?thesis by simp
  qed
qed simp

definition replacements :: "sentinel list \<Rightarrow> (string \<times> string) list" where
  "replacements ss = concat (map (\<lambda>s. map (\<lambda>v. (v, sen_name s)) (value_variants (sen_value s))) (usable_sentinels ss))"

lemma redact_text_replacements: "redact_text ss t = foldl (\<lambda>t (v, n). replace_all v (secret_placeholder n) t) t (replacements ss)"
proof -
  have "foldl redact_sentinel t xs =
      foldl (\<lambda>t (v, n). replace_all v (secret_placeholder n) t) t (concat (map (\<lambda>s. map (\<lambda>v. (v, sen_name s)) (value_variants (sen_value s))) xs))" for xs
    by (induction xs arbitrary: t) (auto simp: redact_sentinel_def foldl_map)
  then show ?thesis by (simp add: redact_text_def replacements_def)
qed

lemma replace_nonempty: "s \<noteq> [] \<Longrightarrow> new \<noteq> [] \<Longrightarrow> replace_all old new s \<noteq> []"
  by (subst replace_all.simps) auto

lemma set_usable: "s \<in> set (usable_sentinels ss) \<longleftrightarrow> s \<in> set ss \<and> 8 \<le> length (sen_value s)"
  by (auto simp: usable_sentinels_def MIN_REDACTABLE_SECRET_CHARS_def)


lemma value_left:
  assumes "s \<in> set ss" "8 \<le> length (sen_value s)" "v \<in> set (value_variants (sen_value s))"
    and "CHR ''['' \<notin> set v" "CHR '']'' \<notin> set v" "\<forall>s' \<in> set ss. \<not> sublist v (secret_words (sen_name s'))"
  shows "\<not> sublist v (redact_text ss text)"
proof -
  from assms(2) have "sen_value s \<noteq> []" by auto
  then have "replace_all [cr, lf] [lf] (sen_value s) \<noteq> []" "replace_all [lf] [cr, lf] (sen_value s) \<noteq> []"
    by (simp_all add: replace_nonempty)
  with assms(3) \<open>sen_value s \<noteq> []\<close> have "v \<noteq> []" by (auto simp: value_variants_def Let_def split: if_splits)
  moreover have "(v, sen_name s) \<in> set (replacements ss)"
    using assms(1-3) by (auto simp: replacements_def set_usable)
  then have "v \<in> fst ` set (replacements ss)" by force
  moreover have "\<forall>(u, n) \<in> set (replacements ss). \<not> sublist v (secret_words n)"
    using assms(6) by (auto simp: replacements_def set_usable)
  ultimately show ?thesis unfolding redact_text_replacements by (intro replaced_all) (use assms(4,5) in auto)
qed


section \<open>Properties\<close>

text \<open>A stored secret does not survive the scrub: of a value of at least eight characters no variant is left in the text,
  wherever it stood, unless it holds a bracket or the placeholders themselves spell it.\<close>

theorem no_value_left:
  assumes "s \<in> set ss" "8 \<le> length (sen_value s)" "v \<in> set (value_variants (sen_value s))"
    and "CHR ''['' \<notin> set v" "CHR '']'' \<notin> set v" "\<forall>s' \<in> set ss. \<not> sublist v (secret_words (sen_name s'))"
  shows "\<not> sublist v (redact_text ss text)"
  by (rule value_left [OF assms])

lemma split_from_concat: "concat (split_from cost budget batch used items) = batch @ items"
  by (induction cost budget batch used items rule: split_from.induct) auto

lemma split_from_fits:
  assumes "used = sum_list (map cost batch)" "used \<le> budget \<or> length batch \<le> 1" "b \<in> set (split_from cost budget batch used items)"
  shows "b \<noteq> [] \<and> (sum_list (map cost b) \<le> budget \<or> length b = 1)"
  using assms
proof (induction items arbitrary: batch used)
  case Nil
  then have "b = batch" "batch \<noteq> []" by (auto split: if_splits)
  with Nil.prems(1,2) show ?case by (cases batch) auto
next
  case (Cons item items)
  have fits: "batch \<noteq> [] \<Longrightarrow> sum_list (map cost batch) \<le> budget \<or> length batch = 1"
    using Cons.prems(1,2) by (cases batch) auto
  show ?case
  proof (cases "batch \<noteq> [] \<and> budget < used + cost item")
    case True
    with Cons.prems(3) have "b = batch \<or> b \<in> set (split_from cost budget [item] (cost item) items)" by simp
    with Cons.IH [of "cost item" "[item]"] fits True show ?thesis by auto
  next
    case False
    with Cons.prems(3) have "b \<in> set (split_from cost budget (batch @ [item]) (used + cost item) items)" by simp
    moreover have "used + cost item \<le> budget \<or> length (batch @ [item]) \<le> 1" using False by auto
    ultimately show ?thesis using Cons.IH [of "used + cost item" "batch @ [item]"] Cons.prems(1) by simp
  qed
qed

text \<open>A long walk goes out in frames that fit: the batches hold every item once and in order, none is empty, and each
  costs at most the budget unless it is a single item above it.\<close>

theorem split_fits:
  "concat (split_scrub_batch cost budget items) = items \<and>
   (\<forall>b \<in> set (split_scrub_batch cost budget items). b \<noteq> [] \<and> (sum_list (map cost b) \<le> budget \<or> length b = 1))"
  using split_from_fits [of 0 cost "[]" budget] by (auto simp: split_scrub_batch_def split_from_concat)

text \<open>A batch answers what its texts answer alone: where the store reads, the answer of the client for many texts is
  the list of its answers for one, in order, however the frames cut it.\<close>

theorem batch_answers_each:
  assumes "workspace_sentinels st = Some ss"
  shows "client_scrub_many cost (\<lambda>qs. Inr (answer_scrub_batch st qs)) qs =
    Inr (map (\<lambda>q. scrub_one_text ss (fst q) (if snd q = Some [] then None else snd q)) qs) \<and>
   (\<forall>q. client_scrub (\<lambda>q. Inr (answer_scrub st q)) q = Inr (scrub_one_text ss (fst q) (if snd q = Some [] then None else snd q)))"
proof -
  let ?f = "\<lambda>q. scrub_one_text ss (scr_text q) (wire_class (scr_class q))"
  have b: "batches (\<lambda>qs. Inr (answer_scrub_batch st qs)) bs = Inr (map ?f (concat bs))" for bs
    using assms by (induction bs) (simp_all add: one_batch_def answer_scrub_batch_def)
  have w: "?f (on_wire q) = scrub_one_text ss (fst q) (if snd q = Some [] then None else snd q)" for q
    by (cases "snd q") (auto simp: on_wire_def wire_class_def)
  have c: "concat (split_scrub_batch cost SCRUB_BUDGET xs) = xs" for xs by (simp add: split_scrub_batch_def split_from_concat)
  from assms show ?thesis
    by (auto simp: client_scrub_many_def client_scrub_def answer_scrub_def b c w [symmetric] comp_def)
qed


definition one_secret :: "sentinel list" where
  "one_secret = [\<lparr>sen_name = ''db'', sen_value = ''hunter2hunter2''\<rparr>]"

lemma one_secret_kept_out:
  "''hunter2hunter2'' \<in> set (value_variants ''hunter2hunter2'')" "\<forall>s' \<in> set one_secret. \<not> sublist ''hunter2hunter2'' (secret_words (sen_name s'))"
  by code_simp+

theorem no_value_left_witness: "\<not> sublist ''hunter2hunter2'' (redact_text one_secret ''mysql -phunter2hunter2 -u root'')"
  by (rule no_value_left [where s = "\<lparr>sen_name = ''db'', sen_value = ''hunter2hunter2''\<rparr>"])
     (use one_secret_kept_out in \<open>auto simp: one_secret_def\<close>)

theorem batch_answers_each_witness:
  "client_scrub_many (\<lambda>_. 1) (\<lambda>qs. Inr (answer_scrub_batch \<lparr>sst_configured = False, sst_secrets = None\<rparr> qs)) [(''a'', None), (''b'', Some READ)] =
    Inr (map (\<lambda>q. scrub_one_text [] (fst q) (if snd q = Some [] then None else snd q)) [(''a'', None), (''b'', Some READ)]) \<and>
   (\<forall>q. client_scrub (\<lambda>q. Inr (answer_scrub \<lparr>sst_configured = False, sst_secrets = None\<rparr> q)) q =
      Inr (scrub_one_text [] (fst q) (if snd q = Some [] then None else snd q)))"
  by (rule batch_answers_each) (simp add: workspace_sentinels_def)

text \<open>Only the line endings of the whole value are tried: of a value that mixes both, the form with one kind throughout
  can be missing, so a copy in that form stays in the text.\<close>

theorem mixed_line_endings_survive:
  "let v = ''abcd'' @ [cr, lf] @ ''efgh'' @ [lf] @ ''ijkl''; dos = ''abcd'' @ [cr, lf] @ ''efgh'' @ [cr, lf] @ ''ijkl''
   in redact_text [\<lparr>sen_name = ''key'', sen_value = v\<rparr>] dos = dos"
  by code_simp

end
