(* ===== verification/Redaction.thy ===== *)
theory Redaction
  imports Scrub Json Output Log
begin

text \<open>
  Which fields of a record are scrubbed before they reach a file: messages, checkpoints and mappings of
  \<open>nanoinfra/agent/redaction.py\<close>, what a record holds when no scrub ran, and the redactor with its two passes.
  A function that takes a scrub is a program that asks: \<open>Ask t c k\<close> hands the text \<open>t\<close> with the class \<open>c\<close> to
  the scrub and goes on with its answer. A record is the value \<open>json.loads\<close> would read back.
\<close>

section \<open>Programs that ask\<close>

datatype 'a asks = Done 'a | Ask string "string option" "string \<Rightarrow> 'a asks"

primrec bind_asks :: "'a asks \<Rightarrow> ('a \<Rightarrow> 'b asks) \<Rightarrow> 'b asks" where
  "bind_asks (Done a) f = f a"
| "bind_asks (Ask t c k) f = Ask t c (\<lambda>x. bind_asks (k x) f)"

definition scrubbed :: "string \<Rightarrow> string option \<Rightarrow> string asks" where
  "scrubbed t c = Ask t c Done"

fun each_asks :: "('a \<Rightarrow> 'b asks) \<Rightarrow> 'a list \<Rightarrow> 'b list asks" where
  "each_asks f [] = Done []"
| "each_asks f (x # xs) = bind_asks (f x) (\<lambda>y. bind_asks (each_asks f xs) (\<lambda>ys. Done (y # ys)))"

lemma each_asks_cong [fundef_cong]:
  "xs = ys \<Longrightarrow> (\<And>x. x \<in> set ys \<Longrightarrow> f x = g x) \<Longrightarrow> each_asks f xs = each_asks g ys"
  by (induction xs arbitrary: ys) auto

text \<open>A value under its key.\<close>

definition keyed :: "('a \<Rightarrow> 'b asks) \<Rightarrow> string \<times> 'a \<Rightarrow> (string \<times> 'b) asks" where
  "keyed f kv = bind_asks (f (snd kv)) (\<lambda>v. Done (fst kv, v))"

lemma keyed_cong [fundef_cong]: "kv = kv' \<Longrightarrow> f (snd kv') = g (snd kv') \<Longrightarrow> keyed f kv = keyed g kv'"
  by (simp add: keyed_def)


section \<open>Mappings and messages\<close>

type_synonym fields = "(string \<times> jval) list"

lemma size_value_mem [termination_simp]: "kv \<in> set kvs \<Longrightarrow> size (snd kv) < Suc (size_list (size_prod (\<lambda>_. 0) size) kvs)"
  by (induction kvs) auto

fun redact_any :: "jval \<Rightarrow> jval asks" where
  "redact_any (JStr s) = bind_asks (scrubbed s None) (\<lambda>t. Done (JStr t))"
| "redact_any (JObj kvs) = bind_asks (each_asks (keyed redact_any) kvs) (\<lambda>kvs. Done (JObj kvs))"
| "redact_any (JList xs) = bind_asks (each_asks redact_any xs) (\<lambda>xs. Done (JList xs))"
| "redact_any v = Done v"

definition redact_mapping :: "fields \<Rightarrow> fields asks" where
  "redact_mapping kvs = each_asks (keyed redact_any) kvs"

text \<open>\<open>truncate_output(scrubbed, max_chars) if max_chars else scrubbed\<close>\<close>

definition bounded :: "int option \<Rightarrow> string \<Rightarrow> string" where
  "bounded cap t = (case cap of None \<Rightarrow> t | Some n \<Rightarrow> if n = 0 then t else truncate_output n t)"

definition redact_block :: "string option \<Rightarrow> int option \<Rightarrow> jval \<Rightarrow> jval asks" where
  "redact_block cls cap block =
     (case block of
        JObj kvs \<Rightarrow> (case jget kvs ''text'' of
            JStr s \<Rightarrow> bind_asks (scrubbed s cls) (\<lambda>t. Done (JObj (dict_set ''text'' (JStr (bounded cap t)) kvs)))
          | _ \<Rightarrow> Done block)
      | _ \<Rightarrow> Done block)"

definition redact_content :: "string option \<Rightarrow> int option \<Rightarrow> jval \<Rightarrow> jval asks" where
  "redact_content cls cap content =
     (case content of
        JStr s \<Rightarrow> bind_asks (scrubbed s cls) (\<lambda>t. Done (JStr (bounded cap t)))
      | JList blocks \<Rightarrow> bind_asks (each_asks (redact_block cls cap) blocks) (\<lambda>bs. Done (JList bs))
      | _ \<Rightarrow> Done content)"

definition SCRUB_MARKER_KEY :: string where "SCRUB_MARKER_KEY = ''nanoinfra_scrubbed''"
definition SIGNATURE_KEY :: string where "SIGNATURE_KEY = ''signature''"
definition TOOL_CALL_SIGNATURE_KEYS :: "string list" where "TOOL_CALL_SIGNATURE_KEYS = [''signature'', ''thought_signature'']"
definition BLOCK_LITERAL_KEYS :: "string list" where "BLOCK_LITERAL_KEYS = [''type'', SIGNATURE_KEY, SCRUB_MARKER_KEY]"

definition REASONING_SCRUBBED_MARKER :: string where
  "REASONING_SCRUBBED_MARKER = ''nanoinfra removed a stored credential value from this thinking block. The block lost its signature, because a provider needs a signature that matches the text. A later turn replays no thinking block from this record.''"
definition REASONING_WITHHELD_MARKER :: string where
  "REASONING_WITHHELD_MARKER = ''nanoinfra withheld the text of this thinking block. The block lost its signature, because the signature no longer matches the text.''"
definition TOOL_CALL_SCRUBBED_MARKER :: string where
  "TOOL_CALL_SCRUBBED_MARKER = ''nanoinfra changed the arguments of this tool call, so it dropped the signature the provider issued for them. A signature has to match the text it signed, and a mismatched pair is worse than none.''"
definition TOOL_CALL_WITHHELD_MARKER :: string where
  "TOOL_CALL_WITHHELD_MARKER = ''nanoinfra withheld the arguments of this tool call, so it dropped the signature the provider issued for them. The signature no longer matches the arguments.''"

definition signed :: "fields \<Rightarrow> bool" where
  "signed kvs \<longleftrightarrow> list_ex (\<lambda>k. jget kvs k \<noteq> JNull) TOOL_CALL_SIGNATURE_KEYS"

definition unsign :: "fields \<Rightarrow> fields" where
  "unsign kvs = foldl (\<lambda>d k. dict_del k d) kvs TOOL_CALL_SIGNATURE_KEYS"

definition unsigned_tool_call :: "string \<Rightarrow> fields \<Rightarrow> fields" where
  "unsigned_tool_call marker call =
     (let call' = unsign call
      in case jget call' ''function'' of
           JObj f \<Rightarrow>
             (let call2 = dict_set ''function'' (JObj (unsign f)) call'
              in if signed call \<or> signed f then dict_set SCRUB_MARKER_KEY (JStr marker) call2 else call2)
         | _ \<Rightarrow> if signed call then dict_set SCRUB_MARKER_KEY (JStr marker) call' else call')"

definition redact_tool_call :: "jval \<Rightarrow> jval asks" where
  "redact_tool_call call =
     (case call of
        JObj kvs \<Rightarrow>
          (case jget kvs ''function'' of
             JObj f \<Rightarrow>
               (case jget f ''arguments'' of
                  JStr arguments \<Rightarrow>
                    bind_asks (scrubbed arguments None) (\<lambda>t.
                      (let kvs' = dict_set ''function'' (JObj (dict_set ''arguments'' (JStr t) f)) kvs
                       in Done (JObj (if t \<noteq> arguments then unsigned_tool_call TOOL_CALL_SCRUBBED_MARKER kvs' else kvs'))))
                | _ \<Rightarrow> Done call)
           | _ \<Rightarrow> Done call)
      | _ \<Rightarrow> Done call)"

definition redact_tool_calls :: "jval \<Rightarrow> jval asks" where
  "redact_tool_calls v =
     (case v of JList calls \<Rightarrow> bind_asks (each_asks redact_tool_call calls) (\<lambda>cs. Done (JList cs)) | _ \<Rightarrow> Done v)"

definition redact_reasoning :: "jval \<Rightarrow> jval asks" where
  "redact_reasoning v = (case v of JStr (c # cs) \<Rightarrow> bind_asks (scrubbed (c # cs) None) (\<lambda>t. Done (JStr t)) | _ \<Rightarrow> Done v)"

text \<open>A field of a thinking block that holds text of the turn.\<close>

fun block_text :: "string \<times> jval \<Rightarrow> string option" where
  "block_text (k, JStr (c # cs)) = (if k \<in> set BLOCK_LITERAL_KEYS then None else Some (c # cs))"
| "block_text (k, v) = None"

definition redact_field :: "string \<times> jval \<Rightarrow> (string \<times> jval) asks" where
  "redact_field kv = (case block_text kv of None \<Rightarrow> Done kv | Some s \<Rightarrow> bind_asks (scrubbed s None) (\<lambda>t. Done (fst kv, JStr t)))"

definition unsigned_thinking_block :: "string \<Rightarrow> fields \<Rightarrow> fields" where
  "unsigned_thinking_block marker kvs = dict_set SCRUB_MARKER_KEY (JStr marker) (dict_del SIGNATURE_KEY kvs)"

definition redact_thinking_block :: "jval \<Rightarrow> jval asks" where
  "redact_thinking_block block =
     (case block of
        JObj kvs \<Rightarrow> bind_asks (each_asks redact_field kvs) (\<lambda>kvs'.
          Done (JObj (if kvs' = kvs then kvs' else unsigned_thinking_block REASONING_SCRUBBED_MARKER kvs')))
      | _ \<Rightarrow> Done block)"

definition redact_thinking_blocks :: "jval \<Rightarrow> jval asks" where
  "redact_thinking_blocks v =
     (case v of JList blocks \<Rightarrow> bind_asks (each_asks redact_thinking_block blocks) (\<lambda>bs. Done (JList bs)) | _ \<Rightarrow> Done v)"

text \<open>One key of a record, where it has it.\<close>

definition at_key :: "string \<Rightarrow> (jval \<Rightarrow> jval asks) \<Rightarrow> fields \<Rightarrow> fields asks" where
  "at_key k f kvs = (case map_of kvs k of None \<Rightarrow> Done kvs | Some v \<Rightarrow> bind_asks (f v) (\<lambda>w. Done (dict_set k w kvs)))"

definition message_class :: "(string \<Rightarrow> string option) option \<Rightarrow> fields \<Rightarrow> string option" where
  "message_class capability_of m =
     (case (capability_of, jget m ''name'') of
        (Some f, JStr name) \<Rightarrow> if jget m ''role'' = JStr ''tool'' then f name else None
      | _ \<Rightarrow> None)"

definition redact_message ::
  "(jval \<Rightarrow> string) \<Rightarrow> (string \<Rightarrow> string option) option \<Rightarrow> int option \<Rightarrow> fields \<Rightarrow> fields asks" where
  "redact_message repr capability_of cap m =
     (let cls = message_class capability_of m
      in if cls = Some CREDENTIAL_ACCESS
         then bind_asks (scrubbed (str_of repr (jget m ''content'')) (Some CREDENTIAL_ACCESS)) (\<lambda>t. Done (dict_set ''content'' (JStr t) m))
         else bind_asks (at_key ''content'' (redact_content cls (if jget m ''role'' = JStr ''tool'' then cap else None)) m) (\<lambda>m.
              bind_asks (at_key ''tool_calls'' redact_tool_calls m) (\<lambda>m.
              bind_asks (at_key ''reasoning_content'' redact_reasoning m) (\<lambda>m.
              at_key ''thinking_blocks'' redact_thinking_blocks m))))"

definition redact_messages where
  "redact_messages repr capability_of cap ms = each_asks (redact_message repr capability_of cap) ms"

definition as_record :: "(fields \<Rightarrow> fields asks) \<Rightarrow> jval \<Rightarrow> jval asks" where
  "as_record f v = (case v of JObj kvs \<Rightarrow> bind_asks (f kvs) (\<lambda>kvs. Done (JObj kvs)) | _ \<Rightarrow> Done v)"

definition redact_results :: "(fields \<Rightarrow> fields asks) \<Rightarrow> jval \<Rightarrow> jval asks" where
  "redact_results f v = (case v of JList xs \<Rightarrow> bind_asks (each_asks (as_record f) xs) (\<lambda>xs. Done (JList xs)) | _ \<Rightarrow> Done v)"

definition redact_checkpoint :: "(jval \<Rightarrow> string) \<Rightarrow> (string \<Rightarrow> string option) option \<Rightarrow> fields \<Rightarrow> fields asks" where
  "redact_checkpoint repr capability_of c =
     (let message = redact_message repr capability_of None
      in bind_asks (at_key ''assistant_message'' (as_record message) c) (\<lambda>c.
         bind_asks (at_key ''completed_tool_results'' (redact_results message) c) (\<lambda>c.
         at_key ''pending_tool_calls'' redact_tool_calls c)))"


section \<open>What a record holds when no scrub ran\<close>

text \<open>\<open>" ".join(s.split())\<close>\<close>

definition one_line :: "string \<Rightarrow> string" where
  "one_line s = join_with '' '' (split_words s)"

definition marker_reason :: "string \<Rightarrow> string" where
  "marker_reason reason =
     (let cleaned = take MAX_MARKER_REASON_CHARS (strip (one_line (strip_forbidden reason)))
      in if cleaned = [] then ''no reason given'' else cleaned)"

definition withheld_text :: "string \<Rightarrow> string" where
  "withheld_text reason =
     ''[nanoinfra withheld this text. No executor scrubbed it, and unscrubbed text can hold a credential value. Start the executor to restore the scrub. Reason: '' @ marker_reason reason @ '']''"

fun withheld_any :: "string \<Rightarrow> jval \<Rightarrow> jval" where
  "withheld_any marker (JStr s) = JStr (if s = [] then s else marker)"
| "withheld_any marker (JObj kvs) = JObj (map (\<lambda>kv. (fst kv, withheld_any marker (snd kv))) kvs)"
| "withheld_any marker (JList xs) = JList (map (withheld_any marker) xs)"
| "withheld_any marker v = v"

definition withheld_mapping :: "string \<Rightarrow> fields \<Rightarrow> fields" where
  "withheld_mapping reason kvs = map (\<lambda>kv. (fst kv, withheld_any (withheld_text reason) (snd kv))) kvs"

definition TRANSCRIPT_STRUCTURE_KEYS :: "string list" where
  "TRANSCRIPT_STRUCTURE_KEYS = [''event'', ''chat_id'', ''turn_id'', ''stream_id'', ''turn_phase'', ''kind'', ''version'', ''phase'',
     ''call_id'', ''name'']"

fun withheld_transcript_value :: "string \<Rightarrow> jval \<Rightarrow> jval" where
  "withheld_transcript_value marker (JObj kvs) =
     JObj (map (\<lambda>kv. (fst kv, if fst kv \<in> set TRANSCRIPT_STRUCTURE_KEYS then snd kv else withheld_transcript_value marker (snd kv))) kvs)"
| "withheld_transcript_value marker (JList xs) = JList (map (withheld_transcript_value marker) xs)"
| "withheld_transcript_value marker v = withheld_any marker v"

definition withheld_transcript_event :: "string \<Rightarrow> fields \<Rightarrow> fields" where
  "withheld_transcript_event reason kvs =
     map (\<lambda>kv. (fst kv, if fst kv \<in> set TRANSCRIPT_STRUCTURE_KEYS then snd kv
                         else withheld_transcript_value (withheld_text reason) (snd kv))) kvs"

definition withheld_block :: "string \<Rightarrow> jval \<Rightarrow> jval" where
  "withheld_block marker block =
     (case block of
        JObj kvs \<Rightarrow> (case jget kvs ''text'' of JStr (c # cs) \<Rightarrow> JObj (dict_set ''text'' (JStr marker) kvs) | _ \<Rightarrow> block)
      | _ \<Rightarrow> block)"

definition withheld_content :: "string \<Rightarrow> jval \<Rightarrow> jval" where
  "withheld_content marker content =
     (case content of
        JStr s \<Rightarrow> JStr (if s = [] then s else marker)
      | JList blocks \<Rightarrow> JList (map (withheld_block marker) blocks)
      | _ \<Rightarrow> content)"

definition withheld_thinking_block :: "string \<Rightarrow> jval \<Rightarrow> jval" where
  "withheld_thinking_block marker block =
     (case block of
        JObj kvs \<Rightarrow>
          (let kvs' = map (\<lambda>kv. (fst kv, if block_text kv = None then snd kv else JStr marker)) kvs
           in JObj (if list_ex (\<lambda>kv. block_text kv \<noteq> None) kvs then unsigned_thinking_block REASONING_WITHHELD_MARKER kvs' else kvs'))
      | _ \<Rightarrow> block)"

definition withheld_thinking_blocks :: "string \<Rightarrow> jval \<Rightarrow> jval" where
  "withheld_thinking_blocks marker v =
     (case v of JList blocks \<Rightarrow> JList (map (withheld_thinking_block marker) blocks) | _ \<Rightarrow> v)"

text \<open>\<open>json.dumps({"withheld": marker}, ensure_ascii=False)\<close>\<close>

definition withheld_arguments :: "string \<Rightarrow> string" where
  "withheld_arguments marker = dumps (\<lambda>_. []) (JObj [(''withheld'', JStr marker)])"

definition withheld_tool_call :: "string \<Rightarrow> jval \<Rightarrow> jval" where
  "withheld_tool_call marker call =
     (case call of
        JObj kvs \<Rightarrow>
          (case jget kvs ''function'' of
             JObj f \<Rightarrow>
               (case jget f ''arguments'' of
                  JStr _ \<Rightarrow> JObj (unsigned_tool_call TOOL_CALL_WITHHELD_MARKER
                     (dict_set ''function'' (JObj (dict_set ''arguments'' (JStr (withheld_arguments marker)) f)) kvs))
                | _ \<Rightarrow> call)
           | _ \<Rightarrow> call)
      | _ \<Rightarrow> call)"

definition withheld_tool_calls :: "string \<Rightarrow> jval \<Rightarrow> jval" where
  "withheld_tool_calls marker v = (case v of JList calls \<Rightarrow> JList (map (withheld_tool_call marker) calls) | _ \<Rightarrow> v)"

definition put_at :: "string \<Rightarrow> (jval \<Rightarrow> jval) \<Rightarrow> fields \<Rightarrow> fields" where
  "put_at k f kvs = (case map_of kvs k of None \<Rightarrow> kvs | Some v \<Rightarrow> dict_set k (f v) kvs)"

definition withheld_message :: "string \<Rightarrow> fields \<Rightarrow> fields" where
  "withheld_message reason m =
     (let marker = withheld_text reason
      in put_at ''thinking_blocks'' (withheld_thinking_blocks marker)
           (put_at ''reasoning_content'' (withheld_any marker)
             (put_at ''tool_calls'' (withheld_tool_calls marker)
               (put_at ''content'' (withheld_content marker) m))))"

fun record_or_same :: "(fields \<Rightarrow> fields) \<Rightarrow> jval \<Rightarrow> jval" where
  "record_or_same f (JObj kvs) = JObj (f kvs)"
| "record_or_same f v = v"

fun list_or_same :: "(jval \<Rightarrow> jval) \<Rightarrow> jval \<Rightarrow> jval" where
  "list_or_same f (JList xs) = JList (map f xs)"
| "list_or_same f v = v"

definition withheld_checkpoint :: "string \<Rightarrow> fields \<Rightarrow> fields" where
  "withheld_checkpoint reason c =
     put_at ''pending_tool_calls'' (withheld_tool_calls (withheld_text reason))
       (put_at ''completed_tool_results'' (list_or_same (record_or_same (withheld_message reason)))
         (put_at ''assistant_message'' (record_or_same (withheld_message reason)) c))"


section \<open>The redactor\<close>

text \<open>A program answered text by text: the scrub sees how many texts went before, and its error ends the program.\<close>

primrec answered_by :: "'a asks \<Rightarrow> (nat \<Rightarrow> string \<Rightarrow> string option \<Rightarrow> string + string) \<Rightarrow> nat \<Rightarrow> string + 'a" where
  "answered_by (Done a) f n = Inr a"
| "answered_by (Ask t c k) f n = (case f n t c of Inl e \<Rightarrow> Inl e | Inr x \<Rightarrow> answered_by (k x) f (Suc n))"

text \<open>The two passes of \<open>in_one_batch\<close>.\<close>

datatype batch_error = ScrubFails string | OtherCount | MoreAsked | PassesDisagree | AnswersUnused

primrec collected :: "'a asks \<Rightarrow> query list" where
  "collected (Done a) = []"
| "collected (Ask t c k) = (t, c) # collected (k t)"

primrec filled :: "'a asks \<Rightarrow> (query \<times> string) list \<Rightarrow> batch_error + 'a \<times> (query \<times> string) list" where
  "filled (Done a) qs = Inr (a, qs)"
| "filled (Ask t c k) qs =
     (case qs of
        [] \<Rightarrow> Inl MoreAsked
      | (q, x) # rest \<Rightarrow> if q \<noteq> (t, c) then Inl PassesDisagree else filled (k x) rest)"

definition in_one_batch ::
  "(query list \<Rightarrow> string + string list) option \<Rightarrow> (nat \<Rightarrow> string \<Rightarrow> string option \<Rightarrow> string + string) \<Rightarrow> 'a asks \<Rightarrow> batch_error + 'a" where
  "in_one_batch scrub_many scrub p =
     (case scrub_many of
        None \<Rightarrow> map_sum ScrubFails id (answered_by p scrub 0)
      | Some many \<Rightarrow>
          (let asked = collected p
           in case many asked of
                Inl e \<Rightarrow> Inl (ScrubFails e)
              | Inr answers \<Rightarrow>
                  (if length answers \<noteq> length asked then Inl OtherCount
                   else (case filled p (zip asked answers) of
                           Inl e \<Rightarrow> Inl e
                         | Inr (a, rest) \<Rightarrow> if rest \<noteq> [] then Inl AnswersUnused else Inr a))))"

definition or_withheld :: "(string \<Rightarrow> 'a) \<Rightarrow> string + 'a \<Rightarrow> 'a" where
  "or_withheld withhold r = (case r of Inl e \<Rightarrow> withhold e | Inr a \<Rightarrow> a)"

text \<open>The methods of \<open>TranscriptRedactor\<close>; the error is its reason.\<close>

definition redactor_text where
  "redactor_text scrub s = or_withheld withheld_text (answered_by (scrubbed s None) scrub 0)"

definition redactor_mapping where
  "redactor_mapping scrub kvs = or_withheld (\<lambda>e. withheld_mapping e kvs) (answered_by (redact_mapping kvs) scrub 0)"

definition redactor_transcript_event where
  "redactor_transcript_event scrub kvs = or_withheld (\<lambda>e. withheld_transcript_event e kvs) (answered_by (redact_mapping kvs) scrub 0)"

definition redactor_message where
  "redactor_message repr scrub capability_of cap m =
     or_withheld (\<lambda>e. withheld_message e m) (answered_by (redact_message repr capability_of cap m) scrub 0)"

definition redactor_messages where
  "redactor_messages repr scrub capability_of cap ms =
     or_withheld (\<lambda>e. map (withheld_message e) ms) (answered_by (redact_messages repr capability_of cap ms) scrub 0)"

definition redactor_checkpoint where
  "redactor_checkpoint repr scrub capability_of c =
     or_withheld (\<lambda>e. withheld_checkpoint e c) (answered_by (redact_checkpoint repr capability_of c) scrub 0)"


section \<open>What a program asks\<close>

text \<open>The program asks these texts whatever it is answered, and its results satisfy \<open>Q\<close>.\<close>

inductive asks_all :: "('a \<Rightarrow> bool) \<Rightarrow> 'a asks \<Rightarrow> query list \<Rightarrow> bool" for Q where
  asks_done: "Q a \<Longrightarrow> asks_all Q (Done a) []"
| asks_next: "(\<And>x. asks_all Q (k x) qs) \<Longrightarrow> asks_all Q (Ask t c k) ((t, c) # qs)"

lemma asks_bind:
  assumes "asks_all Q p qs" "\<And>a. Q a \<Longrightarrow> asks_all R (f a) qs'"
  shows "asks_all R (bind_asks p f) (qs @ qs')"
  using assms(1) by induction (auto intro: asks_all.intros assms(2))

lemma asks_scrubbed: "asks_all (\<lambda>_. True) (scrubbed t c) [(t, c)]"
  by (auto simp: scrubbed_def intro: asks_all.intros)

definition static :: "'a asks \<Rightarrow> bool" where
  "static p \<longleftrightarrow> (\<exists>qs. asks_all (\<lambda>_. True) p qs)"

lemma static_bind:
  assumes "static p" "\<exists>qs. \<forall>a. asks_all (\<lambda>_. True) (f a) qs"
  shows "static (bind_asks p f)"
  using assms asks_bind [where Q = "\<lambda>_. True"] unfolding static_def by metis

lemma static_done [simp]: "static (Done a)"
  by (auto simp: static_def intro: asks_done)

lemma asks_map: "asks_all (\<lambda>_. True) p qs \<Longrightarrow> asks_all (\<lambda>_. True) (bind_asks p (\<lambda>a. Done (h a))) qs"
  using asks_bind [of "\<lambda>_. True" p qs "\<lambda>_. True" "\<lambda>a. Done (h a)" "[]"] by (auto intro: asks_done)

lemma static_map: "static p \<Longrightarrow> static (bind_asks p (\<lambda>a. Done (h a)))"
  using asks_map unfolding static_def by blast

lemma static_scrubbed [simp]: "static (scrubbed t c)"
  using asks_scrubbed unfolding static_def by blast

lemma static_each: "(\<And>x. x \<in> set xs \<Longrightarrow> static (f x)) \<Longrightarrow> static (each_asks f xs)"
proof (induction xs)
  case (Cons x xs)
  then obtain qs qs' where "asks_all (\<lambda>_. True) (f x) qs" "asks_all (\<lambda>_. True) (each_asks f xs) qs'"
    unfolding static_def by (metis list.set_intros)
  then have "asks_all (\<lambda>_. True) (each_asks f (x # xs)) (qs @ qs')"
    by (simp, intro asks_bind [where Q = "\<lambda>_. True"] asks_map)
  then show ?case unfolding static_def by blast
qed simp

lemma static_keyed: "static (f (snd kv)) \<Longrightarrow> static (keyed f kv)"
  by (simp add: keyed_def static_map)

lemmas static_intros = static_map static_scrubbed static_done static_each static_keyed

lemma static_any: "static (redact_any v)"
  by (induction v rule: redact_any.induct) (auto intro!: static_intros)

lemma static_content: "static (redact_content cls cap v)"
  by (auto simp: redact_content_def redact_block_def intro!: static_intros split: jval.split)

lemma static_calls: "static (redact_tool_calls v)"
  by (auto simp: redact_tool_calls_def redact_tool_call_def Let_def intro!: static_intros split: jval.split)

lemma static_reasoning: "static (redact_reasoning v)"
  by (auto simp: redact_reasoning_def intro!: static_intros split: jval.split list.split)

lemma static_thinking: "static (redact_thinking_blocks v)"
  by (auto simp: redact_thinking_blocks_def redact_thinking_block_def redact_field_def intro!: static_intros split: jval.split option.split)

text \<open>A step writes one key, so what the next ones ask is known from the record as it came in.\<close>

definition agree :: "string set \<Rightarrow> fields \<Rightarrow> fields \<Rightarrow> bool" where
  "agree ks r kvs \<longleftrightarrow> (\<forall>j \<in> ks. map_of r j = map_of kvs j)"

lemma asks_then:
  assumes "\<And>v. static (f v)" "k \<in> ks" "\<exists>qs. \<forall>r. agree (ks - {k}) r kvs \<longrightarrow> asks_all (\<lambda>_. True) (g r) qs"
  shows "\<exists>qs. \<forall>r. agree ks r kvs \<longrightarrow> asks_all (\<lambda>_. True) (bind_asks (at_key k f r) g) qs"
proof -
  from assms(3) obtain qs where qs: "\<And>r. agree (ks - {k}) r kvs \<Longrightarrow> asks_all (\<lambda>_. True) (g r) qs" by blast
  show ?thesis
  proof (cases "map_of kvs k")
    case None
    with assms(2) qs show ?thesis by (intro exI [of _ qs]) (auto simp: agree_def at_key_def)
  next
    case (Some v)
    from assms(1) obtain qs1 where qs1: "asks_all (\<lambda>_. True) (f v) qs1" unfolding static_def by blast
    have "asks_all (\<lambda>_. True) (bind_asks (at_key k f r) g) (qs1 @ [] @ qs)" if r: "agree ks r kvs" for r
    proof -
      have "asks_all (agree (ks - {k}) kvs) (bind_asks (f v) (\<lambda>w. Done (dict_set k w r))) (qs1 @ [])"
        by (rule asks_bind [OF qs1]) (use r in \<open>auto simp: agree_def dict_set_def update_conv' intro!: asks_done\<close>)
      moreover from r assms(2) Some have "at_key k f r = bind_asks (f v) (\<lambda>w. Done (dict_set k w r))" by (simp add: agree_def at_key_def)
      ultimately have "asks_all (agree (ks - {k}) kvs) (at_key k f r) (qs1 @ [])" by simp
      then have "asks_all (\<lambda>_. True) (bind_asks (at_key k f r) g) ((qs1 @ []) @ qs)"
        by (rule asks_bind) (auto intro: qs simp: agree_def)
      then show ?thesis by simp
    qed
    then show ?thesis by blast
  qed
qed

lemma bind_done: "bind_asks p Done = p"
  by (induction p) auto

lemma asks_last: "(\<And>v. static (f v)) \<Longrightarrow> k \<in> ks \<Longrightarrow> \<exists>qs. \<forall>r. agree ks r kvs \<longrightarrow> asks_all (\<lambda>_. True) (at_key k f r) qs"
  using asks_then [of f k ks kvs Done] by (auto simp: bind_done intro: asks_done)

lemma asks_static: "\<exists>qs. \<forall>r. agree ks r kvs \<longrightarrow> asks_all (\<lambda>_. True) (g r) qs \<Longrightarrow> static (g kvs)"
  by (auto simp: static_def agree_def)

lemma static_message: "static (redact_message repr capability_of cap m)"
proof (cases "message_class capability_of m = Some CREDENTIAL_ACCESS")
  case True
  then show ?thesis by (simp add: redact_message_def Let_def static_map)
next
  case False
  have "\<exists>qs. \<forall>r. agree {''content'', ''tool_calls'', ''reasoning_content'', ''thinking_blocks''} r m \<longrightarrow> asks_all (\<lambda>_. True)
      (bind_asks (at_key ''content'' (redact_content (message_class capability_of m) (if jget m ''role'' = JStr ''tool'' then cap else None)) r) (\<lambda>m.
       bind_asks (at_key ''tool_calls'' redact_tool_calls m) (\<lambda>m.
       bind_asks (at_key ''reasoning_content'' redact_reasoning m) (\<lambda>m.
       at_key ''thinking_blocks'' redact_thinking_blocks m)))) qs"
    by (intro asks_then asks_last static_content static_calls static_reasoning static_thinking) auto
  from asks_static [OF this] False show ?thesis by (simp add: redact_message_def)
qed

lemma static_messages: "static (redact_messages repr capability_of cap ms)"
  by (simp add: redact_messages_def static_each static_message)

lemma static_record: "(\<And>kvs. static (f kvs)) \<Longrightarrow> static (as_record f v)"
  by (auto simp: as_record_def intro!: static_map split: jval.split)

lemma static_checkpoint: "static (redact_checkpoint repr capability_of c)"
proof -
  have results: "static (redact_results (redact_message repr capability_of None) v)" for v
    by (auto simp: redact_results_def intro!: static_map static_each static_record static_message split: jval.split)
  have "\<exists>qs. \<forall>r. agree {''assistant_message'', ''completed_tool_results'', ''pending_tool_calls''} r c \<longrightarrow> asks_all (\<lambda>_. True)
      (bind_asks (at_key ''assistant_message'' (as_record (redact_message repr capability_of None)) r) (\<lambda>c.
       bind_asks (at_key ''completed_tool_results'' (redact_results (redact_message repr capability_of None)) c) (\<lambda>c.
       at_key ''pending_tool_calls'' redact_tool_calls c))) qs"
    by (intro asks_then asks_last static_record static_message results static_calls) auto
  from asks_static [OF this] show ?thesis by (simp add: redact_checkpoint_def Let_def)
qed

lemma static_mapping: "static (redact_mapping kvs)"
  by (auto simp: redact_mapping_def intro!: static_intros static_any)


section \<open>Two passes and one\<close>

text \<open>The program ends in \<open>a\<close> when its texts are answered by these pairs, each text by its own.\<close>

inductive paired :: "'a asks \<Rightarrow> (query \<times> string) list \<Rightarrow> 'a \<Rightarrow> bool" where
  paired_done: "paired (Done a) [] a"
| paired_next: "paired (k x) ps a \<Longrightarrow> paired (Ask t c k) (((t, c), x) # ps) a"

inductive_simps paired_simps [simp]: "paired (Done a) ps b" "paired (Ask t c k) ps b"

lemma filled_paired: "filled p ps = Inr (a, rest) \<longleftrightarrow> (\<exists>used. ps = used @ rest \<and> paired p used a)"
proof (induction p arbitrary: ps)
  case (Ask t c k)
  show ?case
  proof (cases ps)
    case (Cons y ys)
    obtain q x where y: "y = (q, x)" by fastforce
    show ?thesis using Ask.IH [OF rangeI, of x ys] by (auto simp: Cons y Cons_eq_append_conv)
  qed auto
qed auto

lemma asks_collected: "asks_all Q p qs \<Longrightarrow> collected p = qs"
  by (induction rule: asks_all.induct) auto

text \<open>One scrubber, asked for many texts at once and for each.\<close>

definition many_by :: "(query \<Rightarrow> string) \<Rightarrow> (query list \<Rightarrow> string + string list) option" where
  "many_by g = Some (\<lambda>qs. Inr (map g qs))"

definition each_by :: "(query \<Rightarrow> string) \<Rightarrow> nat \<Rightarrow> string \<Rightarrow> string option \<Rightarrow> string + string" where
  "each_by g n t c = Inr (g (t, c))"

lemma asks_answered:
  "asks_all Q p qs \<Longrightarrow> \<exists>a. paired p (map (\<lambda>q. (q, g q)) qs) a \<and> answered_by p (each_by g) n = Inr a"
proof (induction arbitrary: n rule: asks_all.induct)
  case (asks_next k qs t c)
  from asks_next.IH [of "g (t, c)" "Suc n"] show ?case by (auto simp: each_by_def)
qed auto

lemma batch_pairs:
  "in_one_batch (Some many) scrub p = Inr a \<longleftrightarrow>
   (\<exists>answers. many (collected p) = Inr answers \<and> length answers = length (collected p) \<and> paired p (zip (collected p) answers) a)"
proof (cases "many (collected p)")
  case (Inr answers)
  show ?thesis
    by (cases "filled p (zip (collected p) answers)")
       (use filled_paired [of p "zip (collected p) answers" a "[]"] Inr in \<open>auto simp: in_one_batch_def Let_def split: prod.splits\<close>)
qed (simp add: in_one_batch_def)

lemma static_batch:
  assumes "static p"
  shows "in_one_batch (many_by g) (each_by g) p = in_one_batch None (each_by g) p"
proof -
  from assms obtain qs where qs: "asks_all (\<lambda>_. True) p qs" unfolding static_def by blast
  from asks_answered [OF qs, of g 0] obtain a where
    a: "paired p (map (\<lambda>q. (q, g q)) qs) a" "answered_by p (each_by g) 0 = Inr a" by blast
  have "in_one_batch (many_by g) (each_by g) p = Inr a"
    unfolding many_by_def batch_pairs using a(1) by (simp add: asks_collected [OF qs] zip_map2 zip_same_conv_map comp_def)
  with a(2) show ?thesis by (simp add: in_one_batch_def)
qed

text \<open>The batch pairs every answer with its own text: it ends in a record exactly when the scrubber answered as many
  texts as the first pass collected and the second pass asked for the same texts in the same order, each answered
  by the answer of its position. A program that asks otherwise the second time ends in an error.\<close>

theorem batch_pairs_answers:
  "in_one_batch (Some many) scrub p = Inr a \<longleftrightarrow>
   (\<exists>answers. many (collected p) = Inr answers \<and> length answers = length (collected p) \<and> paired p (zip (collected p) answers) a)"
  by (rule batch_pairs)

text \<open>C18. One round trip changes nothing: a message, a list of messages, a checkpoint or a mapping redacted in one batch is
  the record redacted text by text.\<close>

theorem batch_redacts_as_texts:
  "in_one_batch (many_by g) (each_by g) (redact_message repr capability_of cap m) =
     in_one_batch None (each_by g) (redact_message repr capability_of cap m) \<and>
   in_one_batch (many_by g) (each_by g) (redact_messages repr capability_of cap ms) =
     in_one_batch None (each_by g) (redact_messages repr capability_of cap ms) \<and>
   in_one_batch (many_by g) (each_by g) (redact_checkpoint repr capability_of m) =
     in_one_batch None (each_by g) (redact_checkpoint repr capability_of m) \<and>
   in_one_batch (many_by g) (each_by g) (redact_mapping m) = in_one_batch None (each_by g) (redact_mapping m)"
  by (simp add: static_batch static_message static_messages static_checkpoint static_mapping)


section \<open>What a record shows\<close>

text \<open>The results of a program whose texts are answered as \<open>R\<close> allows.\<close>

inductive gives :: "(string \<Rightarrow> string option \<Rightarrow> string \<Rightarrow> bool) \<Rightarrow> 'a asks \<Rightarrow> 'a \<Rightarrow> bool" for R where
  gives_done: "gives R (Done a) a"
| gives_next: "R t c x \<Longrightarrow> gives R (k x) a \<Longrightarrow> gives R (Ask t c k) a"

inductive_simps gives_simps [simp]: "gives R (Done a) b" "gives R (Ask t c k) b"

lemma gives_bind [simp]: "gives R (bind_asks p f) b \<longleftrightarrow> (\<exists>a. gives R p a \<and> gives R (f a) b)"
  by (induction p) auto

lemma gives_scrubbed [simp]: "gives R (scrubbed t c) u \<longleftrightarrow> R t c u"
  by (simp add: scrubbed_def)

lemma gives_each: "gives R (each_asks f xs) ys \<longleftrightarrow> list_all2 (\<lambda>x y. gives R (f x) y) xs ys"
  by (induction xs arbitrary: ys) (auto simp: list_all2_Cons1)

lemma answered_gives: "answered_by p f n = Inr a \<Longrightarrow> gives (\<lambda>t c u. \<exists>i. f i t c = Inr u) p a"
  by (induction p arbitrary: n) (auto split: sum.splits)

text \<open>The texts of a message that the scrub is for.\<close>

definition block_shown :: "jval \<Rightarrow> string option" where
  "block_shown b = (case b of JObj kvs \<Rightarrow> (case jget kvs ''text'' of JStr s \<Rightarrow> Some s | _ \<Rightarrow> None) | _ \<Rightarrow> None)"

definition content_shown :: "jval \<Rightarrow> string list" where
  "content_shown v = (case v of JStr s \<Rightarrow> [s] | JList blocks \<Rightarrow> List.map_filter block_shown blocks | _ \<Rightarrow> [])"

definition call_shown :: "jval \<Rightarrow> string option" where
  "call_shown c = (case c of JObj kvs \<Rightarrow> (case jget kvs ''function'' of
     JObj f \<Rightarrow> (case jget f ''arguments'' of JStr s \<Rightarrow> Some s | _ \<Rightarrow> None) | _ \<Rightarrow> None) | _ \<Rightarrow> None)"

definition calls_shown :: "jval \<Rightarrow> string list" where
  "calls_shown v = (case v of JList calls \<Rightarrow> List.map_filter call_shown calls | _ \<Rightarrow> [])"

definition reasoning_shown :: "jval \<Rightarrow> string list" where
  "reasoning_shown v = (case v of JStr s \<Rightarrow> [s] | _ \<Rightarrow> [])"

definition thinking_shown :: "jval \<Rightarrow> string list" where
  "thinking_shown v = (case v of
     JList blocks \<Rightarrow> concat (map (\<lambda>b. case b of JObj kvs \<Rightarrow> List.map_filter block_text kvs | _ \<Rightarrow> []) blocks) | _ \<Rightarrow> [])"

definition shown :: "fields \<Rightarrow> string list" where
  "shown m = content_shown (jget m ''content'') @ calls_shown (jget m ''tool_calls'') @
     reasoning_shown (jget m ''reasoning_content'') @ thinking_shown (jget m ''thinking_blocks'')"

lemma jget_set [simp]: "jget (dict_set k v d) j = (if j = k then v else jget d j)"
  by (simp add: jget_def dict_set_def update_conv')

lemma jget_del [simp]: "jget (dict_del k d) j = (if j = k then JNull else jget d j)"
  by (simp add: jget_def dict_del_def delete_conv')

lemma dict_set_mem: "x \<in> set (dict_set k v d) \<Longrightarrow> x = (k, v) \<or> x \<in> set d"
  unfolding dict_set_def by (induction d) (auto split: if_splits)

lemma dict_del_mem: "x \<in> set (dict_del k d) \<Longrightarrow> x \<in> set d"
  by (auto simp: dict_del_def AList.delete_eq)

lemma map_filter_mem: "t \<in> set (List.map_filter f xs) \<longleftrightarrow> (\<exists>x \<in> set xs. f x = Some t)"
  by (auto simp: List.map_filter_def image_iff)

lemma all2_right: "list_all2 P xs ys \<Longrightarrow> y \<in> set ys \<Longrightarrow> \<exists>x \<in> set xs. P x y"
  by (induction rule: list_all2_induct) auto

lemma at_key_gives:
  assumes "gives R (at_key k f kvs) r"
  shows "jget r k = JNull \<or> (\<exists>v. gives R (f v) (jget r k))" "j \<noteq> k \<Longrightarrow> jget r j = jget kvs j"
  using assms by (auto simp: at_key_def jget_def dict_set_def update_conv' split: option.splits)

lemma content_gives:
  assumes "gives R (redact_content cls cap v) w" "t \<in> set (content_shown w)"
  shows "\<exists>s u. R s cls u \<and> t = bounded cap u"
proof -
  have "\<exists>s u. R s cls u \<and> t = bounded cap u" if "gives R (redact_block cls cap b) b'" "block_shown b' = Some t" for b b'
    using that by (auto simp: redact_block_def block_shown_def split: jval.splits)
  with assms show ?thesis
    by (fastforce simp: redact_content_def content_shown_def gives_each map_filter_mem dest: all2_right split: jval.splits)
qed

lemma call_shown_unsigned: "call_shown (JObj (unsigned_tool_call marker kvs)) = call_shown (JObj kvs)"
  by (auto simp: call_shown_def unsigned_tool_call_def unsign_def Let_def TOOL_CALL_SIGNATURE_KEYS_def SCRUB_MARKER_KEY_def split: jval.splits)

lemma calls_gives:
  assumes "gives R (redact_tool_calls v) w" "t \<in> set (calls_shown w)"
  shows "\<exists>s. R s None t"
proof -
  have "\<exists>s. R s None t" if "gives R (redact_tool_call c) c'" "call_shown c' = Some t" for c c'
    using that
    by (auto simp: redact_tool_call_def Let_def call_shown_unsigned split: jval.splits if_splits) (auto simp: call_shown_def)
  with assms show ?thesis
    by (fastforce simp: redact_tool_calls_def calls_shown_def gives_each map_filter_mem dest: all2_right split: jval.splits)
qed

lemma reasoning_gives:
  assumes "gives R (redact_reasoning v) w" "t \<in> set (reasoning_shown w)"
  shows "t = [] \<or> (\<exists>s. R s None t)"
  using assms by (auto simp: redact_reasoning_def reasoning_shown_def split: jval.splits list.splits)

lemma block_text_str: "block_text (k, JStr s) = Some t \<longleftrightarrow> k \<notin> set BLOCK_LITERAL_KEYS \<and> s \<noteq> [] \<and> t = s"
  by (cases s) auto

lemma block_text_marker: "block_text (SCRUB_MARKER_KEY, v) = None"
  by (cases v; cases "case v of JStr s \<Rightarrow> s | _ \<Rightarrow> []") (auto simp: BLOCK_LITERAL_KEYS_def)

lemma unsigned_block_mem: "kv \<in> set (unsigned_thinking_block marker kvs) \<Longrightarrow> block_text kv = Some t \<Longrightarrow> kv \<in> set kvs"
  by (auto simp: unsigned_thinking_block_def block_text_marker dest!: dict_set_mem dict_del_mem)

lemma thinking_gives:
  assumes "gives R (redact_thinking_blocks v) w" "t \<in> set (thinking_shown w)"
  shows "\<exists>s. R s None t"
proof -
  have field: "\<exists>s. R s None t" if "gives R (redact_field kv) kv'" "block_text kv' = Some t" for kv kv'
    using that by (auto simp: redact_field_def block_text_str split: option.splits)
  have "\<exists>s. R s None t" if "gives R (redact_thinking_block b) (JObj kvs)" "kv \<in> set kvs" "block_text kv = Some t" for b kvs kv
    using that by (auto simp: redact_thinking_block_def gives_each split: jval.splits if_splits
        dest!: all2_right unsigned_block_mem intro: field)
  with assms show ?thesis
    by (fastforce simp: redact_thinking_blocks_def thinking_shown_def gives_each map_filter_mem dest: all2_right split: jval.splits)
qed


text \<open>The same texts of a record whose text was withheld.\<close>

lemma put_at_jget: "jget (put_at k f kvs) j = (if j = k \<and> map_of kvs k \<noteq> None then f (jget kvs k) else jget kvs j)"
  by (auto simp: put_at_def jget_def dict_set_def update_conv' split: option.splits)

lemma withheld_block_shown: "block_shown (withheld_block marker b) = Some t \<Longrightarrow> t = [] \<or> t = marker"
proof (cases b)
  case (JObj kvs)
  assume "block_shown (withheld_block marker b) = Some t"
  with JObj show ?thesis
  proof (cases "jget kvs ''text''")
    case (JStr s)
    with \<open>block_shown (withheld_block marker b) = Some t\<close> \<open>b = JObj kvs\<close> show ?thesis
      by (cases s) (simp_all add: block_shown_def withheld_block_def)
  qed (simp_all add: block_shown_def withheld_block_def)
qed (simp_all add: block_shown_def withheld_block_def)

lemma withheld_content_shown: "t \<in> set (content_shown (withheld_content marker v)) \<Longrightarrow> t = [] \<or> t = marker"
  by (cases v) (auto simp: content_shown_def withheld_content_def map_filter_mem dest: withheld_block_shown split: if_splits)

lemma withheld_calls_shown: "t \<in> set (calls_shown (withheld_tool_calls marker v)) \<Longrightarrow> t = withheld_arguments marker"
proof -
  have "t = withheld_arguments marker" if "call_shown (withheld_tool_call marker c) = Some t" for c
    using that by (auto simp: withheld_tool_call_def call_shown_unsigned split: jval.splits) (auto simp: call_shown_def)
  then show "t \<in> set (calls_shown (withheld_tool_calls marker v)) \<Longrightarrow> t = withheld_arguments marker"
    by (auto simp: calls_shown_def withheld_tool_calls_def map_filter_mem split: jval.splits)
qed

lemma withheld_reasoning_shown: "t \<in> set (reasoning_shown (withheld_any marker v)) \<Longrightarrow> t = [] \<or> t = marker"
  by (cases v) (auto simp: reasoning_shown_def split: if_splits)

lemma withheld_field_mem:
  assumes "withheld_thinking_block marker b = JObj r" "kv \<in> set r" "block_text kv = Some t"
  shows "t = marker"
proof -
  from assms(1) obtain kvs where b: "b = JObj kvs" by (cases b) (simp_all add: withheld_thinking_block_def)
  from assms have "kv \<in> set (map (\<lambda>kv. (fst kv, if block_text kv = None then snd kv else JStr marker)) kvs)"
    unfolding b withheld_thinking_block_def Let_def jval.case jval.inject by (metis (no_types, lifting) unsigned_block_mem)
  with assms(3) show ?thesis by (auto simp: block_text_str split: if_splits)
qed

lemma withheld_thinking_shown: "t \<in> set (thinking_shown (withheld_thinking_blocks marker v)) \<Longrightarrow> t = marker"
  by (cases v) (auto simp: thinking_shown_def withheld_thinking_blocks_def map_filter_mem split: jval.splits intro: withheld_field_mem [OF sym])

lemma shown_put:
  assumes "t \<in> set (sh (jget (put_at k f m) k))" "sh JNull = []"
  shows "\<exists>v. t \<in> set (sh (f v))"
  using assms unfolding put_at_jget by (cases "map_of m k") (auto simp: jget_def)

lemma withheld_shown:
  assumes "t \<in> set (shown (withheld_message e m))"
  shows "t = [] \<or> t = withheld_text e \<or> t = withheld_arguments (withheld_text e)"
proof -
  let ?w = "withheld_text e"
  let ?m1 = "put_at ''content'' (withheld_content ?w) m"
  let ?m2 = "put_at ''tool_calls'' (withheld_tool_calls ?w) ?m1"
  let ?m3 = "put_at ''reasoning_content'' (withheld_any ?w) ?m2"
  let ?m4 = "put_at ''thinking_blocks'' (withheld_thinking_blocks ?w) ?m3"
  from assms consider "t \<in> set (content_shown (jget ?m1 ''content''))" | "t \<in> set (calls_shown (jget ?m2 ''tool_calls''))"
    | "t \<in> set (reasoning_shown (jget ?m3 ''reasoning_content''))" | "t \<in> set (thinking_shown (jget ?m4 ''thinking_blocks''))"
    by (auto simp: shown_def withheld_message_def Let_def put_at_jget [where j = "''content''" and k = "''tool_calls''"]
        put_at_jget [where k = "''reasoning_content''" and j = "''content''"] put_at_jget [where k = "''reasoning_content''" and j = "''tool_calls''"]
        put_at_jget [where k = "''thinking_blocks''" and j = "''content''"] put_at_jget [where k = "''thinking_blocks''" and j = "''tool_calls''"]
        put_at_jget [where k = "''thinking_blocks''" and j = "''reasoning_content''"])
  then show ?thesis
  proof cases
    case 1
    from shown_put [where sh = content_shown, OF this] obtain v where "t \<in> set (content_shown (withheld_content ?w v))"
      by (auto simp: content_shown_def)
    with withheld_content_shown show ?thesis by blast
  next
    case 2
    from shown_put [where sh = calls_shown, OF this] obtain v where "t \<in> set (calls_shown (withheld_tool_calls ?w v))"
      by (auto simp: calls_shown_def)
    with withheld_calls_shown show ?thesis by blast
  next
    case 3
    from shown_put [where sh = reasoning_shown, OF this] obtain v where "t \<in> set (reasoning_shown (withheld_any ?w v))"
      by (auto simp: reasoning_shown_def)
    with withheld_reasoning_shown show ?thesis by blast
  next
    case 4
    from shown_put [where sh = thinking_shown, OF this] obtain v where "t \<in> set (thinking_shown (withheld_thinking_blocks ?w v))"
      by (auto simp: thinking_shown_def)
    with withheld_thinking_shown show ?thesis by blast
  qed
qed

lemma message_gives:
  assumes "gives R (redact_message repr capability_of cap m) m'" "message_class capability_of m \<noteq> Some CREDENTIAL_ACCESS" "t \<in> set (shown m')"
  shows "t = [] \<or> (\<exists>s c u. R s c u \<and> c \<noteq> Some CREDENTIAL_ACCESS \<and> (t = u \<or> t = bounded cap u))"
proof -
  let ?cls = "message_class capability_of m" and ?cap = "if jget m ''role'' = JStr ''tool'' then cap else None"
  from assms(1,2) obtain m1 m2 m3 where steps: "gives R (at_key ''content'' (redact_content ?cls ?cap) m) m1"
    "gives R (at_key ''tool_calls'' redact_tool_calls m1) m2" "gives R (at_key ''reasoning_content'' redact_reasoning m2) m3"
    "gives R (at_key ''thinking_blocks'' redact_thinking_blocks m3) m'"
    by (auto simp: redact_message_def Let_def)
  have keep: "jget m' ''content'' = jget m1 ''content''" "jget m' ''tool_calls'' = jget m2 ''tool_calls''"
    "jget m' ''reasoning_content'' = jget m3 ''reasoning_content''"
    using at_key_gives(2) [OF steps(2)] at_key_gives(2) [OF steps(3)] at_key_gives(2) [OF steps(4)] by simp_all
  consider "t \<in> set (content_shown (jget m1 ''content''))" | "t \<in> set (calls_shown (jget m2 ''tool_calls''))"
    | "t \<in> set (reasoning_shown (jget m3 ''reasoning_content''))" | "t \<in> set (thinking_shown (jget m' ''thinking_blocks''))"
    using assms(3) by (auto simp: shown_def keep)
  then show ?thesis
  proof cases
    case 1
    with at_key_gives(1) [OF steps(1)] obtain v where "gives R (redact_content ?cls ?cap v) (jget m1 ''content'')"
      by (auto simp: content_shown_def)
    from content_gives [OF this 1] obtain s u where "R s ?cls u" "t = bounded ?cap u" by blast
    moreover have "bounded ?cap u = u \<or> bounded ?cap u = bounded cap u" by (simp add: bounded_def)
    ultimately show ?thesis using assms(2) by metis
  next
    case 2
    with at_key_gives(1) [OF steps(2)] obtain v where "gives R (redact_tool_calls v) (jget m2 ''tool_calls'')" by (auto simp: calls_shown_def)
    from calls_gives [OF this 2] show ?thesis by blast
  next
    case 3
    with at_key_gives(1) [OF steps(3)] obtain v where "gives R (redact_reasoning v) (jget m3 ''reasoning_content'')" by (auto simp: reasoning_shown_def)
    from reasoning_gives [OF this 3] show ?thesis by blast
  next
    case 4
    with at_key_gives(1) [OF steps(4)] obtain v where "gives R (redact_thinking_blocks v) (jget m' ''thinking_blocks'')" by (auto simp: thinking_shown_def)
    from thinking_gives [OF this 4] show ?thesis by blast
  qed
qed


section \<open>Properties\<close>



text \<open>A thinking block that keeps its signature keeps its text: whatever the scrub answers, a block with a signature is
  the block the provider signed, field for field.\<close>

theorem signature_matches_text:
  assumes "gives R (redact_thinking_block block) (JObj kvs)" "jget kvs SIGNATURE_KEY \<noteq> JNull"
  shows "JObj kvs = block"
  using assms
  by (auto simp: redact_thinking_block_def unsigned_thinking_block_def SIGNATURE_KEY_def SCRUB_MARKER_KEY_def split: jval.splits if_splits)

definition vault_message :: "jval \<Rightarrow> fields" where
  "vault_message content = [(''role'', JStr ''tool''), (''name'', JStr ''vault''), (''content'', content)]"

text \<open>The result of a credential access drops whole, unless no scrub ran: the scrub replaces the whole content by a
  reference, but the record that is withheld keeps every block that is no text, so data of the result stays in it.\<close>

theorem credential_blocks_not_withheld:
  assumes "f ''vault'' = Some CREDENTIAL_ACCESS" "gives R (redact_message repr (Some f) cap (vault_message (JList [JObj [(''type'', JStr ''json''), (''data'', JStr s)]]))) m'"
  shows "(\<exists>t u. m' = vault_message (JStr u) \<and> R t (Some CREDENTIAL_ACCESS) u) \<and>
    withheld_message e (vault_message (JList [JObj [(''type'', JStr ''json''), (''data'', JStr s)]])) =
      vault_message (JList [JObj [(''type'', JStr ''json''), (''data'', JStr s)]])"
  using assms
  by (auto simp: vault_message_def withheld_message_def redact_message_def message_class_def put_at_def withheld_content_def
      withheld_block_def Let_def jget_def dict_set_def)

theorem credential_blocks_not_withheld_witness:
  "\<exists>u. u = ''gone'' \<and> withheld_message ''down'' (vault_message (JList [JObj [(''type'', JStr ''json''), (''data'', JStr ''key'')]])) =
      vault_message (JList [JObj [(''type'', JStr ''json''), (''data'', JStr ''key'')]])"
  using credential_blocks_not_withheld [of "\<lambda>_. Some CREDENTIAL_ACCESS" "\<lambda>_ _ u. u = ''gone''" "\<lambda>_. []" None "''key''" "vault_message (JStr ''gone'')" "''down''"]
  by (simp add: redact_message_def message_class_def vault_message_def jget_def dict_set_def Let_def)

definition typed :: "string \<Rightarrow> fields" where
  "typed s = [(''role'', JStr ''user''), (''content'', JStr s)]"



theorem signature_matches_text_witness:
  "JObj [(''type'', JStr ''thinking''), (''thinking'', JStr ''plan''), (''signature'', JStr ''s1'')] =
   JObj [(''type'', JStr ''thinking''), (''thinking'', JStr ''plan''), (''signature'', JStr ''s1'')]"
  by (rule signature_matches_text [where R = "\<lambda>t _ u. u = t"])
     (auto simp: redact_thinking_block_def gives_each redact_field_def BLOCK_LITERAL_KEYS_def SIGNATURE_KEY_def SCRUB_MARKER_KEY_def jget_def)

text \<open>What a turn produced can survive in an event that is withheld: the keys that keep their value keep it at every
  depth, so an argument of a tool that is called name or kind stays in the record as it was.\<close>

theorem nested_structure_key_survives:
  "withheld_transcript_event e [(''event'', JStr ''tool''), (''arguments'', JObj [(''name'', JStr s)])] =
     [(''event'', JStr ''tool''), (''arguments'', JObj [(''name'', JStr s)])]"
  by (simp add: withheld_transcript_event_def TRANSCRIPT_STRUCTURE_KEYS_def)

end
