(* ===== verification/Pairing.thy ===== *)
theory Pairing
  imports Json "HOL-Library.Sublist"
begin

text \<open>
  Who may talk to the assistant: the store of paired senders (\<open>nanoinfra/pairing/store.py\<close>) and the permission check
  every chat message passes (\<open>BaseChannel.is_allowed\<close> and \<open>_handle_message\<close> of \<open>nanoinfra/channels/base.py\<close>). The
  file is what \<open>json.load\<close> makes of it; an operation loads it, works on the two maps and writes them back. A set
  of users is a list without duplicates. Clock readings are arguments, in the order the code takes them.
\<close>

section \<open>The file\<close>

datatype pairing_file = NoPairingFile | BadJson | NotUtf8 | Holds jval
datatype pairing_error = Busy | BadUnicode

record pairing_data =
  pg_approved :: "(string, string list) dict"
  pg_pending :: "(string, jval) dict"

definition no_pairings :: pairing_data where
  "no_pairings = \<lparr>pg_approved = [], pg_pending = []\<rparr>"

definition object_or_empty :: "jval \<Rightarrow> (string, jval) dict" where
  "object_or_empty v = (case v of JObj kvs \<Rightarrow> kvs | _ \<Rightarrow> [])"

definition user_set :: "(jval \<Rightarrow> string) \<Rightarrow> jval \<Rightarrow> string list" where
  "user_set repr v = (case v of JList us \<Rightarrow> remdups (map (str_of repr) us) | _ \<Rightarrow> [])"

definition load_pairings :: "(jval \<Rightarrow> string) \<Rightarrow> pairing_file \<Rightarrow> pairing_error + pairing_data" where
  "load_pairings repr f =
     (case f of
        NotUtf8 \<Rightarrow> Inl BadUnicode
      | Holds (JObj kvs) \<Rightarrow>
          Inr \<lparr>pg_approved = map (\<lambda>(ch, us). (ch, user_set repr us)) (object_or_empty (jget kvs ''approved'')),
               pg_pending = object_or_empty (jget kvs ''pending'')\<rparr>
      | _ \<Rightarrow> Inr no_pairings)"

definition save_pairings :: "pairing_data \<Rightarrow> pairing_file" where
  "save_pairings d =
     Holds (JObj [(''approved'', JObj (map (\<lambda>(ch, us). (ch, JList (map JStr (sorted_set us)))) (pg_approved d))),
                  (''pending'', JObj (pg_pending d))])"


section \<open>The operations\<close>

text \<open>A pending entry that has not expired.\<close>

definition entry_live :: "seconds \<Rightarrow> jval \<Rightarrow> bool" where
  "entry_live now info =
     (case info of
        JObj e \<Rightarrow>
          (case jget e ''channel'' of JStr (c # cs) \<Rightarrow> True | _ \<Rightarrow> False) \<and>
          jget e ''sender_id'' \<noteq> JNull \<and>
          (case jget e ''expires_at'' of JInt n \<Rightarrow> \<not> of_int n < now | JFloat r \<Rightarrow> \<not> r < now | _ \<Rightarrow> False)
      | _ \<Rightarrow> False)"

definition gc_pending :: "seconds \<Rightarrow> pairing_data \<Rightarrow> pairing_data" where
  "gc_pending now d = d\<lparr>pg_pending := filter (\<lambda>(code, info). entry_live now info) (pg_pending d)\<rparr>"

definition PAIRING_TTL_S :: int where "PAIRING_TTL_S = 600"

definition code_text :: "string \<Rightarrow> string" where
  "code_text raw = take 4 raw @ ''-'' @ drop 4 raw"

definition pairing_entry :: "string \<Rightarrow> string \<Rightarrow> seconds \<Rightarrow> seconds \<Rightarrow> jval" where
  "pairing_entry channel sender created expires =
     JObj [(''channel'', JStr channel), (''sender_id'', JStr sender), (''created_at'', JFloat created), (''expires_at'', JFloat expires)]"

datatype pairing_event =
    NewCode string string int string seconds seconds seconds
  | ApproveCode string seconds
  | DenyCode string seconds
  | Revoke string string
  | RevokeChannel string
  | ClearChannel string seconds

datatype pairing_reply =
    Issued string
  | ApprovedAs "(string \<times> string) option"
  | DeniedIs bool
  | Revoked bool
  | RevokedMany nat
  | ClearedMany nat nat

text \<open>What an operation answers, and the maps it writes back where it writes.\<close>

type_synonym pairing_result = "pairing_reply \<times> pairing_data option"

definition generate_code :: "string \<Rightarrow> string \<Rightarrow> int \<Rightarrow> string \<Rightarrow> seconds \<Rightarrow> seconds \<Rightarrow> seconds \<Rightarrow> pairing_data \<Rightarrow> pairing_result" where
  "generate_code channel sender ttl raw now created later d =
     (let d = gc_pending now d; code = code_text raw
      in (Issued code, Some (d\<lparr>pg_pending := dict_set code (pairing_entry channel sender created (later + of_int ttl)) (pg_pending d)\<rparr>)))"

definition add_user :: "string \<Rightarrow> string list \<Rightarrow> string list" where
  "add_user u us = (if u \<in> set us then us else us @ [u])"

text \<open>The two fields of an entry that passed the check.\<close>

definition entry_channel :: "jval \<Rightarrow> string" where
  "entry_channel info = (case info of JObj e \<Rightarrow> (case jget e ''channel'' of JStr s \<Rightarrow> s | _ \<Rightarrow> []) | _ \<Rightarrow> [])"

definition entry_sender :: "(jval \<Rightarrow> string) \<Rightarrow> jval \<Rightarrow> string" where
  "entry_sender repr info = (case info of JObj e \<Rightarrow> str_of repr (jget e ''sender_id'') | _ \<Rightarrow> [])"

definition approve_code :: "(jval \<Rightarrow> string) \<Rightarrow> string \<Rightarrow> seconds \<Rightarrow> pairing_data \<Rightarrow> pairing_result" where
  "approve_code repr code now d =
     (let d = gc_pending now d
      in case dict_get (pg_pending d) code of
           None \<Rightarrow> (ApprovedAs None, None)
         | Some info \<Rightarrow>
             (let channel = entry_channel info; sender = entry_sender repr info;
                  users = (case dict_get (pg_approved d) channel of None \<Rightarrow> [] | Some us \<Rightarrow> us)
              in (ApprovedAs (Some (channel, sender)),
                  Some \<lparr>pg_approved = dict_set channel (add_user sender users) (pg_approved d),
                        pg_pending = dict_del code (pg_pending d)\<rparr>)))"

definition deny_code :: "string \<Rightarrow> seconds \<Rightarrow> pairing_data \<Rightarrow> pairing_result" where
  "deny_code code now d =
     (let d = gc_pending now d
      in if dict_get (pg_pending d) code \<noteq> None
         then (DeniedIs True, Some (d\<lparr>pg_pending := dict_del code (pg_pending d)\<rparr>)) else (DeniedIs False, None))"

definition approved_users :: "pairing_data \<Rightarrow> string \<Rightarrow> string list" where
  "approved_users d channel = (case dict_get (pg_approved d) channel of None \<Rightarrow> [] | Some us \<Rightarrow> us)"

definition revoke :: "string \<Rightarrow> string \<Rightarrow> pairing_data \<Rightarrow> pairing_result" where
  "revoke channel sender d =
     (let users = approved_users d channel
      in if sender \<in> set users
         then (Revoked True, Some (d\<lparr>pg_approved :=
                 (let rest = removeAll sender users
                  in if rest = [] then dict_del channel (pg_approved d) else dict_set channel rest (pg_approved d))\<rparr>))
         else (Revoked False, None))"

definition revoke_channel :: "string \<Rightarrow> pairing_data \<Rightarrow> pairing_result" where
  "revoke_channel channel d =
     (let users = approved_users d channel
      in if users = [] then (RevokedMany 0, None)
         else (RevokedMany (length users), Some (d\<lparr>pg_approved := dict_del channel (pg_approved d)\<rparr>)))"

definition clear_channel :: "string \<Rightarrow> seconds \<Rightarrow> pairing_data \<Rightarrow> pairing_result" where
  "clear_channel channel now d =
     (let d = gc_pending now d; users = approved_users d channel;
          codes = filter (\<lambda>(code, info). entry_channel info = channel) (pg_pending d)
      in if users = [] \<and> codes = [] then (ClearedMany 0 0, None)
         else (ClearedMany (length users) (length codes),
               Some \<lparr>pg_approved = dict_del channel (pg_approved d),
                     pg_pending = filter (\<lambda>(code, info). entry_channel info \<noteq> channel) (pg_pending d)\<rparr>))"

fun pairing_op :: "(jval \<Rightarrow> string) \<Rightarrow> pairing_event \<Rightarrow> pairing_data \<Rightarrow> pairing_result" where
  "pairing_op repr (NewCode ch s ttl raw t0 t1 t2) d = generate_code ch s ttl raw t0 t1 t2 d"
| "pairing_op repr (ApproveCode code t) d = approve_code repr code t d"
| "pairing_op repr (DenyCode code t) d = deny_code code t d"
| "pairing_op repr (Revoke ch s) d = revoke ch s d"
| "pairing_op repr (RevokeChannel ch) d = revoke_channel ch d"
| "pairing_op repr (ClearChannel ch t) d = clear_channel ch t d"

text \<open>Each operation under the lock: the load, the work, the write. A read or a write of the file can fail.\<close>

record pairing_io =
  pio_reads :: bool
  pio_writes :: bool

definition pairing_do ::
  "(jval \<Rightarrow> string) \<Rightarrow> pairing_io \<Rightarrow> pairing_event \<Rightarrow> pairing_file \<Rightarrow> (pairing_error + pairing_reply) \<times> pairing_file" where
  "pairing_do repr io e f =
     (if \<not> pio_reads io then (Inl Busy, f)
      else (case load_pairings repr f of
              Inl x \<Rightarrow> (Inl x, f)
            | Inr d \<Rightarrow>
                (case pairing_op repr e d of
                   (r, None) \<Rightarrow> (Inr r, f)
                 | (r, Some d') \<Rightarrow> if pio_writes io then (Inr r, save_pairings d') else (Inl Busy, f))))"

text \<open>The reads: an unreadable file approves nobody and lists nothing.\<close>

definition is_approved :: "(jval \<Rightarrow> string) \<Rightarrow> pairing_io \<Rightarrow> string \<Rightarrow> string \<Rightarrow> pairing_file \<Rightarrow> pairing_error + bool" where
  "is_approved repr io channel sender f =
     (if \<not> pio_reads io then Inr False
      else map_sum id (\<lambda>d. sender \<in> set (approved_users d channel)) (load_pairings repr f))"

text \<open>\<open>{"code": code, **info}\<close>: a key of the entry overrides.\<close>

definition pending_item :: "string \<Rightarrow> jval \<Rightarrow> (string \<times> jval) list" where
  "pending_item code info = foldl (\<lambda>d (k, v). dict_set k v d) [(''code'', JStr code)] (object_or_empty info)"

definition list_pairing_requests ::
  "(jval \<Rightarrow> string) \<Rightarrow> pairing_io \<Rightarrow> seconds \<Rightarrow> pairing_file \<Rightarrow> pairing_error + (string \<times> jval) list list" where
  "list_pairing_requests repr io now f =
     (if \<not> pio_reads io then Inr []
      else map_sum id (\<lambda>d. map (\<lambda>(code, info). pending_item code info) (pg_pending (gc_pending now d))) (load_pairings repr f))"

definition get_approved :: "(jval \<Rightarrow> string) \<Rightarrow> pairing_io \<Rightarrow> string \<Rightarrow> pairing_file \<Rightarrow> pairing_error + string list" where
  "get_approved repr io channel f =
     (if \<not> pio_reads io then Inr []
      else map_sum id (\<lambda>d. sorted_set (approved_users d channel)) (load_pairings repr f))"


section \<open>The command\<close>

text \<open>The sentences of a reply are constructors; an expiry is the seconds left, none when it reads expired.\<close>

datatype command_reply =
    NothingPending
  | PendingLines "(string \<times> string \<times> string \<times> int option) list"
  | UsageApprove | UsageDeny | UsageRevoke | UnknownCommand
  | BadCode string
  | CodeApproved string string string
  | CodeDenied string
  | CodeNotFound string
  | UserRevoked string string
  | UserNotApproved string string
  | StoreUnavailable

definition format_expiry :: "jval \<Rightarrow> seconds \<Rightarrow> int option" where
  "format_expiry expires now =
     (let left = (case expires of JInt n \<Rightarrow> of_int n | JFloat r \<Rightarrow> r | _ \<Rightarrow> 0) - now
      in if \<lfloor>left\<rfloor> > 0 then Some \<lfloor>left\<rfloor> else None)"

definition pending_line :: "(jval \<Rightarrow> string) \<Rightarrow> seconds \<Rightarrow> (string \<times> jval) list \<Rightarrow> string \<times> string \<times> string \<times> int option" where
  "pending_line repr now item =
     (str_of repr (jget item ''code''), str_of repr (jget item ''channel''), str_of repr (jget item ''sender_id''),
      format_expiry (jget item ''expires_at'') now)"

text \<open>An operation of the command: a busy store is a reply of its own, any other error escapes.\<close>

definition command_does ::
  "(jval \<Rightarrow> string) \<Rightarrow> pairing_io \<Rightarrow> pairing_event \<Rightarrow> (pairing_reply \<Rightarrow> command_reply) \<Rightarrow> pairing_file \<Rightarrow>
   (pairing_error + command_reply) \<times> pairing_file" where
  "command_does repr io e say f =
     (case pairing_do repr io e f of
        (Inr r, f') \<Rightarrow> (Inr (say r), f')
      | (Inl Busy, f') \<Rightarrow> (Inr StoreUnavailable, f')
      | (Inl BadUnicode, f') \<Rightarrow> (Inl BadUnicode, f'))"

definition handle_pairing_command ::
  "(jval \<Rightarrow> string) \<Rightarrow> pairing_io \<Rightarrow> seconds \<Rightarrow> seconds \<Rightarrow> string \<Rightarrow> string \<Rightarrow> pairing_file \<Rightarrow> (pairing_error + command_reply) \<times> pairing_file" where
  "handle_pairing_command repr io t0 t1 channel subcommand f =
     (let parts = split_words subcommand; sub = (if parts = [] then ''list'' else hd parts); args = tl parts
      in if sub = ''list'' then
           (map_sum id (\<lambda>items. if items = [] then NothingPending else PendingLines (map (pending_line repr t1) items))
              (list_pairing_requests repr io t0 f), f)
         else if sub = ''approve'' then
           (case args of
              [] \<Rightarrow> (Inr UsageApprove, f)
            | arg # _ \<Rightarrow> command_does repr io (ApproveCode arg t0)
                (\<lambda>r. case r of ApprovedAs (Some (ch, s)) \<Rightarrow> CodeApproved arg s ch | _ \<Rightarrow> BadCode arg) f)
         else if sub = ''deny'' then
           (case args of
              [] \<Rightarrow> (Inr UsageDeny, f)
            | arg # _ \<Rightarrow> command_does repr io (DenyCode arg t0) (\<lambda>r. if r = DeniedIs True then CodeDenied arg else CodeNotFound arg) f)
         else if sub = ''revoke'' then
           (case args of
              [s] \<Rightarrow> command_does repr io (Revoke channel s) (\<lambda>r. if r = Revoked True then UserRevoked s channel else UserNotApproved s channel) f
            | [ch, s] \<Rightarrow> command_does repr io (Revoke ch s) (\<lambda>r. if r = Revoked True then UserRevoked s ch else UserNotApproved s ch) f
            | _ \<Rightarrow> (Inr UsageRevoke, f))
         else (Inr UnknownCommand, f))"


section \<open>The permission check of a channel\<close>

datatype channel_config = DictConfig "(string \<times> jval) list" | ObjectConfig "string list"

definition allow_list :: "channel_config \<Rightarrow> jval" where
  "allow_list cfg =
     (case cfg of
        ObjectConfig names \<Rightarrow> JList (map JStr names)
      | DictConfig kvs \<Rightarrow>
          (if truthy (jget kvs ''allow_from'') then jget kvs ''allow_from''
           else if truthy (jget kvs ''allowFrom'') then jget kvs ''allowFrom'' else JList []))"

text \<open>Python's \<open>in\<close>: of a text it is the test for a substring.\<close>

fun contains :: "jval \<Rightarrow> string \<Rightarrow> py_exn + bool" where
  "contains (JStr s) x = Inr (sublist x s)"
| "contains (JList vs) x = Inr (JStr x \<in> set vs)"
| "contains (JObj kvs) x = Inr (x \<in> set (map fst kvs))"
| "contains v x = Inl TypeError"

datatype channel_fault = ConfigRaises py_exn | StoreRaises pairing_error

definition is_allowed ::
  "(jval \<Rightarrow> string) \<Rightarrow> pairing_io \<Rightarrow> channel_config \<Rightarrow> string \<Rightarrow> string \<Rightarrow> pairing_file \<Rightarrow> channel_fault + bool" where
  "is_allowed repr io cfg channel sender f =
     (case contains (allow_list cfg) ''*'' of
        Inl e \<Rightarrow> Inl (ConfigRaises e)
      | Inr True \<Rightarrow> Inr True
      | Inr False \<Rightarrow>
          (case contains (allow_list cfg) sender of
             Inl e \<Rightarrow> Inl (ConfigRaises e)
           | Inr True \<Rightarrow> Inr True
           | Inr False \<Rightarrow> map_sum StoreRaises id (is_approved repr io channel sender f)))"

datatype message_outcome = Published | CodeSent string | DroppedUnavailable | AccessDenied | Raises channel_fault

record channel_message =
  cm_sender :: string
  cm_authorization :: "string option"
  cm_dm :: bool

text \<open>The random code and the clock are what \<open>generate_code\<close> would draw.\<close>

definition handle_message ::
  "(jval \<Rightarrow> string) \<Rightarrow> pairing_io \<Rightarrow> channel_config \<Rightarrow> string \<Rightarrow> string \<Rightarrow> seconds \<times> seconds \<times> seconds \<Rightarrow> channel_message \<Rightarrow>
   pairing_file \<Rightarrow> message_outcome \<times> pairing_file" where
  "handle_message repr io cfg channel raw clock m f =
     (let permission = (case cm_authorization m of None \<Rightarrow> cm_sender m | Some a \<Rightarrow> a); (t0, t1, t2) = clock
      in case is_allowed repr io cfg channel permission f of
           Inl e \<Rightarrow> (Raises e, f)
         | Inr True \<Rightarrow> (Published, f)
         | Inr False \<Rightarrow>
             (if \<not> cm_dm m then (AccessDenied, f)
              else (case pairing_do repr io (NewCode channel (cm_sender m) PAIRING_TTL_S raw t0 t1 t2) f of
                      (Inr (Issued code), f') \<Rightarrow> (CodeSent code, f')
                    | (Inl BadUnicode, f') \<Rightarrow> (Raises (StoreRaises BadUnicode), f')
                    | (_, f') \<Rightarrow> (DroppedUnavailable, f'))))"


section \<open>Saving and loading\<close>

lemma load_saved:
  "load_pairings repr (save_pairings d) =
   Inr \<lparr>pg_approved = map (\<lambda>(ch, us). (ch, sorted_set us)) (pg_approved d), pg_pending = pg_pending d\<rparr>"
proof -
  have "remdups (map (str_of repr \<circ> JStr) (sorted_set us)) = sorted_set us" for us :: "string list"
  proof -
    have "str_of repr \<circ> JStr = id" by (simp add: fun_eq_iff)
    then show ?thesis by (simp add: distinct_remdups_id)
  qed
  then show ?thesis
    by (auto simp: load_pairings_def save_pairings_def object_or_empty_def user_set_def jget_def split_def)
qed

lemma get_map_values: "dict_get (map (\<lambda>(k, v). (k, f v)) d) k = map_option f (dict_get d k)"
  by (simp add: dict_get_def map_of_map)


section \<open>What a run did\<close>

type_synonym pairing_history = "(pairing_event \<times> (pairing_error + pairing_reply)) list"

fun settles :: "string \<Rightarrow> pairing_event \<times> (pairing_error + pairing_reply) \<Rightarrow> bool" where
  "settles code (ApproveCode c _, Inr (ApprovedAs (Some _))) = (c = code)"
| "settles code (DenyCode c _, Inr (DeniedIs True)) = (c = code)"
| "settles code _ = False"

fun withdraws :: "string \<Rightarrow> string \<Rightarrow> pairing_event \<times> (pairing_error + pairing_reply) \<Rightarrow> bool" where
  "withdraws ch s (Revoke c u, Inr _) = (c = ch \<and> u = s)"
| "withdraws ch s (RevokeChannel c, Inr _) = (c = ch)"
| "withdraws ch s (ClearChannel c _, Inr _) = (c = ch)"
| "withdraws ch s _ = False"

text \<open>An event of which \<open>P\<close> holds, after the history it saw, and none of which \<open>Q\<close> holds since.\<close>

definition happened_since :: "('e list \<Rightarrow> 'e \<Rightarrow> bool) \<Rightarrow> ('e \<Rightarrow> bool) \<Rightarrow> 'e list \<Rightarrow> bool" where
  "happened_since P Q h \<longleftrightarrow> (\<exists>h1 e h2. h = h1 @ e # h2 \<and> P h1 e \<and> (\<forall>ev \<in> set h2. \<not> Q ev))"

lemma since_snoc: "happened_since P Q h \<Longrightarrow> \<not> Q ev \<Longrightarrow> happened_since P Q (h @ [ev])"
proof -
  assume "happened_since P Q h" and q: "\<not> Q ev"
  then obtain h1 e h2 where "h = h1 @ e # h2" "P h1 e" "\<forall>ev \<in> set h2. \<not> Q ev" unfolding happened_since_def by blast
  with q have "h @ [ev] = h1 @ e # (h2 @ [ev]) \<and> P h1 e \<and> (\<forall>x \<in> set (h2 @ [ev]). \<not> Q x)" by simp
  then show ?thesis unfolding happened_since_def by blast
qed

lemma since_new: "P h ev \<Longrightarrow> happened_since P Q (h @ [ev])"
  unfolding happened_since_def by (rule exI [of _ h], rule exI [of _ ev], rule exI [of _ "[]"]) simp

text \<open>The code was issued to that sender and channel, is good until that time, and nobody approved or denied it since.\<close>

fun issues :: "string \<Rightarrow> string \<Rightarrow> string \<Rightarrow> seconds \<Rightarrow> pairing_event \<times> (pairing_error + pairing_reply) \<Rightarrow> bool" where
  "issues code ch s until (NewCode c u ttl raw t0 t1 t2, Inr (Issued k)) = (k = code \<and> c = ch \<and> u = s \<and> until = t2 + of_int ttl)"
| "issues code ch s until _ = False"

definition code_open :: "pairing_history \<Rightarrow> string \<Rightarrow> string \<Rightarrow> string \<Rightarrow> seconds \<Rightarrow> bool" where
  "code_open h code ch s until = happened_since (\<lambda>_. issues code ch s until) (settles code) h"

text \<open>An approval that used such a code, and no withdrawal since.\<close>

fun approves :: "string \<Rightarrow> string \<Rightarrow> pairing_history \<Rightarrow> pairing_event \<times> (pairing_error + pairing_reply) \<Rightarrow> bool" where
  "approves ch s h (ApproveCode code t, Inr (ApprovedAs (Some (c, u)))) =
     (c = ch \<and> u = s \<and> (\<exists>until. code_open h code ch s until \<and> t \<le> until))"
| "approves ch s h _ = False"

definition vouched :: "pairing_history \<Rightarrow> string \<Rightarrow> string \<Rightarrow> bool" where
  "vouched h ch s = happened_since (approves ch s) (withdraws ch s) h"

definition approvals_open :: "pairing_history \<Rightarrow> bool" where
  "approvals_open h \<longleftrightarrow>
     (\<forall>h1 code t ch s h2. h = h1 @ (ApproveCode code t, Inr (ApprovedAs (Some (ch, s)))) # h2 \<longrightarrow>
        (\<exists>until. code_open h1 code ch s until \<and> t \<le> until))"

definition data_ok :: "pairing_history \<Rightarrow> pairing_data \<Rightarrow> bool" where
  "data_ok h d \<longleftrightarrow> dict_ok (pg_approved d) \<and> dict_ok (pg_pending d) \<and>
     (\<forall>ch s. s \<in> set (approved_users d ch) \<longrightarrow> vouched h ch s) \<and>
     (\<forall>code info. dict_get (pg_pending d) code = Some info \<longrightarrow>
        (\<exists>ch s created until. info = pairing_entry ch s created until \<and> code_open h code ch s until))"

lemma code_open_snoc: "code_open h code ch s until \<Longrightarrow> \<not> settles code ev \<Longrightarrow> code_open (h @ [ev]) code ch s until"
  unfolding code_open_def by (rule since_snoc)

lemma code_open_new: "code_open (h @ [(NewCode ch s ttl raw t0 t1 t2, Inr (Issued code))]) code ch s (t2 + of_int ttl)"
  unfolding code_open_def by (rule since_new) simp

lemma vouched_snoc: "vouched h ch s \<Longrightarrow> \<not> withdraws ch s ev \<Longrightarrow> vouched (h @ [ev]) ch s"
  unfolding vouched_def by (rule since_snoc)

lemma vouched_new:
  "code_open h code ch s until \<Longrightarrow> t \<le> until \<Longrightarrow> vouched (h @ [(ApproveCode code t, Inr (ApprovedAs (Some (ch, s))))]) ch s"
  unfolding vouched_def by (rule since_new) auto

lemma approvals_open_snoc:
  assumes "approvals_open h"
    "\<And>code t ch s. ev = (ApproveCode code t, Inr (ApprovedAs (Some (ch, s)))) \<Longrightarrow> \<exists>until. code_open h code ch s until \<and> t \<le> until"
  shows "approvals_open (h @ [ev])"
  unfolding approvals_open_def
proof (intro allI impI)
  fix h1 code t ch s h2
  assume "h @ [ev] = h1 @ (ApproveCode code t, Inr (ApprovedAs (Some (ch, s)))) # h2"
  then show "\<exists>until. code_open h1 code ch s until \<and> t \<le> until"
    using assms by (cases h2 rule: rev_cases) (auto simp: approvals_open_def)
qed

lemma entry_fields [simp]:
  "entry_channel (pairing_entry ch s c u) = ch" "entry_sender repr (pairing_entry ch s c u) = s"
  "entry_live now (pairing_entry ch s c u) \<longleftrightarrow> ch \<noteq> [] \<and> now \<le> u"
  by (auto simp: entry_channel_def entry_sender_def entry_live_def pairing_entry_def jget_def split: list.splits)

lemma gc_get:
  "dict_ok (pg_pending d) \<Longrightarrow> dict_get (pg_pending (gc_pending now d)) code =
     (case dict_get (pg_pending d) code of None \<Rightarrow> None | Some info \<Rightarrow> if entry_live now info then Some info else None)"
  by (auto simp: gc_pending_def dict_get_filter split: option.splits)

lemma gc_fields [simp]: "pg_approved (gc_pending now d) = pg_approved d" "approved_users (gc_pending now d) = approved_users d"
  by (simp_all add: gc_pending_def approved_users_def fun_eq_iff)

lemma gc_ok: "data_ok h d \<Longrightarrow> data_ok h (gc_pending now d)"
  unfolding data_ok_def by (auto simp: gc_get split: option.splits if_splits) (simp add: gc_pending_def)

text \<open>An event that settles nothing and withdraws nothing leaves the data as good as they were.\<close>

lemma quiet_ok: "data_ok h d \<Longrightarrow> (\<And>code. \<not> settles code ev) \<Longrightarrow> (\<And>ch s. \<not> withdraws ch s ev) \<Longrightarrow> data_ok (h @ [ev]) d"
  unfolding data_ok_def by (metis code_open_snoc vouched_snoc)

lemma users_set: "approved_users (d\<lparr>pg_approved := dict_set ch us (pg_approved d)\<rparr>) c = (if c = ch then us else approved_users d c)"
  "approved_users (d\<lparr>pg_approved := dict_del ch (pg_approved d)\<rparr>) c = (if c = ch then [] else approved_users d c)"
  "approved_users \<lparr>pg_approved = dict_set ch us m, pg_pending = p\<rparr> c = (if c = ch then us else approved_users \<lparr>pg_approved = m, pg_pending = p\<rparr> c)"
  "approved_users \<lparr>pg_approved = dict_del ch m, pg_pending = p\<rparr> c = (if c = ch then [] else approved_users \<lparr>pg_approved = m, pg_pending = p\<rparr> c)"
  "approved_users (d\<lparr>pg_pending := p\<rparr>) c = approved_users d c"
  "approved_users \<lparr>pg_approved = pg_approved d, pg_pending = p\<rparr> c = approved_users d c"
  by (simp_all add: approved_users_def)

lemma add_user_set [simp]: "set (add_user u us) = insert u (set us)"
  by (auto simp: add_user_def)

lemma generate_ok:
  assumes "data_ok h d" "generate_code ch s ttl raw t0 t1 t2 d = (r, w)"
  shows "\<exists>d'. w = Some d' \<and> data_ok (h @ [(NewCode ch s ttl raw t0 t1 t2, Inr r)]) d'"
proof -
  let ?ev = "(NewCode ch s ttl raw t0 t1 t2, Inr (Issued (code_text raw)))" and ?d = "gc_pending t0 d"
  have ok: "data_ok h ?d" using gc_ok [OF assms(1)] .
  let ?d' = "?d\<lparr>pg_pending := dict_set (code_text raw) (pairing_entry ch s t1 (t2 + of_int ttl)) (pg_pending ?d)\<rparr>"
  have "data_ok (h @ [?ev]) ?d'"
    using quiet_ok [OF ok, of ?ev] code_open_new [of h ch s ttl raw t0 t1 t2 "code_text raw"]
    by (auto simp: data_ok_def users_set)
  with assms(2) show ?thesis by (auto simp: generate_code_def Let_def)
qed

lemma approve_ok:
  assumes "data_ok h d" "approve_code repr code t d = (r, w)"
  shows "data_ok (h @ [(ApproveCode code t, Inr r)]) (case w of None \<Rightarrow> d | Some d' \<Rightarrow> d')"
    "r = ApprovedAs (Some (ch, s)) \<Longrightarrow> \<exists>until. code_open h code ch s until \<and> t \<le> until"
proof -
  let ?d = "gc_pending t d"
  have ok: "data_ok h ?d" using gc_ok [OF assms(1)] .
  have both: "data_ok (h @ [(ApproveCode code t, Inr r)]) (case w of None \<Rightarrow> d | Some d' \<Rightarrow> d') \<and>
     (r = ApprovedAs (Some (ch, s)) \<longrightarrow> (\<exists>until. code_open h code ch s until \<and> t \<le> until))"
  proof (cases "dict_get (pg_pending ?d) code")
    case None
    with assms show ?thesis by (auto simp: approve_code_def Let_def intro: quiet_ok)
  next
    case (Some info)
    from ok Some obtain c u created until where info: "info = pairing_entry c u created until" and op: "code_open h code c u until"
      unfolding data_ok_def by blast
    from assms(1) Some have live: "t \<le> until"
      by (auto simp: data_ok_def gc_get info split: option.splits if_splits)
    let ?ev = "(ApproveCode code t, Inr (ApprovedAs (Some (c, u))))"
    let ?d' = "\<lparr>pg_approved = dict_set c (add_user u (approved_users d c)) (pg_approved d), pg_pending = dict_del code (pg_pending ?d)\<rparr>"
    have rw: "r = ApprovedAs (Some (c, u))" "w = Some ?d'"
      using assms(2) Some by (auto simp: approve_code_def Let_def info approved_users_def)
    have keep: "code_open (h @ [?ev]) k x y z" if "code_open h k x y z" "k \<noteq> code" for k x y z
      using code_open_snoc [OF that(1), of ?ev] that(2) by simp
    have vk: "vouched (h @ [?ev]) x y" if "vouched h x y" for x y using vouched_snoc [OF that, of ?ev] by simp
    have "data_ok (h @ [?ev]) ?d'"
      using ok vouched_new [OF op live] by (auto simp: data_ok_def users_set intro: keep vk split: if_splits) (metis keep)+
    with rw op live show ?thesis by auto
  qed
  then show "data_ok (h @ [(ApproveCode code t, Inr r)]) (case w of None \<Rightarrow> d | Some d' \<Rightarrow> d')"
    "r = ApprovedAs (Some (ch, s)) \<Longrightarrow> \<exists>until. code_open h code ch s until \<and> t \<le> until" by blast+
qed

lemma deny_ok:
  assumes "data_ok h d" "deny_code code t d = (r, w)"
  shows "data_ok (h @ [(DenyCode code t, Inr r)]) (case w of None \<Rightarrow> d | Some d' \<Rightarrow> d')"
proof -
  have ok: "data_ok h (gc_pending t d)" using gc_ok [OF assms(1)] .
  show ?thesis
  proof (cases "dict_get (pg_pending (gc_pending t d)) code = None")
    case True
    with assms show ?thesis by (auto simp: deny_code_def Let_def intro: quiet_ok)
  next
    case False
    let ?ev = "(DenyCode code t, Inr (DeniedIs True))"
    have keep: "code_open (h @ [?ev]) k x y z" if "code_open h k x y z" "k \<noteq> code" for k x y z
      using code_open_snoc [OF that(1), of ?ev] that(2) by simp
    have vk: "vouched (h @ [?ev]) x y" if "vouched h x y" for x y using vouched_snoc [OF that, of ?ev] by simp
    from False assms(2) have "r = DeniedIs True" "w = Some ((gc_pending t d)\<lparr>pg_pending := dict_del code (pg_pending (gc_pending t d))\<rparr>)"
      by (auto simp: deny_code_def Let_def)
    with ok show ?thesis by (auto simp: data_ok_def users_set intro: vk) (metis keep)
  qed
qed


text \<open>An event that only takes users and codes away.\<close>

lemma shrink_ok:
  assumes "data_ok h d" "\<And>k. \<not> settles k ev" "dict_ok (pg_approved d')" "dict_ok (pg_pending d')"
    "\<And>c s. s \<in> set (approved_users d' c) \<Longrightarrow> s \<in> set (approved_users d c) \<and> \<not> withdraws c s ev"
    "\<And>k v. dict_get (pg_pending d') k = Some v \<Longrightarrow> dict_get (pg_pending d) k = Some v"
  shows "data_ok (h @ [ev]) d'"
  unfolding data_ok_def
proof (intro conjI allI impI)
  fix c s assume "s \<in> set (approved_users d' c)"
  with assms(1) assms(5) [of s c] show "vouched (h @ [ev]) c s" by (auto simp: data_ok_def intro!: vouched_snoc)
next
  fix code info assume "dict_get (pg_pending d') code = Some info"
  with assms(1,6) obtain x y z u where "info = pairing_entry x y z u \<and> code_open h code x y u" unfolding data_ok_def by blast
  with code_open_snoc [OF _ assms(2)] have "info = pairing_entry x y z u \<and> code_open (h @ [ev]) code x y u" by blast
  then show "\<exists>ch s created until. info = pairing_entry ch s created until \<and> code_open (h @ [ev]) code ch s until" by blast
qed (use assms(3,4) in auto)

lemma revoke_ok:
  assumes "data_ok h d" "revoke ch s d = (r, w)"
  shows "data_ok (h @ [(Revoke ch s, Inr r)]) (case w of None \<Rightarrow> d | Some d' \<Rightarrow> d')"
  by (rule shrink_ok [OF assms(1)])
     (use assms in \<open>auto simp: revoke_def Let_def users_set data_ok_def split: if_splits\<close>)

lemma revoke_channel_ok:
  assumes "data_ok h d" "revoke_channel ch d = (r, w)"
  shows "data_ok (h @ [(RevokeChannel ch, Inr r)]) (case w of None \<Rightarrow> d | Some d' \<Rightarrow> d')"
  by (rule shrink_ok [OF assms(1)])
     (use assms in \<open>auto simp: revoke_channel_def Let_def users_set data_ok_def split: if_splits\<close>)

lemma clear_channel_ok:
  assumes "data_ok h d" "clear_channel ch t d = (r, w)"
  shows "data_ok (h @ [(ClearChannel ch t, Inr r)]) (case w of None \<Rightarrow> d | Some d' \<Rightarrow> d')"
proof -
  have "dict_ok (pg_pending (gc_pending t d))" using gc_ok [OF assms(1)] by (simp add: data_ok_def)
  with assms show ?thesis
    by (intro shrink_ok [OF assms(1)])
       (auto simp: clear_channel_def Let_def users_set data_ok_def gc_get dict_get_filter split: if_splits option.splits)
qed

lemma saved_users:
  "set (approved_users \<lparr>pg_approved = map (\<lambda>(ch, us). (ch, sorted_set us)) (pg_approved d), pg_pending = pg_pending d\<rparr> ch) = set (approved_users d ch)"
  by (cases "dict_get (pg_approved d) ch") (simp_all add: approved_users_def get_map_values)

text \<open>Saving keeps the data as good as they are: the order of the users changes and nothing else.\<close>

lemma saved_ok:
  assumes "data_ok h d"
  shows "\<exists>d'. load_pairings repr (save_pairings d) = Inr d' \<and> data_ok h d'"
proof -
  let ?d' = "\<lparr>pg_approved = map (\<lambda>(ch, us). (ch, sorted_set us)) (pg_approved d), pg_pending = pg_pending d\<rparr>"
  have "dict_ok (pg_approved ?d')" if "dict_ok (pg_approved d)" using that
    by (simp add: dict_ok_def dict_keys_def split_def comp_def)
  then have "data_ok h ?d'" using assms by (simp add: data_ok_def saved_users)
  with load_saved show ?thesis by blast
qed


section \<open>Runs of the store\<close>

type_synonym pairing_state = "pairing_file \<times> pairing_history"

definition pairing_step :: "(jval \<Rightarrow> string) \<Rightarrow> pairing_state \<Rightarrow> pairing_io \<times> pairing_event \<Rightarrow> pairing_state" where
  "pairing_step repr st x =
     (let (r, f) = pairing_do repr (fst x) (snd x) (fst st) in (f, snd st @ [(snd x, r)]))"

definition pairing_ok :: "(jval \<Rightarrow> string) \<Rightarrow> pairing_state \<Rightarrow> bool" where
  "pairing_ok repr st \<longleftrightarrow> (\<exists>d. load_pairings repr (fst st) = Inr d \<and> data_ok (snd st) d) \<and> approvals_open (snd st)"

lemma op_ok:
  assumes "data_ok h d" "pairing_op repr e d = (r, w)"
  shows "data_ok (h @ [(e, Inr r)]) (case w of None \<Rightarrow> d | Some d' \<Rightarrow> d')"
    "e = ApproveCode code t \<Longrightarrow> r = ApprovedAs (Some (ch, s)) \<Longrightarrow> \<exists>until. code_open h code ch s until \<and> t \<le> until"
proof -
  show "data_ok (h @ [(e, Inr r)]) (case w of None \<Rightarrow> d | Some d' \<Rightarrow> d')"
    using assms generate_ok approve_ok(1) deny_ok revoke_ok revoke_channel_ok clear_channel_ok by (cases e) fastforce+
  show "e = ApproveCode code t \<Longrightarrow> r = ApprovedAs (Some (ch, s)) \<Longrightarrow> \<exists>until. code_open h code ch s until \<and> t \<le> until"
    using assms approve_ok(2) by fastforce
qed

lemma pairing_step_ok: "pairing_ok repr st \<Longrightarrow> pairing_ok repr (pairing_step repr st x)"
proof -
  assume a: "pairing_ok repr st"
  obtain io e where x: "x = (io, e)" by fastforce
  obtain f h where st: "st = (f, h)" by fastforce
  from a st obtain d where d: "load_pairings repr f = Inr d" "data_ok h d" "approvals_open h" by (auto simp: pairing_ok_def)
  obtain r w where o: "pairing_op repr e d = (r, w)" by fastforce
  have lost: "data_ok (h @ [(e, Inl b)]) d" "approvals_open (h @ [(e, Inl b)])" for b
    using d quiet_ok [OF d(2), of "(e, Inl b)"] by (cases e; auto intro: approvals_open_snoc)+
  have opened: "approvals_open (h @ [(e, Inr r)])"
    by (rule approvals_open_snoc [OF d(3)]) (use op_ok(2) [OF d(2) o] in auto)
  show ?thesis
  proof (cases w)
    case None
    with op_ok(1) [OF d(2) o] d(1) lost opened o show ?thesis
      by (auto simp: pairing_ok_def pairing_step_def pairing_do_def x st)
  next
    case (Some d')
    with op_ok(1) [OF d(2) o] have "data_ok (h @ [(e, Inr r)]) d'" by simp
    from saved_ok [OF this] Some d(1) lost opened o show ?thesis
      by (auto simp: pairing_ok_def pairing_step_def pairing_do_def x st)
  qed
qed

interpretation pairings: op_machine "pairing_step repr" "\<lambda>_ _. True" "pairing_ok repr"
  by unfold_locales (rule pairing_step_ok)

lemma pairing_start: "pairing_ok repr (NoPairingFile, [])"
  by (simp add: pairing_ok_def load_pairings_def no_pairings_def data_ok_def approved_users_def approvals_open_def)

lemma pairing_run: "pairing_ok repr (foldl (pairing_step repr) (NoPairingFile, []) xs)"
  by (rule pairings.run_keeps [OF pairing_start]) simp


text \<open>A command is an operation of the store, so a run covers the commands as well.\<close>

lemma command_is_operation:
  "snd (handle_pairing_command repr io t0 t1 channel subcommand f) = f \<or>
   (\<exists>e. snd (handle_pairing_command repr io t0 t1 channel subcommand f) = snd (pairing_do repr io e f))"
proof -
  have "snd (command_does repr io e say f) = snd (pairing_do repr io e f)" for e say
    by (auto simp: command_does_def split: prod.splits sum.splits pairing_error.splits)
  then show ?thesis
    by (auto simp: handle_pairing_command_def Let_def split: list.split)
qed

text \<open>A busy store never makes the command lie: it answers that the store is unavailable and leaves the file as it is.\<close>

lemma command_busy:
  "split_words subcommand = [''approve'', code] \<Longrightarrow> \<not> pio_reads io \<Longrightarrow>
   handle_pairing_command repr io t0 t1 channel subcommand f = (Inr StoreUnavailable, f)"
  by (simp add: handle_pairing_command_def command_does_def pairing_do_def)


section \<open>Properties\<close>

lemma map_sum_Inr: "map_sum f id x = Inr y \<longleftrightarrow> x = Inr y"
  by (cases x) auto

lemma run_approved:
  assumes "is_approved repr io ch s (fst st) = Inr True" "pairing_ok repr st"
  shows "vouched (snd st) ch s"
  using assms by (auto simp: is_approved_def pairing_ok_def data_ok_def split: if_splits)


text \<open>A pairing code works once: between two approvals with one code that code was issued again.\<close>

theorem pairing_code_single_use:
  assumes "snd (foldl (pairing_step repr) (NoPairingFile, []) xs) =
      h1 @ (ApproveCode code t, Inr (ApprovedAs (Some x))) # h2 @ (ApproveCode code t', Inr (ApprovedAs (Some (ch, s)))) # h3"
  shows "\<exists>ev \<in> set h2. \<exists>until. issues code ch s until ev \<and> t' \<le> until"
proof -
  have "approvals_open (snd (foldl (pairing_step repr) (NoPairingFile, []) xs))" using pairing_run by (simp add: pairing_ok_def)
  then have "\<exists>until. code_open (h1 @ (ApproveCode code t, Inr (ApprovedAs (Some x))) # h2) code ch s until \<and> t' \<le> until"
    unfolding approvals_open_def assms by (metis append.assoc append_Cons)
  then obtain until k1 e k2 where k: "h1 @ (ApproveCode code t, Inr (ApprovedAs (Some x))) # h2 = k1 @ e # k2"
    "issues code ch s until e" "\<forall>ev \<in> set k2. \<not> settles code ev" "t' \<le> until"
    unfolding code_open_def happened_since_def by blast
  from k(1) have "e \<in> set h2 \<or> (ApproveCode code t, Inr (ApprovedAs (Some x))) \<in> set (e # k2)"
    by (auto simp: append_eq_append_conv2 Cons_eq_append_conv append_eq_Cons_conv)
  with k show ?thesis by (cases x) auto
qed

text \<open>Pairing works: on whatever run came before, a sender whose code is approved in time is let in.\<close>

definition reliable :: pairing_io where
  "reliable = \<lparr>pio_reads = True, pio_writes = True\<rparr>"

theorem paired_sender_admitted:
  assumes "ch \<noteq> []" "t \<le> t2 + of_int ttl"
  shows "is_approved repr reliable ch s (fst (foldl (pairing_step repr) (NoPairingFile, [])
    (xs @ [(reliable, NewCode ch s ttl raw t0 t1 t2), (reliable, ApproveCode (code_text raw) t)]))) = Inr True"
proof -
  let ?st = "foldl (pairing_step repr) (NoPairingFile, []) xs"
  obtain d where d: "load_pairings repr (fst ?st) = Inr d" "data_ok (snd ?st) d"
    using pairing_run [of repr xs] by (auto simp: pairing_ok_def)
  let ?d1 = "(gc_pending t0 d)\<lparr>pg_pending := dict_set (code_text raw) (pairing_entry ch s t1 (t2 + of_int ttl)) (pg_pending (gc_pending t0 d))\<rparr>"
  have "fst (pairing_step repr ?st (reliable, NewCode ch s ttl raw t0 t1 t2)) = save_pairings ?d1"
    by (simp add: pairing_step_def pairing_do_def reliable_def d generate_code_def Let_def)
  moreover obtain d2 where d2: "load_pairings repr (save_pairings ?d1) = Inr d2" "pg_pending d2 = pg_pending ?d1"
    by (simp add: load_saved)
  moreover have "dict_ok (pg_pending d2)" using gc_ok [OF d(2)] d2(2) by (auto simp: data_ok_def)
  then have "dict_get (pg_pending (gc_pending t d2)) (code_text raw) = Some (pairing_entry ch s t1 (t2 + of_int ttl))"
    using assms d2(2) by (simp add: gc_get)
  ultimately show ?thesis
    by (auto simp: pairing_step_def pairing_do_def reliable_def approve_code_def Let_def is_approved_def load_saved
        approved_users_def get_map_values split: prod.splits)
qed

text \<open>What is saved is what is loaded: the pending codes as they were, and of each channel the same users.\<close>

theorem pairing_store_roundtrip:
  "\<exists>d'. load_pairings repr (save_pairings d) = Inr d' \<and> pg_pending d' = pg_pending d \<and>
     (\<forall>ch. set (approved_users d' ch) = set (approved_users d ch))"
  using saved_users [of d] by (simp add: load_saved)

text \<open>An allow list that is one text admits every part of it: the configuration of a channel can be a plain dictionary,
  and there the test for an entry is the test for a substring.\<close>

theorem text_allow_list_admits_parts:
  "is_allowed repr io (DictConfig [(''allowFrom'', JStr (c # x @ y))]) ch x f = Inr True"
proof -
  have "sublist x (c # x @ y)" by (metis append_Cons append_Nil sublist_append_leftI sublist_append_rightI sublist_code(2) sublist_Cons_right)
  then show ?thesis by (auto simp: is_allowed_def allow_list_def jget_def split: bool.split)
qed

text \<open>A store that is not UTF-8 stops the messages of every sender outside the allow list with an exception, where a
  corrupt one is reset and a busy one approves nobody.\<close>

theorem undecodable_store_raises:
  "fst (handle_message repr reliable (ObjectConfig []) ch raw clock m NotUtf8) = Raises (StoreRaises BadUnicode)"
  by (auto simp: handle_message_def is_allowed_def allow_list_def is_approved_def reliable_def load_pairings_def Let_def split: prod.split)


section \<open>A run to evaluate on\<close>

definition pairing_demo :: "(pairing_io \<times> pairing_event) list" where
  "pairing_demo = [(reliable, NewCode ''tg'' ''ann'' 600 ''ABCDEFGH'' 0 0 0), (reliable, ApproveCode ''ABCD-EFGH'' 5)]"

lemma pairing_demo_history:
  "foldl (pairing_step (\<lambda>_. [])) (NoPairingFile, []) pairing_demo =
     (save_pairings \<lparr>pg_approved = [(''tg'', [''ann''])], pg_pending = []\<rparr>,
      [(NewCode ''tg'' ''ann'' 600 ''ABCDEFGH'' 0 0 0, Inr (Issued ''ABCD-EFGH'')),
       (ApproveCode ''ABCD-EFGH'' 5, Inr (ApprovedAs (Some (''tg'', ''ann''))))])"
  by code_simp


theorem pairing_code_single_use_witness:
  "\<exists>ev \<in> set [(NewCode ''tg'' ''bob'' 600 ''ABCDEFGH'' 6 6 6, Inr (Issued ''ABCD-EFGH'') :: pairing_error + pairing_reply)].
     \<exists>until. issues ''ABCD-EFGH'' ''tg'' ''bob'' until ev \<and> 7 \<le> until"
proof (rule pairing_code_single_use)
  show "snd (foldl (pairing_step (\<lambda>_. [])) (NoPairingFile, [])
      (pairing_demo @ [(reliable, NewCode ''tg'' ''bob'' 600 ''ABCDEFGH'' 6 6 6), (reliable, ApproveCode ''ABCD-EFGH'' 7)])) =
    [(NewCode ''tg'' ''ann'' 600 ''ABCDEFGH'' 0 0 0, Inr (Issued ''ABCD-EFGH''))] @
    (ApproveCode ''ABCD-EFGH'' 5, Inr (ApprovedAs (Some (''tg'', ''ann'')))) #
    [(NewCode ''tg'' ''bob'' 600 ''ABCDEFGH'' 6 6 6, Inr (Issued ''ABCD-EFGH''))] @
    (ApproveCode ''ABCD-EFGH'' 7, Inr (ApprovedAs (Some (''tg'', ''bob'')))) # []"
    by code_simp
qed

theorem paired_sender_admitted_witness:
  "is_approved (\<lambda>_. []) reliable ''tg'' ''ann'' (fst (foldl (pairing_step (\<lambda>_. [])) (NoPairingFile, [])
    ([] @ [(reliable, NewCode ''tg'' ''ann'' 600 ''ABCDEFGH'' 0 0 0), (reliable, ApproveCode (code_text ''ABCDEFGH'') 600)]))) = Inr True"
  by (rule paired_sender_admitted) simp_all

end
