(* ===== verification/Base64.thy ===== *)
theory Base64
  imports Prelude
begin

text \<open>
  Base64 of the standard library, as the secret store uses it: \<open>base64.b64encode\<close>, and \<open>base64.b64decode\<close>
  with and without \<open>validate=True\<close>. Bytes are characters. The decoder is the loop of \<open>binascii.a2b_base64\<close>: its
  place in the group of four, the bits left over, the padding seen so far.
\<close>

definition B64_ALPHABET :: string where
  "B64_ALPHABET = ''ABCDEFGHIJKLMNOPQRSTUVWXYZabcdefghijklmnopqrstuvwxyz0123456789+/''"

definition b64_digit :: "nat \<Rightarrow> char" where
  "b64_digit n = B64_ALPHABET ! n"

definition b64_value :: "char \<Rightarrow> nat option" where
  "b64_value c = map_of (zip B64_ALPHABET [0..<64]) c"

fun b64encode :: "string \<Rightarrow> string" where
  "b64encode [] = []"
| "b64encode [a] = (let x = of_char a :: nat in [b64_digit (x div 4), b64_digit (x mod 4 * 16), CHR ''='', CHR ''=''])"
| "b64encode [a, b] =
     (let x = of_char a :: nat; y = of_char b :: nat
      in [b64_digit (x div 4), b64_digit (x mod 4 * 16 + y div 16), b64_digit (y mod 16 * 4), CHR ''=''])"
| "b64encode (a # b # c # cs) =
     (let x = of_char a :: nat; y = of_char b :: nat; z = of_char c :: nat
      in b64_digit (x div 4) # b64_digit (x mod 4 * 16 + y div 16) # b64_digit (y mod 16 * 4 + z div 64) # b64_digit (z mod 64) #
         b64encode cs)"

fun b64_scan :: "bool \<Rightarrow> nat \<Rightarrow> nat \<Rightarrow> nat \<Rightarrow> bool \<Rightarrow> string \<Rightarrow> string option" where
  "b64_scan strict quad left pads padded [] = (if quad = 0 then Some [] else None)"
| "b64_scan strict quad left pads padded (c # cs) =
     (if c = CHR ''='' then
        (if 2 \<le> quad \<and> 4 \<le> quad + pads + 1 then (if strict \<and> cs \<noteq> [] then None else Some [])
         else b64_scan strict quad left (if 2 \<le> quad then pads + 1 else pads) True cs)
      else (case b64_value c of
              None \<Rightarrow> if strict then None else b64_scan strict quad left pads padded cs
            | Some v \<Rightarrow>
                (if strict \<and> padded then None
                 else if quad = 0 then b64_scan strict 1 v 0 padded cs
                 else if quad = 1 then map_option ((#) (char_of (left * 4 + v div 16))) (b64_scan strict 2 (v mod 16) 0 padded cs)
                 else if quad = 2 then map_option ((#) (char_of (left * 16 + v div 4))) (b64_scan strict 3 (v mod 4) 0 padded cs)
                 else map_option ((#) (char_of (left * 64 + v))) (b64_scan strict 0 0 0 padded cs))))"

text \<open>Text outside ASCII raises before the loop; strict decoding refuses leading padding.\<close>

definition b64decode :: "bool \<Rightarrow> string \<Rightarrow> string option" where
  "b64decode strict s =
     (if \<not> list_all (\<lambda>c. (of_char c :: nat) < 128) s then None
      else if strict \<and> s \<noteq> [] \<and> hd s = CHR ''='' then None
      else b64_scan strict 0 0 0 False s)"

lemma b64_alphabet: "\<forall>n \<in> set [0..<64]. b64_value (b64_digit n) = Some n \<and> b64_digit n \<noteq> CHR ''='' \<and> (of_char (b64_digit n) :: nat) < 128"
  by code_simp

lemma b64_digit_simps [simp]:
  "n < 64 \<Longrightarrow> b64_value (b64_digit n) = Some n" "n < 64 \<Longrightarrow> b64_digit n \<noteq> CHR ''=''" "n < 64 \<Longrightarrow> (of_char (b64_digit n) :: nat) < 128"
  using b64_alphabet by simp_all

lemma char_code_bound: "(of_char c :: nat) < 256"
  by simp

lemma b64_join: "b < (m :: nat) \<Longrightarrow> (a * m + b) div m = a" "b < (m :: nat) \<Longrightarrow> (a * m + b) mod m = b"
  by simp_all

lemma b64_bits:
  assumes "x < (256 :: nat)" "y < 256" "z < 256"
  shows "x div 4 < 64" "x mod 4 * 16 + y div 16 < 64" "y mod 16 * 4 + z div 64 < 64" "z mod 64 < 64" "x mod 4 * 16 < 64" "y mod 16 * 4 < 64"
    "x div 4 * 4 + (x mod 4 * 16 + y div 16) div 16 = x" "(x mod 4 * 16 + y div 16) mod 16 * 16 + (y mod 16 * 4 + z div 64) div 4 = y"
    "(y mod 16 * 4 + z div 64) mod 4 * 64 + z mod 64 = z"
    "x div 4 * 4 + (x mod 4 * 16) div 16 = x" "(x mod 4 * 16 + y div 16) mod 16 * 16 + (y mod 16 * 4) div 4 = y"
proof -
  have lt: "x div 4 < 64" "y div 16 < 16" "z div 64 < 4" using assms by (simp_all add: div_less_iff_less_mult)
  have m: "x mod 4 < 4" "y mod 16 < 16" "z mod 64 < 64" by simp_all
  show "x div 4 < 64" "z mod 64 < 64" "x mod 4 * 16 < 64" "y mod 16 * 4 < 64"
    "x mod 4 * 16 + y div 16 < 64" "y mod 16 * 4 + z div 64 < 64" using lt m by linarith+
  note joins = b64_join [OF lt(2), of "x mod 4"] b64_join [OF lt(3), of "y mod 16"]
  show "x div 4 * 4 + (x mod 4 * 16 + y div 16) div 16 = x" "(x mod 4 * 16 + y div 16) mod 16 * 16 + (y mod 16 * 4 + z div 64) div 4 = y"
    "(y mod 16 * 4 + z div 64) mod 4 * 64 + z mod 64 = z" unfolding joins by (rule div_mult_mod_eq)+
  have "x mod 4 * 16 div 16 = x mod 4" "y mod 16 * 4 div 4 = y mod 16" by simp_all
  then show "x div 4 * 4 + (x mod 4 * 16) div 16 = x" "(x mod 4 * 16 + y div 16) mod 16 * 16 + (y mod 16 * 4) div 4 = y"
    unfolding joins by (metis div_mult_mod_eq)+
qed

lemma b64_group:
  assumes "p < 64" "q < 64" "r < 64" "s < 64"
  shows "b64_scan strict 0 0 0 False (b64_digit p # b64_digit q # b64_digit r # b64_digit s # cs) =
      map_option (\<lambda>t. char_of (p * 4 + q div 16) # char_of (q mod 16 * 16 + r div 4) # char_of (r mod 4 * 64 + s) # t)
        (b64_scan strict 0 0 0 False cs)"
    "b64_scan strict 0 0 0 False [b64_digit p, b64_digit q, b64_digit r, CHR ''=''] =
      Some [char_of (p * 4 + q div 16), char_of (q mod 16 * 16 + r div 4)]"
    "b64_scan strict 0 0 0 False [b64_digit p, b64_digit q, CHR ''='', CHR ''=''] = Some [char_of (p * 4 + q div 16)]"
  using assms by (simp_all add: option.map_comp comp_def)

lemma b64_scan_encoded: "b64_scan strict 0 0 0 False (b64encode s) = Some s"
proof (induction s rule: b64encode.induct)
  case (2 a)
  note b = b64_bits [OF char_code_bound [of a] char_code_bound [of a] char_code_bound [of a]]
  show ?case unfolding b64encode.simps Let_def b64_group(3) [OF b(1,5,1,1)] b(10) by simp
next
  case (3 a b)
  note b = b64_bits [OF char_code_bound [of a] char_code_bound [of b] char_code_bound [of b]]
  show ?case unfolding b64encode.simps Let_def b64_group(2) [OF b(1,2,6,1)] b(7,11) by simp
next
  case (4 a b c cs)
  note b = b64_bits [OF char_code_bound [of a] char_code_bound [of b] char_code_bound [of c]]
  show ?case unfolding b64encode.simps Let_def b64_group(1) [OF b(1,2,3,4)] b(7,8,9) by (simp add: 4)
qed simp

lemma b64_encoded_ascii: "list_all (\<lambda>c. (of_char c :: nat) < 128) (b64encode s) \<and> (s \<noteq> [] \<longrightarrow> b64encode s \<noteq> [] \<and> hd (b64encode s) \<noteq> CHR ''='')"
proof (induction s rule: b64encode.induct)
  case (2 a)
  note b = b64_bits [OF char_code_bound [of a] char_code_bound [of a] char_code_bound [of a]]
  show ?case unfolding b64encode.simps Let_def using b64_digit_simps(2,3) [OF b(1)] b64_digit_simps(3) [OF b(5)] by simp
next
  case (3 a b)
  note b = b64_bits [OF char_code_bound [of a] char_code_bound [of b] char_code_bound [of b]]
  show ?case unfolding b64encode.simps Let_def
    using b64_digit_simps(2,3) [OF b(1)] b64_digit_simps(3) [OF b(2)] b64_digit_simps(3) [OF b(6)] by simp
next
  case (4 a b c cs)
  note b = b64_bits [OF char_code_bound [of a] char_code_bound [of b] char_code_bound [of c]]
  show ?case unfolding b64encode.simps Let_def
    using b64_digit_simps(2,3) [OF b(1)] b64_digit_simps(3) [OF b(2)] b64_digit_simps(3) [OF b(3)] b64_digit_simps(3) [OF b(4)] 4 by simp
qed simp

text \<open>Bytes that were encoded decode to themselves, strictly or not.\<close>

theorem b64_roundtrip: "b64decode strict (b64encode s) = Some s"
  using b64_encoded_ascii [of s] by (cases "s = []") (simp_all add: b64decode_def b64_scan_encoded)

lemma b64_samples:
  "b64decode False ''AA==A'' = Some [CHR 0x00]" "b64decode True ''AA==A'' = None" "b64decode False ''AA=A'' = None"
  "b64decode True ''AAAA='' = Some [CHR 0x00, CHR 0x00, CHR 0x00]" "b64decode False ''===='' = Some []"
  by code_simp+

end
