(* ===== verification/Secrets.thy ===== *)
theory Secrets
  imports Base64 Inventory
begin

text \<open>
  Stored credentials: the record (\<open>nanoinfra/secrets/types.py\<close>), the check of a payload (\<open>normalize.py\<close>), the store
  with its two places (\<open>store.py\<close>, \<open>postgres_backend.py\<close>) and the writer that runs in the executor for the account
  that may not write (\<open>gates/executor/secret_writes.py\<close>). The cipher is a parameter, as Fernet is a library; the
  database is a dictionary of rows and a state of the connection.
\<close>

section \<open>Records\<close>

record secret =
  sec_id :: string
  sec_name :: string
  sec_kind :: string
  sec_provider :: string
  sec_cipher :: string
  sec_created :: string
  sec_updated :: string

definition secret_dict :: "secret \<Rightarrow> (string \<times> jval) list" where
  "secret_dict s =
     [(''id'', JStr (sec_id s)), (''name'', JStr (sec_name s)), (''kind'', JStr (sec_kind s)), (''providerId'', JStr (sec_provider s)),
      (''ciphertext'', JStr (b64encode (sec_cipher s))), (''createdAt'', JStr (sec_created s)), (''updatedAt'', JStr (sec_updated s))]"

definition public_dict :: "secret \<Rightarrow> (string \<times> jval) list" where
  "public_dict s =
     [(''id'', JStr (sec_id s)), (''name'', JStr (sec_name s)), (''kind'', JStr (sec_kind s)), (''providerId'', JStr (sec_provider s)),
      (''createdAt'', JStr (sec_created s)), (''updatedAt'', JStr (sec_updated s))]"

text \<open>\<open>from_storage_dict\<close>; none for the \<open>KeyError\<close>, \<open>TypeError\<close> or \<open>ValueError\<close> it raises.\<close>

definition secret_of_dict :: "(jval \<Rightarrow> string) \<Rightarrow> jval \<Rightarrow> secret option" where
  "secret_of_dict repr v =
     (case v of
        JObj d \<Rightarrow>
          (case (map_of d ''id'', map_of d ''name'', map_of d ''kind'', map_of d ''providerId'', map_of d ''ciphertext'',
                 map_of d ''createdAt'', map_of d ''updatedAt'') of
             (Some i, Some n, Some k, Some p, Some c, Some cr, Some up) \<Rightarrow>
               map_option (\<lambda>bytes. \<lparr>sec_id = str_of repr i, sec_name = str_of repr n, sec_kind = str_of repr k,
                   sec_provider = str_of repr p, sec_cipher = bytes, sec_created = str_of repr cr, sec_updated = str_of repr up\<rparr>)
                 (b64decode False (str_of repr c))
           | _ \<Rightarrow> None)
      | _ \<Rightarrow> None)"


section \<open>The check of a payload\<close>

datatype secret_error =
    SecretNotObject | SecretNoName | BadKind string | BadSecretProvider string | NoValue
  | PublicKey | NotPrivateKey string | NoLineBreaks
  | SecretNameTaken string

definition VALID_KINDS :: "string list" where "VALID_KINDS = [''password'', ''api_key'', ''ssh_key'', ''token'']"
definition SECRET_PROVIDERS :: "string list" where "SECRET_PROVIDERS = [''local'', ''postgres'']"
definition MAX_SECRET_NAME :: nat where "MAX_SECRET_NAME = 120"
definition PUBLIC_KEY_PREFIXES :: "string list" where "PUBLIC_KEY_PREFIXES = [''ssh-'', ''ecdsa-'', ''sk-'', ''sk-ssh-'']"

definition check_private_key :: "string \<Rightarrow> secret_error option" where
  "check_private_key value =
     (let text = strip value; first_word = (case split_words text of [] \<Rightarrow> [] | w # _ \<Rightarrow> w)
      in if list_ex (\<lambda>p. starts_with p first_word) PUBLIC_KEY_PREFIXES then Some PublicKey
         else if \<not> starts_with ''-----BEGIN'' text then Some (NotPrivateKey (take 24 first_word))
         else if CHR 0x0A \<notin> set text then Some NoLineBreaks else None)"

definition normalize_secret :: "(jval \<Rightarrow> string) \<Rightarrow> jval \<Rightarrow> string \<Rightarrow> secret_error + secret \<times> string" where
  "normalize_secret repr raw sid =
     (case raw of
        JObj p \<Rightarrow>
          (let name = strip (str_or_blank repr (jget p ''name'')); kind = str_or_blank repr (jget p ''kind'');
               provider = str_or_blank repr (jget p ''providerId'')
           in if name = [] then Inl SecretNoName
              else if kind \<notin> set VALID_KINDS then Inl (BadKind kind)
              else if provider \<notin> set SECRET_PROVIDERS then Inl (BadSecretProvider provider)
              else (case jget p ''value'' of
                      JStr (c # cs) \<Rightarrow>
                        (case (if kind = ''ssh_key'' then check_private_key (c # cs) else None) of
                           Some e \<Rightarrow> Inl e
                         | None \<Rightarrow> Inr (\<lparr>sec_id = sid, sec_name = take MAX_SECRET_NAME name, sec_kind = kind, sec_provider = provider,
                                        sec_cipher = [], sec_created = [], sec_updated = []\<rparr>, c # cs))
                    | _ \<Rightarrow> Inl NoValue))
      | _ \<Rightarrow> Inl SecretNotObject)"


section \<open>The two places\<close>

text \<open>
  A file may be refused to this account, may not parse, or may not be UTF-8. The flags of the environment are for
  the directory: that it can be searched and that it can be written.
\<close>

datatype secret_file = FileJson jval | FileRefused | FileBroken | FileNotText
datatype pg_state = PgOff | PgNoDriver | PgDown | PgUp

record secret_store =
  ses_files :: "(string, secret_file) dict"
  ses_rows :: "(string, secret) dict"

record secret_env =
  sev_reads :: bool
  sev_writes :: bool
  sev_pg :: pg_state
  sev_key :: bool
  sev_encrypt :: "string \<Rightarrow> string"
  sev_decrypt :: "string \<Rightarrow> string option"

datatype secret_fault =
    StoreUnreadable | BadFileText | PgUnavailable | PgNotConfigured | NoDriver | KeyNotConfigured | WrongToken | BadSecretId
  | InvalidSecret secret_error

definition valid_secret_id :: "string \<Rightarrow> bool" where
  "valid_secret_id s = valid_server_id s"

definition pg_ready :: "secret_env \<Rightarrow> secret_fault + unit" where
  "pg_ready env =
     (case sev_pg env of PgOff \<Rightarrow> Inl PgNotConfigured | PgNoDriver \<Rightarrow> Inl NoDriver | PgDown \<Rightarrow> Inl PgUnavailable | PgUp \<Rightarrow> Inr ())"

definition pg_get :: "secret_env \<Rightarrow> secret_store \<Rightarrow> string \<Rightarrow> secret_fault + secret option" where
  "pg_get env st sid = map_sum id (\<lambda>_. dict_get (ses_rows st) sid) (pg_ready env)"

text \<open>A second row of one id violates the primary key, which is a failed query.\<close>

definition pg_create :: "secret_env \<Rightarrow> secret \<Rightarrow> secret_store \<Rightarrow> secret_fault + secret_store" where
  "pg_create env s st =
     (case pg_ready env of
        Inl e \<Rightarrow> Inl e
      | Inr _ \<Rightarrow> if dict_get (ses_rows st) (sec_id s) \<noteq> None then Inl PgUnavailable
                 else Inr (st\<lparr>ses_rows := dict_set (sec_id s) (s\<lparr>sec_provider := ''postgres''\<rparr>) (ses_rows st)\<rparr>))"

definition pg_update :: "secret_env \<Rightarrow> secret \<Rightarrow> secret_store \<Rightarrow> secret_fault + secret_store" where
  "pg_update env s st =
     (case pg_ready env of
        Inl e \<Rightarrow> Inl e
      | Inr _ \<Rightarrow> Inr (case dict_get (ses_rows st) (sec_id s) of
            None \<Rightarrow> st
          | Some r \<Rightarrow> st\<lparr>ses_rows := dict_set (sec_id s) (r\<lparr>sec_name := sec_name s, sec_kind := sec_kind s, sec_cipher := sec_cipher s,
                                                       sec_updated := sec_updated s\<rparr>) (ses_rows st)\<rparr>))"

definition pg_delete :: "secret_env \<Rightarrow> string \<Rightarrow> secret_store \<Rightarrow> secret_fault + bool \<times> secret_store" where
  "pg_delete env sid st =
     (case pg_ready env of
        Inl e \<Rightarrow> Inl e
      | Inr _ \<Rightarrow> Inr (dict_get (ses_rows st) sid \<noteq> None, st\<lparr>ses_rows := dict_del sid (ses_rows st)\<rparr>))"

definition read_local :: "(jval \<Rightarrow> string) \<Rightarrow> secret_env \<Rightarrow> secret_store \<Rightarrow> string \<Rightarrow> secret_fault + secret option" where
  "read_local repr env st sid =
     (if \<not> valid_secret_id sid then Inr None
      else if \<not> sev_reads env then Inl StoreUnreadable
      else (case dict_get (ses_files st) sid of
              None \<Rightarrow> Inr None
            | Some FileRefused \<Rightarrow> Inl StoreUnreadable
            | Some FileBroken \<Rightarrow> Inr None
            | Some FileNotText \<Rightarrow> Inl BadFileText
            | Some (FileJson v) \<Rightarrow> Inr (secret_of_dict repr v)))"

fun read_each :: "(jval \<Rightarrow> string) \<Rightarrow> secret_env \<Rightarrow> secret_store \<Rightarrow> string list \<Rightarrow> secret_fault + secret list" where
  "read_each repr env st [] = Inr []"
| "read_each repr env st (k # ks) =
     (case read_local repr env st k of
        Inl e \<Rightarrow> Inl e
      | Inr x \<Rightarrow> map_sum id (\<lambda>rest. (case x of None \<Rightarrow> rest | Some s \<Rightarrow> s # rest)) (read_each repr env st ks))"

definition list_local :: "(jval \<Rightarrow> string) \<Rightarrow> secret_env \<Rightarrow> secret_store \<Rightarrow> secret_fault + secret list" where
  "list_local repr env st =
     (if \<not> sev_reads env then Inl StoreUnreadable else read_each repr env st (dict_keys (ses_files st)))"

text \<open>An unreachable database leaves the local secrets.\<close>

definition list_secrets :: "(jval \<Rightarrow> string) \<Rightarrow> secret_env \<Rightarrow> secret_store \<Rightarrow> secret_fault + secret list" where
  "list_secrets repr env st =
     (case list_local repr env st of
        Inl e \<Rightarrow> Inl e
      | Inr local \<Rightarrow>
          map_sum id (\<lambda>rows. rev (sort_key sec_updated (rev (local @ rows))))
            (case sev_pg env of
               PgOff \<Rightarrow> Inr []
             | PgDown \<Rightarrow> Inr []
             | PgNoDriver \<Rightarrow> Inl NoDriver
             | PgUp \<Rightarrow> Inr (dict_values (ses_rows st))))"

definition secret_get :: "(jval \<Rightarrow> string) \<Rightarrow> secret_env \<Rightarrow> secret_store \<Rightarrow> string \<Rightarrow> secret_fault + secret option" where
  "secret_get repr env st sid =
     (case read_local repr env st sid of
        Inl e \<Rightarrow> Inl e
      | Inr (Some s) \<Rightarrow> Inr (Some s)
      | Inr None \<Rightarrow>
          (if \<not> valid_secret_id sid then Inr None
           else if sev_pg env = PgOff then Inr None else pg_get env st sid))"

definition check_secret_name ::
  "(jval \<Rightarrow> string) \<Rightarrow> secret_env \<Rightarrow> secret_store \<Rightarrow> string \<Rightarrow> string option \<Rightarrow> secret_fault + unit" where
  "check_secret_name repr env st name excl =
     (case list_secrets repr env st of
        Inl e \<Rightarrow> Inl e
      | Inr ss \<Rightarrow>
          (if list_ex (\<lambda>s. excl \<noteq> Some (sec_id s) \<and> lower (sec_name s) = lower name) ss
           then Inl (InvalidSecret (SecretNameTaken name)) else Inr ()))"

definition secret_build ::
  "(jval \<Rightarrow> string) \<Rightarrow> secret_env \<Rightarrow> secret_store \<Rightarrow> string \<Rightarrow> string option \<Rightarrow> jval \<Rightarrow> secret_fault + secret" where
  "secret_build repr env st sid excl raw =
     (case normalize_secret repr raw sid of
        Inl e \<Rightarrow> Inl (InvalidSecret e)
      | Inr (s, plain) \<Rightarrow>
          (case check_secret_name repr env st (sec_name s) excl of
             Inl e \<Rightarrow> Inl e
           | Inr _ \<Rightarrow> if \<not> sev_key env then Inl KeyNotConfigured else Inr (s\<lparr>sec_cipher := sev_encrypt env plain\<rparr>)))"

definition build_create where
  "build_create repr env st sid now raw =
     map_sum id (\<lambda>s. s\<lparr>sec_created := now, sec_updated := now\<rparr>) (secret_build repr env st sid None raw)"

definition build_update ::
  "(jval \<Rightarrow> string) \<Rightarrow> secret_env \<Rightarrow> secret_store \<Rightarrow> string \<Rightarrow> string \<Rightarrow> jval \<Rightarrow> secret_fault + secret option" where
  "build_update repr env st sid now raw =
     (case secret_get repr env st sid of
        Inl e \<Rightarrow> Inl e
      | Inr None \<Rightarrow> Inr None
      | Inr (Some existing) \<Rightarrow>
          map_sum id (\<lambda>s. Some (s\<lparr>sec_created := sec_created existing, sec_updated := now, sec_provider := sec_provider existing\<rparr>))
            (secret_build repr env st sid (Some sid) raw))"

definition write_local :: "secret_env \<Rightarrow> secret \<Rightarrow> secret_store \<Rightarrow> secret_fault + secret_store" where
  "write_local env s st =
     (if \<not> valid_secret_id (sec_id s) then Inl BadSecretId
      else if \<not> sev_writes env then Inl StoreUnreadable
      else Inr (st\<lparr>ses_files := dict_set (sec_id s) (FileJson (JObj (secret_dict s))) (ses_files st)\<rparr>))"

definition write_record :: "secret_env \<Rightarrow> secret \<Rightarrow> secret_store \<Rightarrow> secret_fault + secret_store" where
  "write_record env s st = (if sec_provider s = ''postgres'' then pg_create env s st else write_local env s st)"

definition write_update :: "secret_env \<Rightarrow> secret \<Rightarrow> secret_store \<Rightarrow> secret_fault + secret_store" where
  "write_update env s st = (if sec_provider s = ''postgres'' then pg_update env s st else write_local env s st)"

text \<open>\<open>sid\<close> is the fresh \<open>uuid4().hex\<close>, \<open>now\<close> the clock.\<close>

definition secret_create where
  "secret_create repr env st sid now raw =
     (case build_create repr env st sid now raw of
        Inl e \<Rightarrow> Inl e
      | Inr s \<Rightarrow> map_sum id (\<lambda>st'. (s, st')) (write_record env s st))"

definition secret_update where
  "secret_update repr env st sid now raw =
     (case build_update repr env st sid now raw of
        Inl e \<Rightarrow> Inl e
      | Inr None \<Rightarrow> Inr (None, st)
      | Inr (Some s) \<Rightarrow> map_sum id (\<lambda>st'. (Some s, st')) (write_update env s st))"

definition secret_delete :: "secret_env \<Rightarrow> secret_store \<Rightarrow> string \<Rightarrow> secret_fault + bool \<times> secret_store" where
  "secret_delete env st sid =
     (if valid_secret_id sid \<and> sev_reads env \<and> dict_get (ses_files st) sid \<noteq> None then
        (if sev_writes env then Inr (True, st\<lparr>ses_files := dict_del sid (ses_files st)\<rparr>) else Inl StoreUnreadable)
      else if \<not> valid_secret_id sid \<or> sev_pg env = PgOff then Inr (False, st)
      else pg_delete env sid st)"

definition resolve_plaintext :: "(jval \<Rightarrow> string) \<Rightarrow> secret_env \<Rightarrow> secret_store \<Rightarrow> string \<Rightarrow> secret_fault + string option" where
  "resolve_plaintext repr env st sid =
     (case secret_get repr env st sid of
        Inl e \<Rightarrow> Inl e
      | Inr None \<Rightarrow> Inr None
      | Inr (Some s) \<Rightarrow>
          (if \<not> sev_key env then Inl KeyNotConfigured
           else (case sev_decrypt env (sec_cipher s) of None \<Rightarrow> Inl WrongToken | Some p \<Rightarrow> Inr (Some p))))"


section \<open>The writer in the executor\<close>

record secret_write =
  swq_verb :: string
  swq_id :: string
  swq_name :: string
  swq_kind :: string
  swq_provider :: string
  swq_cipher :: string
  swq_created :: string
  swq_updated :: string

datatype write_reason =
    BadVerb string | NoMatch string | NothingToUpdate string | AlreadyExists string | NeedsName | NotBase64 | EmptyCipher
  | CipherTooLarge nat | DeleteRefused | WriteRefused | WriteInvalid | DeletedSecret string | NothingDeleted | Wrote string string

record write_response =
  swr_ok :: bool
  swr_output :: string
  swr_exit :: "int option"
  swr_reason :: write_reason

definition SECRET_VERBS :: "string list" where "SECRET_VERBS = [''create'', ''update'', ''delete'']"
definition MAX_CIPHERTEXT_BYTES :: nat where "MAX_CIPHERTEXT_BYTES = 256 * 1024"

definition write_refusal :: "write_reason \<Rightarrow> write_response" where
  "write_refusal r = \<lparr>swr_ok = False, swr_output = [], swr_exit = None, swr_reason = r\<rparr>"

definition write_answer :: "string \<Rightarrow> write_reason \<Rightarrow> write_response" where
  "write_answer sid r = \<lparr>swr_ok = True, swr_output = sid, swr_exit = Some 0, swr_reason = r\<rparr>"

definition written_record :: "secret_write \<Rightarrow> secret option \<Rightarrow> string \<Rightarrow> secret" where
  "written_record q existing bytes =
     \<lparr>sec_id = swq_id q, sec_name = swq_name q, sec_kind = swq_kind q,
      sec_provider = (if swq_provider q = [] then ''local'' else swq_provider q), sec_cipher = bytes,
      sec_created = (if swq_created q \<noteq> [] then swq_created q else case existing of None \<Rightarrow> [] | Some s \<Rightarrow> sec_created s),
      sec_updated = swq_updated q\<rparr>"

definition handle_secret_delete where
  "handle_secret_delete env st q existing =
     (if existing = (None :: secret option) then (Inr (write_refusal (NoMatch (swq_id q))), st)
      else (case secret_delete env st (swq_id q) of
              Inl StoreUnreadable \<Rightarrow> (Inr (write_refusal DeleteRefused), st)
            | Inl e \<Rightarrow> (Inl e, st)
            | Inr (True, st') \<Rightarrow> (Inr (write_answer (swq_id q) (DeletedSecret (swq_id q))), st')
            | Inr (False, st') \<Rightarrow> (Inr \<lparr>swr_ok = False, swr_output = swq_id q, swr_exit = None, swr_reason = NothingDeleted\<rparr>, st')))"

definition handle_secret_record where
  "handle_secret_record env st q existing =
     (if strip (swq_name q) = [] then (Inr (write_refusal NeedsName), st)
      else (case b64decode True (swq_cipher q) of
              None \<Rightarrow> (Inr (write_refusal NotBase64), st)
            | Some bytes \<Rightarrow>
                (if bytes = [] then (Inr (write_refusal EmptyCipher), st)
                 else if MAX_CIPHERTEXT_BYTES < length bytes then (Inr (write_refusal (CipherTooLarge (length bytes))), st)
                 else (case (if swq_verb q = ''create'' then write_record env (written_record q existing bytes) st
                             else write_update env (written_record q existing bytes) st) of
                         Inl StoreUnreadable \<Rightarrow> (Inr (write_refusal WriteRefused), st)
                       | Inl BadSecretId \<Rightarrow> (Inr (write_refusal WriteInvalid), st)
                       | Inl e \<Rightarrow> (Inl e, st)
                       | Inr st' \<Rightarrow> (Inr (write_answer (swq_id q) (Wrote (swq_verb q) (swq_id q))), st')))))"

definition handle_secret_write ::
  "(jval \<Rightarrow> string) \<Rightarrow> secret_env \<Rightarrow> secret_store \<Rightarrow> secret_write \<Rightarrow> (secret_fault + write_response) \<times> secret_store" where
  "handle_secret_write repr env st q =
     (if swq_verb q \<notin> set SECRET_VERBS then (Inr (write_refusal (BadVerb (swq_verb q))), st)
      else (case secret_get repr env st (swq_id q) of
              Inl e \<Rightarrow> (Inl e, st)
            | Inr existing \<Rightarrow>
                (if swq_verb q = ''delete'' then handle_secret_delete env st q existing
                 else if swq_verb q = ''update'' \<and> existing = None then (Inr (write_refusal (NothingToUpdate (swq_id q))), st)
                 else if swq_verb q = ''create'' \<and> existing \<noteq> None then (Inr (write_refusal (AlreadyExists (swq_id q))), st)
                 else handle_secret_record env st q existing)))"


section \<open>What a written record reads\<close>

lemma secret_of_secret_dict [simp]: "secret_of_dict repr (JObj (secret_dict s)) = Some s"
  by (simp add: secret_of_dict_def secret_dict_def b64_roundtrip)

lemma normalized:
  assumes "normalize_secret repr raw sid = Inr (s, plain)"
  shows "sec_id s = sid" "\<exists>p. raw = JObj p \<and> jget p ''value'' = JStr plain" "plain \<noteq> []"
    "sec_kind s = ''ssh_key'' \<Longrightarrow> check_private_key plain = None" "sec_provider s \<in> {''local'', ''postgres''}"
  using assms
  by (auto simp: normalize_secret_def Let_def SECRET_PROVIDERS_def split: jval.splits if_splits list.splits option.splits)

lemma built:
  assumes "secret_build repr env st sid excl raw = Inr s"
  obtains s0 plain where "normalize_secret repr raw sid = Inr (s0, plain)" "check_secret_name repr env st (sec_name s) excl = Inr ()"
    "sev_key env" "s = s0\<lparr>sec_cipher := sev_encrypt env plain\<rparr>"
  using assms by (auto simp: secret_build_def split: sum.splits prod.splits if_splits)

text \<open>A stored credential comes back: what is created under a fresh id resolves to the value of the payload, from
  either place, where the cipher decrypts what it encrypted.\<close>

theorem secret_roundtrip:
  assumes "secret_create repr env st sid now raw = Inr (s, st')" "\<And>p. sev_decrypt env (sev_encrypt env p) = Some p"
    and "dict_get (ses_files st) sid = None" "valid_secret_id sid" "sev_reads env"
  shows "\<exists>p v. raw = JObj p \<and> jget p ''value'' = JStr v \<and> resolve_plaintext repr env st' sid = Inr (Some v)"
proof -
  from assms(1) obtain s1 where b: "secret_build repr env st sid None raw = Inr s1" "s = s1\<lparr>sec_created := now, sec_updated := now\<rparr>"
    and w: "write_record env s st = Inr st'"
    by (auto simp: secret_create_def build_create_def map_sum_def split: sum.splits)
  from b(1) obtain s0 plain where n: "normalize_secret repr raw sid = Inr (s0, plain)" and k: "sev_key env" and s1: "s1 = s0\<lparr>sec_cipher := sev_encrypt env plain\<rparr>"
    by (rule built)
  from normalized [OF n] b(2) s1 have s: "sec_id s = sid" "sec_cipher s = sev_encrypt env plain" by simp_all
  have "\<exists>r. secret_get repr env st' sid = Inr (Some r) \<and> sec_cipher r = sec_cipher s"
  proof (cases "sec_provider s = ''postgres''")
    case True
    with w s assms(3-5) show ?thesis
      by (auto simp: write_record_def pg_create_def secret_get_def read_local_def pg_get_def pg_ready_def split: pg_state.splits if_splits)
  next
    case False
    with w s assms(3-5) show ?thesis
      by (auto simp: write_record_def write_local_def secret_get_def read_local_def split: if_splits)
  qed
  with k s(2) assms(2) normalized(2) [OF n] show ?thesis by (auto simp: resolve_plaintext_def)
qed

text \<open>An edit stays where the record is: it keeps the id, the place and the time of creation, whatever the payload says.\<close>

theorem secret_update_stays:
  assumes "secret_update repr env st sid now raw = Inr (Some s, st')"
  shows "\<exists>old. secret_get repr env st sid = Inr (Some old) \<and> sec_id s = sid \<and> sec_provider s = sec_provider old \<and>
    sec_created s = sec_created old \<and> sec_updated s = now \<and>
    (if sec_provider old = ''postgres'' then ses_files st' = ses_files st else ses_rows st' = ses_rows st)"
proof -
  from assms obtain old s1 where o: "secret_get repr env st sid = Inr (Some old)" "secret_build repr env st sid (Some sid) raw = Inr s1"
    "s = s1\<lparr>sec_created := sec_created old, sec_updated := now, sec_provider := sec_provider old\<rparr>" and w: "write_update env s st = Inr st'"
    by (auto simp: secret_update_def build_update_def map_sum_def split: sum.splits option.splits)
  from o(2) obtain s0 plain where "normalize_secret repr raw sid = Inr (s0, plain)" "s1 = s0\<lparr>sec_cipher := sev_encrypt env plain\<rparr>" by (rule built)
  with normalized(1) have "sec_id s1 = sid" by fastforce
  moreover have "if sec_provider s = ''postgres'' then ses_files st' = ses_files st else ses_rows st' = ses_rows st"
    using w by (auto simp: write_update_def pg_update_def write_local_def split: if_splits sum.splits option.splits)
  ultimately show ?thesis using o by simp
qed


section \<open>One name, one secret\<close>

text \<open>The secrets of both places, each under its key.\<close>

definition secret_holds :: "(jval \<Rightarrow> string) \<Rightarrow> secret_store \<Rightarrow> string \<Rightarrow> secret \<Rightarrow> bool" where
  "secret_holds repr st k s \<longleftrightarrow>
     (\<exists>v. dict_get (ses_files st) k = Some (FileJson v) \<and> secret_of_dict repr v = Some s) \<or> dict_get (ses_rows st) k = Some s"

definition secrets_ok :: "(jval \<Rightarrow> string) \<Rightarrow> pg_state \<Rightarrow> secret_store \<Rightarrow> bool" where
  "secrets_ok repr pg st \<longleftrightarrow>
     dict_ok (ses_files st) \<and> dict_ok (ses_rows st) \<and> (pg \<noteq> PgUp \<longrightarrow> ses_rows st = []) \<and>
     (\<forall>k \<in> set (dict_keys (ses_files st)). valid_secret_id k \<and> dict_get (ses_rows st) k = None) \<and>
     (\<forall>k s. dict_get (ses_rows st) k = Some s \<longrightarrow> sec_provider s = ''postgres'') \<and>
     (\<forall>k s. secret_holds repr st k s \<longrightarrow> sec_id s = k) \<and>
     (\<forall>k k' s s'. secret_holds repr st k s \<longrightarrow> secret_holds repr st k' s' \<longrightarrow> lower (sec_name s) = lower (sec_name s') \<longrightarrow> k = k')"

datatype secret_op =
    CreateSecret string string jval
  | UpdateSecret string string jval
  | DeleteSecret string

definition secret_step :: "(jval \<Rightarrow> string) \<Rightarrow> secret_store \<Rightarrow> secret_env \<times> secret_op \<Rightarrow> secret_store" where
  "secret_step repr st x =
     (case x of
        (env, CreateSecret sid now raw) \<Rightarrow> (case secret_create repr env st sid now raw of Inl _ \<Rightarrow> st | Inr (_, st') \<Rightarrow> st')
      | (env, UpdateSecret sid now raw) \<Rightarrow> (case secret_update repr env st sid now raw of Inl _ \<Rightarrow> st | Inr (_, st') \<Rightarrow> st')
      | (env, DeleteSecret sid) \<Rightarrow> (case secret_delete env st sid of Inl _ \<Rightarrow> st | Inr (_, st') \<Rightarrow> st'))"

text \<open>The database answers throughout or is not used, and a new id is new.\<close>

definition secret_enabled :: "pg_state \<Rightarrow> secret_store \<Rightarrow> secret_env \<times> secret_op \<Rightarrow> bool" where
  "secret_enabled pg st x \<longleftrightarrow> sev_pg (fst x) = pg \<and> (pg = PgUp \<or> pg = PgOff) \<and>
     (case snd x of
        CreateSecret sid now raw \<Rightarrow> valid_secret_id sid \<and> dict_get (ses_files st) sid = None \<and> dict_get (ses_rows st) sid = None
      | _ \<Rightarrow> True)"

lemma read_each_all:
  assumes "read_each repr env st ks = Inr ss" "k \<in> set ks" "valid_secret_id k" "dict_get (ses_files st) k = Some (FileJson v)" "secret_of_dict repr v = Some s"
  shows "s \<in> set ss"
  using assms
proof (induction ks arbitrary: ss)
  case (Cons j ks)
  from Cons.prems(1) obtain x rest where r: "read_local repr env st j = Inr x" "read_each repr env st ks = Inr rest"
    "ss = (case x of None \<Rightarrow> rest | Some s \<Rightarrow> s # rest)"
    by (auto simp: map_sum_def split: sum.splits)
  show ?case
  proof (cases "k = j")
    case True
    with r(1) Cons.prems have "x = Some s" by (auto simp: read_local_def split: if_splits)
    with r(3) show ?thesis by simp
  next
    case False
    with Cons.IH [OF r(2)] Cons.prems r(3) show ?thesis by (cases x) auto
  qed
qed simp

lemma secret_name_free:
  assumes "secrets_ok repr pg st" "sev_pg env = pg" "pg = PgUp \<or> pg = PgOff" "check_secret_name repr env st name excl = Inr ()"
    "secret_holds repr st k s" "excl \<noteq> Some k"
  shows "lower (sec_name s) \<noteq> lower name"
proof -
  from assms(4) obtain ss where l: "list_secrets repr env st = Inr ss" "\<not> list_ex (\<lambda>s. excl \<noteq> Some (sec_id s) \<and> lower (sec_name s) = lower name) ss"
    by (auto simp: check_secret_name_def split: sum.splits if_splits)
  have "s \<in> set ss"
  proof -
    from l(1) obtain local where loc: "list_local repr env st = Inr local" and ss: "set ss = set local \<union> (if pg = PgUp then set (dict_values (ses_rows st)) else {})"
      using assms(2,3) by (auto simp: list_secrets_def map_sum_def Un_commute split: sum.splits pg_state.splits)
    from assms(5) consider v where "dict_get (ses_files st) k = Some (FileJson v)" "secret_of_dict repr v = Some s" | "dict_get (ses_rows st) k = Some s"
      unfolding secret_holds_def by blast
    then show ?thesis
    proof cases
      case (1 v)
      then have "k \<in> set (dict_keys (ses_files st))" using dict_get_None_keys by force
      with 1 loc assms(1) have "s \<in> set local"
        by (intro read_each_all) (auto simp: list_local_def secrets_ok_def split: if_splits)
      with ss show ?thesis by simp
    next
      case 2
      then have "s \<in> set (dict_values (ses_rows st))" by (force simp: dict_values_def dest: dict_get_SomeD)
      moreover from 2 assms(1) have "pg = PgUp" by (auto simp: secrets_ok_def)
      ultimately show ?thesis using ss by simp
    qed
  qed
  moreover have "sec_id s = k" using assms(1,5) by (simp add: secrets_ok_def)
  ultimately show ?thesis using l(2) assms(6) by (auto simp: list_ex_iff)
qed


text \<open>The ways a store changes: a record is put at its key in one of the places, or records go.\<close>

lemma no_file: "dict_get (ses_files st) k = None \<longleftrightarrow> k \<notin> set (dict_keys (ses_files st))"
  by (rule dict_get_None_keys)

lemma names_apart:
  assumes "secrets_ok repr pg st" "\<And>j s. H j s \<Longrightarrow> j = k \<and> s = n \<or> j \<noteq> k \<and> secret_holds repr st j s"
    "\<And>j s. secret_holds repr st j s \<Longrightarrow> j \<noteq> k \<Longrightarrow> lower (sec_name s) \<noteq> lower (sec_name n)"
    "H j s" "H j' s'" "lower (sec_name s) = lower (sec_name s')"
  shows "j = j'"
  using assms(2) [OF assms(4)] assms(2) [OF assms(5)] assms(1,3,6) unfolding secrets_ok_def by metis

lemma put_file_ok:
  assumes "secrets_ok repr pg st" "valid_secret_id k" "dict_get (ses_rows st) k = None" "sec_id n = k"
    "\<And>j s. secret_holds repr st j s \<Longrightarrow> j \<noteq> k \<Longrightarrow> lower (sec_name s) \<noteq> lower (sec_name n)"
  shows "secrets_ok repr pg (st\<lparr>ses_files := dict_set k (FileJson (JObj (secret_dict n))) (ses_files st)\<rparr>)" (is "secrets_ok repr pg ?st")
proof -
  have h: "j = k \<and> s = n \<or> j \<noteq> k \<and> secret_holds repr st j s" if "secret_holds repr ?st j s" for j s
    using that assms(3) by (auto simp: secret_holds_def split: if_splits)
  have "j = j'" if "secret_holds repr ?st j s" "secret_holds repr ?st j' s'" "lower (sec_name s) = lower (sec_name s')" for j j' s s'
    using names_apart [OF assms(1) h assms(5) that] .
  moreover have "sec_id s = j" if "secret_holds repr ?st j s" for j s using h [OF that] assms(1,4) by (auto simp: secrets_ok_def)
  moreover have "valid_secret_id j \<and> dict_get (ses_rows st) j = None" if "j \<in> set (dict_keys (ses_files ?st))" for j
    using that assms(1-3) by (auto simp: secrets_ok_def dict_keys_set)
  moreover have "dict_ok (ses_files ?st)" using assms(1) by (simp add: secrets_ok_def)
  ultimately show ?thesis using assms(1) unfolding secrets_ok_def by simp
qed

lemma put_row_ok:
  assumes "secrets_ok repr pg st" "dict_get (ses_files st) k = None" "pg = PgUp" "sec_id n = k" "sec_provider n = ''postgres''"
    "\<And>j s. secret_holds repr st j s \<Longrightarrow> j \<noteq> k \<Longrightarrow> lower (sec_name s) \<noteq> lower (sec_name n)"
  shows "secrets_ok repr pg (st\<lparr>ses_rows := dict_set k n (ses_rows st)\<rparr>)" (is "secrets_ok repr pg ?st")
proof -
  have h: "j = k \<and> s = n \<or> j \<noteq> k \<and> secret_holds repr st j s" if "secret_holds repr ?st j s" for j s
    using that assms(2) by (auto simp: secret_holds_def split: if_splits)
  have "j = j'" if "secret_holds repr ?st j s" "secret_holds repr ?st j' s'" "lower (sec_name s) = lower (sec_name s')" for j j' s s'
    using names_apart [OF assms(1) h assms(6) that] .
  moreover have "sec_id s = j" if "secret_holds repr ?st j s" for j s using h [OF that] assms(1,4) by (auto simp: secrets_ok_def)
  moreover have "valid_secret_id j \<and> dict_get (ses_rows ?st) j = None" if "j \<in> set (dict_keys (ses_files st))" for j
    using that assms(1,2) by (auto simp: secrets_ok_def no_file)
  moreover have "dict_ok (ses_rows ?st)" using assms(1) by (simp add: secrets_ok_def)
  moreover have "sec_provider s = ''postgres''" if "dict_get (ses_rows ?st) j = Some s" for j s
    using that assms(1,5) by (auto simp: secrets_ok_def split: if_splits)
  ultimately show ?thesis using assms(1,3) unfolding secrets_ok_def by simp
qed

lemma secret_create_ok:
  assumes "secrets_ok repr pg st" "secret_enabled pg st (env, CreateSecret sid now raw)" "secret_create repr env st sid now raw = Inr (s, st')"
  shows "secrets_ok repr pg st'"
proof -
  from assms(3) obtain s1 where b: "secret_build repr env st sid None raw = Inr s1" "s = s1\<lparr>sec_created := now, sec_updated := now\<rparr>"
    and w: "write_record env s st = Inr st'"
    by (auto simp: secret_create_def build_create_def map_sum_def split: sum.splits)
  from b(1) obtain s0 plain where n: "normalize_secret repr raw sid = Inr (s0, plain)" and c: "check_secret_name repr env st (sec_name s1) None = Inr ()"
    and s1: "s1 = s0\<lparr>sec_cipher := sev_encrypt env plain\<rparr>" by (rule built)
  have id: "sec_id s = sid" using normalized(1) [OF n] b(2) s1 by simp
  have pg: "sev_pg env = pg" "pg = PgUp \<or> pg = PgOff" and fresh: "valid_secret_id sid" "dict_get (ses_files st) sid = None" "dict_get (ses_rows st) sid = None"
    using assms(2) by (simp_all add: secret_enabled_def)
  have free: "lower (sec_name x) \<noteq> lower (sec_name s)" if "secret_holds repr st j x" for j x
    using secret_name_free [OF assms(1) pg c that] b(2) by simp
  show ?thesis
  proof (cases "sec_provider s = ''postgres''")
    case True
    with w id pg fresh have "st' = st\<lparr>ses_rows := dict_set sid (s\<lparr>sec_provider := ''postgres''\<rparr>) (ses_rows st)\<rparr>" "pg = PgUp"
      by (auto simp: write_record_def pg_create_def pg_ready_def split: if_splits)
    with put_row_ok [OF assms(1) fresh(2), of "s\<lparr>sec_provider := ''postgres''\<rparr>"] id free show ?thesis by simp
  next
    case False
    with w id have "st' = st\<lparr>ses_files := dict_set sid (FileJson (JObj (secret_dict s))) (ses_files st)\<rparr>"
      by (auto simp: write_record_def write_local_def split: if_splits)
    with put_file_ok [OF assms(1) fresh(1,3) id] free show ?thesis by simp
  qed
qed

lemma secret_get_holds:
  assumes "secret_get repr env st sid = Inr (Some s)" shows "secret_holds repr st sid s"
  using assms
  by (auto simp: secret_get_def read_local_def pg_get_def pg_ready_def secret_holds_def split: sum.splits option.splits if_splits secret_file.splits pg_state.splits)

lemma secret_update_ok:
  assumes "secrets_ok repr pg st" "sev_pg env = pg" "pg = PgUp \<or> pg = PgOff" "secret_update repr env st sid now raw = Inr (r, st')"
  shows "secrets_ok repr pg st'"
proof (cases r)
  case None
  with assms show ?thesis by (auto simp: secret_update_def map_sum_def split: sum.splits option.splits)
next
  case (Some s)
  with assms(4) obtain old s1 where o: "secret_get repr env st sid = Inr (Some old)" "secret_build repr env st sid (Some sid) raw = Inr s1"
    "s = s1\<lparr>sec_created := sec_created old, sec_updated := now, sec_provider := sec_provider old\<rparr>" and w: "write_update env s st = Inr st'"
    by (auto simp: secret_update_def build_update_def map_sum_def split: sum.splits option.splits)
  from o(2) obtain s0 plain where n: "normalize_secret repr raw sid = Inr (s0, plain)" and c: "check_secret_name repr env st (sec_name s1) (Some sid) = Inr ()"
    and s1: "s1 = s0\<lparr>sec_cipher := sev_encrypt env plain\<rparr>" by (rule built)
  have id: "sec_id s = sid" using normalized(1) [OF n] o(3) s1 by simp
  have old: "secret_holds repr st sid old" using secret_get_holds [OF o(1)] .
  have free: "lower (sec_name x) \<noteq> lower (sec_name s)" if "secret_holds repr st j x" "j \<noteq> sid" for j x
    using secret_name_free [OF assms(1-3) c that(1)] that(2) o(3) by simp
  show ?thesis
  proof (cases "sec_provider s = ''postgres''")
    case True
    show ?thesis
    proof (cases "dict_get (ses_rows st) sid")
      case None
      with True w id have "st' = st" by (auto simp: write_update_def pg_update_def split: sum.splits)
      with assms(1) show ?thesis by simp
    next
      case (Some row)
      with assms(1) have row: "sec_id row = sid" "pg = PgUp" "sec_provider row = ''postgres''" by (auto simp: secrets_ok_def secret_holds_def)
      let ?n = "row\<lparr>sec_name := sec_name s, sec_kind := sec_kind s, sec_cipher := sec_cipher s, sec_updated := sec_updated s\<rparr>"
      from Some True w id have "st' = st\<lparr>ses_rows := dict_set sid ?n (ses_rows st)\<rparr>"
        by (auto simp: write_update_def pg_update_def split: sum.splits)
      moreover have "dict_get (ses_files st) sid = None" using assms(1) Some by (auto simp: secrets_ok_def no_file)
      ultimately show ?thesis using put_row_ok [OF assms(1), of sid ?n] row free by simp
    qed
  next
    case False
    with w id have st': "st' = st\<lparr>ses_files := dict_set sid (FileJson (JObj (secret_dict s))) (ses_files st)\<rparr>" "valid_secret_id sid"
      by (auto simp: write_update_def write_local_def split: if_splits)
    have "dict_get (ses_rows st) sid = None"
    proof (rule ccontr)
      assume "dict_get (ses_rows st) sid \<noteq> None"
      then obtain row where row: "dict_get (ses_rows st) sid = Some row" by blast
      with assms(1) have "sec_provider row = ''postgres''" "dict_get (ses_files st) sid = None" by (auto simp: secrets_ok_def no_file)
      moreover from this row o(1) have "old = row"
        by (auto simp: secret_get_def read_local_def pg_get_def pg_ready_def split: if_splits pg_state.splits)
      ultimately show False using o(3) False by simp
    qed
    from put_file_ok [OF assms(1) st'(2) this id] st'(1) free show ?thesis by simp
  qed
qed

lemma secret_delete_ok:
  assumes "secrets_ok repr pg st" "secret_delete env st sid = Inr (b, st')"
  shows "secrets_ok repr pg st'"
proof -
  from assms(2) consider "st' = st" | "st' = st\<lparr>ses_files := dict_del sid (ses_files st)\<rparr>" | "st' = st\<lparr>ses_rows := dict_del sid (ses_rows st)\<rparr>"
    by (auto simp: secret_delete_def pg_delete_def split: if_splits sum.splits)
  then show ?thesis
  proof cases
    case 2
    have h: "secret_holds repr st j s" if "secret_holds repr st' j s" for j s using that by (auto simp: 2 secret_holds_def split: if_splits)
    have "dict_ok (ses_files st')" using assms(1) by (simp add: 2 secrets_ok_def)
    with h assms(1) show ?thesis by (auto simp: 2 secrets_ok_def dict_keys_del) metis+
  next
    case 3
    have h: "secret_holds repr st j s" if "secret_holds repr st' j s" for j s using that by (auto simp: 3 secret_holds_def split: if_splits)
    have "dict_ok (ses_rows st')" "pg \<noteq> PgUp \<longrightarrow> ses_rows st' = []"
      using assms(1) dict_ok_del [of "ses_rows st" sid] by (auto simp: 3 secrets_ok_def dict_del_def)
    with h assms(1) show ?thesis by (auto simp: 3 secrets_ok_def) metis+
  qed (use assms(1) in simp)
qed

interpretation secret_store: op_machine "secret_step repr" "secret_enabled pg" "secrets_ok repr pg"
proof
  fix st and x :: "secret_env \<times> secret_op"
  obtain env op where x: "x = (env, op)" by fastforce
  assume "secrets_ok repr pg st" "secret_enabled pg st x"
  then show "secrets_ok repr pg (secret_step repr st x)"
    by (cases op) (auto simp: x secret_step_def secret_enabled_def split: sum.splits
        intro: secret_create_ok secret_update_ok secret_delete_ok)
qed


section \<open>Properties\<close>

definition no_secrets :: secret_store where
  "no_secrets = \<lparr>ses_files = [], ses_rows = []\<rparr>"

lemma no_secrets_ok: "secrets_ok repr pg no_secrets"
  by (simp add: secrets_ok_def no_secrets_def secret_holds_def dict_keys_def)

text \<open>No two secrets share a name up to case, in whichever place they are: over every run of creations, edits and
  deletions through the store, where the database answers throughout or is not used.\<close>

theorem secret_names_unique:
  assumes "run_enabled (secret_step repr) (secret_enabled pg) no_secrets xs"
    and "secret_holds repr (foldl (secret_step repr) no_secrets xs) k s" "secret_holds repr (foldl (secret_step repr) no_secrets xs) k' s'"
    and "lower (sec_name s) = lower (sec_name s')"
  shows "k = k'"
  using secret_store.run_keeps [OF no_secrets_ok assms(1)] assms(2-4) unfolding secrets_ok_def by blast

lemma write_record_other:
  "write_record env s st = Inr st' \<Longrightarrow> k \<noteq> sec_id s \<Longrightarrow>
     dict_get (ses_files st') k = dict_get (ses_files st) k \<and> dict_get (ses_rows st') k = dict_get (ses_rows st) k"
  "write_update env s st = Inr st' \<Longrightarrow> k \<noteq> sec_id s \<Longrightarrow>
     dict_get (ses_files st') k = dict_get (ses_files st) k \<and> dict_get (ses_rows st') k = dict_get (ses_rows st) k"
  by (auto simp: write_record_def write_update_def pg_create_def pg_update_def write_local_def split: if_splits sum.splits option.splits)

lemma delete_other:
  "secret_delete env st sid = Inr (b, st') \<Longrightarrow> k \<noteq> sid \<Longrightarrow>
     dict_get (ses_files st') k = dict_get (ses_files st) k \<and> dict_get (ses_rows st') k = dict_get (ses_rows st) k"
  "secret_delete env st sid = Inr (False, st') \<Longrightarrow> st' = st"
  by (auto simp: secret_delete_def pg_delete_def dict_del_def dict_get_def map_of_eq_None_iff delete_idem split: if_splits sum.splits)

lemma handle_delete:
  assumes "handle_secret_delete env st q existing = (x, st')"
  shows "k \<noteq> swq_id q \<Longrightarrow> dict_get (ses_files st') k = dict_get (ses_files st) k \<and> dict_get (ses_rows st') k = dict_get (ses_rows st) k"
    "x = Inr r \<Longrightarrow> swr_ok r \<Longrightarrow> existing \<noteq> None" "st' = st \<or> (\<exists>r. x = Inr r \<and> swr_ok r)"
  using assms delete_other(1) [where env = env and st = st and sid = "swq_id q" and k = k] delete_other(2) [where env = env and st = st and sid = "swq_id q"]
  by (auto simp: handle_secret_delete_def write_refusal_def write_answer_def split: if_splits sum.splits prod.splits bool.splits secret_fault.splits)

lemma handle_record:
  assumes "handle_secret_record env st q existing = (x, st')"
  shows "k \<noteq> swq_id q \<Longrightarrow> dict_get (ses_files st') k = dict_get (ses_files st) k \<and> dict_get (ses_rows st') k = dict_get (ses_rows st) k"
    "x = Inr r \<Longrightarrow> swr_ok r \<Longrightarrow> strip (swq_name q) \<noteq> [] \<and>
       (\<exists>bytes. b64decode True (swq_cipher q) = Some bytes \<and> bytes \<noteq> [] \<and> length bytes \<le> MAX_CIPHERTEXT_BYTES \<and>
          (if swq_verb q = ''create'' then write_record env (written_record q existing bytes) st
           else write_update env (written_record q existing bytes) st) = Inr st')"
    "st' = st \<or> (\<exists>r. x = Inr r \<and> swr_ok r)"
proof -
  have id: "sec_id (written_record q existing bytes) = swq_id q" for bytes by (simp add: written_record_def)
  show "k \<noteq> swq_id q \<Longrightarrow> dict_get (ses_files st') k = dict_get (ses_files st) k \<and> dict_get (ses_rows st') k = dict_get (ses_rows st) k"
    using assms write_record_other [where k = k and env = env and st = st] id
    by (auto simp: handle_secret_record_def split: if_splits sum.splits option.splits secret_fault.splits)
  show "x = Inr r \<Longrightarrow> swr_ok r \<Longrightarrow> strip (swq_name q) \<noteq> [] \<and>
       (\<exists>bytes. b64decode True (swq_cipher q) = Some bytes \<and> bytes \<noteq> [] \<and> length bytes \<le> MAX_CIPHERTEXT_BYTES \<and>
          (if swq_verb q = ''create'' then write_record env (written_record q existing bytes) st
           else write_update env (written_record q existing bytes) st) = Inr st')"
    using assms by (auto simp: handle_secret_record_def write_refusal_def split: if_splits sum.splits option.splits secret_fault.splits)
  show "st' = st \<or> (\<exists>r. x = Inr r \<and> swr_ok r)"
    using assms by (auto simp: handle_secret_record_def write_answer_def split: if_splits sum.splits option.splits secret_fault.splits)
qed



section \<open>Stores to evaluate on\<close>

definition demo_id :: "char \<Rightarrow> string" where "demo_id c = replicate 32 c"

definition demo_env :: "pg_state \<Rightarrow> secret_env" where
  "demo_env pg = \<lparr>sev_reads = True, sev_writes = True, sev_pg = pg, sev_key = True, sev_encrypt = (\<lambda>p. CHR ''#'' # p),
     sev_decrypt = (\<lambda>c. case c of [] \<Rightarrow> None | _ # p \<Rightarrow> Some p)\<rparr>"

definition demo_payload :: "string \<Rightarrow> jval" where
  "demo_payload provider = JObj [(''name'', JStr ''db''), (''kind'', JStr ''password''), (''providerId'', JStr provider), (''value'', JStr ''hunter2'')]"

definition demo_secret :: "char \<Rightarrow> string \<Rightarrow> secret" where
  "demo_secret c provider = \<lparr>sec_id = demo_id c, sec_name = ''db'', sec_kind = ''password'', sec_provider = provider, sec_cipher = ''#hunter2'',
     sec_created = ''t'', sec_updated = ''t''\<rparr>"

definition demo_local :: secret_store where
  "demo_local = \<lparr>ses_files = [(demo_id CHR ''a'', FileJson (JObj (secret_dict (demo_secret CHR ''a'' ''local''))))], ses_rows = []\<rparr>"

definition demo_rows :: secret_store where
  "demo_rows = \<lparr>ses_files = [], ses_rows = [(demo_id CHR ''a'', demo_secret CHR ''a'' ''postgres'')]\<rparr>"

definition demo_write :: "string \<Rightarrow> char \<Rightarrow> string \<Rightarrow> secret_write" where
  "demo_write verb c provider = \<lparr>swq_verb = verb, swq_id = demo_id c, swq_name = ''db'', swq_kind = ''password'', swq_provider = provider,
     swq_cipher = b64encode ''#other'', swq_created = [], swq_updated = ''u''\<rparr>"

lemma demo_valid: "valid_secret_id (demo_id CHR ''a'')"
  by code_simp

lemma demo_holds: "secret_holds repr demo_local (demo_id CHR ''a'') (demo_secret CHR ''a'' ''local'')"
  by (simp add: secret_holds_def demo_local_def dict_get_def)

lemma demo_created: "secret_create (\<lambda>_. []) (demo_env PgUp) no_secrets (demo_id CHR ''a'') ''t'' (demo_payload ''local'') =
    Inr (demo_secret CHR ''a'' ''local'', demo_local)"
  by code_simp

theorem secret_roundtrip_witness:
  "\<exists>p v. demo_payload ''local'' = JObj p \<and> jget p ''value'' = JStr v \<and>
     resolve_plaintext (\<lambda>_. []) (demo_env PgUp) demo_local (demo_id CHR ''a'') = Inr (Some v)"
  by (rule secret_roundtrip [OF demo_created]) (simp_all add: demo_env_def no_secrets_def demo_valid)

theorem secret_update_stays_witness:
  "\<exists>old. secret_get (\<lambda>_. []) (demo_env PgUp) demo_rows (demo_id CHR ''a'') = Inr (Some old) \<and> sec_provider old = ''postgres''"
proof -
  obtain s st' where u: "secret_update (\<lambda>_. []) (demo_env PgUp) demo_rows (demo_id CHR ''a'') ''u'' (demo_payload ''local'') = Inr (Some s, st')"
    and p: "sec_provider s = ''postgres''"
  proof -
    have "case secret_update (\<lambda>_. []) (demo_env PgUp) demo_rows (demo_id CHR ''a'') ''u'' (demo_payload ''local'') of
        Inr (Some s, _) \<Rightarrow> sec_provider s = ''postgres'' | _ \<Rightarrow> False" by code_simp
    then show thesis using that by (auto split: sum.splits prod.splits option.splits)
  qed
  from secret_update_stays [OF u] p show ?thesis by auto
qed

text \<open>After a creation under the name, another one under the same name leaves nothing.\<close>

definition demo_creations :: "(secret_env \<times> secret_op) list" where
  "demo_creations = [(demo_env PgUp, CreateSecret (demo_id CHR ''a'') ''t'' (demo_payload ''local'')),
     (demo_env PgUp, CreateSecret (demo_id CHR ''b'') ''t'' (demo_payload ''postgres''))]"

lemma demo_created_once: "foldl (secret_step (\<lambda>_. [])) no_secrets demo_creations = demo_local"
proof -
  have "secret_step (\<lambda>_. []) demo_local (demo_env PgUp, CreateSecret (demo_id CHR ''b'') ''t'' (demo_payload ''postgres'')) = demo_local" by code_simp
  then show ?thesis by (simp add: demo_creations_def secret_step_def demo_created)
qed

theorem secret_names_unique_witness:
  "\<not> secret_holds (\<lambda>_. []) (foldl (secret_step (\<lambda>_. [])) no_secrets demo_creations) (demo_id CHR ''b'') (demo_secret CHR ''b'' ''postgres'')"
proof
  let ?st = "foldl (secret_step (\<lambda>_. [])) no_secrets demo_creations"
  assume b: "secret_holds (\<lambda>_. []) ?st (demo_id CHR ''b'') (demo_secret CHR ''b'' ''postgres'')"
  have run: "run_enabled (secret_step (\<lambda>_. [])) (secret_enabled PgUp) no_secrets demo_creations" by code_simp
  have a: "secret_holds (\<lambda>_. []) ?st (demo_id CHR ''a'') (demo_secret CHR ''a'' ''local'')" using demo_holds by (simp add: demo_created_once)
  have n: "lower (sec_name (demo_secret CHR ''a'' ''local'')) = lower (sec_name (demo_secret CHR ''b'' ''postgres''))" by (simp add: demo_secret_def)
  from secret_names_unique [OF run a b n] show False by (simp add: demo_id_def)
qed

text \<open>An unreachable database loses the uniqueness of names: the listing then leaves its rows out, and the check of a
  new name sees the local secrets only.\<close>

theorem unreachable_rows_duplicate:
  "case secret_create (\<lambda>_. []) (demo_env PgDown) demo_rows (demo_id CHR ''b'') ''t'' (demo_payload ''local'') of
     Inl _ \<Rightarrow> False
   | Inr (s, st) \<Rightarrow> sec_name s = ''db'' \<and> map_option sec_name (dict_get (ses_rows st) (demo_id CHR ''a'')) = Some ''db'' \<and>
       demo_id CHR ''b'' \<in> set (dict_keys (ses_files st))"
  by code_simp

text \<open>An edit sent to the executor with another place is lost: it takes the place from the request, the database has no
  row to change, and the answer says that the secret was written.\<close>

lemma demo_update: "handle_secret_write (\<lambda>_. []) (demo_env PgUp) demo_local (demo_write ''update'' CHR ''a'' ''postgres'') =
    (Inr (write_answer (demo_id CHR ''a'') (Wrote ''update'' (demo_id CHR ''a''))), demo_local)"
proof -
  have "secret_get (\<lambda>_. []) (demo_env PgUp) demo_local (demo_id CHR ''a'') = Inr (Some (demo_secret CHR ''a'' ''local''))" "strip ''db'' = ''db''" by code_simp+
  moreover have "sev_pg (demo_env PgUp) = PgUp" "ses_rows demo_local = []" by (simp_all add: demo_env_def demo_local_def)
  ultimately show ?thesis
    by (simp add: handle_secret_write_def handle_secret_record_def demo_write_def SECRET_VERBS_def MAX_CIPHERTEXT_BYTES_def b64_roundtrip
        write_update_def pg_update_def pg_ready_def written_record_def del: b64encode.simps)
qed


end
