(* ===== verification/CronJobs.thy ===== *)
theory CronJobs
  imports Json
begin

text \<open>
  The record of an automation: \<open>nanoinfra/cron/types.py\<close>, the verdict it carries
  (\<open>automations/commissioning_state.py\<close>), its delivery policy (\<open>automations/delivery.py\<close>), the retry delays
  (\<open>utils/backoff.py\<close>), the agent it runs as (\<open>cron/agent_binding.py\<close>), and what \<open>CronService._save_store\<close> writes of
  it. A field the loader takes over without a check is read at the type the writer gives it.
\<close>

section \<open>Retry delays\<close>

definition DEFAULT_BASE_DELAY_MS :: int where "DEFAULT_BASE_DELAY_MS = 2000"
definition DEFAULT_MAX_DELAY_MS :: int where "DEFAULT_MAX_DELAY_MS = 300000"
definition MAX_EXPONENT :: int where "MAX_EXPONENT = 62"

record backoff_policy =
  bop_base :: int
  bop_max :: int
  bop_jitter :: bool

text \<open>The check of \<open>__post_init__\<close>; it raises \<open>ValueError\<close>.\<close>

definition backoff_ok :: "backoff_policy \<Rightarrow> bool" where
  "backoff_ok p \<longleftrightarrow> 0 \<le> bop_base p \<and> 0 \<le> bop_max p \<and> bop_base p \<le> bop_max p"

definition delay_ceiling :: "backoff_policy \<Rightarrow> int \<Rightarrow> int" where
  "delay_ceiling p attempts =
     (if bop_base p = 0 then 0
      else (let exponent = max 0 (attempts - 1);
                uncapped = (if MAX_EXPONENT < exponent then bop_max p else bop_base p * 2 ^ nat exponent)
            in min uncapped (bop_max p)))"

text \<open>\<open>randint(0, ceiling)\<close>, where the draw is a choice of its argument.\<close>

definition delay_ms :: "(int \<Rightarrow> int) \<Rightarrow> backoff_policy \<Rightarrow> int \<Rightarrow> int" where
  "delay_ms draw p attempts =
     (if bop_base p = 0 then 0 else if \<not> bop_jitter p then delay_ceiling p attempts else draw (delay_ceiling p attempts))"

definition next_attempt_at :: "(int \<Rightarrow> int) \<Rightarrow> int \<Rightarrow> int \<Rightarrow> backoff_policy \<Rightarrow> int" where
  "next_attempt_at draw now attempts p = now + delay_ms draw p attempts"


section \<open>Delivery\<close>

definition DELIVERY_POLICIES :: "string list" where
  "DELIVERY_POLICIES = [''always'', ''on-change'', ''on-error'', ''never'']"

definition normalize_policy :: "jval \<Rightarrow> string" where
  "normalize_policy v =
     (case v of
        JStr s \<Rightarrow> (let c = map (\<lambda>c. if 65 \<le> (of_char c :: nat) \<and> (of_char c :: nat) \<le> 90 then char_of ((of_char c :: nat) + 32) else c) (strip s)
                   in if c \<in> set DELIVERY_POLICIES then c else ''always'')
      | _ \<Rightarrow> ''always'')"

definition should_deliver :: "string \<Rightarrow> string \<Rightarrow> bool \<Rightarrow> string option \<Rightarrow> string \<Rightarrow> bool" where
  "should_deliver policy content failed recorded fingerprint =
     (if policy = ''never'' then False
      else if failed then True
      else if policy = ''on-error'' then False
      else if strip content = [] then False
      else if policy = ''on-change'' then Some fingerprint \<noteq> recorded
      else True)"


section \<open>The record\<close>

record cron_schedule =
  csh_kind :: string
  csh_at :: "int option"
  csh_every :: "int option"
  csh_expr :: "string option"
  csh_tz :: "string option"

record cron_payload =
  cpl_kind :: string
  cpl_message :: string
  cpl_deliver :: bool
  cpl_channel :: "string option"
  cpl_to :: "string option"
  cpl_meta :: "(string \<times> jval) list"
  cpl_session :: "string option"
  cpl_origin_channel :: "string option"
  cpl_origin_chat :: "string option"
  cpl_origin_meta :: "(string \<times> jval) list"

record cron_retry =
  crt_attempts :: int
  crt_base :: int
  crt_max :: int

record cron_run =
  crr_at :: int
  crr_status :: string
  crr_duration :: int
  crr_error :: "string option"
  crr_reason :: string

record cron_state =
  cst_next :: "int option"
  cst_last :: "int option"
  cst_status :: "string option"
  cst_error :: "string option"
  cst_history :: "cron_run list"
  cst_attempts :: int
  cst_pending :: bool

record commissioning =
  cms_status :: string
  cms_checked :: "int option"
  cms_finding :: string
  cms_fingerprint :: string
  cms_grants :: "(string \<times> jval) list list"

record cron_job =
  cj_id :: string
  cj_name :: string
  cj_enabled :: bool
  cj_schedule :: cron_schedule
  cj_payload :: cron_payload
  cj_state :: cron_state
  cj_retry :: cron_retry
  cj_delivery :: string
  cj_agent :: string
  cj_skills :: "string list"
  cj_presets :: "string list"
  cj_connectors :: "string list"
  cj_groups :: "string list"
  cj_references :: "(string \<times> string) list"
  cj_commissioning :: commissioning
  cj_created :: int
  cj_updated :: int
  cj_delete_after :: bool


section \<open>Reading a stored record\<close>

text \<open>\<open>get_camel_snake\<close>: a present camel key wins, also when it is null.\<close>

definition camel_snake :: "(string \<times> jval) list \<Rightarrow> string \<Rightarrow> string \<Rightarrow> jval" where
  "camel_snake d camel snake = (case map_of d camel of Some v \<Rightarrow> v | None \<Rightarrow> jget d snake)"

text \<open>\<open>_store_int\<close>; none where \<open>int\<close> raises. \<open>int\<close> of a text that is not blank is the parameter.\<close>

definition store_int :: "(string \<Rightarrow> int option) \<Rightarrow> jval \<Rightarrow> int option \<Rightarrow> int option option" where
  "store_int int_of_text v dflt =
     (case v of
        JNull \<Rightarrow> Some dflt
      | JInt n \<Rightarrow> Some (Some n)
      | JBool b \<Rightarrow> Some (Some (if b then 1 else 0))
      | JFloat r \<Rightarrow> Some (Some (if 0 \<le> r then \<lfloor>r\<rfloor> else \<lceil>r\<rceil>))
      | JStr [] \<Rightarrow> Some dflt
      | JStr s \<Rightarrow> map_option Some (int_of_text s)
      | _ \<Rightarrow> None)"

definition read_text :: "jval \<Rightarrow> string" where "read_text v = (case v of JStr s \<Rightarrow> s | _ \<Rightarrow> [])"
definition read_opt :: "jval \<Rightarrow> string option" where "read_opt v = (case v of JStr s \<Rightarrow> Some s | _ \<Rightarrow> None)"
definition read_object :: "jval \<Rightarrow> (string \<times> jval) list" where "read_object v = (case v of JObj d \<Rightarrow> d | _ \<Rightarrow> [])"

text \<open>\<open>data.get(key, default)\<close>\<close>

definition get_default :: "(string \<times> jval) list \<Rightarrow> string \<Rightarrow> jval \<Rightarrow> jval" where
  "get_default d k v = (case map_of d k of None \<Rightarrow> v | Some x \<Rightarrow> x)"

definition schedule_of_dict :: "(string \<Rightarrow> int option) \<Rightarrow> (string \<times> jval) list \<Rightarrow> cron_schedule option" where
  "schedule_of_dict iot d =
     (case (map_of d ''kind'', store_int iot (camel_snake d ''atMs'' ''at_ms'') None, store_int iot (camel_snake d ''everyMs'' ''every_ms'') None) of
        (Some k, Some a, Some e) \<Rightarrow>
          Some \<lparr>csh_kind = read_text k, csh_at = a, csh_every = e, csh_expr = read_opt (jget d ''expr''), csh_tz = read_opt (jget d ''tz'')\<rparr>
      | _ \<Rightarrow> None)"

definition payload_of_dict :: "(string \<times> jval) list \<Rightarrow> cron_payload" where
  "payload_of_dict d =
     \<lparr>cpl_kind = read_text (get_default d ''kind'' (JStr ''agent_turn'')), cpl_message = read_text (jget d ''message''),
      cpl_deliver = truthy (jget d ''deliver''), cpl_channel = read_opt (jget d ''channel''), cpl_to = read_opt (jget d ''to''),
      cpl_meta = read_object (camel_snake d ''channelMeta'' ''channel_meta''), cpl_session = read_opt (camel_snake d ''sessionKey'' ''session_key''),
      cpl_origin_channel = read_opt (camel_snake d ''originChannel'' ''origin_channel''),
      cpl_origin_chat = read_opt (camel_snake d ''originChatId'' ''origin_chat_id''),
      cpl_origin_meta = read_object (camel_snake d ''originMetadata'' ''origin_metadata'')\<rparr>"

text \<open>\<open>_store_int(x) or default\<close>\<close>

definition int_or :: "int \<Rightarrow> int option \<Rightarrow> int" where
  "int_or k x = (case x of None \<Rightarrow> k | Some n \<Rightarrow> if n = 0 then k else n)"

definition retry_of_dict :: "(string \<Rightarrow> int option) \<Rightarrow> jval \<Rightarrow> cron_retry option" where
  "retry_of_dict iot v =
     (let d = read_object v
      in if d = [] then Some \<lparr>crt_attempts = 0, crt_base = DEFAULT_BASE_DELAY_MS, crt_max = DEFAULT_MAX_DELAY_MS\<rparr>
         else (case (store_int iot (jget d ''attempts'') (Some 0), store_int iot (camel_snake d ''baseDelayMs'' ''base_delay_ms'') None,
                     store_int iot (camel_snake d ''maxDelayMs'' ''max_delay_ms'') None) of
                 (Some a, Some b, Some m) \<Rightarrow>
                   Some \<lparr>crt_attempts = int_or 0 a, crt_base = int_or DEFAULT_BASE_DELAY_MS b, crt_max = int_or DEFAULT_MAX_DELAY_MS m\<rparr>
               | _ \<Rightarrow> None))"

definition run_of_dict :: "(jval \<Rightarrow> string) \<Rightarrow> (string \<Rightarrow> int option) \<Rightarrow> (string \<times> jval) list \<Rightarrow> cron_run option" where
  "run_of_dict repr iot d =
     (case (store_int iot (camel_snake d ''runAtMs'' ''run_at_ms'') (Some 0), map_of d ''status'',
            store_int iot (camel_snake d ''durationMs'' ''duration_ms'') (Some 0)) of
        (Some a, Some s, Some n) \<Rightarrow>
          Some \<lparr>crr_at = int_or 0 a, crr_status = read_text s, crr_duration = int_or 0 n, crr_error = read_opt (jget d ''error''),
                crr_reason = (if truthy (jget d ''reason'') then str_of repr (jget d ''reason'') else ''scheduled'')\<rparr>
      | _ \<Rightarrow> None)"

definition history_of :: "(jval \<Rightarrow> string) \<Rightarrow> (string \<Rightarrow> int option) \<Rightarrow> jval \<Rightarrow> cron_run list option" where
  "history_of repr iot v =
     (case v of
        JList xs \<Rightarrow> those (map (run_of_dict repr iot) (List.map_filter (\<lambda>x. case x of JObj d \<Rightarrow> Some d | _ \<Rightarrow> None) xs))
      | _ \<Rightarrow> Some [])"

definition state_of_dict :: "(jval \<Rightarrow> string) \<Rightarrow> (string \<Rightarrow> int option) \<Rightarrow> (string \<times> jval) list \<Rightarrow> cron_state option" where
  "state_of_dict repr iot d =
     (case (store_int iot (camel_snake d ''nextRunAtMs'' ''next_run_at_ms'') None,
            store_int iot (camel_snake d ''lastRunAtMs'' ''last_run_at_ms'') None,
            history_of repr iot (camel_snake d ''runHistory'' ''run_history''),
            store_int iot (camel_snake d ''retryAttempts'' ''retry_attempts'') (Some 0)) of
        (Some n, Some l, Some h, Some a) \<Rightarrow>
          Some \<lparr>cst_next = n, cst_last = l, cst_status = read_opt (camel_snake d ''lastStatus'' ''last_status''),
                cst_error = read_opt (camel_snake d ''lastError'' ''last_error''), cst_history = h, cst_attempts = int_or 0 a,
                cst_pending = truthy (camel_snake d ''retryPending'' ''retry_pending'')\<rparr>
      | _ \<Rightarrow> None)"

definition COMMISSIONING_STATUSES :: "string list" where
  "COMMISSIONING_STATUSES = [''unchecked'', ''ok'', ''refused'', ''error'']"
definition MAX_FINDING_CHARS :: nat where "MAX_FINDING_CHARS = 4000"
definition MAX_PROPOSED_GRANTS :: nat where "MAX_PROPOSED_GRANTS = 16"

definition unchecked_state :: commissioning where
  "unchecked_state = \<lparr>cms_status = ''unchecked'', cms_checked = None, cms_finding = [], cms_fingerprint = [], cms_grants = []\<rparr>"

definition commissioning_of :: "(jval \<Rightarrow> string) \<Rightarrow> jval \<Rightarrow> commissioning" where
  "commissioning_of repr v =
     (case v of
        JObj d \<Rightarrow>
          (let status = (if truthy (jget d ''status'') then str_of repr (jget d ''status'') else ''unchecked'');
               grants = camel_snake d ''proposedGrants'' ''proposed_grants''
           in \<lparr>cms_status = (if status \<in> set COMMISSIONING_STATUSES then status else ''unchecked''),
               cms_checked = (case camel_snake d ''checkedAtMs'' ''checked_at_ms'' of
                  JInt n \<Rightarrow> Some n | JBool b \<Rightarrow> Some (if b then 1 else 0) | JFloat r \<Rightarrow> Some (if 0 \<le> r then \<lfloor>r\<rfloor> else \<lceil>r\<rceil>) | _ \<Rightarrow> None),
               cms_finding = take MAX_FINDING_CHARS (str_or_blank repr (jget d ''finding'')),
               cms_fingerprint = str_or_blank repr (jget d ''fingerprint''),
               cms_grants = (case grants of
                  JList gs \<Rightarrow> List.map_filter (\<lambda>g. case g of JObj kvs \<Rightarrow> Some kvs | _ \<Rightarrow> None) (take MAX_PROPOSED_GRANTS gs) | _ \<Rightarrow> [])\<rparr>)
      | _ \<Rightarrow> unchecked_state)"

text \<open>\<open>_store_names\<close> and \<open>_store_references\<close>\<close>

definition names_of :: "(jval \<Rightarrow> string) \<Rightarrow> jval \<Rightarrow> string list" where
  "names_of repr v = (case v of JList xs \<Rightarrow> filter (\<lambda>s. s \<noteq> []) (map (\<lambda>x. strip (str_of repr x)) xs) | _ \<Rightarrow> [])"

definition references_of :: "(jval \<Rightarrow> string) \<Rightarrow> jval \<Rightarrow> (string \<times> string) list" where
  "references_of repr v =
     (case v of
        JList xs \<Rightarrow> List.map_filter (\<lambda>x. case x of
            JObj d \<Rightarrow> (let kind = strip (str_or_blank repr (jget d ''kind'')); ident = strip (str_or_blank repr (jget d ''id''))
                       in if kind \<noteq> [] \<and> ident \<noteq> [] then Some (kind, ident) else None)
          | _ \<Rightarrow> None) xs
      | _ \<Rightarrow> [])"

definition job_of_dict :: "(jval \<Rightarrow> string) \<Rightarrow> (string \<Rightarrow> int option) \<Rightarrow> (string \<times> jval) list \<Rightarrow> cron_job option" where
  "job_of_dict repr iot d =
     (case (map_of d ''id'', map_of d ''name'', Option.bind (map_of d ''schedule'') (\<lambda>s. schedule_of_dict iot (read_object s)),
            state_of_dict repr iot (read_object (jget d ''state'')), retry_of_dict iot (jget d ''retry''),
            store_int iot (camel_snake d ''createdAtMs'' ''created_at_ms'') (Some 0),
            store_int iot (camel_snake d ''updatedAtMs'' ''updated_at_ms'') (Some 0)) of
        (Some i, Some n, Some sch, Some st, Some rt, Some cr, Some up) \<Rightarrow>
          Some \<lparr>cj_id = read_text i, cj_name = read_text n, cj_enabled = truthy (get_default d ''enabled'' (JBool True)),
                cj_schedule = sch, cj_payload = payload_of_dict (read_object (jget d ''payload'')), cj_state = st, cj_retry = rt,
                cj_delivery = normalize_policy (jget d ''delivery''), cj_agent = strip (str_or_blank repr (jget d ''agent'')),
                cj_skills = names_of repr (jget d ''skills''), cj_presets = names_of repr (camel_snake d ''mcpPresets'' ''mcp_presets''),
                cj_connectors = names_of repr (jget d ''connectors''), cj_groups = names_of repr (camel_snake d ''toolGroups'' ''tool_groups''),
                cj_references = references_of repr (jget d ''references''), cj_commissioning = commissioning_of repr (jget d ''commissioning''),
                cj_created = int_or 0 cr, cj_updated = int_or 0 up,
                cj_delete_after = truthy (camel_snake d ''deleteAfterRun'' ''delete_after_run'')\<rparr>
      | _ \<Rightarrow> None)"


section \<open>What a save writes\<close>

definition run_dict :: "cron_run \<Rightarrow> jval" where
  "run_dict r = JObj [(''runAtMs'', JInt (crr_at r)), (''status'', JStr (crr_status r)), (''durationMs'', JInt (crr_duration r)),
     (''error'', jopt (crr_error r)), (''reason'', JStr (crr_reason r))]"

definition commissioning_dict :: "commissioning \<Rightarrow> jval" where
  "commissioning_dict c = JObj [(''status'', JStr (cms_status c)), (''checkedAtMs'', jint (cms_checked c)), (''finding'', JStr (cms_finding c)),
     (''fingerprint'', JStr (cms_fingerprint c)), (''proposedGrants'', JList (map JObj (cms_grants c)))]"

definition schedule_dict :: "cron_schedule \<Rightarrow> jval" where
  "schedule_dict s = JObj [(''kind'', JStr (csh_kind s)), (''atMs'', jint (csh_at s)), (''everyMs'', jint (csh_every s)),
     (''expr'', jopt (csh_expr s)), (''tz'', jopt (csh_tz s))]"

definition payload_dict :: "cron_payload \<Rightarrow> jval" where
  "payload_dict p = JObj [(''kind'', JStr (cpl_kind p)), (''message'', JStr (cpl_message p)), (''deliver'', JBool (cpl_deliver p)),
     (''channel'', jopt (cpl_channel p)), (''to'', jopt (cpl_to p)), (''channelMeta'', JObj (cpl_meta p)), (''sessionKey'', jopt (cpl_session p)),
     (''originChannel'', jopt (cpl_origin_channel p)), (''originChatId'', jopt (cpl_origin_chat p)), (''originMetadata'', JObj (cpl_origin_meta p))]"

definition state_dict :: "cron_state \<Rightarrow> jval" where
  "state_dict s = JObj [(''nextRunAtMs'', jint (cst_next s)), (''lastRunAtMs'', jint (cst_last s)), (''lastStatus'', jopt (cst_status s)),
     (''lastError'', jopt (cst_error s)), (''runHistory'', JList (map run_dict (cst_history s))), (''retryAttempts'', JInt (cst_attempts s)),
     (''retryPending'', JBool (cst_pending s))]"

definition retry_dict :: "cron_retry \<Rightarrow> jval" where
  "retry_dict r = JObj [(''attempts'', JInt (crt_attempts r)), (''baseDelayMs'', JInt (crt_base r)), (''maxDelayMs'', JInt (crt_max r))]"

definition job_dict :: "cron_job \<Rightarrow> (string \<times> jval) list" where
  "job_dict j =
     [(''id'', JStr (cj_id j)), (''name'', JStr (cj_name j)), (''enabled'', JBool (cj_enabled j)), (''schedule'', schedule_dict (cj_schedule j)),
      (''payload'', payload_dict (cj_payload j)), (''state'', state_dict (cj_state j)), (''retry'', retry_dict (cj_retry j)),
      (''delivery'', JStr (cj_delivery j)), (''skills'', JList (map JStr (cj_skills j))),
      (''references'', JList (map (\<lambda>(kind, ident). JObj [(''kind'', JStr kind), (''id'', JStr ident)]) (cj_references j))),
      (''commissioning'', commissioning_dict (cj_commissioning j)), (''createdAtMs'', JInt (cj_created j)), (''updatedAtMs'', JInt (cj_updated j)),
      (''deleteAfterRun'', JBool (cj_delete_after j))]"


section \<open>The agent a job runs as\<close>

record named_agent =
  nag_skills :: "string list option"
  nag_groups :: "string list option"
  nag_addendum :: string

record delegate_binding =
  dlb_name :: string
  dlb_by :: string
  dlb_groups :: "string list"
  dlb_declared :: bool
  dlb_skills :: "string list"
  dlb_addendum :: string

datatype binding_refusal = UnknownAgent string | SkillNotCarried string string

definition job_agent_refusal :: "string \<Rightarrow> string list \<Rightarrow> (string, named_agent) dict \<Rightarrow> binding_refusal option" where
  "job_agent_refusal agent skills roster =
     (let name = strip agent
      in if name = [] then None
         else (case dict_get roster name of
                 None \<Rightarrow> Some (UnknownAgent name)
               | Some entry \<Rightarrow>
                   (let allowed = (case nag_skills entry of None \<Rightarrow> [] | Some ss \<Rightarrow> ss)
                    in if allowed = [] then None
                       else (case filter (\<lambda>s. s \<notin> set allowed) skills of [] \<Rightarrow> None | s # _ \<Rightarrow> Some (SkillNotCarried name s)))))"

definition job_agent_binding ::
  "string \<Rightarrow> string list \<Rightarrow> (string, named_agent) dict \<Rightarrow> string \<Rightarrow> binding_refusal + delegate_binding option" where
  "job_agent_binding agent skills roster asked_by =
     (let name = strip agent
      in if name = [] then Inr None
         else (case job_agent_refusal name skills roster of
                 Some e \<Rightarrow> Inl e
               | None \<Rightarrow>
                   (case dict_get roster name of
                      None \<Rightarrow> Inl (UnknownAgent name)
                    | Some entry \<Rightarrow>
                        Inr (Some \<lparr>dlb_name = name, dlb_by = asked_by,
                          dlb_groups = (case nag_groups entry of None \<Rightarrow> [] | Some gs \<Rightarrow> gs), dlb_declared = (nag_groups entry \<noteq> None),
                          dlb_skills = (if skills \<noteq> [] then skills else case nag_skills entry of None \<Rightarrow> [] | Some ss \<Rightarrow> ss),
                          dlb_addendum = nag_addendum entry\<rparr>))))"


section \<open>Saving and loading\<close>

text \<open>A job as the service holds it: what a load makes of a stored one.\<close>

definition run_ok :: "cron_run \<Rightarrow> bool" where "run_ok r \<longleftrightarrow> crr_reason r \<noteq> []"

definition job_ok :: "cron_job \<Rightarrow> bool" where
  "job_ok j \<longleftrightarrow> list_all run_ok (cst_history (cj_state j)) \<and> cj_delivery j \<in> set DELIVERY_POLICIES \<and>
     list_all (\<lambda>s. strip s = s \<and> s \<noteq> []) (cj_skills j) \<and>
     list_all (\<lambda>(k, i). strip k = k \<and> k \<noteq> [] \<and> strip i = i \<and> i \<noteq> []) (cj_references j) \<and>
     crt_base (cj_retry j) \<noteq> 0 \<and> crt_max (cj_retry j) \<noteq> 0 \<and>
     cms_status (cj_commissioning j) \<in> set COMMISSIONING_STATUSES \<and> length (cms_finding (cj_commissioning j)) \<le> MAX_FINDING_CHARS \<and>
     length (cms_grants (cj_commissioning j)) \<le> MAX_PROPOSED_GRANTS"

lemma store_int_simps [simp]:
  "store_int iot (JInt n) d = Some (Some n)" "store_int iot (jint x) None = Some x" "store_int iot JNull d = Some d"
  by (simp_all add: store_int_def jint_def split: option.splits)

lemma int_or_simps [simp]: "int_or 0 (Some n) = n" "n \<noteq> 0 \<Longrightarrow> int_or k (Some n) = n" "int_or k None = k"
  by (simp_all add: int_or_def)

lemma read_simps [simp]: "read_text (JStr s) = s" "read_opt (jopt x) = x" "read_object (JObj d) = d"
  by (simp_all add: read_text_def read_opt_def read_object_def jopt_def split: option.splits)

lemma run_roundtrip: "run_ok r \<Longrightarrow> run_dict r = JObj d \<Longrightarrow> run_of_dict repr iot d = Some r"
  by (auto simp: run_dict_def run_of_dict_def camel_snake_def jget_def run_ok_def)

lemma those_map_Some: "(\<And>x. x \<in> set xs \<Longrightarrow> f x = Some (g x)) \<Longrightarrow> those (map f xs) = Some (map g xs)"
  by (induction xs) auto

lemma map_filter_all: "(\<And>x. x \<in> set xs \<Longrightarrow> f x = Some (g x)) \<Longrightarrow> List.map_filter f xs = map g xs"
  by (induction xs) (auto simp: List.map_filter_def)

lemma history_roundtrip: "list_all run_ok rs \<Longrightarrow> history_of repr iot (JList (map run_dict rs)) = Some rs"
proof -
  assume ok: "list_all run_ok rs"
  have "List.map_filter (\<lambda>x. case x of JObj d \<Rightarrow> Some d | _ \<Rightarrow> None) (map run_dict rs) = map (\<lambda>r. read_object (run_dict r)) rs"
    by (induction rs) (auto simp: List.map_filter_def run_dict_def)
  moreover have "those (map (run_of_dict repr iot) (map (\<lambda>r. read_object (run_dict r)) rs)) = Some rs"
    using ok by (induction rs) (auto simp: run_dict_def run_of_dict_def camel_snake_def jget_def run_ok_def)
  ultimately show ?thesis by (simp add: history_of_def)
qed

lemma names_roundtrip: "list_all (\<lambda>s. strip s = s \<and> s \<noteq> []) ss \<Longrightarrow> names_of repr (JList (map JStr ss)) = ss"
proof -
  have "filter (\<lambda>s. s \<noteq> []) (map (\<lambda>x. strip (str_of repr x)) (map JStr ss)) = ss" if "list_all (\<lambda>s. strip s = s \<and> s \<noteq> []) ss"
    using that by (induction ss) auto
  then show "list_all (\<lambda>s. strip s = s \<and> s \<noteq> []) ss \<Longrightarrow> names_of repr (JList (map JStr ss)) = ss" by (simp add: names_of_def)
qed

lemma references_roundtrip:
  "list_all (\<lambda>(k, i). strip k = k \<and> k \<noteq> [] \<and> strip i = i \<and> i \<noteq> []) rs \<Longrightarrow>
   references_of repr (JList (map (\<lambda>(kind, ident). JObj [(''kind'', JStr kind), (''id'', JStr ident)]) rs)) = rs"
  by (induction rs) (auto simp: references_of_def List.map_filter_def str_or_blank_def jget_def)

lemma commissioning_roundtrip:
  assumes "cms_status c \<in> set COMMISSIONING_STATUSES" "length (cms_finding c) \<le> MAX_FINDING_CHARS" "length (cms_grants c) \<le> MAX_PROPOSED_GRANTS"
  shows "commissioning_of repr (commissioning_dict c) = c"
proof -
  have "List.map_filter (\<lambda>g. case g of JObj kvs \<Rightarrow> Some kvs | _ \<Rightarrow> None) (map JObj gs) = gs" for gs
    by (induction gs) (auto simp: List.map_filter_def)
  moreover have "cms_status c \<noteq> []" using assms(1) by (auto simp: COMMISSIONING_STATUSES_def)
  ultimately show ?thesis using assms
    by (cases "cms_checked c") (simp_all add: commissioning_of_def commissioning_dict_def camel_snake_def jget_def jint_def str_or_blank_def Let_def take_map)
qed

lemma schedule_roundtrip: "schedule_of_dict iot (read_object (schedule_dict s)) = Some s"
  by (simp add: schedule_of_dict_def schedule_dict_def camel_snake_def jget_def)

lemma payload_roundtrip: "payload_of_dict (read_object (payload_dict p)) = p"
  by (simp add: payload_of_dict_def payload_dict_def camel_snake_def jget_def get_default_def)

lemma state_roundtrip: "list_all run_ok (cst_history s) \<Longrightarrow> state_of_dict repr iot (read_object (state_dict s)) = Some s"
  by (simp add: state_of_dict_def state_dict_def camel_snake_def jget_def history_roundtrip)

lemma retry_roundtrip: "crt_base r \<noteq> 0 \<Longrightarrow> crt_max r \<noteq> 0 \<Longrightarrow> retry_of_dict iot (retry_dict r) = Some r"
  by (simp add: retry_of_dict_def retry_dict_def camel_snake_def jget_def)

lemma delivery_roundtrip: "s \<in> set DELIVERY_POLICIES \<Longrightarrow> normalize_policy (JStr s) = s"
proof -
  have "list_all (\<lambda>s. normalize_policy (JStr s) = s) DELIVERY_POLICIES" by code_simp
  then show "s \<in> set DELIVERY_POLICIES \<Longrightarrow> normalize_policy (JStr s) = s" by (simp add: list_all_iff)
qed

text \<open>What a job is after a save and a load.\<close>

definition reloaded :: "cron_job \<Rightarrow> cron_job" where
  "reloaded j = j\<lparr>cj_agent := [], cj_presets := [], cj_connectors := [], cj_groups := []\<rparr>"

lemma names_of_null: "names_of repr JNull = []" by (simp add: names_of_def)
lemma blank_text: "str_or_blank repr JNull = []" by (simp add: str_or_blank_def)

lemma job_reloaded: "job_ok j \<Longrightarrow> job_of_dict repr iot (job_dict j) = Some (reloaded j)"
  by (simp add: job_ok_def job_of_dict_def job_dict_def schedule_roundtrip payload_roundtrip state_roundtrip retry_roundtrip
      names_roundtrip references_roundtrip commissioning_roundtrip delivery_roundtrip reloaded_def jget_def camel_snake_def get_default_def
      blank_text names_of_null strip_Nil)

text \<open>A save and a load give the job back, but for four fields: the save does not write the agent the job runs as, nor
  its presets, connectors and tool groups, so every one of them is empty afterwards.\<close>

theorem cron_job_roundtrip:
  assumes "job_ok j"
  shows "job_of_dict repr iot (job_dict j) = Some (j\<lparr>cj_agent := [], cj_presets := [], cj_connectors := [], cj_groups := []\<rparr>)"
  using job_reloaded [OF assms] by (simp add: reloaded_def)

text \<open>So a job that was narrowed to an agent is not after a restart: the reloaded job names no agent, is never refused,
  and its turn runs with no binding, that is with the default agent's tools.\<close>

theorem reloaded_job_unbound:
  assumes "job_ok j" "job_of_dict repr iot (job_dict j) = Some k"
  shows "job_agent_binding (cj_agent k) (cj_skills k) roster by = Inr None"
  using assms job_reloaded [OF assms(1), of repr iot] by (auto simp: job_agent_binding_def reloaded_def strip_Nil)


section \<open>Properties of the binding and the delays\<close>

text \<open>A job only narrows its agent: the turn gets the tool groups of the agent the job names, and skills that the agent
  carries, where the agent carries any.\<close>

lemma binding_cases:
  assumes "job_agent_binding agent skills roster by = Inr (Some b)"
  obtains entry where "dict_get roster (strip agent) = Some entry" "dlb_name b = strip agent"
    "dlb_groups b = (case nag_groups entry of None \<Rightarrow> [] | Some gs \<Rightarrow> gs)" "dlb_declared b = (nag_groups entry \<noteq> None)"
    "dlb_skills b = (if skills \<noteq> [] then skills else case nag_skills entry of None \<Rightarrow> [] | Some ss \<Rightarrow> ss)"
    "job_agent_refusal (strip agent) skills roster = None"
  using assms by (simp add: job_agent_binding_def Let_def split: if_splits option.splits) auto


lemma carried_skills:
  assumes "job_agent_refusal name skills roster = None" "dict_get roster (strip name) = Some entry" "strip name \<noteq> []" "nag_skills entry = Some (a # as)"
  shows "set skills \<subseteq> set (a # as)"
proof -
  have "filter (\<lambda>s. s \<notin> set (a # as)) skills = []" using assms by (simp add: job_agent_refusal_def split: list.splits)
  then show ?thesis by (simp only: filter_empty_conv) auto
qed

theorem job_narrows_agent:
  assumes "job_agent_binding agent skills roster by = Inr (Some b)"
  shows "\<exists>entry. dict_get roster (strip agent) = Some entry \<and> dlb_name b = strip agent \<and>
    dlb_declared b = (nag_groups entry \<noteq> None) \<and> (\<forall>gs. nag_groups entry \<noteq> Some gs \<or> dlb_groups b = gs) \<and>
    (\<forall>ss. nag_skills entry \<noteq> Some ss \<or> ss = [] \<or> set (dlb_skills b) \<subseteq> set ss)"
proof -
  have ne: "strip agent \<noteq> []" using assms by (auto simp: job_agent_binding_def)
  obtain entry where e: "dict_get roster (strip agent) = Some entry" "dlb_name b = strip agent"
    "dlb_groups b = (case nag_groups entry of None \<Rightarrow> [] | Some gs \<Rightarrow> gs)" "dlb_declared b = (nag_groups entry \<noteq> None)"
    "dlb_skills b = (if skills \<noteq> [] then skills else case nag_skills entry of None \<Rightarrow> [] | Some ss \<Rightarrow> ss)"
    "job_agent_refusal (strip agent) skills roster = None"
    by (rule binding_cases [OF assms])
  have "set (dlb_skills b) \<subseteq> set ss" if "nag_skills entry = Some ss" "ss \<noteq> []" for ss
    using that carried_skills [OF e(6), of entry] e(1,5) ne by (cases ss) (auto simp: strip_strip)
  with e show ?thesis by (intro exI [of _ entry]) auto
qed

text \<open>An agent that declares the empty list of skills restrains none: the list means that no skill is loaded in full, but
  the check reads it as not declared, and the job carries any skill it likes.\<close>

theorem empty_skills_restrain_nothing:
  "\<exists>b. job_agent_binding ''ops'' [s] [(''ops'', \<lparr>nag_skills = Some [], nag_groups = None, nag_addendum = []\<rparr>)] by = Inr (Some b) \<and> dlb_skills b = [s]"
proof -
  have "strip ''ops'' = ''ops''" by code_simp
  then show ?thesis by (simp add: job_agent_binding_def job_agent_refusal_def dict_get_def)
qed

lemma delay_ceiling_bounds: "backoff_ok p \<Longrightarrow> 0 \<le> delay_ceiling p n \<and> delay_ceiling p n \<le> bop_max p"
  by (auto simp: delay_ceiling_def backoff_ok_def Let_def)

text \<open>A retry waits within the policy: never before now, never longer than the longest delay, and the first one no longer
  than the first delay.\<close>

lemma retry_delay_bounded:
  assumes "backoff_ok p" "\<And>n. 0 \<le> n \<Longrightarrow> 0 \<le> draw n \<and> draw n \<le> n"
  shows "now \<le> next_attempt_at draw now attempts p \<and> next_attempt_at draw now attempts p \<le> now + bop_max p \<and>
    next_attempt_at draw now 1 p \<le> now + bop_base p"
proof -
  have "0 \<le> delay_ceiling p n" "delay_ceiling p n \<le> bop_max p" for n using delay_ceiling_bounds [OF assms(1)] by blast+
  then have d: "0 \<le> delay_ms draw p n" "delay_ms draw p n \<le> bop_max p" for n
    using assms(2) [of "delay_ceiling p n"] assms(1) by (auto simp: delay_ms_def backoff_ok_def intro: order_trans)
  have "0 \<le> delay_ceiling p 1" "delay_ceiling p 1 \<le> bop_base p"
    using delay_ceiling_bounds [OF assms(1), of 1] assms(1) by (auto simp: delay_ceiling_def MAX_EXPONENT_def backoff_ok_def)
  with assms(2) [of "delay_ceiling p 1"] assms(1) have "delay_ms draw p 1 \<le> bop_base p" by (auto simp: delay_ms_def backoff_ok_def)
  with d show ?thesis by (simp add: next_attempt_at_def)
qed


section \<open>A job to evaluate on\<close>

definition demo_job :: cron_job where
  "demo_job = \<lparr>cj_id = ''j1'', cj_name = ''patch'', cj_enabled = True,
     cj_schedule = \<lparr>csh_kind = ''every'', csh_at = None, csh_every = Some 60000, csh_expr = None, csh_tz = None\<rparr>,
     cj_payload = \<lparr>cpl_kind = ''agent_turn'', cpl_message = ''check'', cpl_deliver = False, cpl_channel = None, cpl_to = None, cpl_meta = [],
       cpl_session = Some ''s'', cpl_origin_channel = Some ''tg'', cpl_origin_chat = Some ''1'', cpl_origin_meta = []\<rparr>,
     cj_state = \<lparr>cst_next = Some 1000, cst_last = None, cst_status = None, cst_error = None, cst_history = [], cst_attempts = 0, cst_pending = False\<rparr>,
     cj_retry = \<lparr>crt_attempts = 1, crt_base = 2000, crt_max = 300000\<rparr>, cj_delivery = ''always'', cj_agent = ''ops'', cj_skills = [],
     cj_presets = [], cj_connectors = [], cj_groups = [], cj_references = [], cj_commissioning = unchecked_state, cj_created = 0, cj_updated = 0,
     cj_delete_after = False\<rparr>"

lemma demo_job_ok: "job_ok demo_job"
  by (simp add: job_ok_def demo_job_def DELIVERY_POLICIES_def COMMISSIONING_STATUSES_def unchecked_state_def)

theorem cron_job_roundtrip_witness:
  "job_of_dict (\<lambda>_. []) (\<lambda>_. None) (job_dict demo_job) = Some (demo_job\<lparr>cj_agent := [], cj_presets := [], cj_connectors := [], cj_groups := []\<rparr>)"
  by (rule cron_job_roundtrip [OF demo_job_ok])

theorem reloaded_job_unbound_witness:
  "job_agent_binding (cj_agent (reloaded demo_job)) (cj_skills (reloaded demo_job)) [] ''cron'' = Inr None"
  by (rule reloaded_job_unbound [OF demo_job_ok job_reloaded [OF demo_job_ok, of "\<lambda>_. []" "\<lambda>_. None"]])

definition ops_agent :: named_agent where
  "ops_agent = \<lparr>nag_skills = Some [''apt''], nag_groups = Some [''servers''], nag_addendum = []\<rparr>"

theorem job_narrows_agent_witness:
  "\<exists>b. job_agent_binding ''ops'' [''apt''] [(''ops'', ops_agent)] ''cron'' = Inr (Some b) \<and> dlb_groups b = [''servers''] \<and> set (dlb_skills b) \<subseteq> {''apt''}"
proof -
  obtain b where b: "job_agent_binding ''ops'' [''apt''] [(''ops'', ops_agent)] ''cron'' = Inr (Some b)"
  proof -
    have "case job_agent_binding ''ops'' [''apt''] [(''ops'', ops_agent)] ''cron'' of Inr (Some b) \<Rightarrow> True | _ \<Rightarrow> False" by code_simp
    then show thesis using that by (auto split: sum.splits option.splits)
  qed
  have "dict_get [(''ops'', ops_agent)] (strip ''ops'') = Some ops_agent" by code_simp
  with job_narrows_agent [OF b] b show ?thesis by (fastforce simp: ops_agent_def)
qed

end
