(* ===== verification/CronService.thy ===== *)
theory CronService
  imports CronJobs
begin

text \<open>
  The scheduler: \<open>nanoinfra/cron/service.py\<close>. The file of jobs is the list a load would give: by
  \<open>cron_job_roundtrip\<close> of CronJobs a save leaves \<open>reloaded\<close> jobs in it. The pending actions of other processes are a
  list of lines; \<open>cys_active\<close> says that a turn is under way. A turn is its outcome: what a turn changes in the store while it runs is not modelled. Writes of the
  file succeed or fail as the environment says; cron expressions and time zones are parameters, as croniter is.
\<close>

section \<open>When a job is due\<close>

record cron_host =
  chs_next :: "string \<Rightarrow> string option \<Rightarrow> int \<Rightarrow> int option"
  chs_expr_ok :: "string \<Rightarrow> bool"
  chs_zone_ok :: "string \<Rightarrow> bool"
  chs_draw :: "int \<Rightarrow> int"

definition compute_next_run :: "cron_host \<Rightarrow> cron_schedule \<Rightarrow> int \<Rightarrow> int option" where
  "compute_next_run host sch now =
     (if csh_kind sch = ''at'' then (case csh_at sch of Some t \<Rightarrow> if t \<noteq> 0 \<and> now < t then Some t else None | None \<Rightarrow> None)
      else if csh_kind sch = ''every'' then (case csh_every sch of Some n \<Rightarrow> if n \<le> 0 then None else Some (now + n) | None \<Rightarrow> None)
      else if csh_kind sch = ''cron'' then
        (case csh_expr sch of Some (c # cs) \<Rightarrow> chs_next host (c # cs) (if csh_tz sch = Some [] then None else csh_tz sch) now | _ \<Rightarrow> None)
      else None)"

datatype schedule_error = ZoneWithoutCron | NoExpression | BadExpression string | UnknownZone string

definition given_text :: "string option \<Rightarrow> bool" where
  "given_text x \<longleftrightarrow> x \<noteq> None \<and> x \<noteq> Some []"

definition validate_schedule :: "cron_host \<Rightarrow> cron_schedule \<Rightarrow> schedule_error option" where
  "validate_schedule host sch =
     (if given_text (csh_tz sch) \<and> csh_kind sch \<noteq> ''cron'' then Some ZoneWithoutCron
      else if csh_kind sch \<noteq> ''cron'' then None
      else (case csh_expr sch of
              None \<Rightarrow> Some NoExpression
            | Some e \<Rightarrow>
                (if strip e = [] then Some NoExpression
                 else if \<not> chs_expr_ok host e then Some (BadExpression e)
                 else (case csh_tz sch of
                         Some (c # cs) \<Rightarrow> if chs_zone_ok host (c # cs) then None else Some (UnknownZone (c # cs))
                       | _ \<Rightarrow> None))))"


section \<open>Jobs bound to a session\<close>

definition has_legacy_context :: "cron_payload \<Rightarrow> bool" where
  "has_legacy_context p \<longleftrightarrow> cpl_deliver p \<or> given_text (cpl_channel p) \<or> given_text (cpl_to p) \<or> cpl_meta p \<noteq> []"

definition is_bound :: "cron_job \<Rightarrow> bool" where
  "is_bound j \<longleftrightarrow> cpl_kind (cj_payload j) = ''agent_turn'' \<and> given_text (cpl_session (cj_payload j)) \<and>
     given_text (cpl_origin_channel (cj_payload j)) \<and> given_text (cpl_origin_chat (cj_payload j)) \<and> \<not> has_legacy_context (cj_payload j)"

definition unbound_agent_job :: "cron_job \<Rightarrow> bool" where
  "unbound_agent_job j \<longleftrightarrow> cpl_kind (cj_payload j) = ''agent_turn'' \<and> \<not> is_bound j"

definition stopped_with :: "string \<Rightarrow> cron_job \<Rightarrow> cron_job" where
  "stopped_with why j = j\<lparr>cj_enabled := False, cj_state := (cj_state j)\<lparr>cst_next := None, cst_status := Some ''error'', cst_error := Some why\<rparr>\<rparr>"

definition MALFORMED_LEGACY :: string where
  "MALFORMED_LEGACY = ''legacy cron payload is missing channel/to; recreate it from a chat session''"
definition UNBOUND_REASON :: string where
  "UNBOUND_REASON = ''agent cron payload is missing bound session delivery context; recreate it from a chat session''"

definition no_legacy :: "cron_payload \<Rightarrow> cron_payload" where
  "no_legacy p = p\<lparr>cpl_deliver := False, cpl_channel := None, cpl_to := None, cpl_meta := []\<rparr>"

definition or_text :: "string option \<Rightarrow> string option \<Rightarrow> string option" where
  "or_text x y = (if given_text x then x else y)"

definition legacy_session :: "cron_payload \<Rightarrow> string option" where
  "legacy_session p =
     (if given_text (cpl_session p) then cpl_session p
      else (case (cpl_channel p, cpl_to p) of (Some (c # cs), Some (t # ts)) \<Rightarrow> Some ((c # cs) @ '':'' @ (t # ts)) | _ \<Rightarrow> None))"

definition normalize_agent_job :: "int \<Rightarrow> cron_job \<Rightarrow> cron_job" where
  "normalize_agent_job now j =
     (let p = cj_payload j
      in if cpl_kind p \<noteq> ''agent_turn'' \<or> \<not> has_legacy_context p then j
         else if \<not> given_text (cpl_channel p) \<or> \<not> given_text (cpl_to p) then (stopped_with MALFORMED_LEGACY j)\<lparr>cj_payload := no_legacy p\<rparr>
         else j\<lparr>cj_payload := no_legacy (p\<lparr>cpl_session := legacy_session p, cpl_origin_channel := or_text (cpl_origin_channel p) (cpl_channel p),
                  cpl_origin_chat := or_text (cpl_origin_chat p) (cpl_to p),
                  cpl_origin_meta := (if cpl_origin_meta p = [] then cpl_meta p else cpl_origin_meta p)\<rparr>),
                cj_updated := max (cj_updated j) now\<rparr>)"

text \<open>\<open>_enforce_agent_binding\<close>: the job, and whether it changed.\<close>

definition enforce_binding :: "int \<Rightarrow> cron_job \<Rightarrow> cron_job \<times> bool" where
  "enforce_binding now j =
     (if \<not> unbound_agent_job j then (j, False)
      else if \<not> cj_enabled j \<and> cst_next (cj_state j) = None \<and> cst_status (cj_state j) = Some ''error'' \<and> given_text (cst_error (cj_state j))
      then (j, False)
      else ((stopped_with UNBOUND_REASON j)\<lparr>cj_updated := max (cj_updated j) now\<rparr>, True))"


section \<open>The store\<close>

datatype cron_disk = NoStore | CorruptStore | Stored "cron_job list"
datatype cron_action = PutJob cron_job | DropJob string | BadLine

record cron_sys =
  cys_disk :: cron_disk
  cys_actions :: "cron_action list option"
  cys_mem :: "cron_job list option"
  cys_dirty :: bool
  cys_running :: bool
  cys_active :: bool

text \<open>\<open>_load_jobs\<close>: a file that cannot be parsed is moved aside, so afterwards there is none.\<close>

definition load_jobs :: "int \<Rightarrow> cron_sys \<Rightarrow> cron_job list option \<times> cron_sys" where
  "load_jobs now st =
     (case cys_disk st of
        NoStore \<Rightarrow> (Some [], st)
      | Stored jobs \<Rightarrow> (Some (map (normalize_agent_job now) jobs), st)
      | CorruptStore \<Rightarrow> (None, st\<lparr>cys_disk := NoStore\<rparr>))"

text \<open>\<open>_save_store\<close>; it raises where the file cannot be written, and the memory stays the authority.\<close>

definition save_store :: "bool \<Rightarrow> cron_sys \<Rightarrow> bool \<times> cron_sys" where
  "save_store writes st =
     (case cys_mem st of
        None \<Rightarrow> (True, st)
      | Some jobs \<Rightarrow>
          (if writes then (True, st\<lparr>cys_disk := Stored (map reloaded jobs), cys_dirty := False\<rparr>) else (False, st\<lparr>cys_dirty := True\<rparr>)))"

definition act_on :: "int \<Rightarrow> (string, cron_job) dict \<Rightarrow> cron_action \<Rightarrow> (string, cron_job) dict" where
  "act_on now d a =
     (case a of PutJob j \<Rightarrow> dict_set (cj_id j) (normalize_agent_job now j) d | DropJob i \<Rightarrow> if i = [] then d else dict_del i d | BadLine \<Rightarrow> d)"

definition merge_actions :: "int \<Rightarrow> bool \<Rightarrow> bool \<Rightarrow> cron_sys \<Rightarrow> bool \<times> cron_sys" where
  "merge_actions now writes owns st =
     (case (cys_actions st, cys_mem st) of
        (Some lines, Some jobs) \<Rightarrow>
          (let d = foldl (\<lambda>d j. dict_set (cj_id j) j d) [] jobs;
               st' = st\<lparr>cys_mem := Some (dict_values (foldl (act_on now) d lines))\<rparr>
           in if owns \<and> list_ex (\<lambda>a. a \<noteq> BadLine) lines then save_store writes (st'\<lparr>cys_actions := Some []\<rparr>) else (True, st'))
      | _ \<Rightarrow> (True, st))"

definition enforce_store :: "int \<Rightarrow> bool \<Rightarrow> bool \<Rightarrow> cron_sys \<Rightarrow> bool \<times> cron_sys" where
  "enforce_store now writes owns st =
     (case cys_mem st of
        None \<Rightarrow> (True, st)
      | Some jobs \<Rightarrow>
          (let rs = map (enforce_binding now) jobs; st' = st\<lparr>cys_mem := Some (map fst rs)\<rparr>
           in if list_ex snd rs \<and> owns then save_store writes st' else (True, st')))"

text \<open>\<open>_load_store\<close> of a process that \<open>owns\<close> the store (\<open>_should_persist_store\<close>) or does not: false where an exception
  comes out. It leaves the store in the memory; there is none where the first load finds a corrupt file. While a turn is
  under way the memory is not replaced; the entry that starts the turn (\<open>reload_during_execution\<close>) comes before it.\<close>

definition load_store :: "int \<Rightarrow> bool \<Rightarrow> bool \<Rightarrow> cron_sys \<Rightarrow> bool \<times> cron_sys" where
  "load_store now writes owns st =
     (if (cys_dirty st \<or> cys_active st) \<and> cys_mem st \<noteq> None then (True, st)
      else (case load_jobs now st of
              (None, st') \<Rightarrow> (True, st')
            | (Some jobs, st') \<Rightarrow>
                (case merge_actions now writes owns (st'\<lparr>cys_mem := Some jobs\<rparr>) of
                   (False, st'') \<Rightarrow> (False, st'')
                 | (True, st'') \<Rightarrow> enforce_store now writes owns st'')))"


section \<open>A run\<close>

text \<open>How a turn ends; a cancelled one is the shutdown of the service.\<close>

datatype run_outcome = RunOk | RunTerminal string | RunSkipped string | RunError string | RunCancelled

definition outcome_status :: "run_outcome \<Rightarrow> string \<times> string option" where
  "outcome_status x =
     (case x of
        RunTerminal e \<Rightarrow> (''error'', Some e)
      | RunSkipped e \<Rightarrow> (''skipped'', if e = [] then None else Some e)
      | RunError e \<Rightarrow> (''error'', Some e)
      | _ \<Rightarrow> (''ok'', None))"

definition MAX_RUN_HISTORY :: nat where "MAX_RUN_HISTORY = 20"

definition last_runs :: "cron_run list \<Rightarrow> cron_run list" where
  "last_runs rs = drop (length rs - MAX_RUN_HISTORY) rs"

text \<open>The record of a run: its start, its end.\<close>

definition record_run :: "run_outcome \<Rightarrow> string \<Rightarrow> int \<Rightarrow> int \<Rightarrow> cron_job \<Rightarrow> cron_job" where
  "record_run x why start stop j =
     (let (status, err) = outcome_status x; s = cj_state j
      in j\<lparr>cj_updated := stop,
           cj_state := s\<lparr>cst_status := Some status, cst_error := err, cst_last := Some start,
             cst_history := last_runs (cst_history s @ [\<lparr>crr_at = start, crr_status = status, crr_duration = stop - start, crr_error = err, crr_reason = why\<rparr>])\<rparr>\<rparr>)"

text \<open>\<open>_schedule_retry\<close>. The attempt is counted before the policy is built, so a policy that is not one raises
  \<open>ValueError\<close> with the attempt counted.\<close>

datatype retry_result = NoRetry | Retry cron_job | RetryRaises cron_job

definition retry_policy :: "cron_retry \<Rightarrow> backoff_policy" where
  "retry_policy r = \<lparr>bop_base = crt_base r, bop_max = crt_max r, bop_jitter = True\<rparr>"

definition schedule_retry :: "cron_host \<Rightarrow> int \<Rightarrow> cron_job \<Rightarrow> retry_result" where
  "schedule_retry host now j =
     (let s = cj_state j; r = cj_retry j
      in if cst_status s \<noteq> Some ''error'' \<or> crt_attempts r \<le> 0 then NoRetry
         else if crt_attempts r \<le> cst_attempts s then NoRetry
         else (let j' = j\<lparr>cj_state := s\<lparr>cst_attempts := cst_attempts s + 1, cst_pending := True\<rparr>\<rparr>
               in if \<not> backoff_ok (retry_policy r) then RetryRaises j'
                  else Retry (j'\<lparr>cj_state := (cj_state j')\<lparr>cst_next :=
                         Some (next_attempt_at (chs_draw host) now (cst_attempts s + 1) (retry_policy r))\<rparr>\<rparr>)))"

text \<open>\<open>_execute_job\<close>: the job it leaves, none where it is deleted, or the job where an exception comes out.\<close>

datatype run_result = RunLeaves "cron_job option" | RunRaises cron_job

definition next_slot :: "cron_host \<Rightarrow> int \<Rightarrow> cron_job \<Rightarrow> cron_job option" where
  "next_slot host now j =
     (if csh_kind (cj_schedule j) = ''at'' then
        (if cj_delete_after j then None else Some (j\<lparr>cj_enabled := False, cj_state := (cj_state j)\<lparr>cst_next := None\<rparr>\<rparr>))
      else Some (j\<lparr>cj_state := (cj_state j)\<lparr>cst_next := compute_next_run host (cj_schedule j) now\<rparr>\<rparr>))"

definition settle_run :: "cron_host \<Rightarrow> run_outcome \<Rightarrow> int \<Rightarrow> cron_job \<Rightarrow> run_result" where
  "settle_run host x now j =
     (case (case x of RunTerminal _ \<Rightarrow> NoRetry | _ \<Rightarrow> schedule_retry host now j) of
        RetryRaises j' \<Rightarrow> RunRaises j'
      | Retry j' \<Rightarrow> RunLeaves (Some j')
      | NoRetry \<Rightarrow> RunLeaves (next_slot host now (j\<lparr>cj_state := (cj_state j)\<lparr>cst_attempts := 0, cst_pending := False\<rparr>\<rparr>)))"

record run_clock =
  rck_start :: int
  rck_end :: int
  rck_after :: int

definition execute_job :: "cron_host \<Rightarrow> run_outcome \<Rightarrow> string \<Rightarrow> run_clock \<Rightarrow> cron_job \<Rightarrow> run_result" where
  "execute_job host x why c j =
     (if x = RunCancelled then RunRaises j
      else settle_run host x (rck_after c) (record_run x why (rck_start c) (rck_end c) j))"


section \<open>A tick\<close>

definition due :: "int \<Rightarrow> cron_job \<Rightarrow> bool" where
  "due now j \<longleftrightarrow> cj_enabled j \<and> (case cst_next (cj_state j) of None \<Rightarrow> False | Some t \<Rightarrow> t \<noteq> 0 \<and> t \<le> now)"

text \<open>What a tick meets: the clock, the file, and of each job its turn and the clock during it.\<close>

record tick_env =
  tke_now :: int
  tke_writes :: bool
  tke_outcome :: "string \<Rightarrow> run_outcome"
  tke_clock :: "string \<Rightarrow> run_clock"

text \<open>The jobs of the memory are objects: a run changes its own object, which its position names. A run in the log is
  the job it starts from, the time, and what it leaves.\<close>

type_synonym job_pool = "(nat \<times> cron_job) list"
type_synonym cron_log = "(cron_job \<times> int \<times> run_result) list"

definition put_job :: "nat \<Rightarrow> cron_job \<Rightarrow> job_pool \<Rightarrow> job_pool" where
  "put_job n j' pool = map (\<lambda>(m, j). (m, if m = n then j' else j)) pool"

definition drop_job :: "string \<Rightarrow> job_pool \<Rightarrow> job_pool" where
  "drop_job i pool = filter (\<lambda>(m, j). cj_id j \<noteq> i) pool"

definition land_run :: "nat \<Rightarrow> cron_job \<Rightarrow> run_result \<Rightarrow> job_pool \<Rightarrow> job_pool" where
  "land_run n j r pool =
     (case r of RunRaises j' \<Rightarrow> put_job n j' pool | RunLeaves (Some j') \<Rightarrow> put_job n j' pool | RunLeaves None \<Rightarrow> drop_job (cj_id j) pool)"

fun run_due :: "cron_host \<Rightarrow> tick_env \<Rightarrow> job_pool \<Rightarrow> job_pool \<Rightarrow> bool \<times> job_pool \<times> cron_log" where
  "run_due host e [] pool = (True, pool, [])"
| "run_due host e ((n, j) # js) pool =
     (let r = execute_job host (tke_outcome e (cj_id j)) ''scheduled'' (tke_clock e (cj_id j)) j
      in case r of
           RunRaises _ \<Rightarrow> (False, land_run n j r pool, [(j, tke_now e, r)])
         | RunLeaves _ \<Rightarrow> (let (ok, pool', runs) = run_due host e js (land_run n j r pool) in (ok, pool', (j, tke_now e, r) # runs)))"

text \<open>\<open>_on_timer\<close>; an exception ends the tick and is logged.\<close>

definition on_timer :: "cron_host \<Rightarrow> tick_env \<Rightarrow> cron_sys \<Rightarrow> cron_sys \<times> cron_log" where
  "on_timer host e st =
     (if cys_dirty st then (snd (save_store (tke_writes e) st), [])
      else (case load_store (tke_now e) (tke_writes e) True st of
              (False, st') \<Rightarrow> (st', [])
            | (True, st') \<Rightarrow>
                (case cys_mem st' of
                   None \<Rightarrow> (st', [])
                 | Some jobs \<Rightarrow>
                     (let pool = enumerate 0 jobs
                      in case run_due host e (filter (\<lambda>(n, j). due (tke_now e) j) pool) pool of
                           (ok, pool', runs) \<Rightarrow>
                             (let st'' = st'\<lparr>cys_mem := Some (map snd pool')\<rparr>
                              in (if ok then snd (save_store (tke_writes e) st'') else st'', runs))))))"

fun ticks :: "cron_host \<Rightarrow> tick_env list \<Rightarrow> cron_sys \<Rightarrow> cron_sys \<times> cron_log" where
  "ticks host [] st = (st, [])"
| "ticks host (e # es) st = (let (st', runs) = on_timer host e st; (st'', runs') = ticks host es st' in (st'', runs @ runs'))"


section \<open>Start\<close>

definition recompute :: "cron_host \<Rightarrow> int \<Rightarrow> cron_job \<Rightarrow> cron_job" where
  "recompute host now j =
     (case enforce_binding now j of
        (j', True) \<Rightarrow> j'
      | (j', False) \<Rightarrow>
          (if \<not> cj_enabled j' then j'
           else if cst_pending (cj_state j') \<and> cst_next (cj_state j') \<notin> {None, Some 0} then j'
           else j'\<lparr>cj_state := (cj_state j')\<lparr>cst_next := compute_next_run host (cj_schedule j') now\<rparr>\<rparr>))"

datatype start_result = Started | RefusedCorrupt | StartRaises

definition start :: "cron_host \<Rightarrow> int \<Rightarrow> bool \<Rightarrow> cron_sys \<Rightarrow> start_result \<times> cron_sys" where
  "start host now writes st =
     (case load_store now writes True (st\<lparr>cys_running := True\<rparr>) of
        (False, st') \<Rightarrow> (StartRaises, st')
      | (True, st') \<Rightarrow>
          (case cys_mem st' of
             None \<Rightarrow> (RefusedCorrupt, st'\<lparr>cys_running := False\<rparr>)
           | Some jobs \<Rightarrow>
               (case save_store writes (st'\<lparr>cys_mem := Some (map (recompute host now) jobs)\<rparr>) of
                  (ok, st'') \<Rightarrow> (if ok then Started else StartRaises, st''))))"

end
