(* ===== verification/CronRuns.thy ===== *)
theory CronRuns
  imports CronService
begin

text \<open>
  What the ticks of the scheduler keep: no run is lost whichever of the saves fail, and only enabled jobs that are due
  and bound run; and where this fails.
\<close>

section \<open>What a load changes\<close>

definition at_rest :: "cron_job \<Rightarrow> bool" where
  "at_rest j \<longleftrightarrow> \<not> (cpl_kind (cj_payload j) = ''agent_turn'' \<and> has_legacy_context (cj_payload j)) \<and>
     (unbound_agent_job j \<longrightarrow> \<not> cj_enabled j \<and> cst_next (cj_state j) = None \<and> cst_status (cj_state j) = Some ''error'' \<and> given_text (cst_error (cj_state j)))"

named_theorems cron_simps

lemma normalize_at_rest [cron_simps]: "at_rest j \<Longrightarrow> normalize_agent_job now j = j"
  by (simp add: at_rest_def normalize_agent_job_def Let_def)

lemma enforce_at_rest [cron_simps]: "at_rest j \<Longrightarrow> enforce_binding now j = (j, False)"
  by (auto simp: at_rest_def enforce_binding_def)

lemma normalized_id [cron_simps]: "cj_id (normalize_agent_job now j) = cj_id j"
  by (simp add: normalize_agent_job_def stopped_with_def Let_def)

lemma normalize_retry [cron_simps]: "cj_retry (normalize_agent_job now j) = cj_retry j"
  by (simp add: normalize_agent_job_def stopped_with_def Let_def)

lemma enforce_id [cron_simps]: "cj_id (fst (enforce_binding now j)) = cj_id j"
  by (simp add: enforce_binding_def stopped_with_def)

lemma enforce_retry [cron_simps]: "cj_retry (fst (enforce_binding now j)) = cj_retry j"
  by (simp add: enforce_binding_def stopped_with_def)

lemma reloaded_fields [cron_simps]:
  "cj_id (reloaded j) = cj_id j" "cj_state (reloaded j) = cj_state j" "cj_payload (reloaded j) = cj_payload j"
  "cj_enabled (reloaded j) = cj_enabled j" "cj_retry (reloaded j) = cj_retry j"
  by (simp_all add: reloaded_def)

lemma reloaded_at_rest [cron_simps]: "at_rest (reloaded j) = at_rest j"
  by (simp add: at_rest_def unbound_agent_job_def is_bound_def cron_simps)

lemma normalize_no_legacy:
  "\<not> (cpl_kind (cj_payload (normalize_agent_job now j)) = ''agent_turn'' \<and> has_legacy_context (cj_payload (normalize_agent_job now j)))"
  by (auto simp: normalize_agent_job_def stopped_with_def Let_def no_legacy_def has_legacy_context_def given_text_def)

lemma enforce_payload [cron_simps]: "cj_payload (fst (enforce_binding now j)) = cj_payload j"
  by (simp add: enforce_binding_def stopped_with_def)

lemma enforce_unbound [cron_simps]: "unbound_agent_job (fst (enforce_binding now j)) = unbound_agent_job j"
  by (simp add: unbound_agent_job_def is_bound_def cron_simps)

lemma enforce_stops:
  assumes "unbound_agent_job j"
  shows "\<not> cj_enabled (fst (enforce_binding now j)) \<and> cst_next (cj_state (fst (enforce_binding now j))) = None \<and>
    cst_status (cj_state (fst (enforce_binding now j))) = Some ''error'' \<and> given_text (cst_error (cj_state (fst (enforce_binding now j))))"
proof -
  have "given_text (Some UNBOUND_REASON)" by (simp add: given_text_def UNBOUND_REASON_def)
  with assms show ?thesis by (simp add: enforce_binding_def stopped_with_def)
qed

lemma load_at_rest: "at_rest (fst (enforce_binding now (normalize_agent_job now' j)))"
  using normalize_no_legacy [of now' j] enforce_stops [of "normalize_agent_job now' j" now] by (simp add: at_rest_def cron_simps)


section \<open>What a run changes\<close>

definition retry_ok :: "cron_job \<Rightarrow> bool" where
  "retry_ok j \<longleftrightarrow> backoff_ok (retry_policy (cj_retry j))"

lemma record_run_fields [cron_simps]:
  "cj_id (record_run x why a b j) = cj_id j" "cj_payload (record_run x why a b j) = cj_payload j" "cj_retry (record_run x why a b j) = cj_retry j"
  "cj_enabled (record_run x why a b j) = cj_enabled j" "cj_schedule (record_run x why a b j) = cj_schedule j"
  "cj_delete_after (record_run x why a b j) = cj_delete_after j"
  "cst_attempts (cj_state (record_run x why a b j)) = cst_attempts (cj_state j)"
  "cst_status (cj_state (record_run x why a b j)) = Some (fst (outcome_status x))"
  by (simp_all add: record_run_def Let_def split: prod.split)

lemma settle_cases:
  assumes "settle_run host x now j = RunLeaves r" "retry_ok j"
  shows "case r of None \<Rightarrow> True | Some k \<Rightarrow> cj_id k = cj_id j \<and> cj_payload k = cj_payload j \<and> cj_retry k = cj_retry j"
  using assms by (auto simp: settle_run_def schedule_retry_def next_slot_def Let_def split: run_outcome.splits if_splits option.splits)

lemma settle_leaves: "retry_ok j \<Longrightarrow> \<exists>r. settle_run host x now j = RunLeaves r"
  by (auto simp: settle_run_def schedule_retry_def retry_ok_def Let_def split: run_outcome.splits)

lemma retry_ok_record [cron_simps]: "retry_ok (record_run x why a b j) = retry_ok j"
  by (simp add: retry_ok_def cron_simps)

lemma run_leaves: "retry_ok j \<Longrightarrow> x \<noteq> RunCancelled \<Longrightarrow> \<exists>r. execute_job host x why c j = RunLeaves r"
  by (simp add: execute_job_def settle_leaves cron_simps)

lemma job_run_keeps:
  assumes "execute_job host x why c j = RunLeaves (Some k)" "retry_ok j"
  shows "cj_id k = cj_id j \<and> cj_payload k = cj_payload j \<and> cj_retry k = cj_retry j"
proof -
  have "settle_run host x (rck_after c) (record_run x why (rck_start c) (rck_end c) j) = RunLeaves (Some k)"
    using assms(1) by (simp add: execute_job_def split: if_splits)
  from settle_cases [OF this] assms(2) show ?thesis by (simp add: cron_simps)
qed

lemma run_at_rest:
  assumes "execute_job host x why c j = RunLeaves (Some k)" "retry_ok j" "at_rest j" "cj_enabled j"
  shows "at_rest k"
proof -
  have "\<not> unbound_agent_job j" using assms(3,4) by (auto simp: at_rest_def)
  then have "\<not> unbound_agent_job k" using job_run_keeps [OF assms(1,2)] by (simp add: unbound_agent_job_def is_bound_def)
  then show ?thesis using assms(3) job_run_keeps [OF assms(1,2)] by (simp add: at_rest_def)
qed


section \<open>The invariant of the ticks\<close>

text \<open>What the log says of a job: the result of its last run. A list of jobs agrees with it where every job that ran starts
  from the state that run left.\<close>

type_synonym last_run = "string \<Rightarrow> run_result option"

definition agrees :: "last_run \<Rightarrow> cron_job list \<Rightarrow> bool" where
  "agrees M jobs \<longleftrightarrow> distinct (map cj_id jobs) \<and>
     (\<forall>k \<in> set jobs. retry_ok k \<and>
        (\<forall>r. M (cj_id k) = Some r \<longrightarrow> at_rest k \<and> (\<exists>j. r = RunLeaves (Some j) \<and> cj_state k = cj_state j)))"

fun logged :: "cron_log \<Rightarrow> last_run \<Rightarrow> last_run" where
  "logged [] M = M"
| "logged ((j, now, r) # runs) M = logged runs (M(cj_id j \<mapsto> r))"

fun chained :: "last_run \<Rightarrow> cron_log \<Rightarrow> bool" where
  "chained M [] = True"
| "chained M ((j, now, r) # runs) \<longleftrightarrow>
     (\<forall>r0. M (cj_id j) = Some r0 \<longrightarrow> (\<exists>k. r0 = RunLeaves (Some k) \<and> cj_state j = cj_state k)) \<and> chained (M(cj_id j \<mapsto> r)) runs"

lemma logged_append: "logged (a @ b) M = logged b (logged a M)"
  by (induction a arbitrary: M) auto

lemma chained_append: "chained M (a @ b) \<longleftrightarrow> chained M a \<and> chained (logged a M) b"
  by (induction a arbitrary: M) auto

lemma agrees_load:
  assumes "agrees M jobs"
  shows "agrees M (map (\<lambda>j. fst (enforce_binding now (normalize_agent_job now j))) jobs)"
  using assms by (auto simp: agrees_def cron_simps retry_ok_def comp_def)

lemma agrees_reloaded: "agrees M jobs \<Longrightarrow> agrees M (map reloaded jobs)"
  by (auto simp: agrees_def cron_simps retry_ok_def comp_def)

definition pool_ok :: "last_run \<Rightarrow> job_pool \<Rightarrow> bool" where
  "pool_ok M pool \<longleftrightarrow> distinct (map fst pool) \<and> agrees M (map snd pool) \<and> (\<forall>(n, j) \<in> set pool. at_rest j)"

lemma same_entry: "pool_ok M pool \<Longrightarrow> (n, j) \<in> set pool \<Longrightarrow> (m, k) \<in> set pool \<Longrightarrow> (m = n \<or> cj_id k = cj_id j) \<Longrightarrow> m = n \<and> k = j"
proof -
  assume ok: "pool_ok M pool" and e: "(n, j) \<in> set pool" "(m, k) \<in> set pool" "m = n \<or> cj_id k = cj_id j"
  have "distinct (map fst pool)" "distinct (map (cj_id \<circ> snd) pool)" using ok by (simp_all add: pool_ok_def agrees_def)
  then have "inj_on fst (set pool)" "inj_on (cj_id \<circ> snd) (set pool)" by (simp_all add: distinct_map)
  from inj_onD [OF this(1), of "(n, j)" "(m, k)"] inj_onD [OF this(2), of "(n, j)" "(m, k)"] e show ?thesis by auto
qed

lemma land_ok:
  assumes ok: "pool_ok M pool" and e: "(n, j) \<in> set pool" "cj_enabled j" and r: "execute_job host x why c j = RunLeaves r"
  shows "pool_ok (M(cj_id j \<mapsto> RunLeaves r)) (land_run n j (RunLeaves r) pool)"
proof (cases r)
  case None
  have "inj_on (cj_id \<circ> snd) (set pool)" using ok by (simp add: pool_ok_def agrees_def distinct_map)
  show ?thesis using ok None by (auto simp: pool_ok_def agrees_def land_run_def drop_job_def distinct_map inj_on_def)
next
  case (Some k)
  have j: "retry_ok j" "at_rest j" using ok e(1) by (auto simp: pool_ok_def agrees_def)
  have k: "cj_id k = cj_id j" "retry_ok k" "at_rest k"
    using job_run_keeps [OF r [unfolded Some] j(1)] run_at_rest [OF r [unfolded Some] j e(2)] j(1) by (simp_all add: retry_ok_def)
  have ids: "map (cj_id \<circ> snd) (put_job n k pool) = map (cj_id \<circ> snd) pool"
  proof -
    have "(cj_id \<circ> snd) (m, if m = n then k else b) = cj_id b" if "(m, b) \<in> set pool" for m b
      using same_entry [OF ok e(1) that] k(1) by auto
    then show ?thesis by (auto simp: put_job_def)
  qed
  have tags: "map fst (put_job n k pool) = map fst pool" by (auto simp: put_job_def)
  have dist: "distinct (map fst pool)" "distinct (map (cj_id \<circ> snd) pool)" using ok by (simp_all add: pool_ok_def agrees_def)
  have mem: "(m, k') \<in> set (put_job n k pool) \<Longrightarrow> (m = n \<and> k' = k) \<or> (m \<noteq> n \<and> (m, k') \<in> set pool \<and> cj_id k' \<noteq> cj_id j)" for m k'
    using same_entry [OF ok e(1)] by (auto simp: put_job_def split: if_splits)
  have "agrees (M(cj_id j \<mapsto> RunLeaves r)) (map snd (put_job n k pool))"
  proof -
    have "retry_ok k' \<and> (\<forall>r'. (M(cj_id j \<mapsto> RunLeaves r)) (cj_id k') = Some r' \<longrightarrow> at_rest k' \<and> (\<exists>j. r' = RunLeaves (Some j) \<and> cj_state k' = cj_state j))"
      if "(m, k') \<in> set (put_job n k pool)" for m k'
      using mem [OF that] k Some ok by (auto simp: pool_ok_def agrees_def)
    then have "\<forall>k' \<in> set (map snd (put_job n k pool)). retry_ok k' \<and>
      (\<forall>r'. (M(cj_id j \<mapsto> RunLeaves r)) (cj_id k') = Some r' \<longrightarrow> at_rest k' \<and> (\<exists>j. r' = RunLeaves (Some j) \<and> cj_state k' = cj_state j))"
      by (auto simp del: fun_upd_apply)
    moreover have "distinct (map cj_id (map snd (put_job n k pool)))" using dist(2) ids by (simp only: map_map)
    ultimately show ?thesis unfolding agrees_def by blast
  qed
  moreover have "at_rest k'" if "(m, k') \<in> set (put_job n k pool)" for m k' using mem [OF that] k(3) ok by (auto simp: pool_ok_def)
  ultimately show ?thesis using Some tags dist(1) by (auto simp: pool_ok_def land_run_def)
qed

lemma others_stay:
  assumes "pool_ok M pool" "(n, j) \<in> set pool" "set js \<subseteq> set pool" "n \<notin> fst ` set js"
  shows "set js \<subseteq> set (land_run n j r pool)"
proof
  fix x assume x: "x \<in> set js"
  obtain m k where mk: "x = (m, k)" by (cases x)
  with x assms have "(m, k) \<in> set pool" "m \<noteq> n" by force+
  moreover from this same_entry [OF assms(1,2), of m k] have "cj_id k \<noteq> cj_id j" by blast
  ultimately show "x \<in> set (land_run n j r pool)"
    using mk by (auto simp: land_run_def put_job_def drop_job_def split: run_result.splits option.splits intro!: image_eqI [of _ _ "(m, k)"])
qed

lemma run_due_keeps:
  assumes "pool_ok M pool" "set js \<subseteq> set pool" "distinct (map fst js)" "\<forall>(n, j) \<in> set js. cj_enabled j"
    "\<And>i. tke_outcome e i \<noteq> RunCancelled" "run_due host e js pool = (ok, pool', runs)"
  shows "ok \<and> pool_ok (logged runs M) pool' \<and> chained M runs"
  using assms
proof (induction js arbitrary: M pool ok pool' runs)
  case Nil then show ?case by simp
next
  case (Cons nj js)
  obtain n j where nj: "nj = (n, j)" by (cases nj)
  have j: "(n, j) \<in> set pool" "cj_enabled j" "retry_ok j" using Cons.prems(1,2,4) nj by (auto simp: pool_ok_def agrees_def)
  obtain r where r: "execute_job host (tke_outcome e (cj_id j)) ''scheduled'' (tke_clock e (cj_id j)) j = RunLeaves r"
    using run_leaves [OF j(3) Cons.prems(5)] by blast
  obtain runs' where rest: "run_due host e js (land_run n j (RunLeaves r) pool) = (ok, pool', runs')" "runs = (j, tke_now e, RunLeaves r) # runs'"
    using Cons.prems(6) nj r by (auto simp: Let_def split: prod.splits)
  have land: "pool_ok (M(cj_id j \<mapsto> RunLeaves r)) (land_run n j (RunLeaves r) pool)" by (rule land_ok [OF Cons.prems(1) j(1,2) r])
  have "set js \<subseteq> set (land_run n j (RunLeaves r) pool)"
    using others_stay [OF Cons.prems(1) j(1)] Cons.prems(2,3) nj by auto
  moreover have "distinct (map fst js)" "\<forall>(n, j) \<in> set js. cj_enabled j" using Cons.prems(3,4) nj by auto
  ultimately have ih: "ok \<and> pool_ok (logged runs' (M(cj_id j \<mapsto> RunLeaves r))) pool' \<and> chained (M(cj_id j \<mapsto> RunLeaves r)) runs'"
    by (rule Cons.IH [OF land _ _ _ Cons.prems(5) rest(1)])
  have "\<exists>k. r0 = RunLeaves (Some k) \<and> cj_state j = cj_state k" if "M (cj_id j) = Some r0" for r0
    using Cons.prems(1) j(1) that by (force simp: pool_ok_def agrees_def)
  with ih rest(2) show ?case by simp
qed


section \<open>The ticks\<close>

text \<open>The jobs that count: those of the memory while a save is owed, those of the file otherwise.\<close>

definition authority :: "cron_sys \<Rightarrow> cron_job list" where
  "authority st = (if cys_dirty st then (case cys_mem st of None \<Rightarrow> [] | Some jobs \<Rightarrow> jobs)
     else (case cys_disk st of Stored jobs \<Rightarrow> jobs | _ \<Rightarrow> []))"

definition store_readable :: "cron_sys \<Rightarrow> bool" where
  "store_readable st \<longleftrightarrow> cys_disk st \<noteq> CorruptStore \<and> cys_actions st = None \<and> \<not> cys_active st \<and> (cys_dirty st \<longrightarrow> cys_mem st \<noteq> None)"

lemma save_keeps:
  assumes "save_store w st = (b, st')" "cys_mem st = Some jobs" "agrees M jobs" "store_readable st"
  shows "agrees M (authority st') \<and> store_readable st'"
  using assms by (auto simp: save_store_def authority_def store_readable_def agrees_reloaded split: if_splits)

lemma owed_save_keeps:
  assumes "cys_dirty st" "store_readable st" "agrees M (authority st)"
  shows "agrees M (authority (snd (save_store w st))) \<and> store_readable (snd (save_store w st))"
proof -
  obtain jobs where m: "cys_mem st = Some jobs" using assms(1,2) by (auto simp: store_readable_def)
  with assms(1,3) have "agrees M jobs" by (simp add: authority_def)
  then show ?thesis using save_keeps [OF _ m _ assms(2), of w] by (metis prod.collapse)
qed

lemma load_keeps:
  assumes "load_store now w True st = (b, st')" "\<not> cys_dirty st" "store_readable st" "agrees M (authority st)"
  shows "agrees M (authority st') \<and> store_readable st' \<and>
    (b \<longrightarrow> (\<exists>jobs. cys_mem st' = Some jobs \<and> agrees M jobs \<and> (\<forall>j \<in> set jobs. at_rest j)))"
proof -
  let ?load = "\<lambda>jobs. map (\<lambda>j. fst (enforce_binding now (normalize_agent_job now j))) jobs"
  define old where "old = authority st"
  have disk: "load_jobs now st = (Some (map (normalize_agent_job now) old), st)"
    using assms(2,3) by (auto simp: old_def authority_def store_readable_def load_jobs_def split: cron_disk.splits)
  have new: "agrees M (?load old)" using agrees_load assms(4) by (simp add: old_def)
  have rest: "\<forall>j \<in> set (?load old). at_rest j" by (auto simp: load_at_rest)
  define st1 where "st1 = st\<lparr>cys_mem := Some (?load old)\<rparr>"
  have st1: "store_readable st1" "cys_mem st1 = Some (?load old)" using assms(3) by (simp_all add: store_readable_def st1_def)
  have "(b, st') = save_store w st1 \<or> (b, st') = (True, st1)"
    using assms(1-3) disk by (auto simp: load_store_def merge_actions_def store_readable_def enforce_store_def comp_def st1_def Let_def split: if_splits)
  moreover have "agrees M (authority st1)" using assms(2,4) by (simp add: authority_def st1_def)
  moreover have "cys_mem (snd (save_store w st1)) = Some (?load old)" using st1(2) by (simp add: save_store_def)
  ultimately show ?thesis using save_keeps [OF _ st1(2) new st1(1), of w] st1 new rest by (metis Pair_inject prod.collapse)
qed

lemma enumerate_pool: "agrees M jobs \<Longrightarrow> \<forall>j \<in> set jobs. at_rest j \<Longrightarrow> pool_ok M (enumerate 0 jobs)"
  by (auto simp: pool_ok_def enumerate_eq_zip dest: set_zip_rightD)

lemma tick_keeps:
  assumes "on_timer host e st = (st', runs)" "store_readable st" "agrees M (authority st)" "\<And>i. tke_outcome e i \<noteq> RunCancelled"
  shows "store_readable st' \<and> agrees (logged runs M) (authority st') \<and> chained M runs"
proof (cases "cys_dirty st")
  case True
  then show ?thesis using assms(1) owed_save_keeps [OF True assms(2,3)] by (auto simp: on_timer_def)
next
  case False
  obtain b st1 where load: "load_store (tke_now e) (tke_writes e) True st = (b, st1)" by (cases "load_store (tke_now e) (tke_writes e) True st")
  note kept = load_keeps [OF load False assms(2,3)]
  show ?thesis
  proof (cases b)
    case nb: False
    then show ?thesis using assms(1) load kept False by (auto simp: on_timer_def)
  next
    case True
    with kept obtain jobs where jobs: "cys_mem st1 = Some jobs" "agrees M jobs" "\<forall>j \<in> set jobs. at_rest j" by blast
    let ?pool = "enumerate 0 jobs" and ?due = "filter (\<lambda>(n, j). due (tke_now e) j) (enumerate 0 jobs)"
    obtain ok pool' rs where r: "run_due host e ?due ?pool = (ok, pool', rs)" by (cases "run_due host e ?due ?pool") auto
    have "distinct (map fst ?due)" by (simp add: distinct_map_filter)
    moreover have "\<forall>(n, j) \<in> set ?due. cj_enabled j" by (auto simp: due_def)
    ultimately have ran: "ok \<and> pool_ok (logged rs M) pool' \<and> chained M rs"
      by (intro run_due_keeps [OF enumerate_pool [OF jobs(2,3)] _ _ _ assms(4) r]) auto
    let ?st = "st1\<lparr>cys_mem := Some (map snd pool')\<rparr>"
    have "store_readable ?st" using kept by (simp add: store_readable_def)
    moreover have "agrees (logged rs M) (map snd pool')" using ran by (simp add: pool_ok_def)
    ultimately have "agrees (logged rs M) (authority (snd (save_store (tke_writes e) ?st))) \<and> store_readable (snd (save_store (tke_writes e) ?st))"
      using save_keeps [of "tke_writes e" ?st] by (cases "save_store (tke_writes e) ?st") auto
    moreover have "st' = snd (save_store (tke_writes e) ?st)" "runs = rs"
      using assms(1) load True jobs(1) r ran False by (auto simp: on_timer_def Let_def)
    ultimately show ?thesis using ran by simp
  qed
qed

lemma ticks_keep:
  assumes "store_readable st" "agrees M (authority st)" "\<forall>e \<in> set es. \<forall>i. tke_outcome e i \<noteq> RunCancelled" "ticks host es st = (st', runs)"
  shows "chained M runs"
  using assms
proof (induction es arbitrary: st M runs)
  case Nil then show ?case by simp
next
  case (Cons e es)
  obtain st1 r1 where t: "on_timer host e st = (st1, r1)" by (cases "on_timer host e st")
  obtain st2 r2 where ts: "ticks host es st1 = (st2, r2)" by (cases "ticks host es st1")
  have k: "store_readable st1 \<and> agrees (logged r1 M) (authority st1) \<and> chained M r1"
    using tick_keeps [OF t Cons.prems(1,2)] Cons.prems(3) by simp
  then have "chained (logged r1 M) r2" using Cons.IH [of st1 "logged r1 M" r2] Cons.prems(3,4) t ts by simp
  moreover have "runs = r1 @ r2" using Cons.prems(4) t ts by simp
  ultimately show ?case using k by (simp add: chained_append)
qed

lemma logged_last: "\<forall>(k, t, r) \<in> set ys. cj_id k \<noteq> i \<Longrightarrow> logged ys M i = M i"
  by (induction ys arbitrary: M) auto

lemma chained_next:
  assumes "chained M (xs @ (j, t, r) # ys @ (k, t', r') # zs)" "cj_id k = cj_id j" "\<forall>(l, t, r) \<in> set ys. cj_id l \<noteq> cj_id j"
  shows "\<exists>j'. r = RunLeaves (Some j') \<and> cj_state k = cj_state j'"
proof -
  let ?M = "(logged xs M)(cj_id j \<mapsto> r)"
  have "chained (logged ys ?M) ((k, t', r') # zs)" using assms(1) by (simp add: chained_append del: fun_upd_apply)
  moreover have "logged ys ?M (cj_id j) = Some r" using logged_last [OF assms(3), of ?M] by simp
  ultimately show ?thesis using assms(2) by auto
qed

text \<open>C23. No run of the scheduler is lost or repeated, whichever of the saves fail: the next run of a job starts from the
  state in which the last one left it, with its next slot, its attempts and its history. So a slot that ran does not run
  again after a failed save, and a job that its run deleted never runs again. The ids of the jobs are distinct, their retry
  policies are ones that can be built, the file can be read, no other process edits the jobs, no turn was under way, and none
  is cancelled.\<close>

theorem run_never_lost:
  assumes "store_readable st" "distinct (map cj_id (authority st))" "\<forall>j \<in> set (authority st). backoff_ok (retry_policy (cj_retry j))"
    "\<forall>e \<in> set es. \<forall>i. tke_outcome e i \<noteq> RunCancelled"
    "snd (ticks host es st) = xs @ (j, t, r) # ys @ (k, t', r') # zs" "cj_id k = cj_id j" "\<forall>(l, t, r) \<in> set ys. cj_id l \<noteq> cj_id j"
  shows "\<exists>j'. r = RunLeaves (Some j') \<and> cj_state k = cj_state j'"
proof -
  have "agrees Map.empty (authority st)" using assms(2,3) by (simp add: agrees_def retry_ok_def)
  from ticks_keep [OF assms(1) this assms(4), of host "fst (ticks host es st)"]
  have "chained Map.empty (xs @ (j, t, r) # ys @ (k, t', r') # zs)" using assms(5) by (metis prod.collapse)
  from chained_next [OF this assms(6,7)] show ?thesis .
qed


section \<open>What runs\<close>

lemma run_due_from:
  assumes "run_due host e js pool = (ok, pool', runs)" "(j, t, r) \<in> set runs"
  shows "j \<in> snd ` set js \<and> t = tke_now e \<and> r = execute_job host (tke_outcome e (cj_id j)) ''scheduled'' (tke_clock e (cj_id j)) j"
  using assms
proof (induction js arbitrary: pool ok pool' runs)
  case Nil then show ?case by simp
next
  case (Cons nj js)
  obtain n k where nj: "nj = (n, k)" by (cases nj)
  define rk where "rk = execute_job host (tke_outcome e (cj_id k)) ''scheduled'' (tke_clock e (cj_id k)) k"
  obtain ok1 pool1 runs1 where rest: "run_due host e js (land_run n k rk pool) = (ok1, pool1, runs1)"
    by (cases "run_due host e js (land_run n k rk pool)") auto
  have "runs = [(k, tke_now e, rk)] \<or> runs = (k, tke_now e, rk) # runs1"
    using Cons.prems(1) nj rest by (auto simp: rk_def [symmetric] Let_def split: run_result.splits)
  then consider "j = k" "t = tke_now e" "r = rk" | "(j, t, r) \<in> set runs1" using Cons.prems(2) by auto
  then show ?case
  proof cases
    case 1 then show ?thesis using nj by (simp add: rk_def)
  next
    case 2 then show ?thesis using Cons.IH [OF rest] by auto
  qed
qed

text \<open>A tick runs only what is due: a job that is enabled, whose slot has come, and, where it is a turn of an agent,
  that is bound to a session; the run is that of the job as it is stored.\<close>

theorem tick_runs_due:
  assumes "(j, t, r) \<in> set (snd (on_timer host e st))" "cys_actions st = None" "cys_disk st \<noteq> CorruptStore" "\<not> cys_active st"
  shows "cys_dirty st = False \<and> cj_enabled j \<and> due (tke_now e) j \<and> \<not> unbound_agent_job j \<and>
    r = execute_job host (tke_outcome e (cj_id j)) ''scheduled'' (tke_clock e (cj_id j)) j"
proof -
  have nd: "\<not> cys_dirty st" using assms(1) by (auto simp: on_timer_def)
  obtain b st1 where load: "load_store (tke_now e) (tke_writes e) True st = (b, st1)" by (cases "load_store (tke_now e) (tke_writes e) True st")
  have b: b "cys_mem st1 \<noteq> None" using assms(1) nd load by (auto simp: on_timer_def split: if_splits option.splits bool.splits)
  then obtain jobs where jobs: "cys_mem st1 = Some jobs" by blast
  have "\<forall>j \<in> set jobs. at_rest j"
    using load nd jobs assms(2,3,4)
    by (auto simp: load_store_def load_jobs_def merge_actions_def enforce_store_def save_store_def Let_def load_at_rest
        split: cron_disk.splits if_splits)
  moreover obtain ok pool' rs where r: "run_due host e (filter (\<lambda>(n, j). due (tke_now e) j) (enumerate 0 jobs)) (enumerate 0 jobs) = (ok, pool', rs)"
    by (cases "run_due host e (filter (\<lambda>(n, j). due (tke_now e) j) (enumerate 0 jobs)) (enumerate 0 jobs)") auto
  moreover have "snd (on_timer host e st) = rs" using nd load b jobs r by (simp add: on_timer_def Let_def)
  moreover have "(j, t, r) \<in> set rs" using assms(1) calculation(3) by simp
  note from_due = run_due_from [OF r this]
  have "j \<in> set jobs \<and> due (tke_now e) j" using from_due by (auto simp: enumerate_eq_zip dest: set_zip_rightD)
  ultimately have "due (tke_now e) j \<and> at_rest j \<and> r = execute_job host (tke_outcome e (cj_id j)) ''scheduled'' (tke_clock e (cj_id j)) j"
    using from_due by blast
  then show ?thesis using nd by (auto simp: due_def at_rest_def)
qed


section \<open>A failed run\<close>

definition retried :: "cron_host \<Rightarrow> int \<Rightarrow> cron_job \<Rightarrow> cron_job" where
  "retried host now j = j\<lparr>cj_state := (cj_state j)\<lparr>cst_attempts := cst_attempts (cj_state j) + 1, cst_pending := True,
     cst_next := Some (next_attempt_at (chs_draw host) now (cst_attempts (cj_state j) + 1) (retry_policy (cj_retry j)))\<rparr>\<rparr>"

lemma settle_retried:
  assumes "retry_ok j" "0 < crt_attempts (cj_retry j)" "cst_status (cj_state j) = Some ''error''" "cst_attempts (cj_state j) < crt_attempts (cj_retry j)"
  shows "settle_run host (RunError m) now j = RunLeaves (Some (retried host now j))"
  using assms by (simp add: settle_run_def schedule_retry_def retry_ok_def retried_def Let_def)

lemma settle_exhausted:
  assumes "\<not> cst_attempts (cj_state j) < crt_attempts (cj_retry j)"
  shows "settle_run host (RunError m) now j = RunLeaves (next_slot host now (j\<lparr>cj_state := (cj_state j)\<lparr>cst_attempts := 0, cst_pending := False\<rparr>\<rparr>))"
  using assms by (simp add: settle_run_def schedule_retry_def Let_def)

lemma retry_in_time:
  assumes "backoff_ok (retry_policy r)" "\<And>n. 0 \<le> n \<Longrightarrow> 0 \<le> draw n \<and> draw n \<le> n"
  shows "now \<le> next_attempt_at draw now n (retry_policy r) \<and> next_attempt_at draw now n (retry_policy r) \<le> now + crt_max r"
  using retry_delay_bounded [OF assms, of now n] by (simp add: retry_policy_def)

text \<open>A failed run is retried within its policy and no more often: while attempts are left, the job stays enabled,
  also a one-shot, and is due again no later than the longest delay after; once they are used up, the attempts start over
  and the job moves on to its next slot, or is over where it has none. The history never holds more than twenty runs.\<close>

theorem failed_run_retried:
  assumes "backoff_ok (retry_policy (cj_retry j))" "\<And>n. 0 \<le> n \<Longrightarrow> 0 \<le> chs_draw host n \<and> chs_draw host n \<le> n" "0 < crt_attempts (cj_retry j)"
  shows "\<exists>r. execute_job host (RunError m) why c j = RunLeaves r \<and>
    (if cst_attempts (cj_state j) < crt_attempts (cj_retry j)
     then \<exists>k t. r = Some k \<and> cj_enabled k = cj_enabled j \<and> cst_attempts (cj_state k) = cst_attempts (cj_state j) + 1 \<and> cst_pending (cj_state k) \<and>
            cst_next (cj_state k) = Some t \<and> rck_after c \<le> t \<and> t \<le> rck_after c + crt_max (cj_retry j) \<and> length (cst_history (cj_state k)) \<le> MAX_RUN_HISTORY
     else if csh_kind (cj_schedule j) = ''at'' then (case r of None \<Rightarrow> cj_delete_after j | Some k \<Rightarrow> \<not> cj_enabled k \<and> cst_next (cj_state k) = None)
     else \<exists>k. r = Some k \<and> cst_attempts (cj_state k) = 0 \<and> \<not> cst_pending (cj_state k) \<and>
            cst_next (cj_state k) = compute_next_run host (cj_schedule j) (rck_after c))"
proof -
  let ?j = "record_run (RunError m) why (rck_start c) (rck_end c) j"
  have ok: "retry_ok ?j" using assms(1) by (simp add: cron_simps) (simp add: retry_ok_def)
  have st: "cst_status (cj_state ?j) = Some ''error''" by (simp add: cron_simps outcome_status_def)
  have h: "length (cst_history (cj_state ?j)) \<le> MAX_RUN_HISTORY" by (simp add: record_run_def last_runs_def outcome_status_def Let_def)
  have x: "execute_job host (RunError m) why c j = settle_run host (RunError m) (rck_after c) ?j" by (simp add: execute_job_def)
  show ?thesis
  proof (cases "cst_attempts (cj_state j) < crt_attempts (cj_retry j)")
    case True
    have "settle_run host (RunError m) (rck_after c) ?j = RunLeaves (Some (retried host (rck_after c) ?j))"
      by (rule settle_retried [OF ok]) (use assms(3) True st in \<open>simp_all add: cron_simps\<close>)
    moreover have "length (cst_history (cj_state (retried host (rck_after c) ?j))) \<le> MAX_RUN_HISTORY" using h by (simp add: retried_def)
    moreover have "cj_enabled (retried host (rck_after c) ?j) = cj_enabled j" "cst_pending (cj_state (retried host (rck_after c) ?j))"
      "cst_attempts (cj_state (retried host (rck_after c) ?j)) = cst_attempts (cj_state j) + 1"
      "cst_next (cj_state (retried host (rck_after c) ?j)) =
         Some (next_attempt_at (chs_draw host) (rck_after c) (cst_attempts (cj_state j) + 1) (retry_policy (cj_retry j)))"
      by (simp_all add: retried_def cron_simps)
    ultimately show ?thesis using True x retry_in_time [OF assms(1,2), of "rck_after c" "cst_attempts (cj_state j) + 1"] by auto
  next
    case False
    then have "settle_run host (RunError m) (rck_after c) ?j =
        RunLeaves (next_slot host (rck_after c) (?j\<lparr>cj_state := (cj_state ?j)\<lparr>cst_attempts := 0, cst_pending := False\<rparr>\<rparr>))"
      by (intro settle_exhausted) (simp add: cron_simps)
    with False x show ?thesis by (simp add: next_slot_def cron_simps)
  qed
qed


section \<open>Concrete runs\<close>

definition demo_host :: cron_host where
  "demo_host = \<lparr>chs_next = (\<lambda>_ _ _. None), chs_expr_ok = (\<lambda>_. True), chs_zone_ok = (\<lambda>_. True), chs_draw = (\<lambda>n. n)\<rparr>"

definition demo_tick :: "int \<Rightarrow> bool \<Rightarrow> run_outcome \<Rightarrow> tick_env" where
  "demo_tick t writes x = \<lparr>tke_now = t, tke_writes = writes, tke_outcome = (\<lambda>_. x), tke_clock = (\<lambda>_. \<lparr>rck_start = t, rck_end = t + 1, rck_after = t + 2\<rparr>)\<rparr>"

definition demo_sys :: "cron_job list \<Rightarrow> cron_sys" where
  "demo_sys jobs = \<lparr>cys_disk = Stored jobs, cys_actions = None, cys_mem = None, cys_dirty = False, cys_running = True, cys_active = False\<rparr>"

definition demo_ticks :: "tick_env list" where
  "demo_ticks = [demo_tick 1000 False RunOk, demo_tick 1500 False RunOk, demo_tick 2000 True RunOk, demo_tick 2500 True RunOk, demo_tick 70000 True (RunError ''x'')]"

text \<open>The save after the first run fails twice; the job runs at 1000 and again only at its next slot.\<close>

theorem run_never_lost_witness:
  "\<exists>j r k r' j'. snd (ticks demo_host demo_ticks (demo_sys [demo_job])) = [(j, 1000, r), (k, 70000, r')] \<and> r = RunLeaves (Some j') \<and> cj_state k = cj_state j'"
proof -
  let ?log = "snd (ticks demo_host demo_ticks (demo_sys [demo_job]))"
  have "map (\<lambda>(j, t, r). (cj_id j, t)) ?log = [(''j1'', 1000), (''j1'', 70000)]" by code_simp
  then obtain j r k r' where l: "?log = [(j, 1000, r), (k, 70000, r')]" "cj_id j = ''j1''" "cj_id k = ''j1''"
    by (auto simp: map_eq_Cons_conv)
  have "store_readable (demo_sys [demo_job])" "authority (demo_sys [demo_job]) = [demo_job]" by (simp_all add: store_readable_def authority_def demo_sys_def)
  moreover have "backoff_ok (retry_policy (cj_retry demo_job))" by code_simp
  moreover have "\<forall>e \<in> set demo_ticks. \<forall>i. tke_outcome e i \<noteq> RunCancelled" by (simp add: demo_ticks_def demo_tick_def)
  ultimately have "\<exists>j'. r = RunLeaves (Some j') \<and> cj_state k = cj_state j'"
    using l by (intro run_never_lost [of "demo_sys [demo_job]" demo_ticks demo_host "[]" j 1000 r "[]" k 70000 r' "[]"]) simp_all
  with l show ?thesis by blast
qed

theorem tick_runs_due_witness:
  "\<exists>j r. snd (on_timer demo_host (demo_tick 1000 True RunOk) (demo_sys [demo_job])) = [(j, 1000, r)] \<and> \<not> unbound_agent_job j \<and> due 1000 j"
proof -
  let ?e = "demo_tick 1000 True RunOk"
  have "map (\<lambda>(j, t, r). t) (snd (on_timer demo_host ?e (demo_sys [demo_job]))) = [1000]" by code_simp
  then obtain j r where l: "snd (on_timer demo_host ?e (demo_sys [demo_job])) = [(j, 1000, r)]" by auto
  have "(j, 1000, r) \<in> set (snd (on_timer demo_host ?e (demo_sys [demo_job])))" using l by simp
  from tick_runs_due [OF this] have "\<not> unbound_agent_job j \<and> due 1000 j" by (simp add: demo_sys_def demo_tick_def)
  with l show ?thesis by blast
qed

theorem failed_run_retried_witness:
  "\<exists>k t. execute_job demo_host (RunError ''x'') ''scheduled'' \<lparr>rck_start = 1000, rck_end = 1001, rck_after = 1002\<rparr> demo_job = RunLeaves (Some k) \<and>
     cst_next (cj_state k) = Some t \<and> 1002 \<le> t \<and> t \<le> 301002"
proof -
  have "backoff_ok (retry_policy (cj_retry demo_job))" by code_simp
  moreover have "cst_attempts (cj_state demo_job) = 0" "crt_attempts (cj_retry demo_job) = 1" "crt_max (cj_retry demo_job) = 300000"
    by (simp_all add: demo_job_def)
  ultimately show ?thesis
    using failed_run_retried [of demo_job demo_host "''x''" "''scheduled''" "\<lparr>rck_start = 1000, rck_end = 1001, rck_after = 1002\<rparr>"]
    by (auto simp: demo_host_def)
qed

text \<open>A retry policy that cannot be built makes a failing job run at every tick: the exception leaves the tick before the
  save, so the file still has the slot that ran.\<close>

definition bad_retry_job :: cron_job where
  "bad_retry_job = demo_job\<lparr>cj_retry := \<lparr>crt_attempts = 3, crt_base = 2000, crt_max = 1000\<rparr>\<rparr>"

theorem bad_retry_policy_replays:
  "map (\<lambda>(j, t, r). (cst_next (cj_state j), cst_attempts (cj_state j), t))
     (snd (ticks demo_host [demo_tick 1000 True (RunError ''x''), demo_tick 2000 True (RunError ''x''), demo_tick 3000 True (RunError ''x'')]
        (demo_sys [bad_retry_job]))) = [(Some 1000, 0, 1000), (Some 1000, 0, 2000), (Some 1000, 0, 3000)]"
  by code_simp

text \<open>A file that becomes unreadable costs the jobs of a running service: the first load moves it aside and keeps the
  jobs of the memory, the second finds no file and replaces them by none, and the next tick saves that.\<close>

theorem corrupt_store_loses_jobs:
  "let st = \<lparr>cys_disk = CorruptStore, cys_actions = None, cys_mem = Some jobs, cys_dirty = False, cys_running = True, cys_active = False\<rparr>;
       st1 = snd (load_store now w True st); st2 = snd (load_store now w True st1)
   in cys_mem st1 = Some jobs \<and> cys_mem st2 = Some [] \<and> cys_disk (fst (on_timer host (demo_tick t True x) st2)) = Stored []"
  by (simp add: load_store_def load_jobs_def merge_actions_def enforce_store_def on_timer_def save_store_def demo_tick_def Let_def)

text \<open>The start of the service moves a slot that was missed a whole interval ahead, also that of a system job, whose
  registration before it keeps the slot so that it fires at once.\<close>

definition system_job :: cron_job where
  "system_job = demo_job\<lparr>cj_id := ''dream'', cj_payload := (cj_payload demo_job)\<lparr>cpl_kind := ''system_event''\<rparr>\<rparr>"

theorem start_skips_missed_slot:
  "map (\<lambda>j. cst_next (cj_state j)) (authority (demo_sys [system_job])) = [Some 1000] \<and>
   (case start demo_host 5000 True (demo_sys [system_job]) of
      (res, st) \<Rightarrow> res = Started \<and> map (\<lambda>j. cst_next (cj_state j)) (authority st) = [Some 65000])"
  by code_simp

end
