(* ===== verification/CronApi.thy ===== *)
theory CronApi
  imports CronRuns "HOL-Library.Product_Lexorder"
begin

text \<open>
  The operations of \<open>CronService\<close> (\<open>nanoinfra/cron/service.py\<close>) that other parts call, each from its load to its save or
  its line in the action file; what can happen to a running service, in which no agent job runs without a session to report
  to; and that a system job is neither removed nor changed. The roster of agents is what \<open>roster_from_config\<close> reads.
\<close>

section \<open>Loading and keeping\<close>

datatype cron_error = StoreUnreadable | WriteFails | TurnRaises | ScheduleRefused schedule_error | BindingRefused binding_refusal

text \<open>\<open>_require_store\<close>\<close>

definition require_store :: "int \<Rightarrow> bool \<Rightarrow> cron_sys \<Rightarrow> (cron_error + cron_job list) \<times> cron_sys" where
  "require_store now writes st =
     (case load_store now writes (cys_running st \<or> cys_active st) st of
        (False, st') \<Rightarrow> (Inl WriteFails, st')
      | (True, st') \<Rightarrow> (case cys_mem st' of None \<Rightarrow> (Inl StoreUnreadable, st') | Some jobs \<Rightarrow> (Inr jobs, st')))"

definition append_action :: "bool \<Rightarrow> cron_action \<Rightarrow> cron_sys \<Rightarrow> bool \<times> cron_sys" where
  "append_action writes a st =
     (if writes then (True, st\<lparr>cys_actions := Some ((case cys_actions st of None \<Rightarrow> [] | Some ls \<Rightarrow> ls) @ [a])\<rparr>) else (False, st))"

text \<open>The end of an operation: a save where this process owns the store, a line in the action file otherwise.\<close>

definition keep_change :: "bool \<Rightarrow> cron_action \<Rightarrow> 'a \<Rightarrow> cron_sys \<Rightarrow> (cron_error + 'a) \<times> cron_sys" where
  "keep_change writes a result st =
     (case (if cys_running st \<or> cys_active st then save_store writes st else append_action writes a st) of
        (ok, st') \<Rightarrow> (if ok then Inr result else Inl WriteFails, st'))"

definition job_by_id :: "string \<Rightarrow> cron_job list \<Rightarrow> cron_job option" where
  "job_by_id i jobs = find (\<lambda>j. cj_id j = i) jobs"

text \<open>The object of the first job with the id, changed in place.\<close>

fun change_first :: "string \<Rightarrow> cron_job \<Rightarrow> cron_job list \<Rightarrow> cron_job list" where
  "change_first i j' [] = []"
| "change_first i j' (j # js) = (if cj_id j = i then j' # js else j # change_first i j' js)"

definition binding_refused :: "(string, named_agent) dict \<Rightarrow> string \<Rightarrow> string list \<Rightarrow> binding_refusal option" where
  "binding_refused roster agent skills = (if strip agent = [] then None else job_agent_refusal agent skills roster)"


section \<open>The operations\<close>

record job_request =
  jrq_name :: string
  jrq_schedule :: cron_schedule
  jrq_payload :: cron_payload
  jrq_delete_after :: bool
  jrq_retry :: "cron_retry option"
  jrq_delivery :: "string option"
  jrq_agent :: "string option"
  jrq_skills :: "string list"
  jrq_references :: "(string \<times> string) list"

definition no_retry :: cron_retry where
  "no_retry = \<lparr>crt_attempts = 0, crt_base = DEFAULT_BASE_DELAY_MS, crt_max = DEFAULT_MAX_DELAY_MS\<rparr>"

definition fresh_state :: "int option \<Rightarrow> cron_state" where
  "fresh_state next_run = \<lparr>cst_next = next_run, cst_last = None, cst_status = None, cst_error = None, cst_history = [], cst_attempts = 0, cst_pending = False\<rparr>"

definition stated :: "string option \<Rightarrow> string" where
  "stated x = (case x of None \<Rightarrow> [] | Some s \<Rightarrow> strip s)"

definition requested_job :: "cron_host \<Rightarrow> int \<Rightarrow> string \<Rightarrow> job_request \<Rightarrow> cron_job" where
  "requested_job host now i q =
     \<lparr>cj_id = i, cj_name = jrq_name q, cj_enabled = True, cj_schedule = jrq_schedule q,
      cj_payload = (jrq_payload q)\<lparr>cpl_kind := ''agent_turn''\<rparr>, cj_state = fresh_state (compute_next_run host (jrq_schedule q) now),
      cj_retry = (case jrq_retry q of None \<Rightarrow> no_retry | Some r \<Rightarrow> r),
      cj_delivery = (case jrq_delivery q of None \<Rightarrow> ''always'' | Some s \<Rightarrow> normalize_policy (JStr s)), cj_agent = stated (jrq_agent q),
      cj_skills = jrq_skills q, cj_presets = [], cj_connectors = [], cj_groups = [], cj_references = jrq_references q,
      cj_commissioning = unchecked_state, cj_created = now, cj_updated = now, cj_delete_after = jrq_delete_after q\<rparr>"

text \<open>\<open>add_job\<close>, with the id that \<open>uuid4\<close> draws. A job that cannot be written is taken out of the list again.\<close>

definition add_job :: "cron_host \<Rightarrow> (string, named_agent) dict \<Rightarrow> int \<Rightarrow> bool \<Rightarrow> string \<Rightarrow> job_request \<Rightarrow> cron_sys \<Rightarrow> (cron_error + cron_job) \<times> cron_sys" where
  "add_job host roster now writes i q st =
     (case validate_schedule host (jrq_schedule q) of
        Some e \<Rightarrow> (Inl (ScheduleRefused e), st)
      | None \<Rightarrow>
          (case binding_refused roster (stated (jrq_agent q)) (jrq_skills q) of
             Some e \<Rightarrow> (Inl (BindingRefused e), st)
           | None \<Rightarrow>
               (let j = fst (enforce_binding now (normalize_agent_job now (requested_job host now i q)))
                in if cys_running st \<or> cys_active st then
                     (case require_store now writes st of
                        (Inl e, st') \<Rightarrow> (Inl e, st')
                      | (Inr jobs, st') \<Rightarrow>
                          (case save_store writes (st'\<lparr>cys_mem := Some (jobs @ [j])\<rparr>) of
                             (True, st'') \<Rightarrow> (Inr j, st'')
                           | (False, st'') \<Rightarrow> (Inl WriteFails, st''\<lparr>cys_mem := Some (remove1 j (jobs @ [j]))\<rparr>)))
                   else (case append_action writes (PutJob j) st of (ok, st') \<Rightarrow> (if ok then Inr j else Inl WriteFails, st')))))"

text \<open>\<open>register_system_job\<close>: the stored state stays, but for the slot where the schedule changed or there is none.\<close>

definition registered :: "cron_host \<Rightarrow> int \<Rightarrow> cron_job \<Rightarrow> cron_job option \<Rightarrow> cron_job" where
  "registered host now j existing =
     (case existing of
        None \<Rightarrow> j\<lparr>cj_state := fresh_state (compute_next_run host (cj_schedule j) now), cj_created := now, cj_updated := now\<rparr>
      | Some old \<Rightarrow>
          (let s = cj_state old;
               s' = (if cj_schedule old \<noteq> cj_schedule j \<or> cst_next s = None
                     then s\<lparr>cst_next := compute_next_run host (cj_schedule j) now, cst_pending := False\<rparr> else s)
           in j\<lparr>cj_state := s', cj_created := cj_created old, cj_updated := now\<rparr>))"

definition register_system_job :: "cron_host \<Rightarrow> int \<Rightarrow> bool \<Rightarrow> cron_job \<Rightarrow> cron_sys \<Rightarrow> (cron_error + cron_job) \<times> cron_sys" where
  "register_system_job host now writes j st =
     (case require_store now writes st of
        (Inl e, st') \<Rightarrow> (Inl e, st')
      | (Inr jobs, st') \<Rightarrow>
          (let j' = registered host now j (job_by_id (cj_id j) jobs)
           in case save_store writes (st'\<lparr>cys_mem := Some (filter (\<lambda>k. cj_id k \<noteq> cj_id j) jobs @ [j'])\<rparr>) of
                (ok, st'') \<Rightarrow> (if ok then Inr j' else Inl WriteFails, st'')))"

datatype 'a job_answer = JobNotFound | JobProtected | JobDone 'a

definition remove_job :: "int \<Rightarrow> bool \<Rightarrow> string \<Rightarrow> cron_sys \<Rightarrow> (cron_error + unit job_answer) \<times> cron_sys" where
  "remove_job now writes i st =
     (case require_store now writes st of
        (Inl e, st') \<Rightarrow> (Inl e, st')
      | (Inr jobs, st') \<Rightarrow>
          (case job_by_id i jobs of
             None \<Rightarrow> (Inr JobNotFound, st')
           | Some j \<Rightarrow>
               (if cpl_kind (cj_payload j) = ''system_event'' then (Inr JobProtected, st')
                else keep_change writes (DropJob i) (JobDone ()) (st'\<lparr>cys_mem := Some (filter (\<lambda>k. cj_id k \<noteq> i) jobs)\<rparr>))))"

definition set_enabled :: "cron_host \<Rightarrow> int \<Rightarrow> bool \<Rightarrow> cron_job \<Rightarrow> cron_job" where
  "set_enabled host now on j =
     (let k = fst (enforce_binding now (j\<lparr>cj_enabled := on, cj_updated := now\<rparr>))
      in k\<lparr>cj_state := (cj_state k)\<lparr>cst_next := (if cj_enabled k then compute_next_run host (cj_schedule k) now else None)\<rparr>\<rparr>)"

definition enable_job :: "cron_host \<Rightarrow> int \<Rightarrow> bool \<Rightarrow> string \<Rightarrow> bool \<Rightarrow> cron_sys \<Rightarrow> (cron_error + cron_job job_answer) \<times> cron_sys" where
  "enable_job host now writes i on st =
     (case require_store now writes st of
        (Inl e, st') \<Rightarrow> (Inl e, st')
      | (Inr jobs, st') \<Rightarrow>
          (case job_by_id i jobs of
             None \<Rightarrow> (Inr JobNotFound, st')
           | Some j \<Rightarrow> (let k = set_enabled host now on j
                        in keep_change writes (PutJob k) (JobDone k) (st'\<lparr>cys_mem := Some (change_first i k jobs)\<rparr>))))"

definition commissioned :: "int \<Rightarrow> commissioning \<Rightarrow> bool \<Rightarrow> cron_job \<Rightarrow> cron_job" where
  "commissioned now verdict disable j =
     (let k = j\<lparr>cj_commissioning := verdict, cj_updated := now\<rparr>
      in if disable then k\<lparr>cj_enabled := False, cj_state := (cj_state k)\<lparr>cst_next := None\<rparr>\<rparr> else k)"

definition set_commissioning :: "int \<Rightarrow> bool \<Rightarrow> string \<Rightarrow> commissioning \<Rightarrow> bool \<Rightarrow> cron_sys \<Rightarrow> (cron_error + cron_job job_answer) \<times> cron_sys" where
  "set_commissioning now writes i verdict disable st =
     (case require_store now writes st of
        (Inl e, st') \<Rightarrow> (Inl e, st')
      | (Inr jobs, st') \<Rightarrow>
          (case job_by_id i jobs of
             None \<Rightarrow> (Inr JobNotFound, st')
           | Some j \<Rightarrow> (let k = commissioned now verdict disable j
                        in keep_change writes (PutJob k) (JobDone k) (st'\<lparr>cys_mem := Some (change_first i k jobs)\<rparr>))))"

text \<open>The fields of \<open>update_job\<close>; none leaves a field as it is.\<close>

record job_update =
  jup_name :: "string option"
  jup_schedule :: "cron_schedule option"
  jup_message :: "string option"
  jup_deliver :: "bool option"
  jup_channel :: "string option option"
  jup_to :: "string option option"
  jup_delete_after :: "bool option"
  jup_retry :: "cron_retry option"
  jup_delivery :: "string option"
  jup_agent :: "string option"
  jup_skills :: "string list option"
  jup_references :: "(string \<times> string) list option"

definition updated_to :: "'a option \<Rightarrow> 'a \<Rightarrow> 'a" where
  "updated_to x old = (case x of None \<Rightarrow> old | Some v \<Rightarrow> v)"

text \<open>What is assigned before the schedule is checked, and after.\<close>

definition first_half :: "job_update \<Rightarrow> cron_job \<Rightarrow> cron_job" where
  "first_half u j = j\<lparr>cj_agent := updated_to (map_option strip (jup_agent u)) (cj_agent j), cj_retry := updated_to (jup_retry u) (cj_retry j),
     cj_delivery := updated_to (map_option (\<lambda>s. normalize_policy (JStr s)) (jup_delivery u)) (cj_delivery j),
     cj_skills := updated_to (jup_skills u) (cj_skills j), cj_references := updated_to (jup_references u) (cj_references j)\<rparr>"

definition second_half :: "job_update \<Rightarrow> cron_job \<Rightarrow> cron_job" where
  "second_half u j = j\<lparr>cj_schedule := updated_to (jup_schedule u) (cj_schedule j), cj_name := updated_to (jup_name u) (cj_name j),
     cj_payload := (cj_payload j)\<lparr>cpl_message := updated_to (jup_message u) (cpl_message (cj_payload j)),
       cpl_deliver := updated_to (jup_deliver u) (cpl_deliver (cj_payload j)), cpl_channel := updated_to (jup_channel u) (cpl_channel (cj_payload j)),
       cpl_to := updated_to (jup_to u) (cpl_to (cj_payload j))\<rparr>,
     cj_delete_after := updated_to (jup_delete_after u) (cj_delete_after j)\<rparr>"

definition updated_job :: "cron_host \<Rightarrow> int \<Rightarrow> job_update \<Rightarrow> cron_job \<Rightarrow> cron_job" where
  "updated_job host now u j =
     (let k = fst (enforce_binding now (normalize_agent_job now (second_half u (first_half u j))))
      in k\<lparr>cj_updated := now,
           cj_state := (cj_state k)\<lparr>cst_next := (if cj_enabled k then compute_next_run host (cj_schedule k) now else None)\<rparr>\<rparr>)"

definition update_job :: "cron_host \<Rightarrow> (string, named_agent) dict \<Rightarrow> int \<Rightarrow> bool \<Rightarrow> string \<Rightarrow> job_update \<Rightarrow> cron_sys \<Rightarrow>
    (cron_error + cron_job job_answer) \<times> cron_sys" where
  "update_job host roster now writes i u st =
     (case require_store now writes st of
        (Inl e, st') \<Rightarrow> (Inl e, st')
      | (Inr jobs, st') \<Rightarrow>
          (case job_by_id i jobs of
             None \<Rightarrow> (Inr JobNotFound, st')
           | Some j \<Rightarrow>
               (if cpl_kind (cj_payload j) = ''system_event'' then (Inr JobProtected, st')
                else (case binding_refused roster (updated_to (map_option strip (jup_agent u)) (cj_agent j)) (updated_to (jup_skills u) (cj_skills j)) of
                        Some e \<Rightarrow> (Inl (BindingRefused e), st')
                      | None \<Rightarrow>
                          (case Option.bind (jup_schedule u) (validate_schedule host) of
                             Some e \<Rightarrow> (Inl (ScheduleRefused e), st'\<lparr>cys_mem := Some (change_first i (first_half u j) jobs)\<rparr>)
                           | None \<Rightarrow> (let k = updated_job host now u j
                                      in keep_change writes (PutJob k) (JobDone k) (st'\<lparr>cys_mem := Some (change_first i k jobs)\<rparr>)))))))"

text \<open>\<open>run_job\<close>; whether the job ran, or the exception. A save that is owed comes first.\<close>

definition run_job :: "cron_host \<Rightarrow> tick_env \<Rightarrow> string \<Rightarrow> bool \<Rightarrow> cron_sys \<Rightarrow> (cron_error + bool) \<times> cron_sys \<times> cron_log" where
  "run_job host e i force st =
     (case (if cys_dirty st then save_store (tke_writes e) st else (True, st)) of
        (False, st1) \<Rightarrow> (Inl WriteFails, st1, [])
      | (True, st1) \<Rightarrow>
          (case load_store (tke_now e) (tke_writes e) True st1 of
             (False, st2) \<Rightarrow> (Inl WriteFails, st2, [])
           | (True, st2) \<Rightarrow>
               (case cys_mem st2 of
                  None \<Rightarrow> (Inl StoreUnreadable, st2, [])
                | Some jobs \<Rightarrow>
                    (case job_by_id i jobs of
                       None \<Rightarrow> (Inr False, st2, [])
                     | Some j \<Rightarrow>
                         (if unbound_agent_job j then
                            (case save_store (tke_writes e) (st2\<lparr>cys_mem := Some (change_first i (fst (enforce_binding (tke_now e) j)) jobs)\<rparr>) of
                               (ok, st3) \<Rightarrow> (if ok then Inr False else Inl WriteFails, st3, []))
                          else if \<not> force \<and> \<not> cj_enabled j then (Inr False, st2, [])
                          else (let r = execute_job host (tke_outcome e i) (if cst_pending (cj_state j) then ''retry'' else ''manual'') (tke_clock e i) j
                                in case r of
                                     RunRaises j' \<Rightarrow> (Inl TurnRaises, st2\<lparr>cys_mem := Some (change_first i j' jobs)\<rparr>, [(j, tke_now e, r)])
                                   | RunLeaves k \<Rightarrow>
                                       (case save_store (tke_writes e) (st2\<lparr>cys_mem := Some
                                            (case k of None \<Rightarrow> filter (\<lambda>k. cj_id k \<noteq> i) jobs | Some k \<Rightarrow> change_first i k jobs)\<rparr>) of
                                          (ok, st3) \<Rightarrow> (if ok then Inr True else Inl WriteFails, st3, [(j, tke_now e, r)]))))))))"

text \<open>\<open>list_jobs\<close>, sorted by the next slot, and \<open>_get_next_wake_ms\<close>.\<close>

definition slot_rank :: "cron_job \<Rightarrow> bool \<times> int" where
  "slot_rank j = (case cst_next (cj_state j) of None \<Rightarrow> (True, 0) | Some t \<Rightarrow> if t = 0 then (True, 0) else (False, t))"

definition list_cron_jobs :: "int \<Rightarrow> bool \<Rightarrow> bool \<Rightarrow> cron_sys \<Rightarrow> (cron_error + cron_job list) \<times> cron_sys" where
  "list_cron_jobs now writes disabled st =
     (case require_store now writes st of
        (Inl e, st') \<Rightarrow> (Inl e, st')
      | (Inr jobs, st') \<Rightarrow> (Inr (sort_key slot_rank (if disabled then jobs else filter cj_enabled jobs)), st'))"

definition next_wake :: "cron_job list \<Rightarrow> int option" where
  "next_wake jobs =
     (let ts = filter (\<lambda>t. t \<noteq> 0) (List.map_filter (\<lambda>j. if cj_enabled j then cst_next (cj_state j) else None) jobs)
      in if ts = [] then None else Some (Min (set ts)))"


section \<open>The life of a service\<close>

text \<open>What can happen to the service: its operations, its ticks, its start and stop, and a line that another process appends
  to the action file. Each meets the clock and whether the writes of the moment succeed.\<close>

datatype cron_op = AddJob string job_request | RegisterSystem cron_job | RemoveJob string | EnableJob string bool
  | Commission string commissioning bool | UpdateJob string job_update | ListJobs bool | RunJob tick_env string bool | Tick tick_env
  | Start | Stop | ActionLine cron_action

fun cron_step :: "cron_host \<Rightarrow> (string, named_agent) dict \<Rightarrow> int \<Rightarrow> bool \<Rightarrow> cron_op \<Rightarrow> cron_sys \<Rightarrow> cron_sys \<times> cron_log" where
  "cron_step host roster now writes (AddJob i q) st = (snd (add_job host roster now writes i q st), [])"
| "cron_step host roster now writes (RegisterSystem j) st = (snd (register_system_job host now writes j st), [])"
| "cron_step host roster now writes (RemoveJob i) st = (snd (remove_job now writes i st), [])"
| "cron_step host roster now writes (EnableJob i on) st = (snd (enable_job host now writes i on st), [])"
| "cron_step host roster now writes (Commission i v d) st = (snd (set_commissioning now writes i v d st), [])"
| "cron_step host roster now writes (UpdateJob i u) st = (snd (update_job host roster now writes i u st), [])"
| "cron_step host roster now writes (ListJobs d) st = (snd (list_cron_jobs now writes d st), [])"
| "cron_step host roster now writes (RunJob e i force) st = snd (run_job host e i force st)"
| "cron_step host roster now writes (Tick e) st = on_timer host e st"
| "cron_step host roster now writes Start st = (snd (start host now writes st), [])"
| "cron_step host roster now writes Stop st = (st\<lparr>cys_running := False\<rparr>, [])"
| "cron_step host roster now writes (ActionLine a) st = (snd (append_action True a st), [])"

fun cron_life :: "cron_host \<Rightarrow> (string, named_agent) dict \<Rightarrow> (int \<times> bool \<times> cron_op) list \<Rightarrow> cron_sys \<Rightarrow> cron_sys \<times> cron_log" where
  "cron_life host roster [] st = (st, [])"
| "cron_life host roster ((now, writes, x) # xs) st =
     (let (st', runs) = cron_step host roster now writes x st; (st'', runs') = cron_life host roster xs st' in (st'', runs @ runs'))"


section \<open>Agent jobs without a session\<close>

definition stopped_if_unbound :: "cron_job \<Rightarrow> bool" where
  "stopped_if_unbound j \<longleftrightarrow> \<not> (unbound_agent_job j \<and> cj_enabled j)"

definition quiet :: "cron_sys \<Rightarrow> bool" where
  "quiet st \<longleftrightarrow> cys_disk st \<noteq> CorruptStore \<and> \<not> cys_active st"

lemma enforced_stopped: "stopped_if_unbound (fst (enforce_binding now j))"
  using enforce_stops [of j now] by (auto simp: stopped_if_unbound_def cron_simps)

named_theorems quiet_rules

lemma quiet_update [simp]:
  "quiet (st\<lparr>cys_mem := m\<rparr>) = quiet st" "quiet (st\<lparr>cys_actions := a\<rparr>) = quiet st" "quiet (st\<lparr>cys_running := r\<rparr>) = quiet st"
  "quiet (st\<lparr>cys_dirty := d\<rparr>) = quiet st"
  by (simp_all add: quiet_def)

lemma quiet_save [quiet_rules]: "save_store w st = (b, st') \<Longrightarrow> quiet st \<Longrightarrow> quiet st'"
  by (auto simp: save_store_def quiet_def split: option.splits if_splits)

lemma quiet_append [quiet_rules]: "append_action w a st = (b, st') \<Longrightarrow> quiet st \<Longrightarrow> quiet st'"
  by (auto simp: append_action_def split: if_splits)

lemma quiet_keep [quiet_rules]: "keep_change w a x st = (r, st') \<Longrightarrow> quiet st \<Longrightarrow> quiet st'"
  by (auto simp: keep_change_def split: prod.splits if_splits dest: quiet_rules)

lemma quiet_merge [quiet_rules]: "merge_actions now w owns st = (b, st') \<Longrightarrow> quiet st \<Longrightarrow> quiet st'"
  by (auto simp: merge_actions_def Let_def split: option.splits if_splits dest: quiet_rules)

lemma quiet_enforce [quiet_rules]: "enforce_store now w owns st = (b, st') \<Longrightarrow> quiet st \<Longrightarrow> quiet st'"
  by (auto simp: enforce_store_def Let_def split: option.splits if_splits dest: quiet_rules)

lemma quiet_jobs: "quiet st \<Longrightarrow> \<exists>jobs. load_jobs now st = (Some jobs, st)"
  by (auto simp: quiet_def load_jobs_def split: cron_disk.splits)

lemma quiet_load [quiet_rules]:
  assumes "load_store now w owns st = (b, st')" "quiet st"
  shows "quiet st'"
proof -
  obtain jobs where "load_jobs now st = (Some jobs, st)" using quiet_jobs assms(2) by blast
  with assms show ?thesis
    by (auto simp: load_store_def split: if_splits prod.splits bool.splits dest!: quiet_rules)
qed

lemma enforced_store:
  assumes "enforce_store now w owns st = (b, st')" "cys_mem st' = Some jobs" "j \<in> set jobs"
  shows "stopped_if_unbound j"
proof -
  have "cys_mem st' = map_option (map (\<lambda>j. fst (enforce_binding now j))) (cys_mem st)"
    using assms(1) by (auto simp: enforce_store_def save_store_def Let_def comp_def split: option.splits if_splits)
  with assms(2,3) show ?thesis by (auto simp: enforced_stopped)
qed

lemma loaded_stopped:
  assumes "load_store now w True st = (True, st')" "quiet st" "\<not> cys_dirty st" "cys_mem st' = Some jobs" "j \<in> set jobs"
  shows "stopped_if_unbound j"
proof -
  obtain js where "load_jobs now st = (Some js, st)" using quiet_jobs assms(2) by blast
  then obtain st1 where "enforce_store now w True st1 = (True, st')"
    using assms(1-3) by (auto simp: load_store_def quiet_def split: prod.splits bool.splits)
  from enforced_store [OF this assms(4,5)] show ?thesis .
qed

lemma quiet_require [quiet_rules]: "require_store now w st = (r, st') \<Longrightarrow> quiet st \<Longrightarrow> quiet st'"
  by (auto simp: require_store_def split: prod.splits bool.splits option.splits dest: quiet_rules)

lemma quiet_snd [simp]:
  "quiet st \<Longrightarrow> quiet (snd (save_store w st))" "quiet st \<Longrightarrow> quiet (snd (append_action w a st))"
  "quiet st \<Longrightarrow> quiet (snd (keep_change w a x st))" "quiet st \<Longrightarrow> quiet (snd (load_store now w owns st))"
  "quiet st \<Longrightarrow> quiet (snd (require_store now w st))"
  by (metis quiet_rules prod.collapse)+

lemma quiet_add: "quiet st \<Longrightarrow> quiet (snd (add_job host roster now w i q st))"
  by (auto simp: add_job_def case_prod_beta Let_def split: bool.splits option.splits sum.splits)

lemma quiet_register: "quiet st \<Longrightarrow> quiet (snd (register_system_job host now w j st))"
  by (auto simp: register_system_job_def case_prod_beta Let_def split: bool.splits option.splits sum.splits)

lemma quiet_remove: "quiet st \<Longrightarrow> quiet (snd (remove_job now w i st))"
  by (auto simp: remove_job_def case_prod_beta Let_def split: bool.splits option.splits sum.splits)

lemma quiet_enable: "quiet st \<Longrightarrow> quiet (snd (enable_job host now w i on st))"
  by (auto simp: enable_job_def case_prod_beta Let_def split: bool.splits option.splits sum.splits)

lemma quiet_commission: "quiet st \<Longrightarrow> quiet (snd (set_commissioning now w i v d st))"
  by (auto simp: set_commissioning_def case_prod_beta Let_def split: bool.splits option.splits sum.splits)

lemma quiet_change: "quiet st \<Longrightarrow> quiet (snd (update_job host roster now w i u st))"
  by (auto simp: update_job_def case_prod_beta Let_def split: bool.splits option.splits sum.splits)

lemma quiet_list: "quiet st \<Longrightarrow> quiet (snd (list_cron_jobs now w d st))"
  by (auto simp: list_cron_jobs_def case_prod_beta Let_def split: bool.splits option.splits sum.splits)

lemma quiet_start: "quiet st \<Longrightarrow> quiet (snd (start host now w st))"
  by (auto simp: start_def case_prod_beta Let_def split: bool.splits option.splits sum.splits)

lemma quiet_timer: "quiet st \<Longrightarrow> quiet (fst (on_timer host e st))"
  by (auto simp: on_timer_def case_prod_beta Let_def split: bool.splits option.splits sum.splits)

lemma run_job_facts:
  assumes "run_job host e i force st = (res, st', runs)" "quiet st"
  shows "quiet st' \<and> (\<forall>(j, t, r) \<in> set runs. \<not> unbound_agent_job j \<and> (force \<or> cj_enabled j))"
proof -
  obtain b st1 where s: "(if cys_dirty st then save_store (tke_writes e) st else (True, st)) = (b, st1)" by fastforce
  then have q1: "quiet st1" using assms(2) by (auto split: if_splits dest: quiet_rules)
  obtain b' st2 where l: "load_store (tke_now e) (tke_writes e) True st1 = (b', st2)" by fastforce
  have q2: "quiet st2" by (rule quiet_load [OF l q1])
  show ?thesis
    using assms(1) s l q1 q2
    by (auto simp: run_job_def Let_def split: bool.splits option.splits if_splits run_result.splits prod.splits dest: quiet_rules)
qed

lemma timer_runs:
  assumes "(j, t, r) \<in> set (snd (on_timer host e st))" "quiet st"
  shows "\<not> unbound_agent_job j \<and> cj_enabled j \<and> due (tke_now e) j"
proof -
  have nd: "\<not> cys_dirty st" using assms(1) by (auto simp: on_timer_def)
  obtain b st1 where load: "load_store (tke_now e) (tke_writes e) True st = (b, st1)" by fastforce
  have b: b "cys_mem st1 \<noteq> None" using assms(1) nd load by (auto simp: on_timer_def split: if_splits option.splits bool.splits)
  then obtain jobs where jobs: "cys_mem st1 = Some jobs" by blast
  obtain ok pool' rs where r: "run_due host e (filter (\<lambda>(n, j). due (tke_now e) j) (enumerate 0 jobs)) (enumerate 0 jobs) = (ok, pool', rs)"
    by (cases "run_due host e (filter (\<lambda>(n, j). due (tke_now e) j) (enumerate 0 jobs)) (enumerate 0 jobs)") auto
  have "snd (on_timer host e st) = rs" using nd load b jobs r by (simp add: on_timer_def Let_def)
  with assms(1) have "(j, t, r) \<in> set rs" by simp
  from run_due_from [OF r this] have j: "j \<in> set jobs" "due (tke_now e) j" by (auto simp: enumerate_eq_zip dest: set_zip_rightD)
  have "stopped_if_unbound j" using loaded_stopped [OF _ assms(2) nd jobs j(1)] load b(1) by simp
  with j(2) show ?thesis by (auto simp: stopped_if_unbound_def due_def)
qed

lemma step_facts:
  assumes "quiet st"
  shows "quiet (fst (cron_step host roster now w x st)) \<and> (\<forall>(j, t, r) \<in> set (snd (cron_step host roster now w x st)). \<not> unbound_agent_job j)"
proof (cases x)
  case (RunJob e i force)
  obtain res st' runs where r: "run_job host e i force st = (res, st', runs)" by (cases "run_job host e i force st") auto
  from run_job_facts [OF r assms] RunJob r show ?thesis by auto
next
  case (Tick e)
  with assms timer_runs [OF _ assms, of _ _ _ host e] quiet_timer show ?thesis by auto
next
  case (ActionLine a)
  then show ?thesis using assms quiet_append by (cases "append_action True a st") auto
qed (simp_all add: assms quiet_add quiet_register quiet_remove quiet_enable quiet_commission quiet_change quiet_list quiet_start)

text \<open>C24. No agent job runs that is not bound to a session it reports to. Whatever the operations of the service are, in any
  order, with ticks in between, with writes that fail at any moment and with lines that other processes append to the action
  file: of all runs that start none is of an agent job without a session, an origin channel and an origin chat, or with the
  delivery fields of the old format.\<close>

theorem only_bound_jobs_run:
  assumes "cys_disk st \<noteq> CorruptStore" "\<not> cys_active st" "(j, t, r) \<in> set (snd (cron_life host roster xs st))"
    and "cpl_kind (cj_payload j) = ''agent_turn''"
  shows "given_text (cpl_session (cj_payload j)) \<and> given_text (cpl_origin_channel (cj_payload j)) \<and>
    given_text (cpl_origin_chat (cj_payload j)) \<and> \<not> has_legacy_context (cj_payload j)"
proof -
  have "quiet st" using assms(1,2) by (simp add: quiet_def)
  with assms(3) have "\<not> unbound_agent_job j"
  proof (induction xs arbitrary: st)
    case (Cons x xs)
    obtain now w y where x: "x = (now, w, y)" by (cases x)
    from step_facts [OF Cons.prems(2), of host roster now w y] Cons.prems(1) Cons.IH [of "fst (cron_step host roster now w y st)"] x show ?case
      by (auto simp: case_prod_beta)
  qed simp
  with assms(4) show ?thesis by (simp add: unbound_agent_job_def is_bound_def)
qed

theorem only_bound_jobs_run_witness:
  "\<exists>j r. snd (cron_life demo_host [] [(900, True, EnableJob ''j1'' True), (950, False, ListJobs True), (1000, True, Tick (demo_tick 61000 True RunOk))]
       (demo_sys [demo_job])) = [(j, 61000, r)] \<and> given_text (cpl_session (cj_payload j))"
proof -
  let ?xs = "[(900, True, EnableJob ''j1'' True), (950, False, ListJobs True), (1000, True, Tick (demo_tick 61000 True RunOk))]"
  have "map (\<lambda>(j, t, r). (cpl_kind (cj_payload j), t)) (snd (cron_life demo_host [] ?xs (demo_sys [demo_job]))) = [(''agent_turn'', 61000)]" by code_simp
  then obtain j r where l: "snd (cron_life demo_host [] ?xs (demo_sys [demo_job])) = [(j, 61000, r)]" "cpl_kind (cj_payload j) = ''agent_turn''" by auto
  have "given_text (cpl_session (cj_payload j))"
    using only_bound_jobs_run [of "demo_sys [demo_job]" j 61000 r demo_host "[]" ?xs] l by (simp add: demo_sys_def)
  with l(1) show ?thesis by blast
qed


section \<open>What the operations do\<close>

text \<open>A system job is neither removed nor changed through the interface: the operation says that it is protected and leaves
  the store as its load leaves it.\<close>

theorem system_job_protected:
  assumes "require_store now w st = (Inr jobs, st')" "job_by_id i jobs = Some j" "cpl_kind (cj_payload j) = ''system_event''"
  shows "remove_job now w i st = (Inr JobProtected, st') \<and> update_job host roster now w i u st = (Inr JobProtected, st')"
  using assms by (simp add: remove_job_def update_job_def)

theorem system_job_protected_witness:
  "remove_job 0 True ''dream'' (demo_sys [system_job]) = (Inr JobProtected, snd (require_store 0 True (demo_sys [system_job])))"
proof -
  have r: "require_store 0 True (demo_sys [system_job]) = (Inr [system_job], snd (require_store 0 True (demo_sys [system_job])))" by code_simp
  have "job_by_id ''dream'' [system_job] = Some system_job" "cpl_kind (cj_payload system_job) = ''system_event''"
    by (simp_all add: job_by_id_def system_job_def)
  from system_job_protected [OF r this] show ?thesis by blast
qed

text \<open>An update that is refused for its schedule has changed the job all the same: what comes before the check of the schedule is
  assigned to the job of the memory. While a turn is under way the memory is not read again, so the next save writes it.\<close>

definition refused_update :: job_update where
  "refused_update = \<lparr>jup_name = Some ''new'', jup_schedule = Some \<lparr>csh_kind = ''cron'', csh_at = None, csh_every = None, csh_expr = None, csh_tz = None\<rparr>,
     jup_message = None, jup_deliver = None, jup_channel = None, jup_to = None, jup_delete_after = None,
     jup_retry = Some \<lparr>crt_attempts = 9, crt_base = 1, crt_max = 1\<rparr>, jup_delivery = None, jup_agent = None, jup_skills = None, jup_references = None\<rparr>"


definition busy_sys :: cron_sys where
  "busy_sys = \<lparr>cys_disk = Stored [demo_job\<lparr>cj_agent := [], cj_skills := []\<rparr>], cys_actions = None,
     cys_mem = Some [demo_job\<lparr>cj_agent := [], cj_skills := []\<rparr>], cys_dirty = False, cys_running = True, cys_active = True\<rparr>"

theorem refused_update_changes_job:
  "case update_job demo_host [] 0 True ''j1'' refused_update busy_sys of
     (res, st) \<Rightarrow> res = Inl (ScheduleRefused NoExpression) \<and>
       (case set_commissioning 0 True ''j1'' (cj_commissioning demo_job) False st of
          (_, st') \<Rightarrow> map (\<lambda>j. (cj_name j = cj_name demo_job, crt_attempts (cj_retry j))) (authority st') = [(True, 9)])"
  by code_simp

end
