(* ===== verification/Spec2Isabelle.thy ===== *)
theory Spec2Isabelle
  imports Policy Prompt Latch Operator System Timeout Reach Grants Wire ConnectorRun Packages Redaction Pairing Secrets CronApi
begin

text \<open>
  nanoinfra lets a language model run commands on servers and call connectors. This development models the part of it
  that has the authority: what decides whether an action runs, who may approve it, the process that then acts, what is
  recorded, what the processes say to each other, which secrets may leave, who may talk to the assistant at all and what
  runs with nobody present. All paths are under \<open>src/nanoinfra\<close>.

  The way of an action. A request of the agent crosses a socket (\<open>Wire\<close>) to the executor (\<open>Executor\<close>). The executor looks
  up the server (\<open>Inventory\<close>), checks its addresses (\<open>NetGuard\<close>), resolves its pattern to hosts (\<open>Hosts\<close>) and asks the
  gate (\<open>Policy\<close>, with \<open>Config\<close> and \<open>Delegate\<close>). Allow runs the command, deny refuses it; approve renders a prompt
  (\<open>Prompt\<close>, bound by \<open>Digest\<close>), parks the action (\<open>Pending\<close>) and waits. An operator answers through the socket service
  (\<open>Operator\<close>), which applies the approval checks (\<open>Approvals\<close>) and mints a token (\<open>Tokens\<close>) that the executor consumes
  before it runs. Each decision is recorded first (\<open>AuditStore\<close>, \<open>Log\<close>); a denial latches its class (\<open>Latch\<close>) and an
  approval may leave a standing grant (\<open>Grants\<close>). The run streams its output (\<open>Output\<close>), ends in time (\<open>Timeout\<close>) and is
  kept as a job (\<open>Jobs\<close>). Connector calls take the same way with their own runner (\<open>ConnectorRun\<close>).

  Theories and the code they model, with the shape of their state:

  \<^item> \<open>Prelude\<close>, \<open>Json\<close>, \<open>Base64\<close>: Python values. Text is \<open>string\<close> over code points below 256, a dict is an association list
    with distinct keys in insertion order, exceptions are \<open>Inl\<close>. The locales \<open>op_machine\<close> (an invariant every enabled
    operation keeps), \<open>stable_fact\<close> (a fact no operation undoes) and \<open>inductive_invariant\<close> (over a step relation) are the
    interfaces the stores below are instances of.
  \<^item> \<open>Config\<close>, \<open>Delegate\<close>, \<open>Policy\<close>: \<open>config/gates.py\<close>, \<open>gates/delegation.py\<close>, \<open>gates/policy.py\<close>. \<open>evaluate\<close> and its two
    siblings are functions of the configuration, the time and the action; \<open>matrix_gate\<close> is what commands and connector
    calls have in common.
  \<^item> \<open>Scope\<close>, \<open>Hosts\<close>, \<open>Inventory\<close>: \<open>servers/scope.py\<close>, \<open>types.py\<close>, \<open>normalize.py\<close>, \<open>store.py\<close>, \<open>lookup.py\<close>.
  \<^item> \<open>NetGuard\<close>, \<open>Url\<close>, \<open>Reach\<close>: \<open>servers/network_guard.py\<close>, \<open>security/network.py\<close>; addresses are words of 32 and 128 bits.
    \<open>Reach\<close> puts the real resolver and the real guard into the executor.
  \<^item> \<open>Digest\<close>, \<open>Prompt\<close>, \<open>Approvals\<close>, \<open>Pending\<close>, \<open>Tokens\<close>, \<open>Operator\<close>: the files of \<open>gates\<close> of these names and
    \<open>gates/executor/operator_socket.py\<close>. Each store is a record with one function per method, and a machine of operations.
  \<^item> \<open>AuditStore\<close>, \<open>Log\<close>, \<open>Latch\<close>: \<open>gates/audit.py\<close>, \<open>gates/latch.py\<close>, \<open>gates/latch_restore.py\<close>, from the entry to the JSON
    lines and back.
  \<^item> \<open>Executor\<close>, \<open>ActionTrace\<close>, \<open>System\<close>: \<open>gates/executor/server.py\<close>. The state holds the stores and a trace of what
    reached the outside; \<open>System\<close> interleaves calls, answers and waits as a step relation.
  \<^item> \<open>Jobs\<close>, \<open>Output\<close>, \<open>Timeout\<close>: \<open>servers/job_types.py\<close>, \<open>job_store.py\<close>, \<open>servers/execution\<close>.
  \<^item> \<open>Grants\<close>: \<open>gates/derived_grants.py\<close>.
  \<^item> \<open>Wire\<close>: the four \<open>protocol.py\<close> of the helper processes; \<open>strict_wire\<close> is the decoder they share.
  \<^item> \<open>Connectors\<close>, \<open>Engine\<close>, \<open>ConnectorRun\<close>, \<open>Packages\<close>: \<open>connectors\<close>, \<open>gates/executor/connector_action.py\<close>,
    \<open>connector_credentials.py\<close>, \<open>gates/connector_host/server.py\<close>.
  \<^item> \<open>Scrub\<close>, \<open>Redaction\<close>: \<open>agent/redaction.py\<close>, \<open>gates/executor/scrub.py\<close>, \<open>scrub_client.py\<close>, \<open>scrub_protocol.py\<close>. A redaction is
    a tree of questions to the scrub service, so that it can be answered text by text or in one batch.
  \<^item> \<open>Pairing\<close>: \<open>pairing/store.py\<close> and the permission check of \<open>channels/base.py\<close>.
  \<^item> \<open>Secrets\<close>: \<open>secrets\<close> and \<open>gates/executor/secret_writes.py\<close>.
  \<^item> \<open>CronJobs\<close>, \<open>CronService\<close>, \<open>CronRuns\<close>, \<open>CronApi\<close>: \<open>cron\<close>, \<open>utils/backoff.py\<close>, and the delivery and commissioning of
    \<open>automations\<close>. The file, the memory and the action file of the scheduler are one record; a tick and an operation return
    it with a log of the runs.

  What the lemmas show. Safety of the executor: each connection and each opened secret is preceded by the record that
  allows it (\<open>ActionTrace\<close>), a suspended action runs at most once and only after an independent approver allowed
  exactly it (\<open>System\<close>), the targets were checked (\<open>Reach\<close>), and a preview tells what the run meets. The stores keep their
  invariants over every run of their operations, and single answers, single use and single names follow. Prompts,
  requests, frames, records and logs are read back as they were written. The latch is rebuilt from the log. Redaction
  leaves no stored value and fails closed. The gate decides by its matrix, its grants and its ceiling and nothing else.
  The scheduler loses no run and runs only what is bound. Where the code does not do what it says, a theorem shows the
  case, and its text says so.

  Bounds. Loops of the code that end by structure are structural here; those that do not are measured: the walk over
  groups by the groups not seen, the expansion of ranges by the number of brackets, the wait for a command by the rounds
  its ceiling leaves. The YAML reader is limited to the depth 32 of the code. Frames, prompts, packages, responses and
  ciphertexts are bounded by the caps of the code; there is no other fuel.

  Parameters and what is not modelled. Hash functions, the JSON parser and printer of the library, float text, ISO dates,
  YAML, croniter, ciphers, subprocesses, DNS, HTTP and the transports are arguments, with what is used of them as named
  hypotheses. The results of reads and writes are arguments too: a file can fail at any moment. File modes and owners,
  fsync, sockets and threads beyond the interleaving of \<open>System\<close>, log messages and the wording of refusals are left out.
  So are the agent loop, the model providers, the web interface and the channels themselves, which ask the parts above
  for what they may do; they are listed in the manifest.
\<close>

end
